(* ===== verification/Prelude.thy ===== *)
theory Prelude
  imports Main "HOL-Library.AList" "HOL-Library.Char_ord" "HOL-Library.List_Lexorder"
    "HOL-Library.Product_Lexorder"
begin

text \<open>
  What every component of the development shares: results of fallible operations, database
  tables as association lists keyed by their primary key, and the tally of the rows of a table
  that satisfy a predicate (the form in which reference counts are compared with references).
\<close>

named_theorems result_iff \<open>when a bind of fallible operations succeeds\<close>
named_theorems table_simps \<open>looking up and counting in updated tables\<close>

subsection \<open>Time\<close>

text \<open>Instants and durations are counted in nanoseconds, as \<^verbatim>\<open>time.Duration\<close> does.\<close>

type_synonym time = int

definition second :: time where
  "second = 1000000000"

definition day :: time where
  "day = 86400 * second"

subsection \<open>Fallible operations\<close>

text \<open>A Go function returning \<^verbatim>\<open>(T, error)\<close> becomes one of type \<open>'e + 'a\<close>: \<open>Inl\<close> for the error.\<close>

definition rbind :: "'e + 'a \<Rightarrow> ('a \<Rightarrow> 'e + 'b) \<Rightarrow> 'e + 'b" where
  "rbind m f = (case m of Inl e \<Rightarrow> Inl e | Inr x \<Rightarrow> f x)"

definition guard_or :: "bool \<Rightarrow> 'e \<Rightarrow> 'e + unit" where
  "guard_or b e = (if b then Inr () else Inl e)"

lemma rbind_simps [simp]: "rbind (Inl e) f = Inl e" "rbind (Inr x) f = f x"
  by (simp_all add: rbind_def)

lemma rbind_eq_Inr [result_iff]: "rbind m f = Inr y \<longleftrightarrow> (\<exists>x. m = Inr x \<and> f x = Inr y)"
  by (cases m) auto

lemma guard_or_eq_Inr [result_iff]: "guard_or b e = Inr u \<longleftrightarrow> b"
  by (simp add: guard_or_def)

lemma guard_or_simps [simp]: "guard_or True e = Inr ()" "guard_or False e = Inl e"
  by (simp_all add: guard_or_def)

subsection \<open>Tables\<close>

text \<open>
  A table is the list of its rows with their primary keys. \<open>AList.update\<close> is an upsert,
  \<open>AList.delete\<close> a delete by key, \<open>filter\<close> a delete by condition.
\<close>

type_synonym ('k, 'r) table = "('k \<times> 'r) list"

abbreviation keyed :: "('k, 'r) table \<Rightarrow> bool" where
  "keyed t \<equiv> distinct (map fst t)"

lemmas [table_simps] = update_conv' delete_conv'
declare map_of_eq_Some_iff [simp del]
lemmas [simp, intro] = distinct_update distinct_delete

lemma keyed_filter [simp, intro]: "keyed t \<Longrightarrow> keyed (filter p t)"
  by (induction t) auto

lemma keyed_append_row [simp]:
  "keyed (t @ [(k, r)]) \<longleftrightarrow> keyed t \<and> map_of t k = None"
  by (auto simp: map_of_eq_None_iff)

lemma map_of_append_row [table_simps]:
  "map_of t k = None \<Longrightarrow> map_of (t @ [(k, r)]) = (map_of t)(k \<mapsto> r)"
  by (auto simp: fun_eq_iff map_add_def split: option.splits)

lemma map_of_filter_key [table_simps]:
  "map_of (filter (\<lambda>(k, r). p k) t) k = (if p k then map_of t k else None)"
  by (induction t) auto

lemma map_of_filter_row:
  "keyed t \<Longrightarrow> map_of (filter (\<lambda>(k, r). p k r) t) k =
     (case map_of t k of None \<Rightarrow> None | Some r \<Rightarrow> if p k r then Some r else None)"
proof (induction t)
  case Nil
  then show ?case by simp
next
  case (Cons kr t)
  obtain k' r' where kr: "kr = (k', r')" by (cases kr)
  show ?case
  proof (cases "k' = k")
    case True
    with Cons.prems kr have "map_of t k = None" by (auto simp: map_of_eq_None_iff)
    with Cons kr True show ?thesis by auto
  next
    case False
    with Cons kr show ?thesis by auto
  qed
qed

lemma map_of_in_set: "map_of t k = Some r \<Longrightarrow> (k, r) \<in> set t"
  by (rule map_of_SomeD)

lemma keyed_in_set_iff: "keyed t \<Longrightarrow> (k, r) \<in> set t \<longleftrightarrow> map_of t k = Some r"
  by (simp add: map_of_eq_Some_iff)

lemma set_update_subset:
  "set (AList.update k r t) \<subseteq> insert (k, r) (set t)"
  by (induction t) auto

lemma set_delete_subset: "set (AList.delete k t) \<subseteq> set t"
  by (induction t) auto

lemma in_set_update_cases:
  assumes "x \<in> set (AList.update k r t)"
  obtains "x = (k, r)" | "x \<in> set t"
  using assms set_update_subset [of k r t] by blast

lemma find_append: "find p (xs @ ys) = (case find p xs of None \<Rightarrow> find p ys | Some x \<Rightarrow> Some x)"
  by (induction xs) auto

lemma find_Some_in: "find p xs = Some x \<Longrightarrow> x \<in> set xs \<and> p x"
  by (induction xs) (auto split: if_splits)

subsection \<open>Tallies\<close>

definition tally :: "('r \<Rightarrow> bool) \<Rightarrow> ('k, 'r) table \<Rightarrow> nat" where
  "tally p t = length (filter (\<lambda>(k, r). p r) t)"

abbreviation weight :: "('r \<Rightarrow> bool) \<Rightarrow> 'r option \<Rightarrow> int" where
  "weight p x \<equiv> (case x of None \<Rightarrow> 0 | Some r \<Rightarrow> of_bool (p r))"

lemma tally_Nil [simp]: "tally p [] = 0"
  by (simp add: tally_def)

lemma tally_Cons [simp]: "tally p ((k, r) # t) = of_bool (p r) + tally p t"
  by (simp add: tally_def)

lemma tally_append [table_simps]: "tally p (t @ u) = tally p t + tally p u"
  by (simp add: tally_def)

lemma tally_update [table_simps]:
  "keyed t \<Longrightarrow>
   int (tally p (AList.update k r t)) = int (tally p t) + of_bool (p r) - weight p (map_of t k)"
proof (induction t)
  case (Cons kr t)
  obtain k' r' where "kr = (k', r')" by (cases kr)
  with Cons show ?case by auto
qed simp

lemma tally_delete [table_simps]:
  "keyed t \<Longrightarrow> int (tally p (AList.delete k t)) = int (tally p t) - weight p (map_of t k)"
proof (induction t)
  case (Cons kr t)
  obtain k' r' where "kr = (k', r')" by (cases kr)
  with Cons show ?case by auto
qed simp

lemma tally_filter_le: "tally p (filter q t) \<le> tally p t"
  by (induction t) auto

lemma tally_filter_split:
  "tally p t = tally p (filter q t) + tally p (filter (\<lambda>x. \<not> q x) t)"
  by (induction t) auto

lemma tally_pos: "map_of t k = Some r \<Longrightarrow> p r \<Longrightarrow> 0 < tally p t"
  by (induction t) (auto split: if_splits)

lemma tally_eq_0_iff: "tally p t = 0 \<longleftrightarrow> (\<forall>(k, r) \<in> set t. \<not> p r)"
  by (auto simp: tally_def filter_empty_conv)

lemma tally_cong: "(\<And>k r. (k, r) \<in> set t \<Longrightarrow> p r = q r) \<Longrightarrow> tally p t = tally q t"
  unfolding tally_def by (rule arg_cong [where f = length], rule filter_cong) auto

subsection \<open>Sort keys\<close>

text \<open>\<^verbatim>\<open>ORDER BY x DESC\<close>: the opposite of the order of \<open>x\<close>, as an instance of \<open>linorder\<close>.\<close>

datatype 'a desc = Desc (undesc: 'a)

instantiation desc :: (linorder) linorder
begin

definition less_eq_desc :: "'a desc \<Rightarrow> 'a desc \<Rightarrow> bool" where
  "x \<le> y \<longleftrightarrow> undesc y \<le> undesc x"

definition less_desc :: "'a desc \<Rightarrow> 'a desc \<Rightarrow> bool" where
  "x < y \<longleftrightarrow> undesc y < undesc x"

instance
proof
  fix x y z :: "'a desc"
  show "x < y \<longleftrightarrow> x \<le> y \<and> \<not> y \<le> x" by (auto simp: less_eq_desc_def less_desc_def)
  show "x \<le> x" by (simp add: less_eq_desc_def)
  show "x \<le> y \<Longrightarrow> y \<le> z \<Longrightarrow> x \<le> z" by (simp add: less_eq_desc_def)
  show "x \<le> y \<Longrightarrow> y \<le> x \<Longrightarrow> x = y" by (cases x; cases y) (simp add: less_eq_desc_def)
  show "x \<le> y \<or> y \<le> x" by (auto simp: less_eq_desc_def)
qed

end

lemma Desc_le [simp]: "Desc x \<le> Desc y \<longleftrightarrow> y \<le> x" "Desc x < Desc y \<longleftrightarrow> y < x"
  by (simp_all add: less_eq_desc_def less_desc_def)

lemma hd_sort_key_least:
  assumes "xs \<noteq> []"
  shows "hd (sort_key f xs) \<in> set xs" "x \<in> set xs \<Longrightarrow> f (hd (sort_key f xs)) \<le> f x"
proof -
  have ne: "sort_key f xs \<noteq> []" using assms by (metis length_0_conv length_sort)
  then show "hd (sort_key f xs) \<in> set xs" by (metis hd_in_set set_sort)
  obtain y ys where s: "sort_key f xs = y # ys" using ne by (cases "sort_key f xs") auto
  have "sorted (map f (y # ys))" by (metis s sorted_sort_key)
  moreover assume "x \<in> set xs"
  then have "x \<in> set (y # ys)" by (metis s set_sort)
  ultimately show "f (hd (sort_key f xs)) \<le> f x" by (auto simp: s)
qed

end
