(* ===== verification/Schema.thy ===== *)
theory Schema
  imports Prelude
begin

text \<open>
  The metadata store: the Go structs of \<^verbatim>\<open>internal/db\<close> as records, the Postgres tables of
  \<^verbatim>\<open>internal/db/migrations\<close> as tables keyed by their primary keys, the sentinel errors, the
  well-formedness of a database (keys, foreign keys, check constraints) and the counting of the
  references to a blob. A transaction is a function from the database to an error, in which case
  it is rolled back, or to its result and the committed database.
\<close>

subsection \<open>Versioning state and bucket settings\<close>

text \<open>
  \<^verbatim>\<open>VersioningState\<close> is a Go string type: besides its three constants it has the zero value and
  any other string a row could hold, which \<open>OtherState\<close> stands for.
\<close>

datatype versioning_state =
    VersioningUnversioned
  | VersioningEnabled
  | VersioningSuspended
  | OtherState string

definition valid_state :: "versioning_state \<Rightarrow> bool" where
  "valid_state v \<longleftrightarrow> v \<in> {VersioningUnversioned, VersioningEnabled, VersioningSuspended}"

record cors_rule =
  allowed_origins :: "string list"
  allowed_methods :: "string list"
  allowed_headers :: "string list"
  expose_headers :: "string list"
  max_age_seconds :: int

record lifecycle_rule =
  lr_id :: string
  lr_prefix :: string
  lr_expire_days :: int
  lr_enabled :: bool

record bucket_settings =
  bs_bucket_id :: string
  bs_public_read :: bool
  bs_versioning :: versioning_state
  bs_cors_rules :: "cors_rule list"
  bs_lifecycle :: "lifecycle_rule list"
  bs_updated_at :: time

subsection \<open>Rows\<close>

type_synonym metadata = "(string \<times> string) list"

record bucket =
  bk_id :: string
  bk_name :: string
  bk_created_at :: time
  bk_created_by :: "string option"

record object =
  o_id :: string
  o_bucket_id :: string
  o_key :: string
  o_blob_digest :: string
  o_size :: nat
  o_etag :: string
  o_content_type :: string
  o_metadata :: metadata
  o_version_id :: string
  o_created_at :: time
  o_updated_at :: time

record object_version =
  v_id :: string
  v_bucket_id :: string
  v_key :: string
  v_version_id :: string
  v_blob_digest :: "string option"
  v_size :: nat
  v_etag :: string
  v_content_type :: string
  v_metadata :: metadata
  v_is_delete_marker :: bool
  v_created_at :: time
  v_created_by :: string

record multipart_upload =
  mu_id :: string
  mu_upload_id :: string
  mu_bucket_id :: string
  mu_key :: string
  mu_content_type :: string
  mu_metadata :: metadata
  mu_initiated_at :: time

record multipart_part =
  mp_part_number :: int
  mp_blob_digest :: string
  mp_size :: nat
  mp_etag :: string
  mp_uploaded_at :: time

record blob_row =
  bl_size :: nat
  bl_refcount :: nat
  bl_created_at :: time

subsection \<open>The database\<close>

record db =
  buckets :: "(string, bucket) table"
  settings :: "(string, bucket_settings) table"
  blobs :: "(string, blob_row) table"
  objects :: "(string \<times> string, object) table"
  versions :: "(string \<times> string \<times> string, object_version) table"
  uploads :: "(string, multipart_upload) table"
  parts :: "(string \<times> int, multipart_part) table"

definition empty_db :: db where
  "empty_db = \<lparr>buckets = [], settings = [], blobs = [], objects = [], versions = [],
               uploads = [], parts = []\<rparr>"

text \<open>
  What a transaction takes from outside: \<^verbatim>\<open>now()\<close>, which Postgres fixes at its start, the row
  ids \<^verbatim>\<open>gen_random_uuid()\<close> hands out and the random buffers \<^verbatim>\<open>crypto/rand\<close> fills, in the order of
  use; \<open>None\<close> is a failing random source.
\<close>

record env =
  e_now :: time
  e_uuid :: "nat \<Rightarrow> string"
  e_rand :: "nat \<Rightarrow> string option"

datatype db_error =
    ErrObjectNotFound
  | ErrBucketNotFound
  | ErrBucketExists
  | ErrBucketNotEmpty
  | ErrVersionNotFound
  | ErrIsDeleteMarker
  | ErrUploadNotFound
  | ErrRandom
  | ErrConstraint string
  | ErrRemove string

text \<open>The state a bucket, or an upload, is known by.\<close>

definition has_bucket :: "db \<Rightarrow> string \<Rightarrow> bool" where
  "has_bucket s b = (map_of (buckets s) b \<noteq> None)"

definition has_upload :: "db \<Rightarrow> string \<Rightarrow> bool" where
  "has_upload s u = (map_of (uploads s) u \<noteq> None)"

definition has_blob :: "db \<Rightarrow> string \<Rightarrow> bool" where
  "has_blob s d = (map_of (blobs s) d \<noteq> None)"

text \<open>
  \<^verbatim>\<open>length(key)\<close> of Postgres counts characters: the bytes of the UTF-8 text that are not
  continuation bytes.
\<close>

definition char_length :: "string \<Rightarrow> nat" where
  "char_length k = length (filter (\<lambda>c. \<not> (128 \<le> (of_char c :: nat) \<and> (of_char c :: nat) < 192)) k)"

definition key_check :: "string \<Rightarrow> bool" where
  "key_check k \<longleftrightarrow> 1 \<le> char_length k \<and> char_length k \<le> 1024"

definition bucket_name_char :: "char \<Rightarrow> bool" where
  "bucket_name_char c \<longleftrightarrow> c \<in> set ''abcdefghijklmnopqrstuvwxyz0123456789''"

text \<open>The coarse check of the table: \<^verbatim>\<open>^[a-z0-9][a-z0-9.-]*[a-z0-9]$\<close> and a length from 3 to 63.\<close>

definition bucket_name_shape :: "string \<Rightarrow> bool" where
  "bucket_name_shape n \<longleftrightarrow> 3 \<le> length n \<and> length n \<le> 63 \<and> bucket_name_char (hd n) \<and>
     bucket_name_char (last n) \<and> (\<forall>c \<in> set n. bucket_name_char c \<or> c = CHR ''.'' \<or> c = CHR ''-'')"

subsection \<open>Well-formedness\<close>

text \<open>
  The null version is stored as the empty id in \<^verbatim>\<open>objects\<close> and as \<^verbatim>\<open>NullVersionID\<close> in
  \<^verbatim>\<open>object_versions\<close>.
\<close>

definition null_version_id :: string where
  "null_version_id = ''null''"

text \<open>
  The primary keys: of \<^verbatim>\<open>object_versions\<close> also the row id, since rows are deleted by it. The row
  ids of objects are only reported, so their uniqueness is left to \<^verbatim>\<open>gen_random_uuid()\<close>. Bucket
  names and upload ids are unique as well.
\<close>

abbreviation distinct_ids :: "('k, object_version) table \<Rightarrow> bool" where
  "distinct_ids t \<equiv> distinct (map (\<lambda>x. v_id (snd x)) t)"

abbreviation distinct_names :: "('k, bucket) table \<Rightarrow> bool" where
  "distinct_names t \<equiv> distinct (map (\<lambda>x. bk_name (snd x)) t)"

abbreviation distinct_upload_ids :: "('k, multipart_upload) table \<Rightarrow> bool" where
  "distinct_upload_ids t \<equiv> distinct (map (\<lambda>x. mu_upload_id (snd x)) t)"

definition keyed_db :: "db \<Rightarrow> bool" where
  "keyed_db s \<longleftrightarrow> keyed (buckets s) \<and> keyed (settings s) \<and> keyed (blobs s) \<and> keyed (objects s) \<and>
     keyed (versions s) \<and> keyed (uploads s) \<and> keyed (parts s) \<and> distinct_ids (versions s) \<and>
     distinct_names (buckets s) \<and> distinct_upload_ids (uploads s)"

text \<open>
  Foreign keys and checks, row by row. The foreign keys to \<^verbatim>\<open>blobs\<close> are not among them: that a
  referenced blob has a row follows from the reference counts (\<open>referenced_blob_row\<close> below), which
  is what the program relies on. Sizes and counts are natural numbers, so their checks hold by type.
\<close>

definition object_ok :: "db \<Rightarrow> (string \<times> string) \<times> object \<Rightarrow> bool" where
  "object_ok s = (\<lambda>((b, k), r). o_bucket_id r = b \<and> o_key r = k \<and> has_bucket s b \<and>
     key_check k \<and> o_version_id r \<noteq> null_version_id)"

definition version_ok :: "db \<Rightarrow> (string \<times> string \<times> string) \<times> object_version \<Rightarrow> bool" where
  "version_ok s = (\<lambda>((b, k, v), r). v_bucket_id r = b \<and> v_key r = k \<and> v_version_id r = v \<and>
     has_bucket s b \<and> (v_is_delete_marker r \<longleftrightarrow> v_blob_digest r = None))"

definition upload_ok :: "db \<Rightarrow> string \<times> multipart_upload \<Rightarrow> bool" where
  "upload_ok s = (\<lambda>(i, r). mu_id r = i \<and> has_bucket s (mu_bucket_id r) \<and> key_check (mu_key r))"

definition part_ok :: "db \<Rightarrow> (string \<times> int) \<times> multipart_part \<Rightarrow> bool" where
  "part_ok s = (\<lambda>((u, n), r). mp_part_number r = n \<and> has_upload s u \<and> 1 \<le> n \<and> n \<le> 10000)"

definition bucket_ok :: "string \<times> bucket \<Rightarrow> bool" where
  "bucket_ok = (\<lambda>(i, r). bk_id r = i \<and> bucket_name_shape (bk_name r))"

definition settings_ok :: "db \<Rightarrow> string \<times> bucket_settings \<Rightarrow> bool" where
  "settings_ok s = (\<lambda>(b, x). bs_bucket_id x = b \<and> has_bucket s b \<and> valid_state (bs_versioning x))"

definition rows_ok :: "db \<Rightarrow> bool" where
  "rows_ok s \<longleftrightarrow>
     (\<forall>x \<in> set (objects s). object_ok s x) \<and>
     (\<forall>x \<in> set (versions s). version_ok s x) \<and>
     (\<forall>x \<in> set (uploads s). upload_ok s x) \<and>
     (\<forall>x \<in> set (parts s). part_ok s x) \<and>
     (\<forall>x \<in> set (buckets s). bucket_ok x) \<and>
     (\<forall>x \<in> set (settings s). settings_ok s x)"

definition wf_db :: "db \<Rightarrow> bool" where
  "wf_db s \<longleftrightarrow> keyed_db s \<and> rows_ok s"

lemmas wf_defs = wf_db_def keyed_db_def rows_ok_def
lemmas row_defs = object_ok_def version_ok_def upload_ok_def part_ok_def bucket_ok_def settings_ok_def

lemma wf_empty_db: "wf_db empty_db"
  by (simp add: wf_defs empty_db_def)

lemma wf_keyed [simp]:
  assumes "wf_db s"
  shows "keyed (buckets s)" "keyed (settings s)" "keyed (blobs s)" "keyed (objects s)"
    "keyed (versions s)" "keyed (uploads s)" "keyed (parts s)"
  using assms by (simp_all add: wf_defs)

lemma wf_ids: "wf_db s \<Longrightarrow> distinct_ids (versions s)"
  by (simp add: wf_defs del: wf_keyed)

lemma wf_unique:
  assumes "wf_db s"
  shows "distinct_names (buckets s)" "distinct_upload_ids (uploads s)"
  using assms by (simp_all add: wf_defs del: wf_keyed)

lemma wf_object:
  assumes "wf_db s" "map_of (objects s) (b, k) = Some r"
  shows "o_bucket_id r = b" "o_key r = k" "has_bucket s b" "key_check k"
    "o_version_id r \<noteq> null_version_id"
proof -
  from assms(1) map_of_in_set [OF assms(2)] have "object_ok s ((b, k), r)"
    unfolding wf_defs by blast
  then show "o_bucket_id r = b" "o_key r = k" "has_bucket s b" "key_check k"
    "o_version_id r \<noteq> null_version_id" by (simp_all add: row_defs)
qed

lemma wf_version:
  assumes "wf_db s" "map_of (versions s) (b, k, v) = Some r"
  shows "v_bucket_id r = b" "v_key r = k" "v_version_id r = v" "has_bucket s b"
    "v_is_delete_marker r \<longleftrightarrow> v_blob_digest r = None"
proof -
  from assms(1) map_of_in_set [OF assms(2)] have "version_ok s ((b, k, v), r)"
    unfolding wf_defs by blast
  then show "v_bucket_id r = b" "v_key r = k" "v_version_id r = v" "has_bucket s b"
    "v_is_delete_marker r \<longleftrightarrow> v_blob_digest r = None" by (auto simp: row_defs)
qed

subsection \<open>References and reference counts\<close>

abbreviation object_refs :: "string \<Rightarrow> object \<Rightarrow> bool" where
  "object_refs d \<equiv> \<lambda>r. o_blob_digest r = d"

abbreviation version_refs :: "string \<Rightarrow> object_version \<Rightarrow> bool" where
  "version_refs d \<equiv> \<lambda>r. v_blob_digest r = Some d"

abbreviation part_refs :: "string \<Rightarrow> multipart_part \<Rightarrow> bool" where
  "part_refs d \<equiv> \<lambda>r. mp_blob_digest r = d"

text \<open>The rows that point at a blob, and the count the \<^verbatim>\<open>blobs\<close> table keeps for it.\<close>

definition references :: "db \<Rightarrow> string \<Rightarrow> nat" where
  "references s d = tally (object_refs d) (objects s) + tally (version_refs d) (versions s) +
     tally (part_refs d) (parts s)"

definition refcount :: "db \<Rightarrow> string \<Rightarrow> nat" where
  "refcount s d = (case map_of (blobs s) d of None \<Rightarrow> 0 | Some b \<Rightarrow> bl_refcount b)"

text \<open>How far the count is above the references: 0 everywhere when the store is balanced.\<close>

definition slack :: "db \<Rightarrow> string \<Rightarrow> int" where
  "slack s d = int (refcount s d) - int (references s d)"

definition counts_exact :: "db \<Rightarrow> bool" where
  "counts_exact s \<longleftrightarrow> (\<forall>d. refcount s d = references s d)"

definition counts_safe :: "db \<Rightarrow> bool" where
  "counts_safe s \<longleftrightarrow> (\<forall>d. references s d \<le> refcount s d)"

lemma counts_exact_iff: "counts_exact s \<longleftrightarrow> slack s = (\<lambda>_. 0)"
  by (auto simp: counts_exact_def slack_def fun_eq_iff)

lemma counts_safe_iff: "counts_safe s \<longleftrightarrow> (\<forall>d. 0 \<le> slack s d)"
  by (auto simp: counts_safe_def slack_def)

lemma counts_exact_safe: "counts_exact s \<Longrightarrow> counts_safe s"
  by (simp add: counts_exact_def counts_safe_def)

lemma refcount_pos_of_slack: "0 < slack s d \<Longrightarrow> 0 < refcount s d"
  by (simp add: slack_def)

lemma refcount_pos_of_reference:
  "counts_safe s \<Longrightarrow> 0 < references s d \<Longrightarrow> 0 < refcount s d"
  unfolding counts_safe_def by (meson less_le_trans)

text \<open>The foreign keys to \<^verbatim>\<open>blobs\<close>.\<close>

lemma referenced_blob_row: "counts_safe s \<Longrightarrow> 0 < references s d \<Longrightarrow> has_blob s d"
  using refcount_pos_of_reference [of s d] by (auto simp: has_blob_def refcount_def split: option.splits)

subsection \<open>Updating one table\<close>

lemma has_update [simp]:
  "has_bucket (s\<lparr>objects := t\<rparr>) = has_bucket s"
  "has_bucket (s\<lparr>versions := t2\<rparr>) = has_bucket s"
  "has_bucket (s\<lparr>parts := t3\<rparr>) = has_bucket s"
  "has_bucket (s\<lparr>uploads := t4\<rparr>) = has_bucket s"
  "has_upload (s\<lparr>objects := t\<rparr>) = has_upload s"
  "has_upload (s\<lparr>versions := t2\<rparr>) = has_upload s"
  "has_upload (s\<lparr>parts := t3\<rparr>) = has_upload s"
  "has_blob (s\<lparr>objects := t\<rparr>) = has_blob s"
  "has_blob (s\<lparr>versions := t2\<rparr>) = has_blob s"
  "has_blob (s\<lparr>parts := t3\<rparr>) = has_blob s"
  "has_blob (s\<lparr>uploads := t4\<rparr>) = has_blob s"
  by (simp_all add: fun_eq_iff has_bucket_def has_upload_def has_blob_def)

lemma wf_update_objects:
  "wf_db s \<Longrightarrow> keyed t \<Longrightarrow> \<forall>x \<in> set t. object_ok s x \<Longrightarrow> wf_db (s\<lparr>objects := t\<rparr>)"
  by (simp add: wf_defs row_defs del: wf_keyed)

lemma wf_update_versions:
  "wf_db s \<Longrightarrow> keyed t \<Longrightarrow> distinct_ids t \<Longrightarrow> \<forall>x \<in> set t. version_ok s x \<Longrightarrow>
     wf_db (s\<lparr>versions := t\<rparr>)"
  by (simp add: wf_defs row_defs del: wf_keyed)

lemma wf_update_parts:
  "wf_db s \<Longrightarrow> keyed t \<Longrightarrow> \<forall>x \<in> set t. part_ok s x \<Longrightarrow> wf_db (s\<lparr>parts := t\<rparr>)"
  by (simp add: wf_defs row_defs del: wf_keyed)

lemma wf_rows:
  assumes "wf_db s"
  shows "x \<in> set (objects s) \<Longrightarrow> object_ok s x"
    "y \<in> set (versions s) \<Longrightarrow> version_ok s y"
    "z \<in> set (uploads s) \<Longrightarrow> upload_ok s z"
    "w \<in> set (parts s) \<Longrightarrow> part_ok s w"
    "u \<in> set (buckets s) \<Longrightarrow> bucket_ok u"
    "x2 \<in> set (settings s) \<Longrightarrow> settings_ok s x2"
  using assms by (auto simp: wf_defs simp del: wf_keyed)

lemma wf_delete_object_row [intro]:
  assumes "wf_db s"
  shows "wf_db (s\<lparr>objects := AList.delete k (objects s)\<rparr>)"
proof (rule wf_update_objects [OF assms])
  show "\<forall>x \<in> set (AList.delete k (objects s)). object_ok s x"
    using set_delete_subset [of k "objects s"] wf_rows(1) [OF assms] by blast
qed (use assms in simp)

lemma wf_filter_versions [intro]:
  assumes "wf_db s"
  shows "wf_db (s\<lparr>versions := filter p (versions s)\<rparr>)"
proof (rule wf_update_versions [OF assms])
  show "\<forall>x \<in> set (filter p (versions s)). version_ok s x"
    using wf_rows(2) [OF assms] by simp
qed (use assms in \<open>simp_all add: wf_ids distinct_map_filter\<close>)

lemma wf_delete_version_row [intro]:
  "wf_db s \<Longrightarrow> wf_db (s\<lparr>versions := AList.delete k (versions s)\<rparr>)"
  unfolding AList.delete_eq by (rule wf_filter_versions)

lemma slack_update_objects:
  "slack (s\<lparr>objects := t\<rparr>) x = slack s x + int (tally (object_refs x) (objects s)) - int (tally (object_refs x) t)"
  by (simp add: slack_def references_def refcount_def)

lemma slack_update_versions:
  "slack (s\<lparr>versions := t\<rparr>) x = slack s x + int (tally (version_refs x) (versions s)) - int (tally (version_refs x) t)"
  by (simp add: slack_def references_def refcount_def)

lemma slack_update_parts:
  "slack (s\<lparr>parts := t\<rparr>) x = slack s x + int (tally (part_refs x) (parts s)) - int (tally (part_refs x) t)"
  by (simp add: slack_def references_def refcount_def)

lemma slack_update_uploads [simp]: "slack (s\<lparr>uploads := t\<rparr>) x = slack s x"
  by (simp add: slack_def references_def refcount_def)

lemmas slack_tables = slack_update_objects slack_update_versions slack_update_parts

subsection \<open>Accounted transactions\<close>

text \<open>
  The database after a transaction: the committed one, or the old one after a rollback.
\<close>

definition settle :: "(db \<Rightarrow> db_error + 'r \<times> db) \<Rightarrow> db \<Rightarrow> db" where
  "settle tx s = (case tx s of Inl _ \<Rightarrow> s | Inr (_, s') \<Rightarrow> s')"

definition no_result :: "(db \<Rightarrow> db_error + db) \<Rightarrow> db \<Rightarrow> db_error + unit \<times> db" where
  "no_result tx s = (case tx s of Inl err \<Rightarrow> Inl err | Inr s' \<Rightarrow> Inr ((), s'))"

lemma no_result_Inr [result_iff]: "no_result tx s = Inr (u, s') \<longleftrightarrow> tx s = Inr s'"
  by (auto simp: no_result_def split: sum.splits)

lemma counts_safe_cong: "slack s' = slack s \<Longrightarrow> counts_safe s' = counts_safe s"
  by (simp add: counts_safe_iff)

text \<open>
  The contract every transaction that moves references has to keep: it takes a reference for
  every row it adds and gives one back for every row it drops. What follows from it is proved
  once, here.
\<close>

locale accounted =
  fixes tx :: "db \<Rightarrow> db_error + 'r \<times> db"
  assumes balanced:
    "tx s = Inr (r, s') \<Longrightarrow> wf_db s \<Longrightarrow> counts_safe s \<Longrightarrow> wf_db s' \<and> slack s' = slack s"
begin

lemma commit_safe:
  "tx s = Inr (r, s') \<Longrightarrow> wf_db s \<Longrightarrow> counts_safe s \<Longrightarrow> wf_db s' \<and> counts_safe s'"
  using balanced counts_safe_cong by blast

lemma commit_exact:
  "tx s = Inr (r, s') \<Longrightarrow> wf_db s \<Longrightarrow> counts_exact s \<Longrightarrow> wf_db s' \<and> counts_exact s'"
  using balanced [OF _ _ counts_exact_safe] by (simp add: counts_exact_iff)

lemma settle_safe:
  "wf_db s \<Longrightarrow> counts_safe s \<Longrightarrow> wf_db (settle tx s) \<and> slack (settle tx s) = slack s"
  using balanced by (auto simp: settle_def split: sum.splits)

lemma referenced_counted:
  "tx s = Inr (r, s') \<Longrightarrow> wf_db s \<Longrightarrow> counts_safe s \<Longrightarrow> 0 < references s' d \<Longrightarrow> 0 < refcount s' d"
  using commit_safe refcount_pos_of_reference by blast

end

end
