(* ===== verification/Blob_Refs.thy ===== *)
theory Blob_Refs
  imports Schema
begin

text \<open>
  Reference counting and collection of blobs (\<^verbatim>\<open>internal/db/blobs.go\<close>). Retention and release run
  inside the caller's transaction. The advisory locks the code takes serialise the transactions
  that touch one blob; a transaction of the model is one step, so they have no counterpart.
  The \<^verbatim>\<open>BlobRemover\<close> interface of the sweeper is the locale \<open>blob_remover\<close>; the blob store
  provides it.
\<close>

subsection \<open>Retain and release\<close>

definition retain_blob :: "env \<Rightarrow> string \<Rightarrow> nat \<Rightarrow> db \<Rightarrow> db" where
  "retain_blob e d n s =
     s\<lparr>blobs := AList.update d
        (case map_of (blobs s) d of
           None \<Rightarrow> \<lparr>bl_size = n, bl_refcount = 1, bl_created_at = e_now e\<rparr>
         | Some b \<Rightarrow> b\<lparr>bl_refcount := bl_refcount b + 1\<rparr>) (blobs s)\<rparr>"

text \<open>\<^verbatim>\<open>GREATEST(refcount - 1, 0)\<close> is the truncated subtraction of \<open>nat\<close>.\<close>

definition release_blob :: "string \<Rightarrow> db \<Rightarrow> nat \<times> db" where
  "release_blob d s =
     (case map_of (blobs s) d of
        None \<Rightarrow> (0, s)
      | Some b \<Rightarrow> (bl_refcount b - 1,
          s\<lparr>blobs := AList.update d (b\<lparr>bl_refcount := bl_refcount b - 1\<rparr>) (blobs s)\<rparr>))"

abbreviation released :: "string \<Rightarrow> db \<Rightarrow> db" where
  "released d s \<equiv> snd (release_blob d s)"

lemma retain_blob_frame [simp]:
  "buckets (retain_blob e d n s) = buckets s"
  "settings (retain_blob e d n s) = settings s"
  "objects (retain_blob e d n s) = objects s"
  "versions (retain_blob e d n s) = versions s"
  "uploads (retain_blob e d n s) = uploads s"
  "parts (retain_blob e d n s) = parts s"
  by (simp_all add: retain_blob_def)

lemma release_blob_frame [simp]:
  "buckets (released d s) = buckets s"
  "settings (released d s) = settings s"
  "objects (released d s) = objects s"
  "versions (released d s) = versions s"
  "uploads (released d s) = uploads s"
  "parts (released d s) = parts s"
  by (simp_all add: release_blob_def split: option.splits)

lemma has_frame [simp]:
  "has_bucket (retain_blob e d n s) b = has_bucket s b"
  "has_bucket (released d s) b = has_bucket s b"
  "has_upload (retain_blob e d n s) u = has_upload s u"
  "has_upload (released d s) u = has_upload s u"
  by (simp_all add: has_bucket_def has_upload_def)

lemma has_blob_retain [simp]: "has_blob (retain_blob e d n s) x \<longleftrightarrow> x = d \<or> has_blob s x"
  by (simp add: has_blob_def retain_blob_def update_conv')

lemma has_blob_release [simp]: "has_blob (released d s) x \<longleftrightarrow> has_blob s x"
  by (auto simp: has_blob_def release_blob_def update_conv' split: option.splits)

lemma rows_ok_frame:
  assumes "objects s' = objects s" "versions s' = versions s" "uploads s' = uploads s"
    "parts s' = parts s" "buckets s' = buckets s" "settings s' = settings s"
  shows "rows_ok s' = rows_ok s"
proof -
  have "has_bucket s' = has_bucket s" "has_upload s' = has_upload s"
    using assms by (simp_all add: fun_eq_iff has_bucket_def has_upload_def)
  with assms show ?thesis by (simp add: rows_ok_def row_defs)
qed

lemma wf_retain_blob [simp, intro]: "wf_db s \<Longrightarrow> wf_db (retain_blob e d n s)"
  unfolding wf_db_def
  by (simp add: rows_ok_frame [of "retain_blob e d n s" s])
     (simp add: keyed_db_def retain_blob_def)

lemma wf_release_blob [simp, intro]: "wf_db s \<Longrightarrow> wf_db (released d s)"
  unfolding wf_db_def
  by (simp add: rows_ok_frame [of "released d s" s])
     (simp add: keyed_db_def release_blob_def split: option.splits)

lemma references_retain [simp]: "references (retain_blob e d n s) = references s"
  by (simp add: references_def fun_eq_iff)

lemma references_release [simp]: "references (released d s) = references s"
  by (simp add: references_def fun_eq_iff)

lemma refcount_retain:
  "refcount (retain_blob e d n s) x = refcount s x + of_bool (x = d)"
  by (auto simp: refcount_def retain_blob_def update_conv' split: option.splits)

lemma refcount_release:
  "refcount (released d s) x = refcount s x - of_bool (x = d)"
  by (auto simp: refcount_def release_blob_def update_conv' split: option.splits)

lemma slack_retain: "slack (retain_blob e d n s) x = slack s x + of_bool (x = d)"
  by (simp add: slack_def refcount_retain)

lemma slack_release:
  "0 < refcount s d \<Longrightarrow> slack (released d s) x = slack s x - of_bool (x = d)"
  by (auto simp: slack_def refcount_release)

lemma release_blob_remaining: "fst (release_blob d s) = refcount (released d s) d"
  by (auto simp: refcount_def release_blob_def update_conv' split: option.splits)

subsection \<open>Collection\<close>

text \<open>
  \<^verbatim>\<open>ORDER BY created_at LIMIT n\<close>; rows created at the same instant come in table order, which is
  one of the orders Postgres may choose.
\<close>

definition unreferenced_blobs :: "env \<Rightarrow> time \<Rightarrow> nat \<Rightarrow> db \<Rightarrow> string list" where
  "unreferenced_blobs e grace limit s =
     map fst (take limit (sort_key (\<lambda>(d, b). bl_created_at b)
       (filter (\<lambda>(d, b). bl_refcount b = 0 \<and> bl_created_at b < e_now e - grace) (blobs s))))"

text \<open>
  The claim of one blob, in its own transaction. The row goes only when its count is 0; the
  foreign keys of the tables that reference it (\<^verbatim>\<open>ON DELETE RESTRICT\<close>) make the statement fail
  when a row still points at it; the file goes before the commit, and a failure to unlink it
  rolls the transaction back.
\<close>

definition claim_and_unlink ::
  "(string \<Rightarrow> 'f \<Rightarrow> string + 'f) \<Rightarrow> string \<Rightarrow> db \<times> 'f \<Rightarrow> db_error + bool \<times> db \<times> 'f" where
  "claim_and_unlink remove_file d = (\<lambda>(s, f).
     if map_option bl_refcount (map_of (blobs s) d) \<noteq> Some 0 then Inr (False, s, f)
     else if references s d \<noteq> 0 then Inl (ErrConstraint ''ON DELETE RESTRICT'')
     else case remove_file d f of
       Inl msg \<Rightarrow> Inl (ErrRemove msg)
     | Inr f' \<Rightarrow> Inr (True, s\<lparr>blobs := AList.delete d (blobs s)\<rparr>, f'))"

text \<open>The loop over the candidates: a failing blob is logged and skipped.\<close>

fun sweep_all ::
  "(string \<Rightarrow> 'f \<Rightarrow> string + 'f) \<Rightarrow> string list \<Rightarrow> nat \<Rightarrow> db \<times> 'f \<Rightarrow> nat \<times> db \<times> 'f" where
  "sweep_all remove_file [] n (s, f) = (n, s, f)"
| "sweep_all remove_file (d # ds) n (s, f) =
     (case claim_and_unlink remove_file d (s, f) of
        Inl err \<Rightarrow> sweep_all remove_file ds n (s, f)
      | Inr (claimed, s', f') \<Rightarrow>
          sweep_all remove_file ds (if claimed then n + 1 else n) (s', f'))"

definition sweep_unreferenced ::
  "(string \<Rightarrow> 'f \<Rightarrow> string + 'f) \<Rightarrow> env \<Rightarrow> time \<Rightarrow> nat \<Rightarrow> db \<times> 'f \<Rightarrow> nat \<times> db \<times> 'f" where
  "sweep_unreferenced remove_file e grace limit = (\<lambda>(s, f).
     sweep_all remove_file (unreferenced_blobs e grace limit s) 0 (s, f))"

lemma unreferenced_blobs_sound:
  assumes "wf_db s" and "d \<in> set (unreferenced_blobs e grace limit s)"
  shows "\<exists>b. map_of (blobs s) d = Some b \<and> bl_refcount b = 0 \<and> bl_created_at b < e_now e - grace"
proof -
  from assms(2) obtain b where "(d, b) \<in> set (blobs s)" "bl_refcount b = 0"
    "bl_created_at b < e_now e - grace"
    by (auto simp: unreferenced_blobs_def dest!: in_set_takeD)
  with assms(1) show ?thesis by auto
qed

lemma length_unreferenced_blobs: "length (unreferenced_blobs e grace limit s) \<le> limit"
  by (simp add: unreferenced_blobs_def)

subsection \<open>What a claim does to the metadata\<close>

lemma claim_and_unlink_cases:
  assumes "claim_and_unlink rm d (s, f) = Inr (claimed, s', f')"
  obtains (kept) "\<not> claimed" "s' = s" "f' = f"
  | (claimed) "claimed" "refcount s d = 0" "references s d = 0" "has_blob s d"
      "s' = s\<lparr>blobs := AList.delete d (blobs s)\<rparr>" "rm d f = Inr f'"
proof (cases "map_option bl_refcount (map_of (blobs s) d) = Some 0")
  case True
  with assms have "claimed" "refcount s d = 0" "references s d = 0" "has_blob s d"
    "s' = s\<lparr>blobs := AList.delete d (blobs s)\<rparr>" "rm d f = Inr f'"
    by (auto simp: claim_and_unlink_def refcount_def has_blob_def split: if_splits sum.splits)
  then show ?thesis by (rule claimed)
next
  case False
  with assms show ?thesis by (intro kept) (auto simp: claim_and_unlink_def)
qed

lemma delete_blob_row:
  assumes "wf_db s"
  shows "wf_db (s\<lparr>blobs := AList.delete d (blobs s)\<rparr>)"
    and "references (s\<lparr>blobs := AList.delete d (blobs s)\<rparr>) = references s"
    and "refcount (s\<lparr>blobs := AList.delete d (blobs s)\<rparr>) x = (if x = d then 0 else refcount s x)"
  using assms unfolding wf_db_def
  by (simp_all add: rows_ok_frame [of "s\<lparr>blobs := AList.delete d (blobs s)\<rparr>" s])
     (simp_all add: keyed_db_def references_def refcount_def fun_eq_iff delete_conv')

lemma claim_preserves:
  assumes "claim_and_unlink rm d (s, f) = Inr (claimed, s', f')" "wf_db s"
  shows "wf_db s'" "slack s' = slack s" "objects s' = objects s" "versions s' = versions s"
    "parts s' = parts s"
proof -
  from assms(1) have "wf_db s' \<and> slack s' = slack s \<and> objects s' = objects s \<and>
      versions s' = versions s \<and> parts s' = parts s"
  proof (cases rule: claim_and_unlink_cases)
    case kept
    with assms(2) show ?thesis by simp
  next
    case claimed
    with assms(2) show ?thesis by (auto simp: slack_def fun_eq_iff delete_blob_row)
  qed
  then show "wf_db s'" "slack s' = slack s" "objects s' = objects s" "versions s' = versions s"
    "parts s' = parts s" by simp_all
qed

lemma sweep_all_preserves:
  assumes "sweep_all rm ds n (s, f) = (n', s', f')" "wf_db s"
  shows "wf_db s' \<and> slack s' = slack s \<and> objects s' = objects s \<and> versions s' = versions s \<and>
    parts s' = parts s \<and> n \<le> n' \<and> n' \<le> n + length ds"
  using assms
proof (induction ds arbitrary: n s f)
  case Nil
  then show ?case by simp
next
  case (Cons d ds)
  show ?case
  proof (cases "claim_and_unlink rm d (s, f)")
    case (Inl e)
    with Cons show ?thesis by fastforce
  next
    case (Inr r)
    obtain claimed s1 f1 where r: "r = (claimed, s1, f1)" by (cases r)
    with Inr have step: "claim_and_unlink rm d (s, f) = Inr (claimed, s1, f1)" by simp
    from Cons.prems step have
      "sweep_all rm ds (if claimed then n + 1 else n) (s1, f1) = (n', s', f')" by simp
    from Cons.IH [OF this claim_preserves(1) [OF step Cons.prems(2)]]
    show ?thesis using claim_preserves [OF step Cons.prems(2)] by (auto split: if_splits)
  qed
qed

subsection \<open>The interface to the files\<close>

text \<open>
  What the sweeper relies on: removing one blob's file leaves every other file in place, and a
  removed file is gone.
\<close>

locale blob_remover =
  fixes remove_file :: "string \<Rightarrow> 'f \<Rightarrow> string + 'f"
    and present :: "'f \<Rightarrow> string \<Rightarrow> bool"
    and valid_digest :: "string \<Rightarrow> bool"
  assumes remove_present:
      "remove_file d f = Inr f' \<Longrightarrow> valid_digest x \<Longrightarrow> present f' x \<longleftrightarrow> x \<noteq> d \<and> present f x"
begin

lemma claim_keeps_others:
  assumes "claim_and_unlink remove_file d (s, f) = Inr (claimed, s', f')"
    and "0 < references s x" "valid_digest x" "present f x"
  shows "present f' x"
  using assms(1)
proof (cases rule: claim_and_unlink_cases)
  case kept
  with assms show ?thesis by simp
next
  case claimed
  with assms(2) have "x \<noteq> d" by auto
  with claimed assms(3,4) show ?thesis by (simp add: remove_present)
qed

lemma sweep_all_keeps:
  assumes "sweep_all remove_file ds n (s, f) = (n', s', f')"
    and "wf_db s" "0 < references s x" "valid_digest x" "present f x"
  shows "present f' x"
  using assms
proof (induction ds arbitrary: n s f)
  case Nil
  then show ?case by simp
next
  case (Cons d ds)
  show ?case
  proof (cases "claim_and_unlink remove_file d (s, f)")
    case (Inl e)
    with Cons show ?thesis by fastforce
  next
    case (Inr r)
    obtain claimed s1 f1 where r: "r = (claimed, s1, f1)" by (cases r)
    with Inr have step: "claim_and_unlink remove_file d (s, f) = Inr (claimed, s1, f1)" by simp
    from Cons.prems step have run:
      "sweep_all remove_file ds (if claimed then n + 1 else n) (s1, f1) = (n', s', f')" by simp
    have "0 < references s1 x"
      using Cons.prems(3) claim_preserves(3-5) [OF step Cons.prems(2)]
      by (simp add: references_def)
    then show ?thesis
      using claim_keeps_others [OF step Cons.prems(3-5)]
      by (intro Cons.IH [OF run claim_preserves(1) [OF step Cons.prems(2)]] Cons.prems(4))
  qed
qed

lemma sweep_all_keeps_unlisted:
  assumes "sweep_all remove_file ds n (s, f) = (n', s', f')"
    and "x \<notin> set ds" "valid_digest x" "present f x"
  shows "present f' x"
  using assms
proof (induction ds arbitrary: n s f)
  case Nil
  then show ?case by simp
next
  case (Cons d ds)
  show ?case
  proof (cases "claim_and_unlink remove_file d (s, f)")
    case (Inl e)
    with Cons show ?thesis by fastforce
  next
    case (Inr r)
    obtain claimed s1 f1 where r: "r = (claimed, s1, f1)" by (cases r)
    with Inr have step: "claim_and_unlink remove_file d (s, f) = Inr (claimed, s1, f1)" by simp
    from Cons.prems step have run:
      "sweep_all remove_file ds (if claimed then n + 1 else n) (s1, f1) = (n', s', f')" by simp
    have "present f1 x"
      using step by (cases rule: claim_and_unlink_cases) (use Cons.prems in \<open>auto simp: remove_present\<close>)
    with Cons.prems show ?thesis by (intro Cons.IH [OF run]) simp_all
  qed
qed

lemma sweep_keeps_referenced:
  assumes "sweep_unreferenced remove_file e grace limit (s, f) = (n, s', f')"
    and "wf_db s" "0 < references s x" "valid_digest x" "present f x"
  shows "present f' x"
  using assms(1) sweep_all_keeps [OF _ assms(2-5)] by (simp add: sweep_unreferenced_def)

end

end
