(* ===== verification/Go_Strings.thy ===== *)
theory Go_Strings
  imports Prelude
begin

text \<open>
  The part of Go's \<^verbatim>\<open>strings\<close>, \<^verbatim>\<open>strconv\<close> and \<^verbatim>\<open>encoding/hex\<close> packages the program calls. A Go string
  is its list of bytes, one \<open>char\<close> each; comparison is bytewise, which is also Postgres's C
  collation. Case folding and white space cover ASCII: other bytes are left as they are.
\<close>

subsection \<open>Prefixes, suffixes, search\<close>

definition has_prefix :: "string \<Rightarrow> string \<Rightarrow> bool" where
  "has_prefix s p \<longleftrightarrow> take (length p) s = p"

definition has_suffix :: "string \<Rightarrow> string \<Rightarrow> bool" where
  "has_suffix s p \<longleftrightarrow> length p \<le> length s \<and> drop (length s - length p) s = p"

definition trim_prefix :: "string \<Rightarrow> string \<Rightarrow> string" where
  "trim_prefix s p = (if has_prefix s p then drop (length p) s else s)"

definition trim_suffix :: "string \<Rightarrow> string \<Rightarrow> string" where
  "trim_suffix s p = (if has_suffix s p then take (length s - length p) s else s)"

fun index_of :: "string \<Rightarrow> string \<Rightarrow> nat option" where
  "index_of [] sub = (if sub = [] then Some 0 else None)"
| "index_of (c # cs) sub =
     (if has_prefix (c # cs) sub then Some 0 else map_option Suc (index_of cs sub))"

definition contains :: "string \<Rightarrow> string \<Rightarrow> bool" where
  "contains s sub \<longleftrightarrow> index_of s sub \<noteq> None"

definition cut :: "string \<Rightarrow> string \<Rightarrow> string \<times> string \<times> bool" where
  "cut s sep = (case index_of s sep of
     None \<Rightarrow> (s, [], False)
   | Some i \<Rightarrow> (take i s, drop (i + length sep) s, True))"

lemma has_prefix_iff: "has_prefix s p \<longleftrightarrow> (\<exists>r. s = p @ r)"
  by (metis append_eq_conv_conj append_take_drop_id has_prefix_def)

lemma has_prefix_Nil [simp]: "has_prefix s []"
  by (simp add: has_prefix_def)

lemma has_prefix_of_Nil [simp]: "has_prefix [] p \<longleftrightarrow> p = []"
  by (auto simp: has_prefix_def)

lemma has_prefix_Cons [simp]: "has_prefix (c # cs) (d # ds) \<longleftrightarrow> c = d \<and> has_prefix cs ds"
  by (auto simp: has_prefix_def)

lemma has_prefix_refl [simp]: "has_prefix s s"
  by (simp add: has_prefix_def)

lemma has_prefix_append [simp]: "has_prefix (p @ r) p"
  by (simp add: has_prefix_def)

lemma has_prefix_append_cancel [simp]: "has_prefix (p @ s) (p @ r) \<longleftrightarrow> has_prefix s r"
  by (auto simp: has_prefix_iff)

lemma has_prefix_trans: "has_prefix s p \<Longrightarrow> has_prefix p q \<Longrightarrow> has_prefix s q"
  by (auto simp: has_prefix_iff)

lemma has_prefix_linear:
  "has_prefix s p \<Longrightarrow> has_prefix s q \<Longrightarrow> has_prefix p q \<or> has_prefix q p"
  by (auto simp: has_prefix_iff append_eq_append_conv2)

lemma trim_prefix_append [simp]: "trim_prefix (p @ r) p = r"
  by (simp add: trim_prefix_def)

lemma has_suffix_iff: "has_suffix s p \<longleftrightarrow> (\<exists>r. s = r @ p)"
proof
  assume h: "has_suffix s p"
  then have "s = take (length s - length p) s @ p"
    by (metis append_take_drop_id has_suffix_def)
  then show "\<exists>r. s = r @ p" by blast
qed (auto simp: has_suffix_def)

lemma index_of_Some:
  "index_of s sub = Some i \<Longrightarrow> s = take i s @ sub @ drop (i + length sub) s \<and> i + length sub \<le> length s"
proof (induction s arbitrary: i)
  case Nil
  then show ?case by (auto split: if_splits)
next
  case (Cons c cs)
  show ?case
  proof (cases "has_prefix (c # cs) sub")
    case True
    with Cons.prems have "i = 0" by simp
    with True show ?thesis by (auto simp: has_prefix_iff dest: arg_cong [where f = length])
  next
    case False
    with Cons.prems obtain j where "i = Suc j" "index_of cs sub = Some j" by auto
    with Cons.IH show ?thesis by simp
  qed
qed

lemma index_of_append_char:
  "c \<notin> set u \<Longrightarrow> index_of (u @ c # v) [c] = Some (length u)"
  by (induction u) auto

lemma index_of_char_None: "index_of s [c] = None \<longleftrightarrow> c \<notin> set s"
  by (induction s) auto

lemma contains_char [simp]: "contains s [c] \<longleftrightarrow> c \<in> set s"
  unfolding contains_def index_of_char_None by simp

lemma cut_append_char: "c \<notin> set u \<Longrightarrow> cut (u @ c # v) [c] = (u, v, True)"
  by (simp add: cut_def index_of_append_char)

lemma cut_absent_char: "c \<notin> set s \<Longrightarrow> cut s [c] = (s, [], False)"
  by (drule index_of_char_None [THEN iffD2]) (simp add: cut_def)

lemma cut_found: "cut s sep = (u, v, True) \<Longrightarrow> s = u @ sep @ v"
  by (auto simp: cut_def split: option.splits dest: index_of_Some)

lemma cut_not_found: "cut s sep = (u, v, False) \<Longrightarrow> u = s \<and> v = []"
  by (auto simp: cut_def split: option.splits)

subsection \<open>Splitting and joining\<close>

text \<open>\<^verbatim>\<open>strings.Split\<close> with a one-byte separator, as in every call of the program.\<close>

fun split_on :: "char \<Rightarrow> string \<Rightarrow> string list" where
  "split_on c [] = [[]]"
| "split_on c (x # xs) =
     (if x = c then [] # split_on c xs
      else case split_on c xs of [] \<Rightarrow> [[x]] | y # ys \<Rightarrow> (x # y) # ys)"

fun join :: "string \<Rightarrow> string list \<Rightarrow> string" where
  "join sep [] = []"
| "join sep [x] = x"
| "join sep (x # y # ys) = x @ sep @ join sep (y # ys)"

lemma split_on_nonempty [simp]: "split_on c s \<noteq> []"
  by (induction s) (auto split: list.splits)

lemma join_Cons: "ys \<noteq> [] \<Longrightarrow> join sep (x # ys) = x @ sep @ join sep ys"
  by (cases ys) auto

lemma set_join: "c \<in> set (join sep xs) \<Longrightarrow> c \<in> set sep \<or> (\<exists>x \<in> set xs. c \<in> set x)"
  by (induction sep xs rule: join.induct) auto

lemma last_join: "xs \<noteq> [] \<Longrightarrow> last xs \<noteq> [] \<Longrightarrow> join sep xs \<noteq> [] \<and> last (join sep xs) = last (last xs)"
  by (induction sep xs rule: join.induct) auto

lemma join_append:
  "ys \<noteq> [] \<Longrightarrow> join sep (xs @ ys) = concat (map (\<lambda>x. x @ sep) xs) @ join sep ys"
  by (induction xs) (simp_all add: join_Cons)

lemma join_snoc: "ys \<noteq> [] \<Longrightarrow> join sep (ys @ [x]) = join sep ys @ sep @ x"
  by (induction ys rule: list_nonempty_induct) (auto simp: join_Cons)

lemma join_split_on [simp]: "join [c] (split_on c s) = s"
proof (induction s)
  case (Cons x xs)
  obtain y ys where sp: "split_on c xs = y # ys" by (metis neq_Nil_conv split_on_nonempty)
  show ?case
  proof (cases "x = c")
    case True
    with Cons show ?thesis by (simp add: join_Cons)
  next
    case False
    with Cons sp show ?thesis by (cases ys) auto
  qed
qed simp

lemma split_on_absent: "c \<notin> set s \<Longrightarrow> split_on c s = [s]"
  by (induction s) auto

lemma split_on_append: "c \<notin> set u \<Longrightarrow> split_on c (u @ c # v) = u # split_on c v"
  by (induction u) auto

lemma split_on_join:
  "xs \<noteq> [] \<Longrightarrow> \<forall>x \<in> set xs. c \<notin> set x \<Longrightarrow> split_on c (join [c] xs) = xs"
  by (induction xs rule: list_nonempty_induct)
     (auto simp: split_on_append split_on_absent join_Cons)

lemma split_on_pieces: "x \<in> set (split_on c s) \<Longrightarrow> c \<notin> set x"
  by (induction s arbitrary: x) (auto split: if_splits list.splits)

subsection \<open>Trimming and case\<close>

definition is_space :: "char \<Rightarrow> bool" where
  "is_space c \<longleftrightarrow> c \<in> {CHR '' '', CHR 0x09, CHR 0x0A, CHR 0x0B, CHR 0x0C, CHR 0x0D}"

definition trim_left :: "(char \<Rightarrow> bool) \<Rightarrow> string \<Rightarrow> string" where
  "trim_left p s = dropWhile p s"

definition trim_right :: "(char \<Rightarrow> bool) \<Rightarrow> string \<Rightarrow> string" where
  "trim_right p s = rev (dropWhile p (rev s))"

definition trim_space :: "string \<Rightarrow> string" where
  "trim_space s = trim_right is_space (trim_left is_space s)"

definition lower_char :: "char \<Rightarrow> char" where
  "lower_char c = (if CHR ''A'' \<le> c \<and> c \<le> CHR ''Z'' then char_of (of_char c + 32 :: nat) else c)"

definition upper_char :: "char \<Rightarrow> char" where
  "upper_char c = (if CHR ''a'' \<le> c \<and> c \<le> CHR ''z'' then char_of (of_char c - 32 :: nat) else c)"

definition to_lower :: "string \<Rightarrow> string" where
  "to_lower s = map lower_char s"

definition to_upper :: "string \<Rightarrow> string" where
  "to_upper s = map upper_char s"

definition equal_fold :: "string \<Rightarrow> string \<Rightarrow> bool" where
  "equal_fold s t \<longleftrightarrow> to_lower s = to_lower t"

lemma trim_right_suffix: "\<exists>r. s = trim_right p s @ r"
  unfolding trim_right_def
  by (metis rev_append rev_rev_ident takeWhile_dropWhile_id)

definition solid :: "string \<Rightarrow> bool" where
  "solid s \<longleftrightarrow> s \<noteq> [] \<and> \<not> is_space (hd s) \<and> \<not> is_space (last s)"

lemma dropWhile_hd: "xs \<noteq> [] \<Longrightarrow> \<not> p (hd xs) \<Longrightarrow> dropWhile p xs = xs"
  by (cases xs) auto

lemma trim_space_solid: "solid s \<Longrightarrow> trim_space s = s"
  by (simp add: solid_def trim_space_def trim_left_def trim_right_def dropWhile_hd hd_rev)

lemma trim_space_blank: "solid s \<Longrightarrow> trim_space (CHR '' '' # s) = s"
  by (simp add: solid_def trim_space_def trim_left_def trim_right_def dropWhile_hd hd_rev
    is_space_def [of "CHR '' ''"])

subsection \<open>Numbers\<close>

text \<open>The value of a digit in bases up to 16; \<^verbatim>\<open>strconv.ParseInt\<close> accepts either case.\<close>

definition digit_value :: "char \<Rightarrow> nat option" where
  "digit_value c =
     (if CHR ''0'' \<le> c \<and> c \<le> CHR ''9'' then Some (of_char c - 48)
      else if CHR ''a'' \<le> c \<and> c \<le> CHR ''f'' then Some (of_char c - 87)
      else if CHR ''A'' \<le> c \<and> c \<le> CHR ''F'' then Some (of_char c - 55)
      else None)"

fun parse_digits :: "nat \<Rightarrow> string \<Rightarrow> nat \<Rightarrow> nat option" where
  "parse_digits base [] acc = Some acc"
| "parse_digits base (c # cs) acc =
     (case digit_value c of
        None \<Rightarrow> None
      | Some v \<Rightarrow> if v < base then parse_digits base cs (acc * base + v) else None)"

text \<open>\<^verbatim>\<open>strconv.ParseInt(s, base, 64)\<close>: an optional sign, at least one digit, in the 64-bit range.\<close>

definition parse_int :: "nat \<Rightarrow> string \<Rightarrow> int option" where
  "parse_int base s =
     (let neg = has_prefix s ''-'';
          ds = (if neg \<or> has_prefix s ''+'' then drop 1 s else s)
      in if ds = [] then None
         else case parse_digits base ds 0 of
           None \<Rightarrow> None
         | Some n \<Rightarrow>
             (let v = (if neg then - int n else int n)
              in if - (2 ^ 63) \<le> v \<and> v < 2 ^ 63 then Some v else None))"

definition atoi :: "string \<Rightarrow> int option" where
  "atoi s = parse_int 10 s"

lemma parse_int_range: "parse_int base s = Some v \<Longrightarrow> - (2 ^ 63) \<le> v \<and> v < 2 ^ 63"
  by (auto simp: parse_int_def Let_def split: option.splits if_splits)

text \<open>\<^verbatim>\<open>strconv.Itoa\<close>, on a natural number and on an integer.\<close>

fun show_nat :: "nat \<Rightarrow> string" where
  "show_nat n = (if n < 10 then [char_of (48 + n)] else show_nat (n div 10) @ [char_of (48 + n mod 10)])"

definition show_int :: "int \<Rightarrow> string" where
  "show_int v = (if v < 0 then CHR ''-'' # show_nat (nat (- v)) else show_nat (nat v))"

declare show_nat.simps [simp del]

lemma digit_value_digit: "n < 10 \<Longrightarrow> digit_value (char_of (48 + n)) = Some n"
proof -
  assume "n < 10"
  then have c: "of_char (char_of (48 + n)) = 48 + n" unfolding of_char_of by (intro mod_less) simp
  have "CHR ''0'' \<le> char_of (48 + n)" "char_of (48 + n) \<le> CHR ''9''"
    unfolding less_eq_char_def c using \<open>n < 10\<close> by (simp_all only: of_char_Char) simp_all
  then show ?thesis unfolding digit_value_def c by simp
qed

lemma parse_digits_append:
  "parse_digits base (u @ v) acc = (case parse_digits base u acc of None \<Rightarrow> None | Some a \<Rightarrow> parse_digits base v a)"
  by (induction u arbitrary: acc) (auto split: option.splits)

lemma parse_digits_show_nat: "parse_digits 10 (show_nat n) 0 = Some n"
proof (induction n rule: show_nat.induct)
  case (1 n)
  then show ?case
    by (subst show_nat.simps) (auto simp: digit_value_digit parse_digits_append)
qed

lemma show_nat_hd: "show_nat n \<noteq> []" "hd (show_nat n) \<noteq> CHR ''-''" "hd (show_nat n) \<noteq> CHR ''+''"
proof (induction n rule: show_nat.induct)
  case (1 n)
  have "digit_value (char_of (48 + m)) \<noteq> None" if "m < 10" for m :: nat using that by (simp add: digit_value_digit)
  moreover have "digit_value CHR ''-'' = None" "digit_value CHR ''+'' = None" by (simp_all add: digit_value_def)
  ultimately have single: "char_of (48 + m) \<noteq> CHR ''-''" "char_of (48 + m) \<noteq> CHR ''+''" if "m < 10" for m :: nat
    using that by metis+
  {
    case 1
    show ?case by (subst show_nat.simps) simp
  next
    case 2
    show ?case using "1.IH"(1,2) single by (subst show_nat.simps) simp
  next
    case 3
    show ?case using "1.IH"(1,3) single by (subst show_nat.simps) simp
  }
qed

lemma atoi_show_int:
  assumes "0 \<le> v" "v < 2 ^ 63"
  shows "atoi (show_int v) = Some v"
proof -
  obtain c cs where s: "show_nat (nat v) = c # cs" "c \<noteq> CHR ''-''" "c \<noteq> CHR ''+''"
    using show_nat_hd [of "nat v"] by (cases "show_nat (nat v)") auto
  then have sign: "\<not> has_prefix (show_nat (nat v)) ''-''" "\<not> has_prefix (show_nat (nat v)) ''+''" by simp_all
  show ?thesis
    using assms s sign parse_digits_show_nat [of "nat v"]
    by (simp add: atoi_def parse_int_def show_int_def)
qed

text \<open>The verb \<^verbatim>\<open>%q\<close>, on text without quotes, backslashes or unprintable characters.\<close>

definition quoted :: "string \<Rightarrow> string" where
  "quoted s = CHR 0x22 # s @ [CHR 0x22]"

subsection \<open>Hexadecimal\<close>

definition hex_digits :: string where
  "hex_digits = ''0123456789abcdef''"

definition hex_byte :: "char \<Rightarrow> string" where
  "hex_byte c = [hex_digits ! (of_char c div 16), hex_digits ! (of_char c mod 16)]"

definition hex_encode :: "string \<Rightarrow> string" where
  "hex_encode s = concat (map hex_byte s)"

fun hex_decode :: "string \<Rightarrow> string option" where
  "hex_decode [] = Some []"
| "hex_decode [c] = None"
| "hex_decode (c # d # s) =
     (case (digit_value c, digit_value d, hex_decode s) of
        (Some h, Some l, Some r) \<Rightarrow> Some (char_of (16 * h + l) # r)
      | _ \<Rightarrow> None)"

lemma length_hex_encode [simp]: "length (hex_encode s) = 2 * length s"
  by (induction s) (simp_all add: hex_encode_def hex_byte_def)

lemma hex_encode_eq_Nil [simp]: "hex_encode s = [] \<longleftrightarrow> s = []"
  by (cases s) (simp_all add: hex_encode_def hex_byte_def)

lemma hex_encode_chars: "set (hex_encode s) \<subseteq> set hex_digits"
proof (induction s)
  case (Cons c s)
  have "(of_char c :: nat) < 256" by (rule nat_of_char_less_256)
  then have "(of_char c :: nat) div 16 < 16" "(of_char c :: nat) mod 16 < 16" by linarith+
  moreover have "length hex_digits = 16" by (simp add: hex_digits_def)
  ultimately have "of_char c div 16 < length hex_digits" "of_char c mod 16 < length hex_digits"
    by simp_all
  then have "set (hex_byte c) \<subseteq> set hex_digits" by (simp add: hex_byte_def)
  with Cons.IH show ?case by (simp add: hex_encode_def)
qed (simp add: hex_encode_def)

subsection \<open>Digests\<close>

text \<open>SHA-256 and MD5 are parameters of the model, functions from bytes to bytes.\<close>

record hashes =
  h_sha256 :: "string \<Rightarrow> string"
  h_md5 :: "string \<Rightarrow> string"

text \<open>\<^verbatim>\<open>crypto/hmac\<close> over SHA-256, with its block of 64 bytes.\<close>

definition xor_char :: "nat \<Rightarrow> char \<Rightarrow> char" where
  "xor_char n c = char_of (Bit_Operations.xor n (of_char c))"

definition hmac_sha256 :: "hashes \<Rightarrow> string \<Rightarrow> string \<Rightarrow> string" where
  "hmac_sha256 h key data =
     (let k = (if 64 < length key then h_sha256 h key else key);
          block = k @ replicate (64 - length k) CHR 0x00
      in h_sha256 h (map (xor_char 0x5C) block @ h_sha256 h (map (xor_char 0x36) block @ data)))"

subsection \<open>UTF-8\<close>

text \<open>
  The width of the rune a string starts with: a byte that starts no rune has width 1, as in the
  standard library's \<^verbatim>\<open>unicode/utf8\<close>.
\<close>

definition continues :: "nat \<Rightarrow> nat \<Rightarrow> string \<Rightarrow> nat \<Rightarrow> bool" where
  "continues lo hi cs i \<longleftrightarrow> i < length cs \<and> lo \<le> of_char (cs ! i) \<and> of_char (cs ! i) \<le> hi"

definition rune_width :: "char \<Rightarrow> string \<Rightarrow> nat" where
  "rune_width c cs =
     (let b = of_char c :: nat; tail = continues 0x80 0xBF cs;
          lo = (if b = 0xE0 then 0xA0 else if b = 0xF0 then 0x90 else 0x80);
          hi = (if b = 0xED then 0x9F else if b = 0xF4 then 0x8F else 0xBF);
          second = continues lo hi cs 0
      in if 0xC2 \<le> b \<and> b \<le> 0xDF \<and> second then 2
         else if 0xE0 \<le> b \<and> b \<le> 0xEF \<and> second \<and> tail 1 then 3
         else if 0xF0 \<le> b \<and> b \<le> 0xF4 \<and> second \<and> tail 1 \<and> tail 2 then 4
         else 1)"

text \<open>\<^verbatim>\<open>utf8.RuneCountInString\<close> and \<^verbatim>\<open>utf8.ValidString\<close>.\<close>

function rune_count :: "string \<Rightarrow> nat" where
  "rune_count [] = 0"
| "rune_count (c # cs) = Suc (rune_count (drop (rune_width c cs - 1) cs))"
  by pat_completeness auto
termination rune_count
  by (relation "measure length") auto

function valid_utf8 :: "string \<Rightarrow> bool" where
  "valid_utf8 [] \<longleftrightarrow> True"
| "valid_utf8 (c # cs) \<longleftrightarrow>
     ((of_char c :: nat) < 0x80 \<or> 1 < rune_width c cs) \<and> valid_utf8 (drop (rune_width c cs - 1) cs)"
  by pat_completeness auto
termination valid_utf8
  by (relation "measure length") auto

text \<open>
  What Postgres takes as \<^verbatim>\<open>text\<close> in a UTF-8 database, in a column or as the parameter of a query: valid
  UTF-8 without the zero byte.
\<close>

definition text_ok :: "string \<Rightarrow> bool" where
  "text_ok s \<longleftrightarrow> valid_utf8 s \<and> CHR 0x00 \<notin> set s"

lemma text_ok_Nil [simp]: "text_ok []"
  by (simp add: text_ok_def)

end
