(* ===== verification/Versioning.thy ===== *)
theory Versioning
  imports Blob_Refs Go_Strings
begin

text \<open>
  The three versioning states of a bucket (\<^verbatim>\<open>internal/db/versioning_state.go\<close>), the version rows
  (\<^verbatim>\<open>RecordVersion\<close>, \<^verbatim>\<open>GetVersion\<close> of \<^verbatim>\<open>internal/db/versions.go\<close>) and the rules for the version a
  write replaces (\<^verbatim>\<open>internal/db/current.go\<close>).
\<close>

subsection \<open>The versioning setting\<close>

definition versioned :: "versioning_state \<Rightarrow> bool" where
  "versioned v \<longleftrightarrow> v = VersioningEnabled"

definition configured :: "versioning_state \<Rightarrow> bool" where
  "configured v \<longleftrightarrow> v \<noteq> VersioningUnversioned"

text \<open>The new state, or the old one with a message.\<close>

fun transition_to ::
  "versioning_state \<Rightarrow> versioning_state \<Rightarrow> versioning_state \<times> string option" where
  "transition_to v VersioningEnabled = (VersioningEnabled, None)"
| "transition_to v VersioningSuspended = (VersioningSuspended, None)"
| "transition_to v VersioningUnversioned =
     (if configured v
      then (v, Some ''versioning cannot be turned off once it has been enabled; suspend it instead'')
      else (v, None))"
| "transition_to v (OtherState raw) = (v, Some (CHR 0x22 # raw @ CHR 0x22 # '' is not a versioning state''))"

definition external_version_id :: "string \<Rightarrow> string" where
  "external_version_id stored = (if stored = [] then null_version_id else stored)"

definition internal_version_id :: "string \<Rightarrow> string" where
  "internal_version_id external = (if external = null_version_id then [] else external)"

lemma null_version_id_nonempty [simp]: "null_version_id \<noteq> []"
  by (simp add: null_version_id_def)

lemma external_version_id_nonempty [simp]: "external_version_id v \<noteq> []"
  by (simp add: external_version_id_def)

lemma internal_external [simp]:
  "v \<noteq> null_version_id \<Longrightarrow> internal_version_id (external_version_id v) = v"
  by (simp add: internal_version_id_def external_version_id_def)

lemma external_internal [simp]:
  "v \<noteq> [] \<Longrightarrow> external_version_id (internal_version_id v) = v"
  by (simp add: internal_version_id_def external_version_id_def)

subsection \<open>Version rows\<close>

text \<open>Go's zero \<^verbatim>\<open>time.Time\<close>: the start of year 1.\<close>

definition zero_time :: time where
  "zero_time = - 62135596800 * second"

text \<open>\<^verbatim>\<open>NewVersionID\<close>: the hex digits of 16 random bytes.\<close>

definition new_version_id :: "env \<Rightarrow> nat \<Rightarrow> db_error + string" where
  "new_version_id e i = (case e_rand e i of None \<Rightarrow> Inl ErrRandom | Some buf \<Rightarrow> Inr (hex_encode buf))"

text \<open>The \<^verbatim>\<open>INSERT\<close>, with the constraints of the table.\<close>

definition insert_version :: "object_version \<Rightarrow> db \<Rightarrow> db_error + db" where
  "insert_version r s =
     (if \<not> has_bucket s (v_bucket_id r) then Inl (ErrConstraint ''object_versions_bucket_id_fkey'')
      else if (case v_blob_digest r of None \<Rightarrow> False | Some d \<Rightarrow> \<not> has_blob s d)
        then Inl (ErrConstraint ''object_versions_blob_digest_fkey'')
      else if v_is_delete_marker r \<noteq> (v_blob_digest r = None)
        then Inl (ErrConstraint ''object_versions_marker_has_no_blob'')
      else if map_of (versions s) (v_bucket_id r, v_key r, v_version_id r) \<noteq> None
        then Inl (ErrConstraint ''object_versions_bucket_id_key_version_id_key'')
      else if v_id r \<in> set (map (\<lambda>x. v_id (snd x)) (versions s))
        then Inl (ErrConstraint ''object_versions_pkey'')
      else Inr (s\<lparr>versions := versions s @ [((v_bucket_id r, v_key r, v_version_id r), r)]\<rparr>))"

text \<open>
  \<open>i\<close> and \<open>j\<close> number the row id and the random buffer the call takes from its environment. The
  row carries its own reference to the blob, taken before it is inserted.
\<close>

definition record_version ::
  "env \<Rightarrow> nat \<Rightarrow> nat \<Rightarrow> object_version \<Rightarrow> db \<Rightarrow> db_error + object_version \<times> db" where
  "record_version e i j v s =
     rbind (if v_version_id v = [] then new_version_id e j else Inr (v_version_id v)) (\<lambda>vid.
       let s1 = (case v_blob_digest v of None \<Rightarrow> s | Some d \<Rightarrow> retain_blob e d (v_size v) s);
           r = v\<lparr>v_version_id := vid, v_id := e_uuid e i,
                 v_created_at := (if v_created_at v = zero_time then e_now e else v_created_at v)\<rparr>
       in rbind (insert_version r s1) (\<lambda>s2. Inr (r, s2)))"

definition get_version :: "db \<Rightarrow> string \<Rightarrow> string \<Rightarrow> string \<Rightarrow> db_error + object_version" where
  "get_version s b k v =
     (case map_of (versions s) (b, k, v) of None \<Rightarrow> Inl ErrVersionNotFound | Some r \<Rightarrow> Inr r)"

lemma insert_version_Inr [result_iff]:
  "insert_version r s = Inr s' \<longleftrightarrow>
     has_bucket s (v_bucket_id r) \<and> (\<forall>d. v_blob_digest r = Some d \<longrightarrow> has_blob s d) \<and>
     (v_is_delete_marker r \<longleftrightarrow> v_blob_digest r = None) \<and>
     map_of (versions s) (v_bucket_id r, v_key r, v_version_id r) = None \<and>
     v_id r \<notin> set (map (\<lambda>x. v_id (snd x)) (versions s)) \<and>
     s' = s\<lparr>versions := versions s @ [((v_bucket_id r, v_key r, v_version_id r), r)]\<rparr>"
  by (auto simp: insert_version_def split: option.splits)

lemma wf_insert_version:
  assumes "insert_version r s = Inr s'" "wf_db s"
  shows "wf_db s'"
proof -
  from assms(1) have s': "s' = s\<lparr>versions := versions s @ [((v_bucket_id r, v_key r, v_version_id r), r)]\<rparr>"
    and "map_of (versions s) (v_bucket_id r, v_key r, v_version_id r) = None"
    and "v_id r \<notin> set (map (\<lambda>x. v_id (snd x)) (versions s))"
    and "version_ok s ((v_bucket_id r, v_key r, v_version_id r), r)"
    by (auto simp: result_iff row_defs)
  with assms(2) show ?thesis
    unfolding s' by (intro wf_update_versions) (auto dest: wf_rows simp: wf_ids)
qed

lemma slack_insert_version:
  "insert_version r s = Inr s' \<Longrightarrow> slack s' x = slack s x - of_bool (v_blob_digest r = Some x)"
  by (auto simp: result_iff slack_tables tally_append)

lemma new_version_id_not_null: "new_version_id e i = Inr vid \<Longrightarrow> vid \<noteq> null_version_id"
proof -
  assume "new_version_id e i = Inr vid"
  then obtain buf where "vid = hex_encode buf" by (auto simp: new_version_id_def split: option.splits)
  then have "set vid \<subseteq> set hex_digits" using hex_encode_chars by simp
  then show "vid \<noteq> null_version_id" by (auto simp: null_version_id_def hex_digits_def)
qed

subsection \<open>Superseding the current version\<close>

record write_options =
  wo_versioning :: versioning_state
  wo_actor :: string

text \<open>The row id and its creation time are not among the columns read.\<close>

definition read_current :: "db \<Rightarrow> string \<Rightarrow> string \<Rightarrow> object option" where
  "read_current s b k =
     map_option (\<lambda>r. r\<lparr>o_id := [], o_bucket_id := b, o_key := k, o_created_at := zero_time\<rparr>)
       (map_of (objects s) (b, k))"

text \<open>
  \<open>cur\<close> is the row the write replaces, with its bucket and key filled in. The result is the id
  the incoming version is to carry.
\<close>

definition preserves :: "object option \<Rightarrow> write_options \<Rightarrow> bool" where
  "preserves cur opts =
     (case wo_versioning opts of
        VersioningEnabled \<Rightarrow> cur \<noteq> None
      | VersioningSuspended \<Rightarrow> (case cur of None \<Rightarrow> False | Some o1 \<Rightarrow> o_version_id o1 \<noteq> [])
      | _ \<Rightarrow> False)"

definition superseded_version :: "object \<Rightarrow> write_options \<Rightarrow> object_version" where
  "superseded_version o1 opts =
     \<lparr>v_id = [], v_bucket_id = o_bucket_id o1, v_key = o_key o1,
      v_version_id = (if o_version_id o1 = [] then null_version_id else o_version_id o1),
      v_blob_digest = Some (o_blob_digest o1), v_size = o_size o1, v_etag = o_etag o1,
      v_content_type = o_content_type o1, v_metadata = o_metadata o1,
      v_is_delete_marker = False, v_created_at = o_updated_at o1, v_created_by = wo_actor opts\<rparr>"

definition supersede ::
  "env \<Rightarrow> object option \<Rightarrow> write_options \<Rightarrow> db \<Rightarrow> db_error + string \<times> db" where
  "supersede e cur opts s =
     rbind (case cur of
         Some o1 \<Rightarrow> if preserves cur opts
           then rbind (record_version e 0 0 (superseded_version o1 opts) s) (\<lambda>(_, s1). Inr s1)
           else Inr s
       | None \<Rightarrow> Inr s) (\<lambda>s1.
     if wo_versioning opts = VersioningEnabled
     then rbind (new_version_id e 0) (\<lambda>vid. Inr (vid, s1))
     else Inr ([], s1))"

definition replace_null_version :: "string \<Rightarrow> string \<Rightarrow> db \<Rightarrow> db" where
  "replace_null_version b k s =
     (case map_of (versions s) (b, k, null_version_id) of
        None \<Rightarrow> s
      | Some r \<Rightarrow>
          (let s1 = s\<lparr>versions := AList.delete (b, k, null_version_id) (versions s)\<rparr>
           in case v_blob_digest r of None \<Rightarrow> s1 | Some d \<Rightarrow> released d s1))"

subsection \<open>What recording, superseding and replacing change\<close>

lemma record_version_InrE:
  assumes "record_version e i j v s = Inr (r, s')"
  obtains vid s1 where
    "(if v_version_id v = [] then new_version_id e j else Inr (v_version_id v)) = Inr vid"
    "s1 = (case v_blob_digest v of None \<Rightarrow> s | Some d \<Rightarrow> retain_blob e d (v_size v) s)"
    "r = v\<lparr>v_version_id := vid, v_id := e_uuid e i,
           v_created_at := (if v_created_at v = zero_time then e_now e else v_created_at v)\<rparr>"
    "insert_version r s1 = Inr s'"
  using assms by (auto simp: record_version_def result_iff Let_def)

lemma record_version_balanced:
  assumes "record_version e i j v s = Inr (r, s')" "wf_db s"
  shows "wf_db s'" "slack s' = slack s" "objects s' = objects s" "parts s' = parts s"
    "uploads s' = uploads s" "buckets s' = buckets s" "settings s' = settings s"
proof -
  obtain vid s1 where s1: "s1 = (case v_blob_digest v of None \<Rightarrow> s | Some d \<Rightarrow> retain_blob e d (v_size v) s)"
    and dig: "v_blob_digest r = v_blob_digest v" and ins: "insert_version r s1 = Inr s'"
    using assms(1) by (elim record_version_InrE) auto
  have wf1: "wf_db s1" using assms(2) by (auto simp: s1 split: option.splits)
  show "wf_db s'" by (rule wf_insert_version [OF ins wf1])
  have "slack s1 x = slack s x + of_bool (v_blob_digest v = Some x)" for x
    by (auto simp: s1 slack_retain split: option.splits)
  then show "slack s' = slack s"
    by (auto simp: fun_eq_iff slack_insert_version [OF ins] dig)
  show "objects s' = objects s" "parts s' = parts s" "uploads s' = uploads s" "buckets s' = buckets s"
    "settings s' = settings s"
    using ins by (auto simp: result_iff s1 split: option.splits)
qed

lemma record_version_row:
  assumes "record_version e i j v s = Inr (r, s')"
  shows "versions s' = versions s @ [((v_bucket_id v, v_key v, v_version_id r), r)]"
    and "map_of (versions s) (v_bucket_id v, v_key v, v_version_id r) = None"
    and "v_version_id v \<noteq> [] \<Longrightarrow> v_version_id r = v_version_id v"
    and "v_blob_digest r = v_blob_digest v" and "v_bucket_id r = v_bucket_id v"
    and "v_key r = v_key v" and "v_is_delete_marker r = v_is_delete_marker v"
  using assms by (auto elim!: record_version_InrE simp: result_iff split: option.splits if_splits)

lemma supersede_InrE:
  assumes "supersede e cur opts s = Inr (vid, s')"
  obtains (kept) "\<not> preserves cur opts" "s' = s"
  | (preserved) o1 r where "cur = Some o1" "preserves cur opts"
      "record_version e 0 0 (superseded_version o1 opts) s = Inr (r, s')"
  using assms
  by (cases cur) (auto simp: supersede_def result_iff preserves_def
      split: if_splits versioning_state.splits)

lemma supersede_vid:
  assumes "supersede e cur opts s = Inr (vid, s')"
  shows "(wo_versioning opts = VersioningEnabled \<longrightarrow> new_version_id e 0 = Inr vid) \<and>
    (wo_versioning opts \<noteq> VersioningEnabled \<longrightarrow> vid = [])"
  using assms by (auto simp: supersede_def result_iff split: if_splits)

lemma supersede_vid_not_null:
  "supersede e cur opts s = Inr (vid, s') \<Longrightarrow> vid \<noteq> null_version_id"
  using supersede_vid new_version_id_not_null null_version_id_nonempty by metis

lemma supersede_balanced:
  assumes "supersede e cur opts s = Inr (vid, s')" "wf_db s"
  shows "wf_db s'" "slack s' = slack s" "objects s' = objects s" "parts s' = parts s"
    "uploads s' = uploads s" "buckets s' = buckets s" "settings s' = settings s"
  using assms(1)
  by (cases rule: supersede_InrE; use record_version_balanced assms(2) in fastforce)+

lemma replace_null_version_balanced:
  assumes "wf_db s" "counts_safe s"
  shows "wf_db (replace_null_version b k s)" "slack (replace_null_version b k s) = slack s"
    "objects (replace_null_version b k s) = objects s"
    "parts (replace_null_version b k s) = parts s"
    "uploads (replace_null_version b k s) = uploads s"
    "buckets (replace_null_version b k s) = buckets s"
    "settings (replace_null_version b k s) = settings s"
    "versions (replace_null_version b k s) =
       AList.delete (b, k, null_version_id) (versions s)"
proof -
  let ?t = "AList.delete (b, k, null_version_id) (versions s)"
  let ?s1 = "s\<lparr>versions := ?t\<rparr>"
  show "wf_db (replace_null_version b k s)"
    using assms by (auto simp: replace_null_version_def Let_def split: option.splits)
  have absent: "map_of (versions s) (b, k, null_version_id) = None \<Longrightarrow> ?t = versions s"
    by (simp add: map_of_eq_None_iff)
  show "objects (replace_null_version b k s) = objects s"
    "parts (replace_null_version b k s) = parts s"
    "uploads (replace_null_version b k s) = uploads s"
    "buckets (replace_null_version b k s) = buckets s"
    "settings (replace_null_version b k s) = settings s"
    "versions (replace_null_version b k s) = ?t"
    using absent by (simp_all add: replace_null_version_def Let_def split: option.splits)
  have sl: "slack ?s1 x = slack s x +
      weight (version_refs x) (map_of (versions s) (b, k, null_version_id))" for x
    using assms by (simp add: slack_tables tally_delete)
  show "slack (replace_null_version b k s) = slack s"
  proof (cases "map_of (versions s) (b, k, null_version_id)")
    case None
    then show ?thesis by (simp add: replace_null_version_def)
  next
    case (Some r)
    show ?thesis
    proof (cases "v_blob_digest r")
      case None
      with Some sl show ?thesis by (simp add: replace_null_version_def Let_def fun_eq_iff)
    next
      case (Some d)
      from assms(2) have "0 \<le> slack s d" by (simp add: counts_safe_iff)
      with sl \<open>map_of _ _ = Some r\<close> Some have "0 < slack ?s1 d" by simp
      then have "0 < refcount ?s1 d" by (rule refcount_pos_of_slack)
      with Some sl \<open>map_of _ _ = Some r\<close> show ?thesis
        by (simp add: replace_null_version_def Let_def fun_eq_iff slack_release)
    qed
  qed
qed

end
