(* ===== verification/Objects.thy ===== *)
theory Objects
  imports Versioning
begin

text \<open>
  Writing, reading and deleting the current version of a key (\<^verbatim>\<open>internal/db/objects.go\<close>). Each
  operation is the body of one transaction; \<open>Inl\<close> is its rollback.
\<close>

subsection \<open>The objects table\<close>

text \<open>The constraints of the table, the check first and the foreign keys after it, as Postgres has them.\<close>

definition object_constraints :: "object \<Rightarrow> db \<Rightarrow> db_error + unit" where
  "object_constraints r s =
     rbind (guard_or (key_check (o_key r)) (ErrConstraint ''objects_key_check'')) (\<lambda>_.
     rbind (guard_or (has_bucket s (o_bucket_id r)) (ErrConstraint ''objects_bucket_id_fkey'')) (\<lambda>_.
     guard_or (has_blob s (o_blob_digest r)) (ErrConstraint ''objects_blob_digest_fkey'')))"

text \<open>
  \<open>INSERT ... ON CONFLICT (bucket_id, key) DO UPDATE\<close>: a new row gets an id and both times, an
  existing one keeps its id and its creation time.
\<close>

definition upsert_object :: "env \<Rightarrow> nat \<Rightarrow> object \<Rightarrow> db \<Rightarrow> db_error + object \<times> db" where
  "upsert_object e i r s =
     rbind (object_constraints r s) (\<lambda>_.
       let row = (case map_of (objects s) (o_bucket_id r, o_key r) of
           None \<Rightarrow> r\<lparr>o_id := e_uuid e i, o_created_at := e_now e, o_updated_at := e_now e\<rparr>
         | Some old \<Rightarrow> r\<lparr>o_id := o_id old, o_created_at := o_created_at old, o_updated_at := e_now e\<rparr>)
       in Inr (row, s\<lparr>objects := AList.update (o_bucket_id r, o_key r) row (objects s)\<rparr>))"

definition delete_object_row :: "string \<Rightarrow> string \<Rightarrow> db \<Rightarrow> db" where
  "delete_object_row b k s = s\<lparr>objects := AList.delete (b, k) (objects s)\<rparr>"

lemma object_constraints_Inr [result_iff]:
  "object_constraints r s = Inr u \<longleftrightarrow>
     key_check (o_key r) \<and> has_bucket s (o_bucket_id r) \<and> has_blob s (o_blob_digest r)"
  by (simp add: object_constraints_def result_iff)

lemma upsert_object_InrE:
  assumes "upsert_object e i r s = Inr (row, s')"
  obtains "key_check (o_key r)" "has_bucket s (o_bucket_id r)" "has_blob s (o_blob_digest r)"
    "s' = s\<lparr>objects := AList.update (o_bucket_id r, o_key r) row (objects s)\<rparr>"
    "o_bucket_id row = o_bucket_id r" "o_key row = o_key r" "o_blob_digest row = o_blob_digest r"
    "o_size row = o_size r" "o_etag row = o_etag r" "o_content_type row = o_content_type r"
    "o_metadata row = o_metadata r" "o_version_id row = o_version_id r" "o_updated_at row = e_now e"
  using assms by (auto simp: upsert_object_def result_iff Let_def split: option.splits)

lemma wf_upsert_object:
  assumes "upsert_object e i r s = Inr (row, s')" "wf_db s" "o_version_id r \<noteq> null_version_id"
  shows "wf_db s'"
proof -
  let ?k = "(o_bucket_id r, o_key r)"
  from assms(1) obtain
    s': "s' = s\<lparr>objects := AList.update ?k row (objects s)\<rparr>" and "has_bucket s (o_bucket_id r)"
    and "o_bucket_id row = o_bucket_id r" "o_key row = o_key r" "key_check (o_key r)"
      "o_version_id row = o_version_id r"
    by (elim upsert_object_InrE)
  with assms(3) have ok: "object_ok s (?k, row)" by (simp add: row_defs)
  have "object_ok s x" if "x \<in> set (AList.update ?k row (objects s))" for x
    using that ok wf_rows(1) [OF assms(2)] by (cases rule: in_set_update_cases) simp_all
  with assms(2) show ?thesis unfolding s' by (intro wf_update_objects) simp_all
qed

lemma slack_upsert_object:
  assumes "upsert_object e i r s = Inr (row, s')" "wf_db s"
  shows "slack s' x = slack s x - of_bool (o_blob_digest r = x) +
    weight (object_refs x) (map_of (objects s) (o_bucket_id r, o_key r))"
proof -
  from assms(1) obtain
    s': "s' = s\<lparr>objects := AList.update (o_bucket_id r, o_key r) row (objects s)\<rparr>" and
    "o_blob_digest row = o_blob_digest r"
    by (elim upsert_object_InrE)
  with assms(2) show ?thesis by (simp add: slack_tables tally_update)
qed

lemma delete_object_row_simps [simp]:
  "objects (delete_object_row b k s) = AList.delete (b, k) (objects s)"
  "versions (delete_object_row b k s) = versions s"
  "buckets (delete_object_row b k s) = buckets s"
  "settings (delete_object_row b k s) = settings s"
  "uploads (delete_object_row b k s) = uploads s"
  "parts (delete_object_row b k s) = parts s"
  by (simp_all add: delete_object_row_def)

lemma wf_delete_object [simp, intro]: "wf_db s \<Longrightarrow> wf_db (delete_object_row b k s)"
  by (auto simp: delete_object_row_def)

lemma slack_delete_object_row:
  "wf_db s \<Longrightarrow> slack (delete_object_row b k s) x =
     slack s x + weight (object_refs x) (map_of (objects s) (b, k))"
  by (simp add: delete_object_row_def slack_tables tally_delete)

text \<open>Giving back the reference of a row that has just gone restores the balance.\<close>

lemma release_after:
  assumes "\<And>x. slack s1 x = slack s x + of_bool (x = d)" "counts_safe s"
  shows "slack (released d s1) = slack s"
proof -
  from assms have "0 < slack s1 d" by (simp add: counts_safe_iff add_nonneg_pos)
  then have "0 < refcount s1 d" by (rule refcount_pos_of_slack)
  with assms show ?thesis by (simp add: fun_eq_iff slack_release)
qed

subsection \<open>PutObject and GetObject\<close>

definition put_object :: "env \<Rightarrow> object \<Rightarrow> write_options \<Rightarrow> db \<Rightarrow> db_error + object \<times> db" where
  "put_object e obj opts s =
     (let previous = read_current s (o_bucket_id obj) (o_key obj);
          s1 = retain_blob e (o_blob_digest obj) (o_size obj) s
      in rbind (supersede e previous opts s1) (\<lambda>(vid, s2).
         rbind (upsert_object e 1 (obj\<lparr>o_version_id := vid\<rparr>) s2) (\<lambda>(row, s3).
         Inr (row, case previous of None \<Rightarrow> s3 | Some p \<Rightarrow> released (o_blob_digest p) s3))))"

definition get_object :: "db \<Rightarrow> string \<Rightarrow> string \<Rightarrow> db_error + object" where
  "get_object s b k =
     (case map_of (objects s) (b, k) of None \<Rightarrow> Inl ErrObjectNotFound | Some r \<Rightarrow> Inr r)"

lemma put_object_InrE:
  assumes "put_object e obj opts s = Inr (row, s')"
  obtains vid s2 s3 where
    "supersede e (read_current s (o_bucket_id obj) (o_key obj)) opts
       (retain_blob e (o_blob_digest obj) (o_size obj) s) = Inr (vid, s2)"
    "upsert_object e 1 (obj\<lparr>o_version_id := vid\<rparr>) s2 = Inr (row, s3)"
    "s' = (case read_current s (o_bucket_id obj) (o_key obj) of
       None \<Rightarrow> s3 | Some p \<Rightarrow> released (o_blob_digest p) s3)"
  using assms by (auto simp: put_object_def result_iff Let_def split: prod.splits)

lemma put_object_balanced:
  assumes "put_object e obj opts s = Inr (row, s')" "wf_db s" "counts_safe s"
  shows "wf_db s' \<and> slack s' = slack s"
proof -
  let ?cur = "read_current s (o_bucket_id obj) (o_key obj)"
  let ?s1 = "retain_blob e (o_blob_digest obj) (o_size obj) s"
  obtain vid s2 s3 where sup: "supersede e ?cur opts ?s1 = Inr (vid, s2)"
    and up: "upsert_object e 1 (obj\<lparr>o_version_id := vid\<rparr>) s2 = Inr (row, s3)"
    and s': "s' = (case ?cur of None \<Rightarrow> s3 | Some p \<Rightarrow> released (o_blob_digest p) s3)"
    using assms(1) by (rule put_object_InrE)
  have wf1: "wf_db ?s1" using assms(2) by simp
  note s2 = supersede_balanced [OF sup wf1]
  have wf3: "wf_db s3"
    by (rule wf_upsert_object [OF up s2(1)]) (simp add: supersede_vid_not_null [OF sup])
  have sl3: "slack s3 x = slack s x +
      weight (object_refs x) (map_of (objects s) (o_bucket_id obj, o_key obj))" for x
    using slack_upsert_object [OF up s2(1), of x] s2(2,3) by (auto simp: slack_retain)
  show ?thesis
  proof (cases "map_of (objects s) (o_bucket_id obj, o_key obj)")
    case None
    with sl3 wf3 show ?thesis by (simp add: s' read_current_def fun_eq_iff)
  next
    case (Some p)
    with sl3 have "slack s3 x = slack s x + of_bool (x = o_blob_digest p)" for x by (auto simp: eq_commute)
    from release_after [OF this assms(3)] Some wf3 show ?thesis by (simp add: s' read_current_def)
  qed
qed

subsection \<open>DeleteObject\<close>

record deletion =
  d_deleted :: bool
  d_marker_version_id :: string
  d_delete_marker :: bool

definition delete_marker :: "string \<Rightarrow> string \<Rightarrow> string \<Rightarrow> string \<Rightarrow> object_version" where
  "delete_marker b k vid actor =
     \<lparr>v_id = [], v_bucket_id = b, v_key = k, v_version_id = vid, v_blob_digest = None, v_size = 0,
      v_etag = [], v_content_type = [], v_metadata = [], v_is_delete_marker = True,
      v_created_at = zero_time, v_created_by = actor\<rparr>"

text \<open>
  The versioned half: the current state is preserved, then the marker is written. The preserved
  state takes row id 0 and random buffer 0, the marker row id 1 and random buffer 1.
\<close>

definition write_marker ::
  "env \<Rightarrow> string \<Rightarrow> string \<Rightarrow> write_options \<Rightarrow> db \<Rightarrow> db_error + string \<times> db" where
  "write_marker e b k opts s =
     rbind (supersede e (read_current s b k) opts s) (\<lambda>(_, s1).
     rbind (if wo_versioning opts = VersioningEnabled
            then rbind (new_version_id e 1) (\<lambda>vid. Inr (vid, s1))
            else Inr (null_version_id, replace_null_version b k s1)) (\<lambda>(marker_id, s2).
     rbind (record_version e 1 2 (delete_marker b k marker_id (wo_actor opts)) s2) (\<lambda>(m, s3).
     Inr (external_version_id (v_version_id m), s3))))"

definition delete_object ::
  "env \<Rightarrow> string \<Rightarrow> string \<Rightarrow> write_options \<Rightarrow> db \<Rightarrow> db_error + deletion \<times> db" where
  "delete_object e b k opts s =
     rbind (if configured (wo_versioning opts) then write_marker e b k opts s else Inr ([], s))
       (\<lambda>(marker, s1).
     let res = \<lparr>d_deleted = configured (wo_versioning opts), d_marker_version_id = marker,
                d_delete_marker = configured (wo_versioning opts)\<rparr>
     in case read_current s b k of
          None \<Rightarrow> Inr (res, s1)
        | Some removed \<Rightarrow>
            Inr (res\<lparr>d_deleted := True\<rparr>, released (o_blob_digest removed) (delete_object_row b k s1)))"

lemma write_marker_InrE:
  assumes "write_marker e b k opts s = Inr (marker, s')"
  obtains vid s1 s2 mid m where
    "supersede e (read_current s b k) opts s = Inr (vid, s1)"
    "wo_versioning opts = VersioningEnabled \<and> new_version_id e 1 = Inr mid \<and> s2 = s1 \<or>
     wo_versioning opts \<noteq> VersioningEnabled \<and> mid = null_version_id \<and>
       s2 = replace_null_version b k s1"
    "record_version e 1 2 (delete_marker b k mid (wo_actor opts)) s2 = Inr (m, s')"
    "marker = external_version_id (v_version_id m)"
proof (cases "wo_versioning opts = VersioningEnabled")
  case True
  with assms show ?thesis
    by (auto simp: write_marker_def result_iff intro!: that [of _ _ _ _])
next
  case False
  with assms show ?thesis
    by (auto simp: write_marker_def result_iff intro!: that [of _ _ _ _])
qed

lemma write_marker_balanced:
  assumes "write_marker e b k opts s = Inr (marker, s')" "wf_db s" "counts_safe s"
  shows "wf_db s'" "slack s' = slack s" "objects s' = objects s" "buckets s' = buckets s"
proof -
  obtain vid s1 s2 mid m where
    sup: "supersede e (read_current s b k) opts s = Inr (vid, s1)" and
    s2: "s2 = s1 \<or> s2 = replace_null_version b k s1" and
    rv: "record_version e 1 2 (delete_marker b k mid (wo_actor opts)) s2 = Inr (m, s')"
    using assms(1) by (elim write_marker_InrE) auto
  note b1 = supersede_balanced [OF sup assms(2)]
  have "counts_safe s1" using b1 assms(3) counts_safe_cong by blast
  note b2 = replace_null_version_balanced [OF b1(1) this]
  from s2 have b2': "wf_db s2" "slack s2 = slack s" "objects s2 = objects s"
    "buckets s2 = buckets s"
    using b1 b2 by auto
  note b3 = record_version_balanced [OF rv b2'(1)]
  from b3 b2' show "wf_db s'" "slack s' = slack s" "objects s' = objects s"
    "buckets s' = buckets s" by simp_all
qed

lemma delete_object_InrE:
  assumes "delete_object e b k opts s = Inr (res, s')"
  obtains marker s1 where
    "if configured (wo_versioning opts) then write_marker e b k opts s = Inr (marker, s1)
     else marker = [] \<and> s1 = s"
    "s' = (case map_of (objects s) (b, k) of None \<Rightarrow> s1
           | Some r \<Rightarrow> released (o_blob_digest r) (delete_object_row b k s1))"
    "res = \<lparr>d_deleted = configured (wo_versioning opts) \<or> map_of (objects s) (b, k) \<noteq> None,
            d_marker_version_id = marker, d_delete_marker = configured (wo_versioning opts)\<rparr>"
  using assms
  by (auto simp: delete_object_def result_iff Let_def read_current_def split: prod.splits if_splits option.splits)

lemma delete_object_balanced:
  assumes "delete_object e b k opts s = Inr (res, s')" "wf_db s" "counts_safe s"
  shows "wf_db s' \<and> slack s' = slack s"
proof -
  obtain marker s1 where
    s1: "if configured (wo_versioning opts) then write_marker e b k opts s = Inr (marker, s1)
     else marker = [] \<and> s1 = s" and
    s': "s' = (case map_of (objects s) (b, k) of None \<Rightarrow> s1
           | Some r \<Rightarrow> released (o_blob_digest r) (delete_object_row b k s1))"
    using assms(1) by (rule delete_object_InrE)
  from s1 have b1: "wf_db s1" "slack s1 = slack s" "objects s1 = objects s"
    using write_marker_balanced assms(2,3) by (auto split: if_splits)
  show ?thesis
  proof (cases "map_of (objects s) (b, k)")
    case (Some p)
    have "slack (delete_object_row b k s1) x = slack s x + of_bool (x = o_blob_digest p)" for x
      using b1 Some by (auto simp: slack_delete_object_row)
    from release_after [OF this assms(3)] b1 Some show ?thesis by (simp add: s')
  qed (use b1 in \<open>simp add: s'\<close>)
qed

lemma delete_object_buckets:
  assumes "delete_object e b k opts s = Inr (res, s')" "wf_db s" "counts_safe s"
  shows "buckets s' = buckets s"
  using assms(1)
  by (rule delete_object_InrE)
    (use write_marker_balanced(4) assms(2,3) in \<open>auto split: option.splits if_splits\<close>)

lemma delete_object_gone:
  assumes "delete_object e b k opts s = Inr (res, s')" "wf_db s" "counts_safe s"
  shows "get_object s' b k = Inl ErrObjectNotFound \<and>
    (\<forall>k'. k' \<noteq> k \<longrightarrow> get_object s' b k' = get_object s b k')"
  using assms(1)
  by (rule delete_object_InrE)
    (use write_marker_balanced(3) assms(2,3) in
      \<open>auto simp: get_object_def delete_conv' split: option.splits if_splits\<close>)

subsection \<open>What a write leaves\<close>

text \<open>What a reader sees of a version: everything but row ids and times.\<close>

definition contents :: "object \<Rightarrow> string \<times> nat \<times> string \<times> string \<times> metadata" where
  "contents r = (o_blob_digest r, o_size r, o_etag r, o_content_type r, o_metadata r)"

lemma put_object_reads_back:
  assumes "put_object e obj opts s = Inr (row, s')"
  shows "get_object s' (o_bucket_id obj) (o_key obj) = Inr row \<and> contents row = contents obj"
proof -
  obtain vid s2 s3 where
    up: "upsert_object e 1 (obj\<lparr>o_version_id := vid\<rparr>) s2 = Inr (row, s3)" and
    s': "objects s' = objects s3"
    using assms by (elim put_object_InrE) (auto split: option.splits)
  from up show ?thesis
    by (rule upsert_object_InrE) (auto simp: s' get_object_def update_conv' contents_def)
qed

lemma put_object_others:
  assumes "put_object e obj opts s = Inr (row, s')" "wf_db s" "(b, k) \<noteq> (o_bucket_id obj, o_key obj)"
  shows "map_of (objects s') (b, k) = map_of (objects s) (b, k)"
proof -
  obtain vid s2 s3 where
    sup: "supersede e (read_current s (o_bucket_id obj) (o_key obj)) opts
       (retain_blob e (o_blob_digest obj) (o_size obj) s) = Inr (vid, s2)" and
    up: "upsert_object e 1 (obj\<lparr>o_version_id := vid\<rparr>) s2 = Inr (row, s3)" and
    s': "objects s' = objects s3"
    using assms(1) by (elim put_object_InrE) (auto split: option.splits)
  have "objects s2 = objects s" using supersede_balanced(3) [OF sup] assms(2) by simp
  with up s' assms(3) show ?thesis by (elim upsert_object_InrE) (auto simp: update_conv')
qed

interpretation put_tx: accounted "put_object e obj opts" for e obj opts
  by unfold_locales (rule put_object_balanced)

interpretation delete_tx: accounted "delete_object e b k opts" for e b k opts
  by unfold_locales (rule delete_object_balanced)

end
