(* ===== verification/Version_Access.thy ===== *)
theory Version_Access
  imports Objects
begin

text \<open>
  Addressing one version of a key (\<^verbatim>\<open>internal/db/version_access.go\<close>): reading it wherever it lives,
  deleting it for good, and promoting the newest remaining version when nothing is current.
\<close>

subsection \<open>Reading a version\<close>

definition version_or_null :: "string \<Rightarrow> string" where
  "version_or_null stored = (if stored = [] then null_version_id else stored)"

text \<open>
  A version row that is no marker has a blob (a constraint of the table); the code dereferences
  the pointer without a check, so the missing case, which no database has, is an error here.
\<close>

definition get_object_version :: "db \<Rightarrow> string \<Rightarrow> string \<Rightarrow> string \<Rightarrow> db_error + object" where
  "get_object_version s b k version_id =
     (let stored = internal_version_id version_id in
      case (case read_current s b k of
              Some cur \<Rightarrow> if o_version_id cur = stored then Some cur else None
            | None \<Rightarrow> None) of
        Some cur \<Rightarrow> Inr cur
      | None \<Rightarrow>
          rbind (get_version s b k (version_or_null stored)) (\<lambda>v.
          if v_is_delete_marker v then Inl ErrIsDeleteMarker
          else case v_blob_digest v of
              None \<Rightarrow> Inl (ErrConstraint ''nil dereference'')
            | Some d \<Rightarrow> Inr \<lparr>o_id = [], o_bucket_id = b, o_key = k, o_blob_digest = d,
                o_size = v_size v, o_etag = v_etag v, o_content_type = v_content_type v,
                o_metadata = v_metadata v, o_version_id = stored, o_created_at = v_created_at v,
                o_updated_at = v_created_at v\<rparr>))"

subsection \<open>Promotion\<close>

text \<open>The history of a key in the order \<^verbatim>\<open>created_at DESC, id DESC\<close>.\<close>

definition history :: "db \<Rightarrow> string \<Rightarrow> string \<Rightarrow> object_version list" where
  "history s b k =
     sort_key (\<lambda>v. Desc (v_created_at v, v_id v))
       (map snd (filter (\<lambda>((b', k', _), _). b' = b \<and> k' = k) (versions s)))"

definition newest_version :: "db \<Rightarrow> string \<Rightarrow> string \<Rightarrow> object_version option" where
  "newest_version s b k = (case history s b k of [] \<Rightarrow> None | v # _ \<Rightarrow> Some v)"

text \<open>
  A plain \<open>INSERT\<close>: unlike \<open>upsert_object\<close> it fails on an existing row. The columns it leaves out
  take their defaults: a fresh id and \<^verbatim>\<open>now()\<close>.
\<close>

definition insert_object :: "env \<Rightarrow> nat \<Rightarrow> object \<Rightarrow> db \<Rightarrow> db_error + db" where
  "insert_object e i r s =
     rbind (object_constraints r s) (\<lambda>_.
     if map_of (objects s) (o_bucket_id r, o_key r) \<noteq> None
     then Inl (ErrConstraint ''objects_bucket_id_key_key'')
     else Inr (s\<lparr>objects := objects s @
       [((o_bucket_id r, o_key r), r\<lparr>o_id := e_uuid e i, o_created_at := e_now e, o_updated_at := e_now e\<rparr>)]\<rparr>))"

definition promoted_object :: "string \<Rightarrow> string \<Rightarrow> object_version \<Rightarrow> string \<Rightarrow> object" where
  "promoted_object b k v d =
     \<lparr>o_id = [], o_bucket_id = b, o_key = k, o_blob_digest = d, o_size = v_size v,
      o_etag = v_etag v, o_content_type = v_content_type v, o_metadata = v_metadata v,
      o_version_id = internal_version_id (v_version_id v), o_created_at = zero_time,
      o_updated_at = zero_time\<rparr>"

text \<open>\<open>DELETE ... WHERE id = $1\<close>: the row id is the primary key of the versions.\<close>

definition delete_version_by_id :: "string \<Rightarrow> db \<Rightarrow> db" where
  "delete_version_by_id i s = s\<lparr>versions := filter (\<lambda>(_, v). v_id v \<noteq> i) (versions s)\<rparr>"

definition promote_newest_version :: "env \<Rightarrow> string \<Rightarrow> string \<Rightarrow> db \<Rightarrow> db_error + db" where
  "promote_newest_version e b k s =
     (case newest_version s b k of
        None \<Rightarrow> Inr s
      | Some v \<Rightarrow>
          if v_is_delete_marker v then Inr s
          else case v_blob_digest v of
              None \<Rightarrow> Inl (ErrConstraint ''nil dereference'')
            | Some d \<Rightarrow>
                rbind (insert_object e 0 (promoted_object b k v d) (retain_blob e d (v_size v) s)) (\<lambda>s1.
                Inr (released d (delete_version_by_id (v_id v) s1))))"

subsection \<open>Deleting a version\<close>

definition delete_version_row :: "string \<Rightarrow> string \<Rightarrow> string \<Rightarrow> db \<Rightarrow> db_error + object_version \<times> db" where
  "delete_version_row b k v s =
     (case map_of (versions s) (b, k, v) of
        None \<Rightarrow> Inl ErrVersionNotFound
      | Some r \<Rightarrow>
          let s1 = s\<lparr>versions := AList.delete (b, k, v) (versions s)\<rparr>
          in Inr (r, case v_blob_digest r of None \<Rightarrow> s1 | Some d \<Rightarrow> released d s1))"

definition delete_object_version ::
  "env \<Rightarrow> string \<Rightarrow> string \<Rightarrow> string \<Rightarrow> db \<Rightarrow> db_error + deletion \<times> db" where
  "delete_object_version e b k version_id s =
     (let stored = internal_version_id version_id;
          current = read_current s b k;
          is_current = (case current of None \<Rightarrow> False | Some cur \<Rightarrow> o_version_id cur = stored)
      in rbind (case current of
             Some cur \<Rightarrow>
               if o_version_id cur = stored
               then Inr (False, released (o_blob_digest cur) (delete_object_row b k s))
               else rbind (delete_version_row b k (version_or_null stored) s)
                 (\<lambda>(v, s1). Inr (v_is_delete_marker v, s1))
           | None \<Rightarrow> rbind (delete_version_row b k (version_or_null stored) s)
               (\<lambda>(v, s1). Inr (v_is_delete_marker v, s1))) (\<lambda>(marker, s1).
         rbind (if current = None \<or> is_current then promote_newest_version e b k s1 else Inr s1) (\<lambda>s2.
         Inr (\<lparr>d_deleted = True, d_marker_version_id = [], d_delete_marker = marker\<rparr>, s2))))"

subsection \<open>Lemmas on the pieces\<close>

lemma set_history:
  assumes "wf_db s"
  shows "v \<in> set (history s b k) \<longleftrightarrow> map_of (versions s) (b, k, v_version_id v) = Some v"
proof -
  have "v \<in> set (history s b k) \<longleftrightarrow> (\<exists>vid. ((b, k, vid), v) \<in> set (versions s))"
    by (simp add: history_def image_iff Bex_def)
  also have "\<dots> \<longleftrightarrow> ((b, k, v_version_id v), v) \<in> set (versions s)"
  proof -
    have "vid = v_version_id v" if "((b, k, vid), v) \<in> set (versions s)" for vid
      using wf_rows(2) [OF assms that] by (simp add: row_defs)
    then show ?thesis by blast
  qed
  finally show ?thesis unfolding keyed_in_set_iff [OF wf_keyed(5) [OF assms]] .
qed

lemma newest_version_Some:
  assumes "newest_version s b k = Some v" "wf_db s"
  shows "map_of (versions s) (b, k, v_version_id v) = Some v"
    and "w \<in> set (history s b k) \<Longrightarrow> (v_created_at w, v_id w) \<le> (v_created_at v, v_id v)"
proof -
  let ?f = "\<lambda>v :: object_version. Desc (v_created_at v, v_id v)"
  let ?rows = "map snd (filter (\<lambda>((b', k', _), _). b' = b \<and> k' = k) (versions s))"
  from assms(1) obtain vs where h: "history s b k = v # vs"
    by (auto simp: newest_version_def split: list.splits)
  then show "map_of (versions s) (b, k, v_version_id v) = Some v"
    by (simp add: set_history [OF assms(2), symmetric])
  have "?rows \<noteq> []" and hd: "hd (sort_key ?f ?rows) = v"
    using h by (auto simp: history_def)
  moreover assume "w \<in> set (history s b k)"
  then have "w \<in> set ?rows" by (simp add: history_def)
  ultimately have "?f v \<le> ?f w" using hd_sort_key_least(2) [of ?rows w ?f] by simp
  then show "(v_created_at w, v_id w) \<le> (v_created_at v, v_id v)" by simp
qed

lemma insert_object_Inr [result_iff]:
  "insert_object e i r s = Inr s' \<longleftrightarrow>
     key_check (o_key r) \<and> has_bucket s (o_bucket_id r) \<and> has_blob s (o_blob_digest r) \<and>
     map_of (objects s) (o_bucket_id r, o_key r) = None \<and>
     s' = s\<lparr>objects := objects s @
       [((o_bucket_id r, o_key r), r\<lparr>o_id := e_uuid e i, o_created_at := e_now e, o_updated_at := e_now e\<rparr>)]\<rparr>"
  by (auto simp: insert_object_def result_iff)

lemma insert_object_balance:
  assumes "insert_object e i r s = Inr s'" "wf_db s" "o_version_id r \<noteq> null_version_id"
  shows "wf_db s'" "slack s' x = slack s x - of_bool (x = o_blob_digest r)"
proof -
  from assms(1) have s': "s' = s\<lparr>objects := objects s @
       [((o_bucket_id r, o_key r), r\<lparr>o_id := e_uuid e i, o_created_at := e_now e, o_updated_at := e_now e\<rparr>)]\<rparr>"
    and "map_of (objects s) (o_bucket_id r, o_key r) = None" "has_bucket s (o_bucket_id r)" "key_check (o_key r)"
    by (auto simp: result_iff)
  with assms(2,3) show "wf_db s'"
    unfolding s' by (intro wf_update_objects) (auto dest: wf_rows simp: row_defs)
  show "slack s' x = slack s x - of_bool (x = o_blob_digest r)"
    by (auto simp: s' slack_tables tally_append)
qed

lemma delete_version_by_id_eq:
  assumes "wf_db s" "map_of (versions s) key = Some v"
  shows "delete_version_by_id (v_id v) s = s\<lparr>versions := AList.delete key (versions s)\<rparr>"
proof -
  have inj: "inj_on (\<lambda>x. v_id (snd x)) (set (versions s))"
    using wf_ids [OF assms(1)] unfolding distinct_map by blast
  have "filter (\<lambda>(_, w). v_id w \<noteq> v_id v) (versions s) = filter (\<lambda>(k', _). key \<noteq> k') (versions s)"
  proof (rule filter_cong [OF refl])
    fix x assume x: "x \<in> set (versions s)"
    obtain k w where kw: "x = (k, w)" by (rule prod.exhaust)
    have "v_id (snd x) = v_id v \<longleftrightarrow> x = (key, v)"
      using inj_on_eq_iff [OF inj x map_of_in_set [OF assms(2)]] unfolding snd_conv .
    moreover have "map_of (versions s) k = Some w"
      using x unfolding kw keyed_in_set_iff [OF wf_keyed(5) [OF assms(1)]] .
    then have "k = key \<longleftrightarrow> x = (key, v)" using assms(2) unfolding kw by auto
    ultimately have "v_id w = v_id v \<longleftrightarrow> key = k" unfolding kw snd_conv by blast
    then show "(\<lambda>(_, w). v_id w \<noteq> v_id v) x = (\<lambda>(k', _). key \<noteq> k') x"
      by (simp add: kw)
  qed
  then show ?thesis by (simp add: delete_version_by_id_def AList.delete_eq)
qed

lemma delete_version_row_balanced:
  assumes "delete_version_row b k v s = Inr (r, s')" "wf_db s" "counts_safe s"
  shows "wf_db s'" "slack s' = slack s" "objects s' = objects s"
    "versions s' = AList.delete (b, k, v) (versions s)" "map_of (versions s) (b, k, v) = Some r"
proof -
  let ?s1 = "s\<lparr>versions := AList.delete (b, k, v) (versions s)\<rparr>"
  from assms(1) have row: "map_of (versions s) (b, k, v) = Some r"
    and s': "s' = (case v_blob_digest r of None \<Rightarrow> ?s1 | Some d \<Rightarrow> released d ?s1)"
    by (auto simp: delete_version_row_def Let_def split: option.splits)
  show "map_of (versions s) (b, k, v) = Some r" by (rule row)
  show "wf_db s'" "objects s' = objects s" "versions s' = AList.delete (b, k, v) (versions s)"
    using assms(2) by (auto simp: s' split: option.splits)
  have sl: "slack ?s1 x = slack s x + of_bool (v_blob_digest r = Some x)" for x
    using assms(2) row by (simp add: slack_tables tally_delete)
  show "slack s' = slack s"
  proof (cases "v_blob_digest r")
    case None
    with sl show ?thesis by (simp add: s' fun_eq_iff)
  next
    case (Some d)
    then have "slack ?s1 x = slack s x + of_bool (x = d)" for x 
      by (cases "x = d") (simp_all add: sl)
    from release_after [OF this assms(3)] Some show ?thesis by (simp add: s')
  qed
qed

lemma promote_newest_version_cases:
  assumes "promote_newest_version e b k s = Inr s'"
  obtains (absent) "newest_version s b k = None" "s' = s"
  | (marker) v where "newest_version s b k = Some v" "v_is_delete_marker v" "s' = s"
  | (promoted) v d s1 where "newest_version s b k = Some v" "\<not> v_is_delete_marker v"
      "v_blob_digest v = Some d"
      "insert_object e 0 (promoted_object b k v d) (retain_blob e d (v_size v) s) = Inr s1"
      "s' = released d (delete_version_by_id (v_id v) s1)"
proof (cases "newest_version s b k")
  case None
  with assms show ?thesis by (intro absent) (simp_all add: promote_newest_version_def)
next
  case (Some v)
  show ?thesis
  proof (cases "v_is_delete_marker v")
    case True
    with assms Some show ?thesis by (intro marker) (simp_all add: promote_newest_version_def)
  next
    case False
    with assms Some promoted show ?thesis
      by (auto simp: promote_newest_version_def result_iff split: option.splits)
  qed
qed

subsection \<open>Balance\<close>

lemma delete_version_by_id_balance:
  assumes "wf_db s" "map_of (versions s) key = Some v" "v_blob_digest v = Some d"
  shows "wf_db (delete_version_by_id (v_id v) s)"
    "slack (delete_version_by_id (v_id v) s) x = slack s x + of_bool (x = d)"
proof -
  note eq = delete_version_by_id_eq [OF assms(1,2)]
  show "wf_db (delete_version_by_id (v_id v) s)"
    unfolding delete_version_by_id_def by (rule wf_filter_versions [OF assms(1)])
  show "slack (delete_version_by_id (v_id v) s) x = slack s x + of_bool (x = d)"
    using assms by (cases "x = d") (simp_all add: eq slack_tables tally_delete)
qed

lemma promote_newest_version_promoted:
  assumes "newest_version s b k = Some v" "v_blob_digest v = Some d" "wf_db s" "counts_safe s"
    and "insert_object e 0 (promoted_object b k v d) (retain_blob e d (v_size v) s) = Inr s1"
    and s': "s' = released d (delete_version_by_id (v_id v) s1)"
  shows "wf_db s'" "slack s' = slack s"
    "objects s' = objects s @ [((b, k), (promoted_object b k v d)
       \<lparr>o_id := e_uuid e 0, o_created_at := e_now e, o_updated_at := e_now e\<rparr>)]"
    "versions s' = AList.delete (b, k, v_version_id v) (versions s)"
proof -
  let ?s0 = "retain_blob e d (v_size v) s"
  have wf0: "wf_db ?s0" using assms(3) by simp
  have "o_version_id (promoted_object b k v d) \<noteq> null_version_id"
    by (auto simp: promoted_object_def internal_version_id_def null_version_id_def)
  note s1 = insert_object_balance [OF assms(5) wf0 this]
  have obj1: "objects s1 = objects s @ [((b, k), (promoted_object b k v d)
       \<lparr>o_id := e_uuid e 0, o_created_at := e_now e, o_updated_at := e_now e\<rparr>)]"
    and ver1: "versions s1 = versions s"
    using assms(5) by (auto simp: result_iff promoted_object_def)
  have sl1: "slack s1 x = slack s x" for x
    using s1(2) by (simp add: slack_retain promoted_object_def)
  have row: "map_of (versions s1) (b, k, v_version_id v) = Some v"
    using newest_version_Some(1) [OF assms(1,3)] by (simp add: ver1)
  note bal = delete_version_by_id_balance [OF s1(1) row assms(2)]
  show "wf_db s'" unfolding s' using bal(1) by simp
  show "slack s' = slack s"
    unfolding s' by (rule release_after [OF _ assms(4)]) (simp add: bal(2) sl1)
  show "objects s' = objects s @ [((b, k), (promoted_object b k v d)
       \<lparr>o_id := e_uuid e 0, o_created_at := e_now e, o_updated_at := e_now e\<rparr>)]"
    "versions s' = AList.delete (b, k, v_version_id v) (versions s)"
    unfolding s' using obj1 ver1 by (simp_all add: delete_version_by_id_eq [OF s1(1) row])
qed

lemma promote_newest_version_balanced:
  assumes "promote_newest_version e b k s = Inr s'" "wf_db s" "counts_safe s"
  shows "wf_db s' \<and> slack s' = slack s"
  using assms(1)
proof (cases rule: promote_newest_version_cases)
  case (promoted v d s1)
  from promote_newest_version_promoted [OF promoted(1,3) assms(2,3) promoted(4,5)] show ?thesis by simp
qed (use assms in simp_all)

lemma delete_object_version_InrE:
  assumes "delete_object_version e b k version_id s = Inr (res, s')"
  obtains (current) r where "map_of (objects s) (b, k) = Some r"
      "o_version_id r = internal_version_id version_id"
      "promote_newest_version e b k (released (o_blob_digest r) (delete_object_row b k s)) = Inr s'"
      "\<not> d_delete_marker res"
  | (noncurrent) r v where "map_of (objects s) (b, k) = Some r"
      "o_version_id r \<noteq> internal_version_id version_id"
      "delete_version_row b k (version_or_null (internal_version_id version_id)) s = Inr (v, s')"
      "d_delete_marker res = v_is_delete_marker v"
  | (deleted) v s1 where "map_of (objects s) (b, k) = None"
      "delete_version_row b k (version_or_null (internal_version_id version_id)) s = Inr (v, s1)"
      "promote_newest_version e b k s1 = Inr s'" "d_delete_marker res = v_is_delete_marker v"
proof (cases "map_of (objects s) (b, k)")
  case None
  with assms show ?thesis
    by (auto simp: delete_object_version_def Let_def read_current_def result_iff intro!: deleted)
next
  case (Some r)
  show ?thesis
  proof (cases "o_version_id r = internal_version_id version_id")
    case True
    with assms Some show ?thesis
      by (auto simp: delete_object_version_def Let_def read_current_def result_iff intro!: current)
  next
    case False
    with assms Some show ?thesis
      by (auto simp: delete_object_version_def Let_def read_current_def result_iff intro!: noncurrent)
  qed
qed

lemma drop_current_balanced:
  assumes "map_of (objects s) (b, k) = Some r" "wf_db s" "counts_safe s"
  shows "wf_db (released (o_blob_digest r) (delete_object_row b k s))"
    "slack (released (o_blob_digest r) (delete_object_row b k s)) = slack s"
proof -
  show "wf_db (released (o_blob_digest r) (delete_object_row b k s))" using assms(2) by simp
  have "slack (delete_object_row b k s) x = slack s x + of_bool (x = o_blob_digest r)" for x
    using assms(1,2) by (cases "x = o_blob_digest r") (simp_all add: slack_delete_object_row)
  from release_after [OF this assms(3)]
  show "slack (released (o_blob_digest r) (delete_object_row b k s)) = slack s" .
qed

lemma delete_object_version_balanced:
  assumes "delete_object_version e b k version_id s = Inr (res, s')" "wf_db s" "counts_safe s"
  shows "wf_db s' \<and> slack s' = slack s"
  using assms(1)
proof (cases rule: delete_object_version_InrE)
  case (current r)
  note bal = drop_current_balanced [OF current(1) assms(2,3)]
  have "counts_safe (released (o_blob_digest r) (delete_object_row b k s))"
    using bal(2) assms(3) counts_safe_cong by blast
  from promote_newest_version_balanced [OF current(3) bal(1) this] bal(2) show ?thesis by simp
next
  case (noncurrent r v)
  from delete_version_row_balanced [OF noncurrent(3) assms(2,3)] show ?thesis by simp
next
  case (deleted v s1)
  note bal = delete_version_row_balanced [OF deleted(2) assms(2,3)]
  have "counts_safe s1" using bal(2) assms(3) counts_safe_cong by blast
  from promote_newest_version_balanced [OF deleted(3) bal(1) this] bal(2) show ?thesis by simp
qed

subsection \<open>Nothing addressable is lost on an enabled bucket\<close>

lemma record_version_lookup:
  assumes "record_version e i j v s = Inr (r, s')"
  shows "map_of (versions s') = (map_of (versions s))((v_bucket_id v, v_key v, v_version_id r) \<mapsto> r)"
  unfolding record_version_row(1) [OF assms] by (rule map_of_append_row [OF record_version_row(2) [OF assms]])

lemma record_version_keeps:
  assumes "record_version e i j v s = Inr (r, s')" "map_of (versions s) x = Some w"
  shows "map_of (versions s') x = Some w"
  using record_version_row(2) [OF assms(1)] assms(2) by (auto simp: record_version_lookup [OF assms(1)])

lemma supersede_keeps:
  assumes "supersede e cur opts s = Inr (vid, s')" "map_of (versions s) x = Some w"
  shows "map_of (versions s') x = Some w"
  using assms(1) by (cases rule: supersede_InrE) (use assms(2) record_version_keeps in auto)

lemma record_version_contents:
  assumes "record_version e i j v s = Inr (r, s')"
  shows "v_size r = v_size v" "v_etag r = v_etag v" "v_content_type r = v_content_type v"
    "v_metadata r = v_metadata v"
  using assms by (auto elim!: record_version_InrE)

lemma supersede_preserved:
  assumes "supersede e (Some o1) opts s = Inr (vid, s')" "preserves (Some o1) opts"
  obtains v where
    "map_of (versions s') (o_bucket_id o1, o_key o1, version_or_null (o_version_id o1)) = Some v"
    "v_blob_digest v = Some (o_blob_digest o1)" "\<not> v_is_delete_marker v" "v_size v = o_size o1"
    "v_etag v = o_etag o1" "v_content_type v = o_content_type o1" "v_metadata v = o_metadata o1"
  using assms(1)
proof (cases rule: supersede_InrE)
  case (preserved o2 r)
  note row = record_version_row [OF preserved(3)] and con = record_version_contents [OF preserved(3)]
  have "v_version_id r = version_or_null (o_version_id o1)"
    using row(3) preserved(1) by (simp add: superseded_version_def version_or_null_def split: if_splits)
  then show ?thesis
    using row(4,7) con preserved(1)
    by (intro that [of r]) (simp_all add: record_version_lookup [OF preserved(3)] superseded_version_def)
qed (use assms(2) in simp)

text \<open>Where an addressed version is found, read off the tables.\<close>

definition version_found :: "db \<Rightarrow> string \<Rightarrow> string \<Rightarrow> string \<Rightarrow> object_version \<Rightarrow> bool" where
  "version_found s b k stored v \<longleftrightarrow>
     map_of (versions s) (b, k, version_or_null stored) = Some v \<and> \<not> v_is_delete_marker v"

definition version_contents :: "object_version \<Rightarrow> string option \<times> nat \<times> string \<times> string \<times> metadata" where
  "version_contents v = (v_blob_digest v, v_size v, v_etag v, v_content_type v, v_metadata v)"

lemma get_object_version_InrE:
  assumes "get_object_version s b k vid = Inr r"
  obtains (current) cur where "read_current s b k = Some cur"
      "o_version_id cur = internal_version_id vid" "r = cur"
  | (stored) v where "version_found s b k (internal_version_id vid) v"
      "version_contents v = (Some (o_blob_digest r), snd (contents r))"
  using assms
  by (auto simp: get_object_version_def Let_def result_iff get_version_def version_found_def
      version_contents_def contents_def split: option.splits if_splits)

lemma get_object_version_stored:
  assumes "version_found s b k (internal_version_id vid) v" "v_blob_digest v = Some d"
    "\<And>cur. read_current s b k = Some cur \<Longrightarrow> o_version_id cur \<noteq> internal_version_id vid"
  shows "\<exists>r. get_object_version s b k vid = Inr r \<and>
    version_contents v = (Some (o_blob_digest r), snd (contents r))"
  using assms
  by (auto simp: get_object_version_def Let_def get_version_def version_found_def
      version_contents_def contents_def split: option.splits)

lemma contents_via_version:
  "(Some (o_blob_digest r), snd (contents r)) = (Some (o_blob_digest r'), snd (contents r')) \<Longrightarrow>
   contents r = contents r'"
  by (simp add: contents_def)

lemma read_current_eq [simp]:
  "read_current s b k = Some cur \<longleftrightarrow> (\<exists>r. map_of (objects s) (b, k) = Some r \<and>
     cur = r\<lparr>o_id := [], o_bucket_id := b, o_key := k, o_created_at := zero_time\<rparr>)"
  "read_current s b k = None \<longleftrightarrow> map_of (objects s) (b, k) = None"
  by (auto simp: read_current_def)

text \<open>
  The step both writes share: the versions of \<open>s\<close> are kept in \<open>s'\<close>, the current one of a key whose
  row changes has moved into them, and the new current one has another id.
\<close>

lemma addressable_step:
  assumes "get_object_version s b k vid = Inr r"
    and keep: "\<And>x w. map_of (versions s) x = Some w \<Longrightarrow> map_of (versions s') x = Some w"
    and unchanged: "\<not> touched \<Longrightarrow> map_of (objects s') (b, k) = map_of (objects s) (b, k)"
    and moved: "\<And>cur. touched \<Longrightarrow> read_current s b k = Some cur \<Longrightarrow>
      \<exists>v. version_found s' b k (o_version_id cur) v \<and>
        version_contents v = (Some (o_blob_digest cur), snd (contents cur))"
    and fresh: "\<And>cur. touched \<Longrightarrow> read_current s' b k = Some cur \<Longrightarrow>
      o_version_id cur \<noteq> internal_version_id vid"
  shows "\<exists>r'. get_object_version s' b k vid = Inr r' \<and> contents r' = contents r"
proof -
  have at_version: "\<exists>r'. get_object_version s' b k vid = Inr r' \<and> contents r' = contents r"
    if v: "version_found s' b k (internal_version_id vid) v"
      "version_contents v = (Some (o_blob_digest r), snd (contents r))"
      and "\<And>cur. read_current s' b k = Some cur \<Longrightarrow> o_version_id cur \<noteq> internal_version_id vid" for v
  proof -
    from v(2) have "v_blob_digest v = Some (o_blob_digest r)" by (simp add: version_contents_def)
    from get_object_version_stored [OF v(1) this that(3)] v(2) show ?thesis
      by (metis contents_via_version)
  qed
  show ?thesis
  proof (cases touched)
    case True
    from assms(1) show ?thesis
    proof (cases rule: get_object_version_InrE)
      case (current cur)
      then show ?thesis using moved [OF True current(1)] at_version fresh [OF True] by metis
    next
      case (stored v)
      from stored(1) keep have "version_found s' b k (internal_version_id vid) v"
        by (simp add: version_found_def)
      from at_version [OF this stored(2) fresh [OF True]] show ?thesis .
    qed
  next
    case False
    have same: "read_current s' b k = read_current s b k"
      using unchanged [OF False] by (simp add: read_current_def)
    show ?thesis
    proof (cases "\<exists>cur. read_current s b k = Some cur \<and> o_version_id cur = internal_version_id vid")
      case True
      then obtain cur where "read_current s b k = Some cur" "o_version_id cur = internal_version_id vid"
        by blast
      then have "get_object_version s' b k vid = get_object_version s b k vid"
        unfolding get_object_version_def same by (simp del: read_current_eq)
      with assms(1) show ?thesis by simp
    next
      case False
      with assms(1) obtain v where v: "version_found s b k (internal_version_id vid) v"
        "version_contents v = (Some (o_blob_digest r), snd (contents r))"
        by (cases rule: get_object_version_InrE) auto
      with keep have "version_found s' b k (internal_version_id vid) v"
        by (simp add: version_found_def)
      from at_version [OF this v(2)] False show ?thesis unfolding same by blast
    qed
  qed
qed

lemma supersede_moved:
  assumes "supersede e (read_current s b k) opts s1 = Inr (vid, s2)" "read_current s b k = Some cur"
    "wo_versioning opts = VersioningEnabled"
  shows "\<exists>v. version_found s2 b k (o_version_id cur) v \<and>
    version_contents v = (Some (o_blob_digest cur), snd (contents cur))"
proof -
  have key: "o_bucket_id cur = b" "o_key cur = k" using assms(2) by auto
  have "preserves (Some cur) opts" by (simp add: preserves_def assms(3))
  with assms(1,2) obtain v where
    "map_of (versions s2) (o_bucket_id cur, o_key cur, version_or_null (o_version_id cur)) = Some v"
    "v_blob_digest v = Some (o_blob_digest cur)" "\<not> v_is_delete_marker v" "v_size v = o_size cur"
    "v_etag v = o_etag cur" "v_content_type v = o_content_type cur" "v_metadata v = o_metadata cur"
    by (metis supersede_preserved)
  then show ?thesis unfolding key
    by (intro exI [of _ v]) (simp add: version_found_def version_contents_def contents_def)
qed

lemma put_object_keeps_versions:
  assumes "put_object e obj opts s = Inr (row, s')" "wf_db s"
    and "wo_versioning opts = VersioningEnabled"
    and "get_object_version s b k vid = Inr r"
    and "(b, k) = (o_bucket_id obj, o_key obj) \<Longrightarrow> o_version_id row \<noteq> internal_version_id vid"
  shows "\<exists>r'. get_object_version s' b k vid = Inr r' \<and> contents r' = contents r"
proof -
  let ?cur = "read_current s (o_bucket_id obj) (o_key obj)"
  obtain id' s2 s3 where
    sup: "supersede e ?cur opts (retain_blob e (o_blob_digest obj) (o_size obj) s) = Inr (id', s2)" and
    up: "upsert_object e 1 (obj\<lparr>o_version_id := id'\<rparr>) s2 = Inr (row, s3)" and
    s': "s' = (case ?cur of None \<Rightarrow> s3 | Some p \<Rightarrow> released (o_blob_digest p) s3)"
    using assms(1) by (rule put_object_InrE)
  from up s' have ver: "versions s' = versions s2"
    by (elim upsert_object_InrE) (auto split: option.splits)
  have now: "map_of (objects s') (o_bucket_id obj, o_key obj) = Some row"
    using put_object_reads_back [OF assms(1)] by (simp add: get_object_def split: option.splits)
  show ?thesis
  proof (rule addressable_step [OF assms(4), where touched = "(b, k) = (o_bucket_id obj, o_key obj)"])
    fix x w assume "map_of (versions s) x = Some w"
    then show "map_of (versions s') x = Some w" unfolding ver by (intro supersede_keeps [OF sup]) simp
  next
    assume "(b, k) \<noteq> (o_bucket_id obj, o_key obj)"
    from put_object_others [OF assms(1,2) this]
    show "map_of (objects s') (b, k) = map_of (objects s) (b, k)" .
  next
    fix cur assume "(b, k) = (o_bucket_id obj, o_key obj)" "read_current s b k = Some cur"
    with supersede_moved [OF sup _ assms(3)]
    show "\<exists>v. version_found s' b k (o_version_id cur) v \<and>
        version_contents v = (Some (o_blob_digest cur), snd (contents cur))"
      by (simp add: version_found_def ver)
  next
    fix cur assume "(b, k) = (o_bucket_id obj, o_key obj)" "read_current s' b k = Some cur"
    with assms(5) now show "o_version_id cur \<noteq> internal_version_id vid" by auto
  qed
qed

lemma delete_object_keeps_versions:
  assumes "delete_object e b k opts s = Inr (res, s')" "wf_db s" "counts_safe s"
    and "wo_versioning opts = VersioningEnabled"
    and "get_object_version s b' k' vid = Inr r"
  shows "\<exists>r'. get_object_version s' b' k' vid = Inr r' \<and> contents r' = contents r"
proof -
  obtain marker s1 where wm: "write_marker e b k opts s = Inr (marker, s1)" and
    s': "s' = (case map_of (objects s) (b, k) of None \<Rightarrow> s1
           | Some r \<Rightarrow> released (o_blob_digest r) (delete_object_row b k s1))"
    using assms(1,4) by (elim delete_object_InrE) (auto simp: configured_def)
  obtain id' s2 mid m where
    sup: "supersede e (read_current s b k) opts s = Inr (id', s2)" and
    rv: "record_version e 1 2 (delete_marker b k mid (wo_actor opts)) s2 = Inr (m, s1)"
    using wm assms(4) by (elim write_marker_InrE) auto
  have ver: "versions s' = versions s1" by (auto simp: s' split: option.splits)
  have obj: "map_of (objects s') x = (if x = (b, k) then None else map_of (objects s) x)" for x
    using write_marker_balanced(3) [OF wm assms(2,3)] by (auto simp: s' delete_conv' split: option.splits)
  show ?thesis
  proof (rule addressable_step [OF assms(5), where touched = "(b', k') = (b, k)"])
    fix x w assume "map_of (versions s) x = Some w"
    then show "map_of (versions s') x = Some w"
      unfolding ver by (intro record_version_keeps [OF rv] supersede_keeps [OF sup])
  next
    assume "(b', k') \<noteq> (b, k)"
    then show "map_of (objects s') (b', k') = map_of (objects s) (b', k')" by (auto simp: obj)
  next
    fix cur assume same: "(b', k') = (b, k)" and "read_current s b' k' = Some cur"
    then have "read_current s b k = Some cur" by simp
    from supersede_moved [OF sup this assms(4)] same record_version_keeps [OF rv]
    show "\<exists>v. version_found s' b' k' (o_version_id cur) v \<and>
        version_contents v = (Some (o_blob_digest cur), snd (contents cur))"
      unfolding version_found_def ver by blast
  next
    fix cur assume "(b', k') = (b, k)" "read_current s' b' k' = Some cur"
    then show "o_version_id cur \<noteq> internal_version_id vid" by (simp add: obj)
  qed
qed

subsection \<open>Deleting a delete marker brings the object back\<close>

lemma delete_appended_row:
  "map_of t k = None \<Longrightarrow> AList.delete k (t @ [(k, r)]) = t"
  by (force simp: AList.delete_eq map_of_eq_None_iff filter_id_conv)

lemma delete_marker_writes:
  assumes "delete_object e b k opts s = Inr (res, s1)" "wf_db s" "counts_safe s"
    and "wo_versioning opts = VersioningEnabled" "map_of (objects s) (b, k) = Some r"
  obtains v m where
    "versions s1 = (versions s @ [((b, k, v_version_id v), v)]) @ [((b, k, v_version_id m), m)]"
    "map_of (versions s) (b, k, v_version_id v) = None"
    "map_of (versions s @ [((b, k, v_version_id v), v)]) (b, k, v_version_id m) = None"
    "v_version_id v = version_or_null (o_version_id r)" "v_blob_digest v = Some (o_blob_digest r)"
    "version_contents v = (Some (o_blob_digest r), snd (contents r))" "\<not> v_is_delete_marker v"
    "v_is_delete_marker m" "v_blob_digest m = None"
    "d_marker_version_id res = external_version_id (v_version_id m)"
    "v_created_at v = (if o_updated_at r = zero_time then e_now e else o_updated_at r)"
    "\<exists>mid. new_version_id e 1 = Inr mid \<and> (mid \<noteq> [] \<longrightarrow> v_version_id m = mid)"
proof -
  obtain marker s' where wm: "write_marker e b k opts s = Inr (marker, s')" and
    s1: "s1 = released (o_blob_digest r) (delete_object_row b k s')" and
    res: "d_marker_version_id res = marker"
    using assms(1,4,5) by (elim delete_object_InrE) (auto simp: configured_def)
  obtain vid s2 mid m where
    sup: "supersede e (read_current s b k) opts s = Inr (vid, s2)" and
    mid: "new_version_id e 1 = Inr mid" and
    rv: "record_version e 1 2 (delete_marker b k mid (wo_actor opts)) s2 = Inr (m, s')" and
    marker: "marker = external_version_id (v_version_id m)"
    using wm assms(4) by (elim write_marker_InrE) auto
  from sup show ?thesis
  proof (cases rule: supersede_InrE)
    case kept
    then show ?thesis using assms(4,5) by (simp add: preserves_def read_current_def)
  next
    case (preserved o1 v)
    from preserved(1) assms(5) have
      o1: "o1 = r\<lparr>o_id := [], o_bucket_id := b, o_key := k, o_created_at := zero_time\<rparr>" by simp
    note row = record_version_row [OF preserved(3)] and con = record_version_contents [OF preserved(3)]
    note mrow = record_version_row [OF rv]
    have vid: "v_version_id v = version_or_null (o_version_id r)"
      using row(3) by (simp add: superseded_version_def version_or_null_def o1 split: if_splits)
    have created: "v_created_at v = (if o_updated_at r = zero_time then e_now e else o_updated_at r)"
      using preserved(3) by (rule record_version_InrE) (simp add: superseded_version_def o1)
    have ver2: "versions s2 = versions s @ [((b, k, v_version_id v), v)]"
      using row(1) by (simp add: superseded_version_def o1)
    show ?thesis
    proof (rule that [of v m])
      show "versions s1 = (versions s @ [((b, k, v_version_id v), v)]) @ [((b, k, v_version_id m), m)]"
        using mrow(1) ver2 by (simp add: s1 delete_marker_def)
      show "map_of (versions s @ [((b, k, v_version_id v), v)]) (b, k, v_version_id m) = None"
        using mrow(2) ver2 by (simp add: delete_marker_def)
      show "\<exists>mid. new_version_id e 1 = Inr mid \<and> (mid \<noteq> [] \<longrightarrow> v_version_id m = mid)"
        using mid mrow(3) by (auto simp: delete_marker_def)
    qed (use row con mrow vid created marker res in
        \<open>simp_all add: superseded_version_def delete_marker_def version_contents_def contents_def o1\<close>)
  qed
qed

lemma history_append:
  "set (history s b k) = {v. \<exists>vid. ((b, k, vid), v) \<in> set (versions s)}"
  by (auto simp: history_def image_iff Bex_def)

lemma newest_version_eqI:
  assumes "wf_db s" "v \<in> set (history s b k)"
    and "\<And>w. w \<in> set (history s b k) \<Longrightarrow> w \<noteq> v \<Longrightarrow> v_created_at w < v_created_at v"
  shows "newest_version s b k = Some v"
proof (cases "newest_version s b k")
  case None
  with assms(2) show ?thesis by (auto simp: newest_version_def split: list.splits)
next
  case (Some w)
  from newest_version_Some(2) [OF Some assms(1,2)]
  have "(v_created_at v, v_id v) \<le> (v_created_at w, v_id w)" .
  then have "v_created_at v \<le> v_created_at w" by (auto simp: less_eq_prod_def)
  moreover have "w \<in> set (history s b k)"
    using newest_version_Some(1) [OF Some assms(1)] by (simp add: set_history [OF assms(1)])
  ultimately show ?thesis using assms(3) [of w] Some by force
qed

lemma promote_newest_version_returns:
  assumes "newest_version s b k = Some v" "\<not> v_is_delete_marker v" "v_blob_digest v = Some d"
    and "map_of (objects s) (b, k) = None" "key_check k" "has_bucket s b"
    and "wf_db s" "counts_safe s"
  shows "\<exists>s'. promote_newest_version e b k s = Inr s' \<and> wf_db s' \<and> slack s' = slack s \<and>
    versions s' = AList.delete (b, k, v_version_id v) (versions s) \<and>
    map_of (objects s') (b, k) = Some ((promoted_object b k v d)
      \<lparr>o_id := e_uuid e 0, o_created_at := e_now e, o_updated_at := e_now e\<rparr>)"
proof -
  let ?r = "(promoted_object b k v d)\<lparr>o_id := e_uuid e 0, o_created_at := e_now e, o_updated_at := e_now e\<rparr>"
  let ?s0 = "retain_blob e d (v_size v) s"
  define s1 where "s1 = ?s0\<lparr>objects := objects ?s0 @ [((b, k), ?r)]\<rparr>"
  have ins: "insert_object e 0 (promoted_object b k v d) ?s0 = Inr s1"
    unfolding insert_object_Inr s1_def using assms(4-6) by (simp add: promoted_object_def)
  define s' where "s' = released d (delete_version_by_id (v_id v) s1)"
  have run: "promote_newest_version e b k s = Inr s'"
    using ins assms(1-3) by (simp add: promote_newest_version_def s'_def)
  note res = promote_newest_version_promoted [OF assms(1,3,7,8) ins s'_def]
  have "map_of (objects s') (b, k) = Some ?r"
    unfolding res(3) map_of_append_row [OF assms(4)] by simp
  with run res show ?thesis by blast
qed

lemma undelete_promotes:
  assumes "wf_db s" "counts_safe s" "map_of (objects s) (b, k) = None" "key_check k" "has_bucket s b"
    and ver: "versions s = t @ [((b, k, v_version_id v), v)]" "map_of t (b, k, v_version_id v) = None"
    and v: "\<not> v_is_delete_marker v" "v_blob_digest v = Some d"
    and newest: "\<And>vid w. ((b, k, vid), w) \<in> set t \<Longrightarrow> v_created_at w < v_created_at v"
  shows "\<exists>s'. promote_newest_version e b k s = Inr s' \<and> wf_db s' \<and> slack s' = slack s \<and>
    versions s' = t \<and> map_of (objects s') (b, k) = Some ((promoted_object b k v d)
      \<lparr>o_id := e_uuid e 0, o_created_at := e_now e, o_updated_at := e_now e\<rparr>)"
proof -
  have "newest_version s b k = Some v"
  proof (rule newest_version_eqI [OF assms(1)])
    show "v \<in> set (history s b k)" by (auto simp: history_append ver(1))
    fix w assume "w \<in> set (history s b k)" "w \<noteq> v"
    then obtain vid where "((b, k, vid), w) \<in> set t" by (auto simp: history_append ver(1))
    then show "v_created_at w < v_created_at v" by (rule newest)
  qed
  from promote_newest_version_returns [OF this v(1,2) assms(3-5) assms(1,2)] show ?thesis
    unfolding ver(1) delete_appended_row [OF ver(2)] .
qed

lemma undelete:
  assumes "wf_db s" "counts_safe s" "wo_versioning opts = VersioningEnabled"
    and cur: "map_of (objects s) (b, k) = Some r"
    and del: "delete_object e b k opts s = Inr (res, s1)"
    and rand: "\<forall>buf. e_rand e 1 = Some buf \<longrightarrow> buf \<noteq> []"
    and time: "o_updated_at r \<noteq> zero_time"
      "\<forall>v \<in> set (history s b k). v_created_at v < o_updated_at r"
  shows "\<exists>res2 s2 r2. delete_object_version e' b k (d_marker_version_id res) s1 = Inr (res2, s2) \<and>
    d_delete_marker res2 \<and> map_of (objects s2) (b, k) = Some r2 \<and> contents r2 = contents r \<and>
    o_version_id r2 = o_version_id r \<and> versions s2 = versions s \<and> wf_db s2 \<and> slack s2 = slack s"
proof -
  obtain v m where
    ver1: "versions s1 = (versions s @ [((b, k, v_version_id v), v)]) @ [((b, k, v_version_id m), m)]" and
    new: "map_of (versions s) (b, k, v_version_id v) = None"
      "map_of (versions s @ [((b, k, v_version_id v), v)]) (b, k, v_version_id m) = None" and
    v: "v_version_id v = version_or_null (o_version_id r)" "v_blob_digest v = Some (o_blob_digest r)"
      "version_contents v = (Some (o_blob_digest r), snd (contents r))" "\<not> v_is_delete_marker v"
      "v_created_at v = (if o_updated_at r = zero_time then e_now e else o_updated_at r)" and
    m: "v_is_delete_marker m" "v_blob_digest m = None"
      "d_marker_version_id res = external_version_id (v_version_id m)" and
    minted: "\<exists>mid. new_version_id e 1 = Inr mid \<and> (mid \<noteq> [] \<longrightarrow> v_version_id m = mid)"
    using delete_marker_writes [OF del assms(1-3) cur] by metis
  have bal1: "wf_db s1" "slack s1 = slack s"
    using delete_object_balanced [OF del assms(1,2)] by simp_all
  have safe1: "counts_safe s1" using bal1(2) assms(2) counts_safe_cong by blast
  have gone: "map_of (objects s1) (b, k) = None"
    using delete_object_gone [OF del assms(1,2)] by (simp add: get_object_def split: option.splits)
  from minted obtain mid where mid: "new_version_id e 1 = Inr mid" "mid \<noteq> [] \<longrightarrow> v_version_id m = mid"
    by blast
  have "mid \<noteq> []"
    using mid(1) rand by (auto simp: new_version_id_def split: option.splits)
  with mid new_version_id_not_null [OF mid(1)]
  have "v_version_id m \<noteq> []" "v_version_id m \<noteq> null_version_id" by simp_all
  then have stored: "version_or_null (internal_version_id (d_marker_version_id res)) = v_version_id m"
    by (simp add: m(3) version_or_null_def)
  define s2 where "s2 = s1\<lparr>versions := versions s @ [((b, k, v_version_id v), v)]\<rparr>"
  have row: "map_of (versions s1) (b, k, v_version_id m) = Some m"
    unfolding ver1 map_of_append_row [OF new(2)] by simp
  have "AList.delete (b, k, v_version_id m) (versions s1) = versions s @ [((b, k, v_version_id v), v)]"
    unfolding ver1 by (rule delete_appended_row [OF new(2)])
  with row have del1: "delete_version_row b k (v_version_id m) s1 = Inr (m, s2)"
    by (simp add: delete_version_row_def m(2) s2_def)
  note bal2 = delete_version_row_balanced [OF del1 bal1(1) safe1]
  have safe2: "counts_safe s2" using bal2(2) safe1 counts_safe_cong by blast
  have bucket: "has_bucket s2 b" and none: "map_of (objects s2) (b, k) = None"
    and ver2: "versions s2 = versions s @ [((b, k, v_version_id v), v)]"
    using wf_object(3) [OF assms(1) cur] gone delete_object_buckets [OF del assms(1,2)]
    by (simp_all add: s2_def has_bucket_def)
  have older: "v_created_at w < v_created_at v" if "((b, k, vid), w) \<in> set (versions s)" for vid w
    using that time v(5) by (auto simp: history_append)
  note promotes = undelete_promotes [OF bal2(1) safe2 none wf_object(4) [OF assms(1) cur] bucket
      ver2 new(1) v(4,2), of e']
  have "\<exists>s'. promote_newest_version e' b k s2 = Inr s' \<and> wf_db s' \<and> slack s' = slack s2 \<and>
    versions s' = versions s \<and> map_of (objects s') (b, k) = Some ((promoted_object b k v (o_blob_digest r))
      \<lparr>o_id := e_uuid e' 0, o_created_at := e_now e', o_updated_at := e_now e'\<rparr>)"
    by (rule promotes) (rule older)
  then obtain s3 where s3: "promote_newest_version e' b k s2 = Inr s3" "wf_db s3" "slack s3 = slack s2"
    "versions s3 = versions s" "map_of (objects s3) (b, k) = Some ((promoted_object b k v (o_blob_digest r))
      \<lparr>o_id := e_uuid e' 0, o_created_at := e_now e', o_updated_at := e_now e'\<rparr>)"
    by blast
  have "delete_object_version e' b k (d_marker_version_id res) s1 =
      Inr (\<lparr>d_deleted = True, d_marker_version_id = [], d_delete_marker = True\<rparr>, s3)"
    unfolding delete_object_version_def using gone
    by (simp add: stored del1 s3(1) m(1) read_current_def)
  moreover have "slack s3 = slack s" using s3(3) bal2(2) bal1(2) by simp
  moreover have "internal_version_id (v_version_id v) = o_version_id r"
    using wf_object(5) [OF assms(1) cur] by (simp add: v(1) version_or_null_def internal_version_id_def)
  then have "o_version_id (promoted_object b k v (o_blob_digest r)) = o_version_id r"
    by (simp add: promoted_object_def)
  moreover have "contents (promoted_object b k v (o_blob_digest r)) = contents r"
    using v(3) by (simp add: promoted_object_def contents_def version_contents_def)
  ultimately show ?thesis using s3 by (auto simp: contents_def)
qed

interpretation delete_version_tx: accounted "delete_object_version e b k vid" for e b k vid
  by unfold_locales (rule delete_object_version_balanced)

end
