(* ===== verification/History.thy ===== *)
theory History
  imports Version_Access
begin

text \<open>
  The history of a key (\<^verbatim>\<open>internal/db/versions.go\<close>): listing it, restoring an old version,
  purging versions for good, and measuring the space the history holds.
\<close>

subsection \<open>Listing\<close>

text \<open>
  \<^verbatim>\<open>ORDER BY created_at DESC\<close> leaves the order of rows of one instant open; here they come by
  descending row id, one of the orders Postgres may choose.
\<close>

definition list_versions :: "db \<Rightarrow> string \<Rightarrow> string \<Rightarrow> int \<Rightarrow> object_version list" where
  "list_versions s b k limit =
     take (nat (if limit \<le> 0 \<or> 500 < limit then 100 else limit)) (history s b k)"

subsection \<open>RestoreVersion\<close>

text \<open>
  The upsert of a restore leaves out the \<^verbatim>\<open>version_id\<close> column: a new row takes its default, the
  empty id, and an existing row keeps the id it has.
\<close>

definition restored_object :: "db \<Rightarrow> string \<Rightarrow> string \<Rightarrow> object_version \<Rightarrow> string \<Rightarrow> object" where
  "restored_object s b k v d =
     \<lparr>o_id = [], o_bucket_id = b, o_key = k, o_blob_digest = d, o_size = v_size v,
      o_etag = v_etag v, o_content_type = v_content_type v, o_metadata = v_metadata v,
      o_version_id = (case map_of (objects s) (b, k) of None \<Rightarrow> [] | Some old \<Rightarrow> o_version_id old),
      o_created_at = zero_time, o_updated_at = zero_time\<rparr>"

definition restored_version :: "string \<Rightarrow> string \<Rightarrow> object_version \<Rightarrow> string \<Rightarrow> object_version" where
  "restored_version b k v actor =
     \<lparr>v_id = [], v_bucket_id = b, v_key = k, v_version_id = [], v_blob_digest = v_blob_digest v,
      v_size = v_size v, v_etag = v_etag v, v_content_type = v_content_type v,
      v_metadata = v_metadata v, v_is_delete_marker = False, v_created_at = zero_time,
      v_created_by = actor\<rparr>"

definition restore_version ::
  "env \<Rightarrow> string \<Rightarrow> string \<Rightarrow> string \<Rightarrow> string \<Rightarrow> db \<Rightarrow> db_error + object \<times> db" where
  "restore_version e b k version_id actor s =
     rbind (get_version s b k version_id) (\<lambda>v.
     case (if v_is_delete_marker v then None else v_blob_digest v) of
       None \<Rightarrow> Inl ErrVersionNotFound
     | Some d \<Rightarrow>
         rbind (upsert_object e 0 (restored_object s b k v d) (retain_blob e d (v_size v) s)) (\<lambda>(row, s2).
         let s3 = (case map_of (objects s) (b, k) of
                     None \<Rightarrow> s2 | Some previous \<Rightarrow> released (o_blob_digest previous) s2)
         in rbind (record_version e 1 0 (restored_version b k v actor) s3) (\<lambda>(_, s4).
            Inr (row\<lparr>o_version_id := []\<rparr>, s4))))"

subsection \<open>Purging\<close>

text \<open>
  \<open>DELETE ... WHERE bucket_id, key, version_id\<close>, without the key's lock and without promoting
  anything: a purge never touches the current version.
\<close>

definition purge_version :: "string \<Rightarrow> string \<Rightarrow> string \<Rightarrow> db \<Rightarrow> db_error + db" where
  "purge_version b k version_id s =
     rbind (delete_version_row b k version_id s) (\<lambda>(_, s1). Inr s1)"

abbreviation of_key :: "string \<Rightarrow> string \<Rightarrow> (string \<times> string \<times> string) \<times> object_version \<Rightarrow> bool" where
  "of_key b k \<equiv> \<lambda>((b', k', _), _). b' = b \<and> k' = k"

definition purge_key_versions :: "string \<Rightarrow> string \<Rightarrow> db \<Rightarrow> db_error + nat \<times> db" where
  "purge_key_versions b k s =
     (let gone = filter (of_key b k) (versions s);
          digests = concat (map (\<lambda>(_, v). case v_blob_digest v of None \<Rightarrow> [] | Some d \<Rightarrow> [d]) gone);
          s1 = s\<lparr>versions := filter (\<lambda>x. \<not> of_key b k x) (versions s)\<rparr>
      in Inr (length digests, fold released digests s1))"

text \<open>
  The join of the versions of a bucket with the current rows of their keys: bytes and number of
  the versions whose blob is not the one the key serves.
\<close>

definition versioned_space :: "db \<Rightarrow> string \<Rightarrow> nat \<times> nat" where
  "versioned_space s b =
     (let held = filter (\<lambda>((b', k, _), v). b' = b \<and> \<not> v_is_delete_marker v \<and>
            (case map_of (objects s) (b', k) of
               None \<Rightarrow> True
             | Some r \<Rightarrow> v_blob_digest v \<noteq> None \<and> v_blob_digest v \<noteq> Some (o_blob_digest r))) (versions s)
      in (sum_list (map (\<lambda>(_, v). v_size v) held), length held))"

subsection \<open>Balance\<close>

lemma restore_version_InrE:
  assumes "restore_version e b k vid actor s = Inr (r, s')"
  obtains v d row s2 s3 w where
    "map_of (versions s) (b, k, vid) = Some v" "v_blob_digest v = Some d" "\<not> v_is_delete_marker v"
    "upsert_object e 0 (restored_object s b k v d) (retain_blob e d (v_size v) s) = Inr (row, s2)"
    "s3 = (case map_of (objects s) (b, k) of
             None \<Rightarrow> s2 | Some previous \<Rightarrow> released (o_blob_digest previous) s2)"
    "record_version e 1 0 (restored_version b k v actor) s3 = Inr (w, s')"
    "r = row\<lparr>o_version_id := []\<rparr>"
proof -
  obtain v where v: "map_of (versions s) (b, k, vid) = Some v"
    using assms by (auto simp: restore_version_def get_version_def result_iff split: option.splits)
  then obtain d where d: "v_blob_digest v = Some d" "\<not> v_is_delete_marker v"
    using assms by (cases "v_blob_digest v") (auto simp: restore_version_def get_version_def split: if_splits)
  show ?thesis
    using assms v d by (auto simp: restore_version_def get_version_def result_iff Let_def intro!: that)
qed

lemma restored_object_key [simp]:
  "o_bucket_id (restored_object s b k v d) = b" "o_key (restored_object s b k v d) = k"
  "o_blob_digest (restored_object s b k v d) = d"
  by (simp_all add: restored_object_def)

lemma replaced_balanced:
  assumes up: "upsert_object e i r (retain_blob e' (o_blob_digest r) n s) = Inr (row, s2)"
    and "o_version_id r \<noteq> null_version_id" "wf_db s" "counts_safe s"
    and s3: "s3 = (case map_of (objects s) (o_bucket_id r, o_key r) of
             None \<Rightarrow> s2 | Some previous \<Rightarrow> released (o_blob_digest previous) s2)"
  shows "wf_db s3" "slack s3 = slack s"
    "objects s3 = AList.update (o_bucket_id r, o_key r) row (objects s)" "versions s3 = versions s"
proof -
  have wf1: "wf_db (retain_blob e' (o_blob_digest r) n s)" using assms(3) by simp
  have wf2: "wf_db s2" by (rule wf_upsert_object [OF up wf1 assms(2)])
  show "wf_db s3" using wf2 by (auto simp: s3 split: option.splits)
  show "objects s3 = AList.update (o_bucket_id r, o_key r) row (objects s)" "versions s3 = versions s"
    using up by (auto elim!: upsert_object_InrE simp: s3 split: option.splits)
  have sl: "slack s2 x = slack s x + weight (object_refs x) (map_of (objects s) (o_bucket_id r, o_key r))" for x
    using slack_upsert_object [OF up wf1, of x] by (auto simp: slack_retain)
  show "slack s3 = slack s"
  proof (cases "map_of (objects s) (o_bucket_id r, o_key r)")
    case None
    with sl show ?thesis by (simp add: s3 fun_eq_iff)
  next
    case (Some p)
    have "slack s2 x = slack s x + of_bool (x = o_blob_digest p)" for x
      using sl Some by (cases "x = o_blob_digest p") simp_all
    from release_after [OF this assms(4)] Some show ?thesis by (simp add: s3)
  qed
qed

lemma restore_version_effect:
  assumes "restore_version e b k vid actor s = Inr (r, s')" "wf_db s" "counts_safe s"
  obtains v d row w where
    "map_of (versions s) (b, k, vid) = Some v" "v_blob_digest v = Some d"
    "wf_db s'" "slack s' = slack s" "map_of (objects s') (b, k) = Some row"
    "contents row = (d, snd (version_contents v))"
    "o_version_id row = (case map_of (objects s) (b, k) of None \<Rightarrow> [] | Some old \<Rightarrow> o_version_id old)"
    "versions s' = versions s @ [((b, k, v_version_id w), w)]"
    "version_contents w = version_contents v"
proof -
  obtain v d row s2 s3 w where
    v: "map_of (versions s) (b, k, vid) = Some v" "v_blob_digest v = Some d" and
    up: "upsert_object e 0 (restored_object s b k v d) (retain_blob e d (v_size v) s) = Inr (row, s2)" and
    s3: "s3 = (case map_of (objects s) (b, k) of
             None \<Rightarrow> s2 | Some previous \<Rightarrow> released (o_blob_digest previous) s2)" and
    rv: "record_version e 1 0 (restored_version b k v actor) s3 = Inr (w, s')"
    using assms(1) by (rule restore_version_InrE)
  have nn: "o_version_id (restored_object s b k v d) \<noteq> null_version_id"
    using wf_object(5) [OF assms(2)] by (auto simp: restored_object_def null_version_id_def split: option.splits)
  have up': "upsert_object e 0 (restored_object s b k v d)
      (retain_blob e (o_blob_digest (restored_object s b k v d)) (v_size v) s) = Inr (row, s2)"
    using up by simp
  note b3 = replaced_balanced [OF up' nn assms(2,3), unfolded restored_object_key, OF s3]
  note b4 = record_version_balanced [OF rv b3(1)]
  note rvr = record_version_row [OF rv] and rvc = record_version_contents [OF rv]
  show ?thesis
  proof (rule that [OF v b4(1)])
    show "slack s' = slack s" using b4(2) b3(2) by simp
    show "map_of (objects s') (b, k) = Some row" using b4(3) b3(3) by (simp add: update_conv')
    show "contents row = (d, snd (version_contents v))"
      using up by (auto elim!: upsert_object_InrE simp: contents_def version_contents_def restored_object_def)
    show "o_version_id row = (case map_of (objects s) (b, k) of None \<Rightarrow> [] | Some old \<Rightarrow> o_version_id old)"
      using up by (auto elim!: upsert_object_InrE simp: restored_object_def)
    show "versions s' = versions s @ [((b, k, v_version_id w), w)]"
      using rvr(1) b3(4) by (simp add: restored_version_def)
    show "version_contents w = version_contents v"
      using rvc rvr(4) by (simp add: version_contents_def restored_version_def)
  qed
qed

lemma purge_version_balanced:
  assumes "purge_version b k vid s = Inr s'" "wf_db s" "counts_safe s"
  shows "wf_db s'" "slack s' = slack s" "objects s' = objects s"
    "versions s' = AList.delete (b, k, vid) (versions s)"
proof -
  from assms(1) obtain r where del: "delete_version_row b k vid s = Inr (r, s')"
    by (auto simp: purge_version_def result_iff)
  note bal = delete_version_row_balanced [OF del assms(2,3)]
  show "wf_db s'" "slack s' = slack s" "objects s' = objects s"
    "versions s' = AList.delete (b, k, vid) (versions s)" by (rule bal)+
qed

lemma release_all_frame [simp]:
  "objects (fold released ds s) = objects s" "versions (fold released ds s) = versions s"
  "parts (fold released ds s) = parts s" "uploads (fold released ds s) = uploads s"
  "buckets (fold released ds s) = buckets s" "settings (fold released ds s) = settings s"
  by (induction ds arbitrary: s) simp_all

lemma wf_release_all: "wf_db s \<Longrightarrow> wf_db (fold released ds s)"
  by (induction ds arbitrary: s) simp_all

text \<open>Releasing one reference for each row that went restores the balance.\<close>

lemma release_all_after:
  assumes "\<And>x. slack s1 x = slack s x + int (count_list ds x)" "counts_safe s"
  shows "slack (fold released ds s1) = slack s"
  using assms(1)
proof (induction ds arbitrary: s1)
  case Nil
  then show ?case by (simp add: fun_eq_iff)
next
  case (Cons d ds)
  have "0 \<le> slack s d" using assms(2) by (simp add: counts_safe_iff)
  with Cons.prems [of d] have "0 < slack s1 d" by simp
  then have "0 < refcount s1 d" by (rule refcount_pos_of_slack)
  then have "slack (released d s1) x = slack s x + int (count_list ds x)" for x
    using Cons.prems [of x] by (auto simp: slack_release)
  from Cons.IH [OF this] show ?case by simp
qed

lemma count_digests:
  "count_list (concat (map (\<lambda>(_, v). case v_blob_digest v of None \<Rightarrow> [] | Some d \<Rightarrow> [d]) t)) x =
     tally (version_refs x) t"
  by (induction t) (auto split: option.splits)

lemma purge_key_versions_balanced:
  assumes "purge_key_versions b k s = Inr (n, s')" "wf_db s" "counts_safe s"
  shows "wf_db s'" "slack s' = slack s" "objects s' = objects s"
    "versions s' = filter (\<lambda>x. \<not> of_key b k x) (versions s)"
proof -
  let ?gone = "filter (of_key b k) (versions s)"
  let ?ds = "concat (map (\<lambda>(_, v). case v_blob_digest v of None \<Rightarrow> [] | Some d \<Rightarrow> [d]) ?gone)"
  let ?s1 = "s\<lparr>versions := filter (\<lambda>x. \<not> of_key b k x) (versions s)\<rparr>"
  from assms(1) have s': "s' = fold released ?ds ?s1" by (simp add: purge_key_versions_def Let_def)
  show "objects s' = objects s" "versions s' = filter (\<lambda>x. \<not> of_key b k x) (versions s)"
    by (simp_all add: s')
  show "wf_db s'" unfolding s' by (rule wf_release_all, rule wf_filter_versions, rule assms(2))
  have "slack ?s1 x = slack s x + int (count_list ?ds x)" for x
    using tally_filter_split [of "version_refs x" "versions s" "of_key b k"]
    by (simp add: slack_tables count_digests)
  from release_all_after [OF this assms(3)] show "slack s' = slack s" by (simp add: s')
qed

lemma restore_version_balanced:
  assumes "restore_version e b k vid actor s = Inr (r, s')" "wf_db s" "counts_safe s"
  shows "wf_db s' \<and> slack s' = slack s"
  by (rule restore_version_effect [OF assms]) simp

interpretation restore_tx: accounted "restore_version e b k vid actor" for e b k vid actor
  by unfold_locales (rule restore_version_balanced)

interpretation purge_tx: accounted "no_result (purge_version b k vid)" for b k vid
  by unfold_locales (auto simp: result_iff purge_version_balanced)

interpretation purge_key_tx: accounted "purge_key_versions b k" for b k
  by unfold_locales (auto simp: purge_key_versions_balanced)

end
