(* ===== verification/Multipart.thy ===== *)
theory Multipart
  imports History
begin

text \<open>
  Multipart uploads in the metadata store (\<^verbatim>\<open>internal/db/multipart.go\<close>): an upload row, its parts,
  each holding a reference to its blob, and the completion that turns the assembled blob into an
  object and discards the upload in one transaction.
\<close>

subsection \<open>Uploads\<close>

definition new_upload_id :: "env \<Rightarrow> nat \<Rightarrow> db_error + string" where
  "new_upload_id e i = (case e_rand e i of None \<Rightarrow> Inl ErrRandom | Some buf \<Rightarrow> Inr (hex_encode buf))"

definition insert_upload :: "multipart_upload \<Rightarrow> db \<Rightarrow> db_error + db" where
  "insert_upload u s =
     rbind (guard_or (key_check (mu_key u)) (ErrConstraint ''multipart_uploads_key_check'')) (\<lambda>_.
     rbind (guard_or (map_of (uploads s) (mu_id u) = None) (ErrConstraint ''multipart_uploads_pkey'')) (\<lambda>_.
     rbind (guard_or (\<not> (\<exists>x \<in> set (uploads s). mu_upload_id (snd x) = mu_upload_id u))
       (ErrConstraint ''multipart_uploads_upload_id_key'')) (\<lambda>_.
     rbind (guard_or (has_bucket s (mu_bucket_id u)) (ErrConstraint ''multipart_uploads_bucket_id_fkey'')) (\<lambda>_.
     Inr (s\<lparr>uploads := uploads s @ [(mu_id u, u)]\<rparr>)))))"

definition create_multipart_upload ::
  "env \<Rightarrow> multipart_upload \<Rightarrow> db \<Rightarrow> db_error + multipart_upload \<times> db" where
  "create_multipart_upload e u s =
     rbind (if mu_upload_id u = [] then new_upload_id e 0 else Inr (mu_upload_id u)) (\<lambda>uid.
     let row = u\<lparr>mu_upload_id := uid, mu_id := e_uuid e 0, mu_initiated_at := e_now e\<rparr>
     in rbind (insert_upload row s) (\<lambda>s1. Inr (row, s1)))"

definition get_multipart_upload :: "db \<Rightarrow> string \<Rightarrow> string \<Rightarrow> db_error + multipart_upload" where
  "get_multipart_upload s b uid =
     (case find (\<lambda>(_, u). mu_upload_id u = uid \<and> mu_bucket_id u = b) (uploads s) of
        None \<Rightarrow> Inl ErrUploadNotFound
      | Some (_, u) \<Rightarrow> Inr u)"

definition list_multipart_uploads :: "db \<Rightarrow> string \<Rightarrow> string \<Rightarrow> nat \<Rightarrow> multipart_upload list" where
  "list_multipart_uploads s b key_marker limit =
     take limit (sort_key (\<lambda>u. (mu_key u, mu_initiated_at u))
       (filter (\<lambda>u. mu_bucket_id u = b \<and> key_marker < mu_key u) (map snd (uploads s))))"

subsection \<open>Parts\<close>

definition upsert_part :: "env \<Rightarrow> string \<Rightarrow> multipart_part \<Rightarrow> db \<Rightarrow> db_error + db" where
  "upsert_part e u p s =
     rbind (guard_or (1 \<le> mp_part_number p \<and> mp_part_number p \<le> 10000)
       (ErrConstraint ''multipart_parts_part_number_check'')) (\<lambda>_.
     rbind (guard_or (has_upload s u) (ErrConstraint ''multipart_parts_upload_id_fkey'')) (\<lambda>_.
     rbind (guard_or (has_blob s (mp_blob_digest p)) (ErrConstraint ''multipart_parts_blob_digest_fkey'')) (\<lambda>_.
     Inr (s\<lparr>parts := AList.update (u, mp_part_number p) (p\<lparr>mp_uploaded_at := e_now e\<rparr>) (parts s)\<rparr>))))"

definition put_multipart_part :: "env \<Rightarrow> string \<Rightarrow> multipart_part \<Rightarrow> db \<Rightarrow> db_error + db" where
  "put_multipart_part e u p s =
     (let previous = map_of (parts s) (u, mp_part_number p)
      in rbind (upsert_part e u p (retain_blob e (mp_blob_digest p) (mp_size p) s)) (\<lambda>s1.
         Inr (case previous of None \<Rightarrow> s1 | Some q \<Rightarrow> released (mp_blob_digest q) s1)))"

definition list_multipart_parts :: "db \<Rightarrow> string \<Rightarrow> multipart_part list" where
  "list_multipart_parts s u =
     sort_key mp_part_number (map snd (filter (\<lambda>((u', _), _). u' = u) (parts s)))"

subsection \<open>Completion, abort, reaping\<close>

text \<open>The delete of the upload row cascades to its parts.\<close>

definition delete_upload :: "string \<Rightarrow> db \<Rightarrow> db" where
  "delete_upload u s =
     s\<lparr>uploads := AList.delete u (uploads s),
       parts := filter (\<lambda>((u', _), _). u' \<noteq> u) (parts s)\<rparr>"

definition release_upload :: "string \<Rightarrow> db \<Rightarrow> db" where
  "release_upload u s =
     delete_upload u (fold released (map mp_blob_digest (list_multipart_parts s u)) s)"

text \<open>
  The first half of the transaction is statement for statement that of \<^verbatim>\<open>PutObject\<close>; the upload
  is released before the commit.
\<close>

definition complete_multipart_upload ::
  "env \<Rightarrow> string \<Rightarrow> object \<Rightarrow> write_options \<Rightarrow> db \<Rightarrow> db_error + object \<times> db" where
  "complete_multipart_upload e u obj opts s =
     rbind (put_object e obj opts s) (\<lambda>(row, s1). Inr (row, release_upload u s1))"

definition abort_multipart_upload :: "string \<Rightarrow> db \<Rightarrow> db_error + db" where
  "abort_multipart_upload u s = Inr (release_upload u s)"

definition abandoned_uploads :: "env \<Rightarrow> time \<Rightarrow> nat \<Rightarrow> db \<Rightarrow> string list" where
  "abandoned_uploads e max_age limit s =
     map fst (take limit (sort_key (\<lambda>(_, u). mu_initiated_at u)
       (filter (\<lambda>(_, u). mu_initiated_at u < e_now e - max_age) (uploads s))))"

fun abort_all :: "string list \<Rightarrow> nat \<Rightarrow> db \<Rightarrow> (db_error + nat) \<times> db" where
  "abort_all [] reaped s = (Inr reaped, s)"
| "abort_all (u # us) reaped s =
     (case abort_multipart_upload u s of
        Inl err \<Rightarrow> (Inl err, s)
      | Inr s1 \<Rightarrow> abort_all us (reaped + 1) s1)"

definition reap_abandoned_uploads :: "env \<Rightarrow> time \<Rightarrow> nat \<Rightarrow> db \<Rightarrow> (db_error + nat) \<times> db" where
  "reap_abandoned_uploads e max_age limit s = abort_all (abandoned_uploads e max_age limit s) 0 s"

subsection \<open>Balance\<close>

lemma create_multipart_upload_balanced:
  assumes "create_multipart_upload e u s = Inr (row, s')" "wf_db s"
  shows "wf_db s'" "slack s' = slack s"
proof -
  from assms(1) have s': "s' = s\<lparr>uploads := uploads s @ [(mu_id row, row)]\<rparr>"
    and row: "has_bucket s (mu_bucket_id row)" "map_of (uploads s) (mu_id row) = None"
      "key_check (mu_key row)" "\<forall>x \<in> set (uploads s). mu_upload_id (snd x) \<noteq> mu_upload_id row"
    by (auto simp: create_multipart_upload_def insert_upload_def result_iff Let_def)
  have up: "upload_ok s' (mu_id row, row)" using row by (simp add: s' row_defs)
  have parts: "part_ok s' x" if "x \<in> set (parts s)" for x
    using wf_rows(4) [OF assms(2) that] by (auto simp: s' row_defs has_upload_def map_add_def split: option.splits)
  have others: "upload_ok s' x" if "x \<in> set (uploads s)" for x
    using wf_rows(3) [OF assms(2) that] by (auto simp: s' row_defs)
  have "object_ok s' x = object_ok s x" "version_ok s' y = version_ok s y"
    "settings_ok s' z = settings_ok s z" for x y z
    by (simp_all add: s' row_defs)
  then have "rows_ok s'"
    using wf_rows(1,2,5,6) [OF assms(2)] others up parts by (auto simp: rows_ok_def s')
  moreover have "keyed_db s'"
    using assms(2) row(2,4) by (auto simp: wf_db_def keyed_db_def s' map_of_eq_None_iff simp del: wf_keyed)
  ultimately show "wf_db s'" by (simp add: wf_db_def del: wf_keyed)
  show "slack s' = slack s" by (simp add: s' fun_eq_iff)
qed

lemma put_multipart_part_balanced:
  assumes "put_multipart_part e u p s = Inr s'" "wf_db s" "counts_safe s"
  shows "wf_db s'" "slack s' = slack s"
    "map_of (parts s') (u, mp_part_number p) = Some (p\<lparr>mp_uploaded_at := e_now e\<rparr>)"
    "1 \<le> mp_part_number p \<and> mp_part_number p \<le> 10000 \<and> has_upload s u"
proof -
  let ?s1 = "retain_blob e (mp_blob_digest p) (mp_size p) s"
  let ?row = "p\<lparr>mp_uploaded_at := e_now e\<rparr>" and ?k = "(u, mp_part_number p)"
  let ?s2 = "?s1\<lparr>parts := AList.update ?k ?row (parts s)\<rparr>"
  from assms(1) have s': "s' = (case map_of (parts s) ?k of None \<Rightarrow> ?s2 | Some q \<Rightarrow> released (mp_blob_digest q) ?s2)"
    and checks: "1 \<le> mp_part_number p \<and> mp_part_number p \<le> 10000 \<and> has_upload s u"
    by (auto simp: put_multipart_part_def upsert_part_def result_iff Let_def)
  show "1 \<le> mp_part_number p \<and> mp_part_number p \<le> 10000 \<and> has_upload s u" by (rule checks)
  show "map_of (parts s') ?k = Some ?row" by (simp add: s' update_conv' split: option.splits)
  have "part_ok ?s1 (?k, ?row)" using checks by (simp add: row_defs)
  moreover have "part_ok ?s1 x" if "x \<in> set (parts s)" for x
    by (rule wf_rows(4)) (use that assms(2) in simp_all)
  ultimately have "part_ok ?s1 x" if "x \<in> set (AList.update ?k ?row (parts s))" for x
    using in_set_update_cases [OF that] by metis
  then have wf2: "wf_db ?s2" using assms(2) by (intro wf_update_parts) simp_all
  then show "wf_db s'" by (auto simp: s' split: option.splits)
  have sl: "slack ?s2 x = slack s x + weight (part_refs x) (map_of (parts s) ?k)" for x
    using assms(2) by (simp add: slack_update_parts slack_retain tally_update)
  show "slack s' = slack s"
  proof (cases "map_of (parts s) ?k")
    case None
    with sl show ?thesis by (simp add: s' fun_eq_iff)
  next
    case (Some q)
    have "slack ?s2 x = slack s x + of_bool (x = mp_blob_digest q)" for x
      using sl Some by (cases "x = mp_blob_digest q") simp_all
    from release_after [OF this assms(3)] Some show ?thesis by (simp add: s')
  qed
qed

text \<open>Giving the references of the parts back commutes with the removal of their rows.\<close>

lemma release_delete_upload:
  "fold released ds (delete_upload u s) = delete_upload u (fold released ds s)"
proof (induction ds arbitrary: s)
  case (Cons d ds)
  have "released d (delete_upload u s) = delete_upload u (released d s)"
    by (simp add: release_blob_def delete_upload_def split: option.splits)
  with Cons.IH show ?case by simp
qed simp

lemma delete_upload_simps [simp]:
  "objects (delete_upload u s) = objects s" "versions (delete_upload u s) = versions s"
  "buckets (delete_upload u s) = buckets s" "blobs (delete_upload u s) = blobs s"
  "settings (delete_upload u s) = settings s"
  "uploads (delete_upload u s) = AList.delete u (uploads s)"
  "parts (delete_upload u s) = filter (\<lambda>((u', _), _). u' \<noteq> u) (parts s)"
  by (simp_all add: delete_upload_def)

lemma wf_delete_upload:
  assumes "wf_db s"
  shows "wf_db (delete_upload u s)"
proof -
  have keyed: "keyed_db (delete_upload u s)"
    using assms by (simp add: wf_db_def keyed_db_def AList.delete_eq distinct_map_filter del: wf_keyed)
  have bucket: "has_bucket (delete_upload u s) = has_bucket s" by (simp add: has_bucket_def fun_eq_iff)
  have upload: "has_upload (delete_upload u s) v \<longleftrightarrow> v \<noteq> u \<and> has_upload s v" for v
    by (auto simp: has_upload_def delete_conv')
  have "object_ok (delete_upload u s) x = object_ok s x"
    "version_ok (delete_upload u s) y = version_ok s y"
    "upload_ok (delete_upload u s) z = upload_ok s z"
    "settings_ok (delete_upload u s) w = settings_ok s w" for x y z w
    by (simp_all add: row_defs bucket)
  moreover have "part_ok (delete_upload u s) x"
    if "x \<in> set (parts s)" "(\<lambda>((u', _), _). u' \<noteq> u) x" for x
    using wf_rows(4) [OF assms that(1)] that(2) by (auto simp: row_defs upload)
  moreover have "set (AList.delete u (uploads s)) \<subseteq> set (uploads s)" by (rule set_delete_subset)
  ultimately have "rows_ok (delete_upload u s)"
    using wf_rows [OF assms] unfolding rows_ok_def delete_upload_simps set_filter by blast
  with keyed show ?thesis by (simp add: wf_db_def del: wf_keyed)
qed

lemma count_list_map: "count_list (map f xs) x = length (filter (\<lambda>y. f y = x) xs)"
  by (induction xs) auto

lemma count_part_digests:
  "count_list (map mp_blob_digest (list_multipart_parts s u)) x =
     tally (part_refs x) (filter (\<lambda>((u', _), _). u' = u) (parts s))"
  by (simp add: list_multipart_parts_def count_list_map filter_sort filter_map tally_def
      comp_def case_prod_unfold)

lemma release_upload_balanced:
  assumes "wf_db s" "counts_safe s"
  shows "wf_db (release_upload u s)" "slack (release_upload u s) = slack s"
proof -
  let ?ds = "map mp_blob_digest (list_multipart_parts s u)"
  have eq: "release_upload u s = fold released ?ds (delete_upload u s)"
    by (simp add: release_upload_def release_delete_upload)
  show "wf_db (release_upload u s)" unfolding eq by (rule wf_release_all, rule wf_delete_upload, rule assms(1))
  have "slack (delete_upload u s) x = slack s x + int (count_list ?ds x)" for x
    using tally_filter_split [of "part_refs x" "parts s" "\<lambda>((u', _), _). u' = u"]
    by (simp add: slack_def references_def refcount_def count_part_digests case_prod_unfold)
  from release_all_after [OF this assms(2)] show "slack (release_upload u s) = slack s" by (simp add: eq)
qed

lemma release_upload_gone:
  "map_of (uploads (release_upload u s)) u = None"
  "list_multipart_parts (release_upload u s) u = []"
proof -
  show "map_of (uploads (release_upload u s)) u = None"
    by (simp add: release_upload_def delete_conv')
  have "filter (\<lambda>((u', _), _). u' = u) (parts (release_upload u s)) = []"
    by (auto simp: release_upload_def filter_empty_conv)
  then show "list_multipart_parts (release_upload u s) u = []" by (simp add: list_multipart_parts_def)
qed

lemma complete_multipart_upload_balanced:
  assumes "complete_multipart_upload e u obj opts s = Inr (row, s')" "wf_db s" "counts_safe s"
  shows "wf_db s'" "slack s' = slack s"
proof -
  from assms(1) obtain s1 where put: "put_object e obj opts s = Inr (row, s1)"
    and s': "s' = release_upload u s1"
    by (auto simp: complete_multipart_upload_def result_iff)
  have bal: "wf_db s1" "slack s1 = slack s" using put_object_balanced [OF put assms(2,3)] by simp_all
  then have "counts_safe s1" using assms(3) counts_safe_cong by blast
  from release_upload_balanced [OF bal(1) this, of u] bal
  show "wf_db s'" "slack s' = slack s" by (simp_all add: s')
qed

lemma abort_all_balanced:
  assumes "wf_db s" "counts_safe s"
  shows "\<exists>s'. abort_all us n s = (Inr (n + length us), s') \<and> wf_db s' \<and> slack s' = slack s"
  using assms
proof (induction us arbitrary: n s)
  case (Cons u us)
  note bal = release_upload_balanced [OF Cons.prems, of u]
  have "counts_safe (release_upload u s)" using bal(2) Cons.prems(2) counts_safe_cong by blast
  from Cons.IH [OF bal(1) this, of "n + 1"] bal(2) show ?case
    by (auto simp: abort_multipart_upload_def)
qed simp

lemma abandoned_uploads_sound:
  assumes "u \<in> set (abandoned_uploads e max_age limit s)" "wf_db s"
  shows "\<exists>r. map_of (uploads s) u = Some r \<and> mu_initiated_at r < e_now e - max_age"
proof -
  from assms(1) obtain r where "(u, r) \<in> set (uploads s)" "mu_initiated_at r < e_now e - max_age"
    by (auto simp: abandoned_uploads_def dest!: in_set_takeD)
  then show ?thesis using keyed_in_set_iff [OF wf_keyed(6) [OF assms(2)]] by blast
qed

interpretation create_upload_tx: accounted "create_multipart_upload e u" for e u
  by unfold_locales (auto simp: create_multipart_upload_balanced)

interpretation put_part_tx: accounted "no_result (put_multipart_part e u p)" for e u p
  by unfold_locales (auto simp: result_iff put_multipart_part_balanced)

interpretation complete_tx: accounted "complete_multipart_upload e u obj opts" for e u obj opts
  by unfold_locales (auto simp: complete_multipart_upload_balanced)

interpretation abort_tx: accounted "no_result (abort_multipart_upload u)" for u
  by unfold_locales (auto simp: result_iff abort_multipart_upload_def release_upload_balanced)

subsection \<open>What a completion and a part leave\<close>

lemma parts_of_others:
  "u' \<noteq> u \<Longrightarrow> list_multipart_parts (release_upload u s) u' = list_multipart_parts s u'"
proof -
  assume "u' \<noteq> u"
  then have "filter (\<lambda>((v, _), _). v = u') (filter (\<lambda>((v, _), _). v \<noteq> u) (parts s)) =
      filter (\<lambda>((v, _), _). v = u') (parts s)"
    by (auto intro: filter_cong)
  then show ?thesis by (simp add: list_multipart_parts_def release_upload_def)
qed

lemma put_object_parts:
  assumes "put_object e obj opts s = Inr (row, s')" "wf_db s"
  shows "parts s' = parts s" "uploads s' = uploads s"
proof -
  obtain vid s2 s3 where
    sup: "supersede e (read_current s (o_bucket_id obj) (o_key obj)) opts
       (retain_blob e (o_blob_digest obj) (o_size obj) s) = Inr (vid, s2)" and
    up: "upsert_object e 1 (obj\<lparr>o_version_id := vid\<rparr>) s2 = Inr (row, s3)" and
    s': "parts s' = parts s3" "uploads s' = uploads s3"
    using assms(1) by (elim put_object_InrE) (auto split: option.splits)
  have "parts s2 = parts s" "uploads s2 = uploads s"
    using supersede_balanced [OF sup] assms(2) by simp_all
  with up s' show "parts s' = parts s" "uploads s' = uploads s"
    by (auto elim!: upsert_object_InrE)
qed

lemma sorted_wrt_less_keys:
  "distinct (map f xs) \<Longrightarrow> sorted (map f xs) \<Longrightarrow> sorted_wrt (\<lambda>x y. f x < f y) xs"
  by (induction xs) force+

lemma list_multipart_parts_sorted:
  assumes "wf_db s"
  shows "sorted_wrt (\<lambda>p q. mp_part_number p < mp_part_number q) (list_multipart_parts s u)"
    and "p \<in> set (list_multipart_parts s u) \<longleftrightarrow> map_of (parts s) (u, mp_part_number p) = Some p"
proof -
  let ?rows = "filter (\<lambda>((u', _), _). u' = u) (parts s)"
  have num: "snd (fst x) = mp_part_number (snd x)" if "x \<in> set (parts s)" for x
    using wf_rows(4) [OF assms that] by (auto simp: row_defs)
  then have eq: "map mp_part_number (map snd ?rows) = map snd (map fst ?rows)" by simp
  have "inj_on snd (fst ` set ?rows)" by (auto simp: inj_on_def)
  then have "distinct (map snd (map fst ?rows))" using assms by (subst distinct_map) simp
  then have "distinct (map mp_part_number (map snd ?rows))" unfolding eq .
  then have d: "distinct (map snd ?rows)" and i: "inj_on mp_part_number (set (map snd ?rows))"
    unfolding distinct_map by blast+
  have "distinct (list_multipart_parts s u)" using d unfolding list_multipart_parts_def distinct_sort .
  moreover have "inj_on mp_part_number (set (list_multipart_parts s u))"
    using i unfolding list_multipart_parts_def set_sort .
  ultimately have "distinct (map mp_part_number (list_multipart_parts s u))"
    unfolding distinct_map by blast
  moreover have "sorted (map mp_part_number (list_multipart_parts s u))"
    unfolding list_multipart_parts_def by (rule sorted_sort_key)
  ultimately show "sorted_wrt (\<lambda>p q. mp_part_number p < mp_part_number q) (list_multipart_parts s u)"
    by (intro sorted_wrt_less_keys)
  have "p \<in> set (list_multipart_parts s u) \<longleftrightarrow> (\<exists>n. ((u, n), p) \<in> set (parts s))"
    by (force simp: list_multipart_parts_def)
  also have "\<dots> \<longleftrightarrow> ((u, mp_part_number p), p) \<in> set (parts s)" using num by force
  also have "\<dots> \<longleftrightarrow> map_of (parts s) (u, mp_part_number p) = Some p"
    by (rule keyed_in_set_iff) (use assms in simp)
  finally show "p \<in> set (list_multipart_parts s u) \<longleftrightarrow> map_of (parts s) (u, mp_part_number p) = Some p" .
qed

lemma put_multipart_part_lookup:
  assumes "put_multipart_part e u p s = Inr s'"
  shows "map_of (parts s') = (map_of (parts s))((u, mp_part_number p) \<mapsto> p\<lparr>mp_uploaded_at := e_now e\<rparr>)"
  using assms
  by (auto simp: put_multipart_part_def upsert_part_def result_iff Let_def update_conv' split: option.splits)

end
