(* ===== verification/Buckets.thy ===== *)
theory Buckets
  imports Multipart
begin

text \<open>
  Buckets and their settings (\<^verbatim>\<open>internal/db/buckets.go\<close>, \<^verbatim>\<open>internal/db/settings.go\<close>). The JSON
  columns of \<^verbatim>\<open>bucket_settings\<close> are kept decoded.
\<close>

subsection \<open>Buckets\<close>

definition create_bucket :: "env \<Rightarrow> string \<Rightarrow> string option \<Rightarrow> db \<Rightarrow> db_error + bucket \<times> db" where
  "create_bucket e name created_by s =
     (let row = \<lparr>bk_id = e_uuid e 0, bk_name = name, bk_created_at = e_now e, bk_created_by = created_by\<rparr>
      in rbind (guard_or (bucket_name_shape name) (ErrConstraint ''buckets_name_shape'')) (\<lambda>_.
         if \<exists>x \<in> set (buckets s). bk_name (snd x) = name then Inl ErrBucketExists
         else if map_of (buckets s) (bk_id row) \<noteq> None then Inl ErrBucketExists
         else Inr (row, s\<lparr>buckets := buckets s @ [(bk_id row, row)]\<rparr>)))"

definition get_bucket :: "db \<Rightarrow> string \<Rightarrow> db_error + bucket" where
  "get_bucket s name =
     (case find (\<lambda>(_, b). bk_name b = name) (buckets s) of
        None \<Rightarrow> Inl ErrBucketNotFound
      | Some (_, b) \<Rightarrow> Inr b)"

text \<open>\<^verbatim>\<open>ORDER BY name\<close>, in byte order.\<close>

definition list_buckets :: "db \<Rightarrow> bucket list" where
  "list_buckets s = sort_key bk_name (map snd (buckets s))"

definition list_buckets_with_stats :: "db \<Rightarrow> (bucket \<times> nat \<times> nat) list" where
  "list_buckets_with_stats s =
     map (\<lambda>b. let rows = filter (\<lambda>((b', _), _). b' = bk_id b) (objects s)
              in (b, length rows, sum_list (map (\<lambda>(_, r). o_size r) rows))) (list_buckets s)"

text \<open>
  The guard of the delete asks for no object and no upload; the cascade takes the bucket's
  versions and settings.
\<close>

definition bucket_occupied :: "db \<Rightarrow> string \<Rightarrow> bool" where
  "bucket_occupied s b \<longleftrightarrow>
     (\<exists>x \<in> set (objects s). fst (fst x) = b) \<or> (\<exists>x \<in> set (uploads s). mu_bucket_id (snd x) = b)"

definition drop_bucket :: "string \<Rightarrow> db \<Rightarrow> db" where
  "drop_bucket b s =
     s\<lparr>buckets := AList.delete b (buckets s), settings := AList.delete b (settings s),
       versions := filter (\<lambda>((b', _, _), _). b' \<noteq> b) (versions s)\<rparr>"

definition delete_bucket :: "string \<Rightarrow> db \<Rightarrow> db_error + db" where
  "delete_bucket name s =
     rbind (get_bucket s name) (\<lambda>b.
     if bucket_occupied s (bk_id b) then Inl ErrBucketNotEmpty else Inr (drop_bucket (bk_id b) s))"

definition has_version_history :: "db \<Rightarrow> string \<Rightarrow> bool" where
  "has_version_history s b \<longleftrightarrow> (\<exists>x \<in> set (versions s). fst (fst x) = b)"

subsection \<open>Settings\<close>

definition default_settings :: "string \<Rightarrow> bucket_settings" where
  "default_settings b =
     \<lparr>bs_bucket_id = b, bs_public_read = False, bs_versioning = VersioningUnversioned,
      bs_cors_rules = [], bs_lifecycle = [], bs_updated_at = zero_time\<rparr>"

text \<open>\<open>db_fails\<close> is a failing query: the code answers it as it answers a missing row.\<close>

definition get_bucket_settings :: "bool \<Rightarrow> db \<Rightarrow> string \<Rightarrow> bucket_settings" where
  "get_bucket_settings db_fails s b =
     (case (if db_fails then None else map_of (settings s) b) of
        None \<Rightarrow> default_settings b
      | Some x \<Rightarrow> x)"

definition save_bucket_settings :: "env \<Rightarrow> bucket_settings \<Rightarrow> db \<Rightarrow> db_error + db" where
  "save_bucket_settings e x s =
     rbind (guard_or (valid_state (bs_versioning x)) (ErrConstraint ''bucket_settings_versioning_state'')) (\<lambda>_.
     rbind (guard_or (has_bucket s (bs_bucket_id x)) (ErrConstraint ''bucket_settings_bucket_id_fkey'')) (\<lambda>_.
     Inr (s\<lparr>settings := AList.update (bs_bucket_id x) (x\<lparr>bs_updated_at := e_now e\<rparr>) (settings s)\<rparr>)))"

definition public_bucket :: "db \<Rightarrow> string \<Rightarrow> bool" where
  "public_bucket s name =
     (case get_bucket s name of
        Inl _ \<Rightarrow> False
      | Inr b \<Rightarrow> (case map_of (settings s) (bk_id b) of None \<Rightarrow> False | Some x \<Rightarrow> bs_public_read x))"

record lifecycle_target =
  lt_bucket_id :: string
  lt_bucket_name :: string
  lt_rules :: "lifecycle_rule list"

definition buckets_with_lifecycle :: "db \<Rightarrow> lifecycle_target list" where
  "buckets_with_lifecycle s =
     concat (map (\<lambda>(b, x). case map_of (buckets s) b of
         None \<Rightarrow> []
       | Some row \<Rightarrow> if bs_lifecycle x = [] then []
           else [\<lparr>lt_bucket_id = b, lt_bucket_name = bk_name row, lt_rules = bs_lifecycle x\<rparr>]) (settings s))"

subsection \<open>LIKE\<close>

text \<open>
  Postgres's \<open>LIKE\<close>: \<^verbatim>\<open>%\<close> for any bytes, \<^verbatim>\<open>_\<close> for one character (a byte and the UTF-8
  continuation bytes after it), a backslash for the next character itself.
\<close>

definition continuation :: "char \<Rightarrow> bool" where
  "continuation c \<longleftrightarrow> 128 \<le> (of_char c :: nat) \<and> (of_char c :: nat) < 192"

fun like :: "string \<Rightarrow> string \<Rightarrow> bool" where
  "like [] t \<longleftrightarrow> t = []"
| "like (c # p) t \<longleftrightarrow>
     (if c = CHR ''%'' then (case t of [] \<Rightarrow> like p [] | _ # t' \<Rightarrow> like p t \<or> like (c # p) t')
      else if c = CHR ''_'' then (case t of [] \<Rightarrow> False | _ # t' \<Rightarrow> like p (dropWhile continuation t'))
      else if c = CHR 0x5C then
        (case p of [] \<Rightarrow> False | q # p' \<Rightarrow> (case t of [] \<Rightarrow> False | x # t' \<Rightarrow> x = q \<and> like p' t'))
      else (case t of [] \<Rightarrow> False | x # t' \<Rightarrow> x = c \<and> like p t'))"

definition wildcard :: "char \<Rightarrow> bool" where
  "wildcard c \<longleftrightarrow> c = CHR ''%'' \<or> c = CHR ''_'' \<or> c = CHR 0x5C"

lemma like_percent: "like ''%'' t"
  by (induction t) simp_all

lemma like_literal_prefix:
  assumes "\<forall>c \<in> set p. \<not> wildcard c"
  shows "like (p @ ''%'') t \<longleftrightarrow> has_prefix t p"
  using assms
proof (induction p arbitrary: t)
  case Nil
  then show ?case using like_percent by (simp add: has_prefix_iff)
next
  case (Cons c p)
  then have "c \<noteq> CHR ''%''" "c \<noteq> CHR ''_''" "c \<noteq> CHR 0x5C" by (auto simp: wildcard_def)
  with Cons show ?case by (cases t) (auto simp: has_prefix_iff)
qed

subsection \<open>Lifecycle expiry\<close>

definition expired_object_keys :: "env \<Rightarrow> db \<Rightarrow> string \<Rightarrow> string \<Rightarrow> int \<Rightarrow> nat \<Rightarrow> string list" where
  "expired_object_keys e s b prefix days limit =
     take limit (sort_key (\<lambda>k. k)
       (map (\<lambda>x. snd (fst x)) (filter (\<lambda>((b', k), r). b' = b \<and> like (prefix @ ''%'') k \<and>
          o_updated_at r < e_now e - days * day) (objects s))))"

lemma expired_object_keys_sound:
  assumes "k \<in> set (expired_object_keys e s b prefix days limit)" "wf_db s"
  shows "\<exists>r. map_of (objects s) (b, k) = Some r \<and> like (prefix @ ''%'') k \<and>
    o_updated_at r < e_now e - days * day"
proof -
  from assms(1) obtain r where "((b, k), r) \<in> set (objects s)" "like (prefix @ ''%'') k"
    "o_updated_at r < e_now e - days * day"
    by (auto simp: expired_object_keys_def dest!: in_set_takeD)
  then show ?thesis using keyed_in_set_iff [OF wf_keyed(4) [OF assms(2)]] by blast
qed

subsection \<open>What the operations change\<close>

lemma wf_create_bucket:
  assumes "create_bucket e name by s = Inr (row, s')" "wf_db s"
  shows "wf_db s'" "slack s' = slack s" "get_bucket s' name = Inr row"
proof -
  from assms(1) have s': "s' = s\<lparr>buckets := buckets s @ [(bk_id row, row)]\<rparr>"
    and new: "map_of (buckets s) (bk_id row) = None" "bk_name row = name"
    and name: "\<And>x. x \<in> set (buckets s) \<Longrightarrow> bk_name (snd x) \<noteq> name"
    and shape: "bucket_name_shape name"
    by (auto simp: create_bucket_def result_iff Let_def split: if_splits)
  have mono: "has_bucket s b \<Longrightarrow> has_bucket s' b" for b
    by (auto simp: has_bucket_def s' map_add_def split: option.splits)
  have up: "has_upload s' = has_upload s" by (simp add: has_upload_def fun_eq_iff s')
  have fresh: "name \<notin> set (map (\<lambda>x. bk_name (snd x)) (buckets s))" using name by fastforce
  have "rows_ok s'"
    using wf_rows [OF assms(2)] mono shape new(2)
    by (fastforce simp: rows_ok_def row_defs s' up [unfolded s'])
  moreover have "keyed_db s'"
    using wf_keyed [OF assms(2)] wf_ids [OF assms(2)] wf_unique [OF assms(2)] new fresh
    by (simp add: keyed_db_def s' map_of_eq_None_iff del: wf_keyed)
  ultimately show "wf_db s'" by (simp add: wf_db_def del: wf_keyed)
  show "slack s' = slack s" by (simp add: s' fun_eq_iff slack_def references_def refcount_def)
  have "find (\<lambda>(_, b). bk_name b = name) (buckets s) = None"
    using name by (fastforce simp: find_None_iff)
  then have "find (\<lambda>(_, b). bk_name b = name) (buckets s @ [(bk_id row, row)]) = Some (bk_id row, row)"
    using new(2) by (simp add: find_append)
  then show "get_bucket s' name = Inr row" by (simp add: get_bucket_def s')
qed

lemma get_bucket_row:
  assumes "get_bucket s name = Inr b" "wf_db s"
  shows "bk_name b = name" "map_of (buckets s) (bk_id b) = Some b"
proof -
  from assms(1) obtain i where "find (\<lambda>(_, b). bk_name b = name) (buckets s) = Some (i, b)"
    by (auto simp: get_bucket_def split: option.splits prod.splits)
  then have row: "(i, b) \<in> set (buckets s)" and "bk_name b = name"
    using find_Some_in by fastforce+
  then show "bk_name b = name" by simp
  have "i = bk_id b" using wf_rows(5) [OF assms(2) row] by (simp add: row_defs)
  with row show "map_of (buckets s) (bk_id b) = Some b"
    using keyed_in_set_iff [OF wf_keyed(1) [OF assms(2)]] by blast
qed

lemma drop_bucket_simps [simp]:
  "buckets (drop_bucket b s) = AList.delete b (buckets s)"
  "settings (drop_bucket b s) = AList.delete b (settings s)"
  "versions (drop_bucket b s) = filter (\<lambda>((b', _, _), _). b' \<noteq> b) (versions s)"
  "objects (drop_bucket b s) = objects s" "uploads (drop_bucket b s) = uploads s"
  "parts (drop_bucket b s) = parts s" "blobs (drop_bucket b s) = blobs s"
  by (simp_all add: drop_bucket_def)

lemma wf_drop_bucket:
  assumes "wf_db s" "\<not> bucket_occupied s b"
  shows "wf_db (drop_bucket b s)"
proof -
  have bucket: "has_bucket (drop_bucket b s) b' \<longleftrightarrow> b' \<noteq> b \<and> has_bucket s b'" for b'
    by (auto simp: has_bucket_def delete_conv')
  have upload: "has_upload (drop_bucket b s) = has_upload s" by (simp add: has_upload_def fun_eq_iff)
  have "keyed_db (drop_bucket b s)"
    using wf_keyed [OF assms(1)] wf_ids [OF assms(1)] wf_unique [OF assms(1)]
    by (simp add: keyed_db_def distinct_map_filter AList.delete_eq del: wf_keyed)
  moreover have "settings_ok (drop_bucket b s) x" if "x \<in> set (AList.delete b (settings s))" for x
    using wf_rows(6) [OF assms(1)] that by (auto simp: row_defs bucket AList.delete_eq)
  moreover have "object_ok (drop_bucket b s) x" if "x \<in> set (objects s)" for x
    using wf_rows(1) [OF assms(1) that] assms(2) that by (auto simp: row_defs bucket bucket_occupied_def)
  moreover have "upload_ok (drop_bucket b s) x" if "x \<in> set (uploads s)" for x
    using wf_rows(3) [OF assms(1) that] assms(2) that by (auto simp: row_defs bucket bucket_occupied_def)
  moreover have "version_ok (drop_bucket b s) x" if "x \<in> set (versions s)" "(\<lambda>((b', _, _), _). b' \<noteq> b) x" for x
    using wf_rows(2) [OF assms(1) that(1)] that(2) by (auto simp: row_defs bucket)
  moreover have "part_ok (drop_bucket b s) x" if "x \<in> set (parts s)" for x
    using wf_rows(4) [OF assms(1) that] by (auto simp: row_defs upload)
  moreover have "bucket_ok x" if "x \<in> set (AList.delete b (buckets s))" for x
    by (rule wf_rows(5) [OF assms(1)]) (rule subsetD [OF set_delete_subset that])
  ultimately show ?thesis
    unfolding wf_db_def rows_ok_def drop_bucket_simps set_filter by blast
qed

lemma slack_drop_bucket:
  "slack (drop_bucket b s) x =
     slack s x + int (tally (version_refs x) (filter (\<lambda>((b', _, _), _). b' = b) (versions s)))"
  using tally_filter_split [of "version_refs x" "versions s" "\<lambda>((b', _, _), _). b' = b"]
  by (simp add: slack_def references_def refcount_def case_prod_unfold)

lemma delete_bucket_InrE:
  assumes "delete_bucket name s = Inr s'"
  obtains b where "get_bucket s name = Inr b" "\<not> bucket_occupied s (bk_id b)"
    "s' = drop_bucket (bk_id b) s"
  using assms by (auto simp: delete_bucket_def result_iff split: if_splits)

lemma save_bucket_settings_balanced:
  assumes "save_bucket_settings e x s = Inr s'" "wf_db s"
  shows "wf_db s' \<and> slack s' = slack s"
proof -
  from assms(1) have s': "s' = s\<lparr>settings := AList.update (bs_bucket_id x) (x\<lparr>bs_updated_at := e_now e\<rparr>) (settings s)\<rparr>"
    and checks: "valid_state (bs_versioning x)" "has_bucket s (bs_bucket_id x)"
    by (auto simp: save_bucket_settings_def result_iff)
  let ?row = "x\<lparr>bs_updated_at := e_now e\<rparr>"
  have has: "has_bucket s' = has_bucket s" "has_upload s' = has_upload s"
    by (simp_all add: s' fun_eq_iff has_bucket_def has_upload_def)
  have "settings_ok s' y" if "y \<in> set (settings s')" for y
  proof -
    from that have "y = (bs_bucket_id x, ?row) \<or> y \<in> set (settings s)"
      using set_update_subset [of "bs_bucket_id x" ?row "settings s"] by (auto simp: s')
    then show ?thesis using checks wf_rows(6) [OF assms(2)] by (auto simp: row_defs has)
  qed
  moreover have "object_ok s' = object_ok s" "version_ok s' = version_ok s" "upload_ok s' = upload_ok s"
    "part_ok s' = part_ok s" using has by (simp_all add: row_defs)
  ultimately have "rows_ok s'" using wf_rows [OF assms(2)] by (simp add: rows_ok_def s')
  moreover have "keyed_db s'"
    using wf_keyed [OF assms(2)] wf_ids [OF assms(2)] wf_unique [OF assms(2)] by (simp add: keyed_db_def s')
  ultimately have "wf_db s'" by (simp add: wf_db_def del: wf_keyed)
  moreover have "slack s' = slack s" by (simp add: s' fun_eq_iff slack_def references_def refcount_def)
  ultimately show ?thesis ..
qed

interpretation create_bucket_tx: accounted "create_bucket e name creator" for e name creator
  by unfold_locales (auto simp: wf_create_bucket)

interpretation save_settings_tx: accounted "no_result (save_bucket_settings e x)" for e x
  by unfold_locales (auto simp: result_iff save_bucket_settings_balanced)

lemma delete_bucket_slack:
  assumes "delete_bucket name s = Inr s'" "get_bucket s name = Inr b" "wf_db s"
  shows "wf_db s'" "slack s' x = slack s x +
       int (tally (version_refs x) (filter (\<lambda>((b', _, _), _). b' = bk_id b) (versions s)))"
proof -
  have s': "s' = drop_bucket (bk_id b) s" and "\<not> bucket_occupied s (bk_id b)"
    using assms(1,2) by (auto elim: delete_bucket_InrE)
  then show "wf_db s'" using wf_drop_bucket [OF assms(3)] by simp
  show "slack s' x = slack s x +
       int (tally (version_refs x) (filter (\<lambda>((b', _, _), _). b' = bk_id b) (versions s)))"
    unfolding s' by (rule slack_drop_bucket)
qed

end
