(* ===== verification/Listing.thy ===== *)
theory Listing
  imports Buckets
begin

text \<open>
  Listing the current objects of a bucket page by page (\<^verbatim>\<open>internal/db/listing.go\<close>): the half-open
  range that stands for a prefix, the grouping of keys under a delimiter, the scan that skips a
  whole group, and the cursor of the next page.
\<close>

subsection \<open>The range of a prefix\<close>

definition highest_rune :: string where
  "highest_rune = [CHR 0xF4, CHR 0x8F, CHR 0xBF, CHR 0xBF]"

definition byte_succ :: "char \<Rightarrow> char" where
  "byte_succ c = char_of (of_char c + 1 :: nat)"

text \<open>The loop of \<^verbatim>\<open>prefixUpperBound\<close>, from the last byte down: its argument is reversed.\<close>

fun bump_last :: "string \<Rightarrow> string option" where
  "bump_last [] = None"
| "bump_last (c # cs) =
     (if (of_char c :: nat) < 255 then Some (rev (byte_succ c # cs)) else bump_last cs)"

definition prefix_upper_bound :: "string \<Rightarrow> string" where
  "prefix_upper_bound prefix =
     (case bump_last (rev prefix) of Some u \<Rightarrow> u | None \<Rightarrow> prefix @ highest_rune)"

lemma bump_last_snoc:
  "bump_last (xs @ [c]) =
     (case bump_last xs of
        Some u \<Rightarrow> Some (c # u)
      | None \<Rightarrow> if (of_char c :: nat) < 255 then Some [byte_succ c] else None)"
  by (induction xs) auto

lemma of_char_byte_succ: "(of_char c :: nat) < 255 \<Longrightarrow> (of_char (byte_succ c) :: nat) = of_char c + 1"
  by (simp add: byte_succ_def)

lemma byte_succ_less:
  assumes "(of_char c :: nat) < 255"
  shows "x < byte_succ c \<longleftrightarrow> x \<le> c" "c < byte_succ c"
  using of_char_byte_succ [OF assms] by (auto simp: less_char_def less_eq_char_def)

lemma top_byte: "\<not> (of_char c :: nat) < 255 \<Longrightarrow> x \<le> c"
  using nat_of_char_less_256 [of x] nat_of_char_less_256 [of c] unfolding less_eq_char_def by linarith

lemma bump_last_None:
  "bump_last (rev p) = None \<Longrightarrow> p \<le> t \<longleftrightarrow> has_prefix t p"
proof (induction p arbitrary: t)
  case (Cons d p)
  then have d: "\<not> (of_char d :: nat) < 255" and "bump_last (rev p) = None"
    by (auto simp: bump_last_snoc split: option.splits if_splits)
  then have IH: "p \<le> u \<longleftrightarrow> has_prefix u p" for u using Cons.IH by blast
  show ?case
  proof (cases t)
    case (Cons x u)
    have "\<not> d < x" using top_byte [OF d, of x] by simp
    with IH show ?thesis by (auto simp: Cons)
  qed simp
qed simp

lemma last_byte_range:
  assumes "(of_char c :: nat) < 255" "p \<le> t \<longleftrightarrow> has_prefix t p"
  shows "c # p \<le> x # t \<and> x # t < [byte_succ c] \<longleftrightarrow> has_prefix (x # t) (c # p)"
proof -
  have "x # t < [byte_succ c] \<longleftrightarrow> x \<le> c" using byte_succ_less(1) [OF assms(1), of x] by simp
  moreover have "c # p \<le> x # t \<longleftrightarrow> c < x \<or> c = x \<and> has_prefix t p" by (simp add: assms(2))
  ultimately show ?thesis by (metis has_prefix_Cons leD order_refl)
qed

lemma bump_last_range:
  "bump_last (rev p) = Some u \<Longrightarrow> (p \<le> k \<and> k < u \<longleftrightarrow> has_prefix k p)"
proof (induction p arbitrary: u k)
  case (Cons c p)
  show ?case
  proof (cases k)
    case Nil
    then show ?thesis by simp
  next
    case k: (Cons x t)
    show ?thesis
    proof (cases "bump_last (rev p)")
      case None
      with Cons.prems have c: "(of_char c :: nat) < 255" "u = [byte_succ c]"
        by (auto simp: bump_last_snoc split: if_splits)
      show ?thesis
        unfolding k c(2) by (rule last_byte_range [OF c(1) bump_last_None [OF None]])
    next
      case (Some v)
      with Cons.prems have u: "u = c # v" by (simp add: bump_last_snoc)
      show ?thesis using Cons.IH [OF Some, of t] unfolding k u by auto
    qed
  qed
qed simp

definition in_range :: "string \<Rightarrow> string \<Rightarrow> bool" where
  "in_range prefix k \<longleftrightarrow> prefix = [] \<or> prefix \<le> k \<and> k < prefix_upper_bound prefix"

text \<open>A prefix that is valid UTF-8 has no byte 0xFF.\<close>

lemma in_range_iff:
  assumes "CHR 0xFF \<notin> set prefix"
  shows "in_range prefix k \<longleftrightarrow> has_prefix k prefix"
proof (cases "prefix = []")
  case False
  have "bump_last (rev prefix) \<noteq> None"
  proof -
    obtain p c where p: "prefix = p @ [c]" using False by (cases prefix rule: rev_cases) auto
    with assms have "c \<noteq> CHR 0xFF" by auto
    moreover have "(of_char (CHR 0xFF) :: nat) = 255" by simp
    ultimately have "(of_char c :: nat) \<noteq> 255" by (metis of_char_eq_iff)
    then have "(of_char c :: nat) < 255" using nat_of_char_less_256 [of c] by linarith
    then show ?thesis by (simp add: p)
  qed
  then obtain u where "bump_last (rev prefix) = Some u" by blast
  with bump_last_range [OF this] False show ?thesis by (simp add: in_range_def prefix_upper_bound_def)
qed (simp add: in_range_def)

subsection \<open>Grouping\<close>

definition group_of :: "string \<Rightarrow> string \<Rightarrow> string \<Rightarrow> string option" where
  "group_of key prefix delimiter =
     (if delimiter = [] then None
      else (let rest = trim_prefix key prefix in
        map_option (\<lambda>i. prefix @ take (i + length delimiter) rest) (index_of rest delimiter)))"

lemma index_of_prefix: "has_prefix s d \<Longrightarrow> index_of s d = Some 0"
  by (cases s) auto

lemma index_of_extend:
  "index_of (r @ d @ x) d = Some (length r) \<Longrightarrow> index_of (r @ d @ y) d = Some (length r)"
proof (induction r)
  case Nil
  show ?case by (simp add: index_of_prefix)
next
  case (Cons c r)
  have "has_prefix (c # r @ d @ x) d = has_prefix (c # r @ d @ y) d"
    by (simp add: has_prefix_def take_Cons')
  with Cons show ?case by (auto split: if_splits)
qed

text \<open>A group is the prefix of its keys up to the delimiter, and decides theirs.\<close>

lemma group_of_Some:
  assumes "group_of k p d = Some g" "has_prefix k p"
  obtains r x where "g = p @ r @ d" "k = g @ x" "d \<noteq> []" "index_of (r @ d @ x) d = Some (length r)"
proof -
  obtain t where t: "k = p @ t" using assms(2) by (auto simp: has_prefix_iff)
  with assms(1) obtain i where d: "d \<noteq> []" and i: "index_of t d = Some i"
    and g: "g = p @ take (i + length d) t"
    by (auto simp: group_of_def Let_def split: if_splits)
  from index_of_Some [OF i] have s: "t = take i t @ d @ drop (i + length d) t" and le: "i + length d \<le> length t"
    by auto
  define r where "r = take i t"
  define x where "x = drop (i + length d) t"
  have tr: "t = r @ d @ x" using s by (simp add: r_def x_def)
  have len: "length r = i" using le by (simp add: r_def)
  have "take (i + length d) t = r @ d" using len by (subst tr) simp
  with g have g': "g = p @ r @ d" by simp
  have "k = g @ x" unfolding g' t tr by simp
  moreover have "index_of (r @ d @ x) d = Some (length r)" using i unfolding tr len .
  ultimately show ?thesis using that [OF g'] d by blast
qed

lemma group_of_prefix:
  "group_of k p d = Some g \<Longrightarrow> has_prefix k p \<Longrightarrow> has_prefix k g \<and> has_prefix g p"
  by (erule (1) group_of_Some) auto

lemma group_of_same:
  assumes "group_of k p d = Some g" "has_prefix k p" "has_prefix k' g"
  shows "group_of k' p d = Some g"
proof -
  obtain r x where g: "g = p @ r @ d" "k = g @ x" "d \<noteq> []" "index_of (r @ d @ x) d = Some (length r)"
    by (rule group_of_Some [OF assms(1,2)])
  obtain y where y: "k' = g @ y" using assms(3) by (auto simp: has_prefix_iff)
  have "trim_prefix k' p = r @ d @ y" by (simp add: y g(1))
  with g index_of_extend [OF g(4), of y] show ?thesis by (simp add: group_of_def)
qed

text \<open>The keys of a group lie between the group and the cursor that skips it.\<close>

lemma prefix_le: "p \<le> p @ (r :: string)"
  by (induction p) auto

lemma between_prefixed:
  "g \<le> k \<Longrightarrow> k \<le> g @ r \<Longrightarrow> has_prefix k (g :: string)"
proof (induction g arbitrary: k)
  case (Cons c g)
  then show ?case by (cases k) (auto simp: Cons_le_Cons)
qed simp

subsection \<open>Reading rows in batches\<close>

record list_options =
  lo_prefix :: string
  lo_delimiter :: string
  lo_start_after :: string
  lo_max_keys :: int

record list_result =
  lr_objects :: "object list"
  lr_common_prefixes :: "string list"
  lr_is_truncated :: bool
  lr_next_start_after :: string

text \<open>The columns of a listed row: all but the metadata and the version id.\<close>

definition listed_row :: "object \<Rightarrow> object" where
  "listed_row r = r\<lparr>o_metadata := [], o_version_id := []\<rparr>"

definition bucket_rows :: "db \<Rightarrow> string \<Rightarrow> object list" where
  "bucket_rows s b = map (\<lambda>x. listed_row (snd x)) (filter (\<lambda>((b', _), _). b' = b) (objects s))"

definition key_batch :: "db \<Rightarrow> string \<Rightarrow> string \<Rightarrow> string \<Rightarrow> nat \<Rightarrow> object list" where
  "key_batch s b prefix after limit =
     take limit (sort_key o_key
       (filter (\<lambda>r. after < o_key r \<and> in_range prefix (o_key r)) (bucket_rows s b)))"

text \<open>All the rows of a prefix, in key order: what the batches are cut from.\<close>

definition prefix_rows :: "db \<Rightarrow> string \<Rightarrow> string \<Rightarrow> object list" where
  "prefix_rows s b prefix = sort_key o_key (filter (\<lambda>r. in_range prefix (o_key r)) (bucket_rows s b))"

lemma key_batch_eq:
  "key_batch s b prefix after limit =
     take limit (filter (\<lambda>r. after < o_key r) (prefix_rows s b prefix))"
  by (simp add: key_batch_def prefix_rows_def filter_sort conj_commute)

subsection \<open>The scan of a batch\<close>

definition page_count :: "list_result \<Rightarrow> nat" where
  "page_count r = length (lr_objects r) + length (lr_common_prefixes r)"

definition previous_cursor :: "list_result \<Rightarrow> string \<Rightarrow> string" where
  "previous_cursor r unconsumed =
     (if lr_objects r \<noteq> [] \<and> (lr_common_prefixes r = [] \<or>
          last (lr_common_prefixes r) < o_key (last (lr_objects r)))
      then o_key (last (lr_objects r))
      else if lr_common_prefixes r \<noteq> [] then last (lr_common_prefixes r) @ highest_rune
      else unconsumed)"

datatype scan = Full list_result | Scanned string list_result "string list"

text \<open>
  The inner loop: \<open>Full\<close> is its return of a truncated page, \<open>Scanned\<close> its normal end or its
  \<open>break\<close> after a new group, with the cursor, the page and the seen groups at that point.
\<close>

fun scan_batch ::
  "string \<Rightarrow> string \<Rightarrow> nat \<Rightarrow> object list \<Rightarrow> string \<Rightarrow> list_result \<Rightarrow> string list \<Rightarrow> scan" where
  "scan_batch prefix delimiter max_keys [] cursor r seen = Scanned cursor r seen"
| "scan_batch prefix delimiter max_keys (x # xs) cursor r seen =
     (case group_of (o_key x) prefix delimiter of
        Some g \<Rightarrow>
          if g \<in> set seen then scan_batch prefix delimiter max_keys xs (o_key x) r seen
          else if max_keys \<le> page_count r
          then Full (r\<lparr>lr_is_truncated := True, lr_next_start_after := previous_cursor r (o_key x)\<rparr>)
          else Scanned (g @ highest_rune)
            (r\<lparr>lr_common_prefixes := lr_common_prefixes r @ [g]\<rparr>) (g # seen)
      | None \<Rightarrow>
          if max_keys \<le> page_count r
          then Full (r\<lparr>lr_is_truncated := True, lr_next_start_after := previous_cursor r (o_key x)\<rparr>)
          else scan_batch prefix delimiter max_keys xs (o_key x)
            (r\<lparr>lr_objects := lr_objects r @ [x]\<rparr>) seen)"

lemma scan_batch_progress:
  assumes "scan_batch p d m xs cursor r seen = Scanned c' r' seen'"
  shows "seen' = seen \<and> c' = (if xs = [] then cursor else o_key (last xs)) \<or>
    (\<exists>x \<in> set xs. \<exists>g. group_of (o_key x) p d = Some g \<and> g \<notin> set seen \<and> seen' = g # seen)"
  using assms
proof (induction xs arbitrary: cursor r)
  case (Cons x xs)
  show ?case
  proof (cases "group_of (o_key x) p d")
    case None
    with Cons.prems Cons.IH show ?thesis by (fastforce split: if_splits)
  next
    case (Some g)
    show ?thesis
    proof (cases "g \<in> set seen")
      case True
      with Some Cons.prems Cons.IH show ?thesis by (fastforce split: if_splits)
    next
      case False
      with Some Cons.prems show ?thesis by (auto split: if_splits)
    qed
  qed
qed simp

subsection \<open>The outer loop\<close>

definition unseen_groups :: "db \<Rightarrow> string \<Rightarrow> list_options \<Rightarrow> string list \<Rightarrow> nat" where
  "unseen_groups s b opts seen =
     card ({g. \<exists>r \<in> set (prefix_rows s b (lo_prefix opts)).
       group_of (o_key r) (lo_prefix opts) (lo_delimiter opts) = Some g} - set seen)"

definition rows_ahead :: "db \<Rightarrow> string \<Rightarrow> list_options \<Rightarrow> string \<Rightarrow> nat" where
  "rows_ahead s b opts cursor =
     length (filter (\<lambda>r. cursor < o_key r) (prefix_rows s b (lo_prefix opts)))"

text \<open>
  The outer loop over queries that all answer; the program's own loop, \<open>list_loop\<close> below, can fail
  at each query and otherwise computes this page. \<open>batch_size\<close> is \<^verbatim>\<open>listBatchSize\<close>. Every round
  either opens a group that was not seen, of which the bucket has finitely many, or moves the cursor
  past a row.
\<close>

function page_loop ::
  "db \<Rightarrow> string \<Rightarrow> list_options \<Rightarrow> nat \<Rightarrow> nat \<Rightarrow> string \<Rightarrow> list_result \<Rightarrow> string list \<Rightarrow> list_result" where
  "page_loop s b opts batch_size max_keys cursor r seen =
     (let batch = key_batch s b (lo_prefix opts) cursor batch_size in
      if batch = [] then r
      else case scan_batch (lo_prefix opts) (lo_delimiter opts) max_keys batch cursor r seen of
        Full r' \<Rightarrow> r'
      | Scanned cursor' r' seen' \<Rightarrow>
          if max_keys \<le> page_count r'
          then (if key_batch s b (lo_prefix opts) cursor' 1 \<noteq> []
                then r'\<lparr>lr_is_truncated := True, lr_next_start_after := cursor'\<rparr> else r')
          else if length batch < batch_size \<and> \<not> has_suffix cursor' highest_rune then r'
          else page_loop s b opts batch_size max_keys cursor' r' seen')"
  by pat_completeness auto

lemma finite_groups: "finite {g. \<exists>r \<in> set rs. f r = Some g}"
  by (rule finite_subset [of _ "(\<lambda>r. the (f r)) ` set rs"]) force+

lemma filter_ahead_less:
  assumes "x \<in> set rs" "cursor < o_key x"
  shows "length (filter (\<lambda>r. o_key x < o_key r) rs) < length (filter (\<lambda>r. cursor < o_key r) rs)"
proof -
  have "length (filter (\<lambda>r. o_key x < o_key r) (filter (\<lambda>r. cursor < o_key r) rs)) <
      length (filter (\<lambda>r. cursor < o_key r) rs)"
    using assms by (intro length_filter_less [of x]) auto
  moreover have "filter (\<lambda>r. o_key x < o_key r) (filter (\<lambda>r. cursor < o_key r) rs) =
      filter (\<lambda>r. o_key x < o_key r) rs"
    using assms(2) by (auto intro: filter_cong)
  ultimately show ?thesis by simp
qed

lemma page_loop_decreases:
  assumes "key_batch s b (lo_prefix opts) cursor n \<noteq> []"
    and "scan_batch (lo_prefix opts) (lo_delimiter opts) m
      (key_batch s b (lo_prefix opts) cursor n) cursor r seen = Scanned cursor' r' seen'"
  shows "unseen_groups s b opts seen' < unseen_groups s b opts seen \<or>
    seen' = seen \<and> rows_ahead s b opts cursor' < rows_ahead s b opts cursor"
proof -
  let ?batch = "key_batch s b (lo_prefix opts) cursor n"
  let ?rows = "prefix_rows s b (lo_prefix opts)"
  have batch: "x \<in> set ?batch \<Longrightarrow> x \<in> set ?rows \<and> cursor < o_key x" for x
    by (auto simp: key_batch_eq dest!: in_set_takeD)
  from scan_batch_progress [OF assms(2)] assms(1)
  consider "seen' = seen" "cursor' = o_key (last ?batch)"
    | x g where "x \<in> set ?batch" "g \<notin> set seen" "seen' = g # seen"
        "group_of (o_key x) (lo_prefix opts) (lo_delimiter opts) = Some g"
    by auto
  then show ?thesis
  proof cases
    case 1
    have "last ?batch \<in> set ?batch" using assms(1) by simp
    with batch have "last ?batch \<in> set ?rows" "cursor < o_key (last ?batch)" by auto
    from filter_ahead_less [OF this] 1 show ?thesis by (simp add: rows_ahead_def)
  next
    case 2
    let ?G = "{g. \<exists>r \<in> set ?rows. group_of (o_key r) (lo_prefix opts) (lo_delimiter opts) = Some g}"
    have "g \<in> ?G" using 2 batch by auto
    then have "?G - set seen' \<subset> ?G - set seen" using 2 by auto
    then have "card (?G - set seen') < card (?G - set seen)"
      by (intro psubset_card_mono finite_Diff finite_groups)
    then show ?thesis by (simp add: unseen_groups_def)
  qed
qed

termination page_loop
  by (relation "measures [\<lambda>(s, b, opts :: list_options, _ :: nat, _ :: nat, _, _ :: list_result, seen).
      unseen_groups s b opts seen,
    \<lambda>(s, b, opts, _, _, cursor, _, _). rows_ahead s b opts cursor]")
    (auto dest!: page_loop_decreases)

declare page_loop.simps [simp del]

definition default_max_keys :: int where "default_max_keys = 1000"
definition max_max_keys :: int where "max_max_keys = 1000"
definition list_batch_size :: nat where "list_batch_size = 1000"

definition page_size :: "int \<Rightarrow> nat" where
  "page_size max_keys =
     nat (if max_keys \<le> 0 \<or> max_max_keys < max_keys then default_max_keys else max_keys)"

definition empty_page :: list_result where
  "empty_page = \<lparr>lr_objects = [], lr_common_prefixes = [], lr_is_truncated = False,
     lr_next_start_after = []\<rparr>"

definition page_objects :: "db \<Rightarrow> string \<Rightarrow> list_options \<Rightarrow> list_result" where
  "page_objects s b opts =
     page_loop s b opts list_batch_size (page_size (lo_max_keys opts)) (lo_start_after opts) empty_page []"

lemma page_size_bounds: "1 \<le> page_size m" "page_size m \<le> 1000"
  by (auto simp: page_size_def default_max_keys_def max_max_keys_def)

subsection \<open>The queries of a listing can fail\<close>

text \<open>
  Postgres refuses a parameter that is no text. The cursor and the prefix come from the request, and
  the upper bound of a prefix may not be valid UTF-8 though the prefix is.
\<close>

definition fetch_key_batch ::
  "db \<Rightarrow> string \<Rightarrow> string \<Rightarrow> string \<Rightarrow> nat \<Rightarrow> string + object list" where
  "fetch_key_batch s b prefix after limit =
     (if text_ok after \<and> (prefix = [] \<or> text_ok prefix \<and> text_ok (prefix_upper_bound prefix))
      then Inr (take limit (sort_key o_key
        (filter (\<lambda>r. after < o_key r \<and> in_range prefix (o_key r)) (bucket_rows s b))))
      else Inl ''list objects: invalid byte sequence for encoding'')"

definition bounds_ok :: "string \<Rightarrow> bool" where
  "bounds_ok prefix \<longleftrightarrow> prefix = [] \<or> text_ok prefix \<and> text_ok (prefix_upper_bound prefix)"

lemma fetch_key_batch_eq:
  "fetch_key_batch s b prefix after limit =
     (if text_ok after \<and> bounds_ok prefix then Inr (key_batch s b prefix after limit)
      else Inl ''list objects: invalid byte sequence for encoding'')"
  by (simp add: fetch_key_batch_def bounds_ok_def key_batch_def)

lemma fetch_key_batch_Inr:
  "fetch_key_batch s b prefix after limit = Inr rows \<Longrightarrow> rows = key_batch s b prefix after limit"
  by (simp add: fetch_key_batch_eq split: if_splits)

function list_loop ::
  "db \<Rightarrow> string \<Rightarrow> list_options \<Rightarrow> nat \<Rightarrow> nat \<Rightarrow> string \<Rightarrow> list_result \<Rightarrow> string list \<Rightarrow>
     string + list_result" where
  "list_loop s b opts batch_size max_keys cursor r seen =
     (case fetch_key_batch s b (lo_prefix opts) cursor batch_size of
        Inl err \<Rightarrow> Inl err
      | Inr batch \<Rightarrow>
      if batch = [] then Inr r
      else case scan_batch (lo_prefix opts) (lo_delimiter opts) max_keys batch cursor r seen of
        Full r' \<Rightarrow> Inr r'
      | Scanned cursor' r' seen' \<Rightarrow>
          if max_keys \<le> page_count r'
          then (case fetch_key_batch s b (lo_prefix opts) cursor' 1 of
              Inl err \<Rightarrow> Inl err
            | Inr ahead \<Rightarrow>
                Inr (if ahead \<noteq> [] then r'\<lparr>lr_is_truncated := True, lr_next_start_after := cursor'\<rparr>
                     else r'))
          else if length batch < batch_size \<and> \<not> has_suffix cursor' highest_rune then Inr r'
          else list_loop s b opts batch_size max_keys cursor' r' seen')"
  by pat_completeness auto

termination list_loop
  by (relation "measures [\<lambda>(s, b, opts :: list_options, _ :: nat, _ :: nat, _, _ :: list_result, seen).
      unseen_groups s b opts seen,
    \<lambda>(s, b, opts, _, _, cursor, _, _). rows_ahead s b opts cursor]")
    (auto dest!: fetch_key_batch_Inr page_loop_decreases)

declare list_loop.simps [simp del]

definition list_objects :: "db \<Rightarrow> string \<Rightarrow> list_options \<Rightarrow> string + list_result" where
  "list_objects s b opts =
     list_loop s b opts list_batch_size (page_size (lo_max_keys opts)) (lo_start_after opts) empty_page []"

text \<open>A loop whose queries all answer computes the page of \<open>page_loop\<close>.\<close>

lemma list_loop_Inr:
  "list_loop s b opts n m cursor r seen = Inr page \<Longrightarrow> page = page_loop s b opts n m cursor r seen"
proof (induction s b opts n m cursor r seen rule: list_loop.induct)
  case (1 s b opts n m cursor r seen)
  let ?batch = "key_batch s b (lo_prefix opts) cursor n"
  from "1.prems" have batch: "fetch_key_batch s b (lo_prefix opts) cursor n = Inr ?batch"
    by (subst (asm) list_loop.simps) (auto split: sum.splits dest: fetch_key_batch_Inr)
  note run = "1.prems" [unfolded list_loop.simps [of s b opts n m cursor r seen] batch sum.case]
  note IH = "1.IH" [OF batch]
  show ?case
    unfolding page_loop.simps [of s b opts n m cursor r seen] Let_def
    using run IH by (auto split: scan.splits if_splits sum.splits dest!: fetch_key_batch_Inr)
qed

lemma list_objects_Inr: "list_objects s b opts = Inr page \<Longrightarrow> page = page_objects s b opts"
  unfolding list_objects_def page_objects_def by (rule list_loop_Inr)

text \<open>
  When a listing answers: its cursor and bounds are text, the keys of the range are, and so is the
  cursor that skips a group (a delimiter may cut a rune in two).
\<close>

definition queries_ok :: "db \<Rightarrow> string \<Rightarrow> list_options \<Rightarrow> bool" where
  "queries_ok s b opts \<longleftrightarrow> text_ok (lo_start_after opts) \<and> bounds_ok (lo_prefix opts) \<and>
     (\<forall>x \<in> set (prefix_rows s b (lo_prefix opts)). text_ok (o_key x) \<and>
        (case group_of (o_key x) (lo_prefix opts) (lo_delimiter opts) of
           None \<Rightarrow> True | Some g \<Rightarrow> text_ok (g @ highest_rune)))"

definition page_ok :: "list_result \<Rightarrow> bool" where
  "page_ok r \<longleftrightarrow> (\<forall>x \<in> set (lr_objects r). text_ok (o_key x)) \<and>
     (\<forall>g \<in> set (lr_common_prefixes r). text_ok (g @ highest_rune)) \<and>
     (lr_is_truncated r \<longrightarrow> text_ok (lr_next_start_after r))"

lemma scan_batch_texts:
  assumes "\<forall>x \<in> set xs. text_ok (o_key x) \<and>
      (case group_of (o_key x) p d of None \<Rightarrow> True | Some g \<Rightarrow> text_ok (g @ highest_rune))"
    and "text_ok cursor" "page_ok r"
  shows "case scan_batch p d m xs cursor r seen of
      Full r' \<Rightarrow> page_ok r' | Scanned c' r' _ \<Rightarrow> text_ok c' \<and> page_ok r'"
  using assms
proof (induction xs arbitrary: cursor r)
  case (Cons x xs)
  have "text_ok (previous_cursor r (o_key x))"
    using Cons.prems by (auto simp: previous_cursor_def page_ok_def)
  with Cons show ?case by (auto simp: page_ok_def split: option.splits)
qed simp

lemma list_loop_returns:
  assumes "queries_ok s b opts" "text_ok cursor" "page_ok r"
  shows "\<exists>page. list_loop s b opts n m cursor r seen = Inr page \<and> page_ok page"
  using assms
proof (induction s b opts n m cursor r seen rule: list_loop.induct)
  case (1 s b opts n m cursor r seen)
  let ?p = "lo_prefix opts" and ?batch = "key_batch s b (lo_prefix opts) cursor n"
  have bounds: "bounds_ok ?p" using "1.prems"(1) by (simp add: queries_ok_def)
  then have fetch: "text_ok c \<Longrightarrow> fetch_key_batch s b ?p c k = Inr (key_batch s b ?p c k)" for c k
    by (simp add: fetch_key_batch_eq)
  have "set ?batch \<subseteq> set (prefix_rows s b ?p)" by (auto simp: key_batch_eq dest: in_set_takeD)
  then have rows: "\<forall>x \<in> set ?batch. text_ok (o_key x) \<and>
      (case group_of (o_key x) ?p (lo_delimiter opts) of None \<Rightarrow> True | Some g \<Rightarrow> text_ok (g @ highest_rune))"
    using "1.prems"(1) by (auto simp: queries_ok_def)
  note texts = scan_batch_texts [OF rows "1.prems"(2,3), of m seen]
  show ?case
  proof (cases "?batch = []")
    case True
    with "1.prems" show ?thesis by (simp add: list_loop.simps [of s b opts n m cursor r seen] fetch)
  next
    case False
    show ?thesis
    proof (cases "scan_batch ?p (lo_delimiter opts) m ?batch cursor r seen")
      case (Full r')
      with False texts "1.prems" show ?thesis
        by (simp add: list_loop.simps [of s b opts n m cursor r seen] fetch)
    next
      case (Scanned c' r' seen')
      with texts have ok: "text_ok c'" "page_ok r'" by simp_all
      from "1.IH" [OF fetch [OF "1.prems"(2)] False Scanned _ _ "1.prems"(1) ok]
      show ?thesis
        using False Scanned ok "1.prems"(2) fetch
        by (subst list_loop.simps) (auto simp: page_ok_def)
    qed
  qed
qed

lemma list_objects_returns:
  assumes "queries_ok s b opts"
  shows "list_objects s b opts = Inr (page_objects s b opts)"
    and "lr_is_truncated (page_objects s b opts) \<Longrightarrow>
      queries_ok s b (opts\<lparr>lo_start_after := lr_next_start_after (page_objects s b opts)\<rparr>)"
proof -
  have "text_ok (lo_start_after opts)" "page_ok empty_page"
    using assms by (simp_all add: queries_ok_def page_ok_def empty_page_def)
  from list_loop_returns [OF assms this, of list_batch_size "page_size (lo_max_keys opts)" "[]"]
  obtain page where page: "list_objects s b opts = Inr page" "page_ok page"
    by (auto simp: list_objects_def)
  from list_objects_Inr [OF page(1)] page show "list_objects s b opts = Inr (page_objects s b opts)" by simp
  assume "lr_is_truncated (page_objects s b opts)"
  then show "queries_ok s b (opts\<lparr>lo_start_after := lr_next_start_after (page_objects s b opts)\<rparr>)"
    using assms page list_objects_Inr [OF page(1)] by (auto simp: queries_ok_def page_ok_def)
qed

text \<open>And when it fails at once.\<close>

lemma list_objects_refused:
  "\<not> text_ok (lo_start_after opts) \<or> \<not> bounds_ok (lo_prefix opts) \<Longrightarrow> \<exists>err. list_objects s b opts = Inl err"
  unfolding list_objects_def by (subst list_loop.simps) (auto simp: fetch_key_batch_eq)

subsection \<open>What a page should hold\<close>

text \<open>
  The specification of a listing: the rows in key order, each group once, at its first key. A
  page is a stretch of these entries.
\<close>

datatype entry = Entry_Object object | Entry_Prefix string

function rollup :: "string \<Rightarrow> string \<Rightarrow> object list \<Rightarrow> entry list" where
  "rollup p d [] = []"
| "rollup p d (x # xs) =
     (case group_of (o_key x) p d of
        None \<Rightarrow> Entry_Object x # rollup p d xs
      | Some g \<Rightarrow> Entry_Prefix g # rollup p d (filter (\<lambda>y. group_of (o_key y) p d \<noteq> Some g) xs))"
  by pat_completeness auto
termination rollup
  by (relation "measure (\<lambda>(_, _, xs). length xs)") (auto simp: le_imp_less_Suc)

fun entry_objects :: "entry list \<Rightarrow> object list" where
  "entry_objects [] = []"
| "entry_objects (Entry_Object x # es) = x # entry_objects es"
| "entry_objects (Entry_Prefix _ # es) = entry_objects es"

fun entry_prefixes :: "entry list \<Rightarrow> string list" where
  "entry_prefixes [] = []"
| "entry_prefixes (Entry_Object _ # es) = entry_prefixes es"
| "entry_prefixes (Entry_Prefix g # es) = g # entry_prefixes es"

definition key_sorted :: "object list \<Rightarrow> bool" where
  "key_sorted xs \<longleftrightarrow> sorted_wrt (\<lambda>x y. o_key x < o_key y) xs"

text \<open>
  The cursor behind a group is above every key of the group: what the code assumes of the keys.
  It holds of all keys that do not continue a group with the code point U+10FFFF.
\<close>

definition rune_bounded :: "string \<Rightarrow> string \<Rightarrow> object list \<Rightarrow> bool" where
  "rune_bounded p d xs \<longleftrightarrow>
     (\<forall>x \<in> set xs. has_prefix (o_key x) p \<and>
       (\<forall>g. group_of (o_key x) p d = Some g \<longrightarrow> o_key x \<le> g @ highest_rune))"

lemma skip_group:
  assumes "rune_bounded p d (x # xs)" "key_sorted (x # xs)" "group_of (o_key x) p d = Some g"
  shows "filter (\<lambda>y. group_of (o_key y) p d \<noteq> Some g) xs =
    filter (\<lambda>y. g @ highest_rune < o_key y) xs"
proof (rule filter_cong [OF refl])
  fix y assume y: "y \<in> set xs"
  have px: "has_prefix (o_key x) p" and bd: "group_of (o_key y) p d = Some g \<Longrightarrow> o_key y \<le> g @ highest_rune"
    using assms(1) y by (auto simp: rune_bounded_def)
  have "g \<le> o_key x"
    using group_of_prefix [OF assms(3) px] prefix_le [of g] by (force simp: has_prefix_iff)
  also have "o_key x < o_key y" using assms(2) y by (simp add: key_sorted_def)
  finally have "o_key y \<le> g @ highest_rune \<Longrightarrow> group_of (o_key y) p d = Some g"
    using between_prefixed [of g "o_key y" highest_rune] group_of_same [OF assms(3) px] by simp
  with bd show "(group_of (o_key y) p d \<noteq> Some g) = (g @ highest_rune < o_key y)" by force
qed

text \<open>The page as one pass over the rows after the cursor, without batches and seen groups.\<close>

function page_from ::
  "string \<Rightarrow> string \<Rightarrow> nat \<Rightarrow> object list \<Rightarrow> string \<Rightarrow> list_result \<Rightarrow> list_result" where
  "page_from p d m [] cursor r = r"
| "page_from p d m (x # xs) cursor r =
     (if m \<le> page_count r then r\<lparr>lr_is_truncated := True, lr_next_start_after := cursor\<rparr>
      else case group_of (o_key x) p d of
        None \<Rightarrow> page_from p d m xs (o_key x) (r\<lparr>lr_objects := lr_objects r @ [x]\<rparr>)
      | Some g \<Rightarrow> page_from p d m (filter (\<lambda>y. g @ highest_rune < o_key y) xs) (g @ highest_rune)
          (r\<lparr>lr_common_prefixes := lr_common_prefixes r @ [g]\<rparr>))"
  by pat_completeness auto
termination
  by (relation "measure (\<lambda>(_, _, _, xs, _). length xs)") (auto simp: le_imp_less_Suc)

definition extends_page :: "list_result \<Rightarrow> entry list \<Rightarrow> list_result \<Rightarrow> bool" where
  "extends_page r es r' \<longleftrightarrow>
     lr_objects r' = lr_objects r @ entry_objects es \<and>
     lr_common_prefixes r' = lr_common_prefixes r @ entry_prefixes es"

lemma key_sorted_filter [simp]: "key_sorted xs \<Longrightarrow> key_sorted (filter q xs)"
  by (simp add: key_sorted_def sorted_wrt_filter)

lemma rune_bounded_filter [simp]: "rune_bounded p d xs \<Longrightarrow> rune_bounded p d (filter q xs)"
  by (simp add: rune_bounded_def)

lemma rows_after_head:
  assumes "key_sorted L" "x # xs = filter (\<lambda>y. cursor < o_key y) L" "o_key x \<le> c"
  shows "filter (\<lambda>y. c < o_key y) xs = filter (\<lambda>y. c < o_key y) L"
proof -
  have "x \<in> set (filter (\<lambda>y. cursor < o_key y) L)" unfolding assms(2) [symmetric] by simp
  then have "cursor < o_key x" by simp
  have "filter (\<lambda>y. c < o_key y) (x # xs) = filter (\<lambda>y. c < o_key y) L"
    unfolding assms(2) using \<open>cursor < o_key x\<close> assms(3) by (auto intro: filter_cong)
  with assms(3) show ?thesis by (simp split: if_splits)
qed

lemma rows_after_first:
  assumes "key_sorted L" "x # xs = filter (\<lambda>y. cursor < o_key y) L"
  shows "xs = filter (\<lambda>y. o_key x < o_key y) L"
proof -
  have "key_sorted (x # xs)" unfolding assms(2) using assms(1) by simp
  then have "filter (\<lambda>y. o_key x < o_key y) xs = xs" by (simp add: key_sorted_def filter_id_conv)
  with rows_after_head [OF assms order_refl] show ?thesis by simp
qed

theorem page_from_spec:
  assumes "key_sorted L" "rune_bounded p d L" "rest = filter (\<lambda>y. cursor < o_key y) L"
    and "\<not> lr_is_truncated r" "page_count r \<le> m"
  defines "k \<equiv> m - page_count r" and "es \<equiv> rollup p d rest" and "r' \<equiv> page_from p d m rest cursor r"
  shows "extends_page r (take k es) r' \<and> (lr_is_truncated r' \<longleftrightarrow> k < length es) \<and>
    (lr_is_truncated r' \<longrightarrow>
       rollup p d (filter (\<lambda>y. lr_next_start_after r' < o_key y) L) = drop k es)"
  using assms(1-5) unfolding k_def es_def r'_def
proof (induction p d m rest cursor r rule: page_from.induct)
  case (1 p d m cursor r)
  then show ?case by (simp add: extends_page_def)
next
  case (2 p d m x xs cursor r)
  show ?case
  proof (cases "m \<le> page_count r")
    case True
    then show ?thesis
      using "2.prems"(3) [symmetric]
      by (cases "group_of (o_key x) p d") (simp_all add: extends_page_def)
  next
    case False
    then have k: "m - page_count r = Suc (m - Suc (page_count r))" by simp
    have sorted: "key_sorted (x # xs)" and bounded: "rune_bounded p d (x # xs)"
      unfolding "2.prems"(3) using "2.prems"(1,2) by simp_all
    show ?thesis
    proof (cases "group_of (o_key x) p d")
      case None
      have "page_count (r\<lparr>lr_objects := lr_objects r @ [x]\<rparr>) = Suc (page_count r)"
        by (simp add: page_count_def)
      with "2.IH"(1) [OF False None "2.prems"(1,2) rows_after_first [OF "2.prems"(1,3)]] "2.prems"(4) False None
      show ?thesis by (simp add: k extends_page_def)
    next
      case (Some g)
      have le: "o_key x \<le> g @ highest_rune" using bounded Some by (simp add: rune_bounded_def)
      have "page_count (r\<lparr>lr_common_prefixes := lr_common_prefixes r @ [g]\<rparr>) = Suc (page_count r)"
        by (simp add: page_count_def)
      with "2.IH"(2) [OF False Some "2.prems"(1,2) rows_after_head [OF "2.prems"(1,3) le]] "2.prems"(4) False Some
      show ?thesis by (simp add: k extends_page_def skip_group [OF bounded sorted Some])
    qed
  qed
qed

subsection \<open>The loop computes the page\<close>

definition loop_inv ::
  "string \<Rightarrow> string \<Rightarrow> object list \<Rightarrow> string \<Rightarrow> list_result \<Rightarrow> string list \<Rightarrow> bool" where
  "loop_inv p d L cursor r seen \<longleftrightarrow>
     \<not> lr_is_truncated r \<and>
     (\<forall>x \<in> set L. cursor < o_key x \<longrightarrow> (\<forall>g. group_of (o_key x) p d = Some g \<longrightarrow> g \<notin> set seen)) \<and>
     (lr_objects r \<noteq> [] \<longrightarrow> o_key (last (lr_objects r)) \<le> cursor \<and>
        group_of (o_key (last (lr_objects r))) p d = None) \<and>
     (lr_common_prefixes r \<noteq> [] \<longrightarrow> last (lr_common_prefixes r) \<le> cursor) \<and>
     (0 < page_count r \<longrightarrow> (\<forall>u. previous_cursor r u = cursor))"

lemma loop_inv_object:
  assumes "loop_inv p d L cursor r seen" "cursor < o_key x" "group_of (o_key x) p d = None"
  shows "loop_inv p d L (o_key x) (r\<lparr>lr_objects := lr_objects r @ [x]\<rparr>) seen"
  using assms by (auto simp: loop_inv_def previous_cursor_def)

lemma loop_inv_group:
  assumes "loop_inv p d L cursor r seen" "rune_bounded p d L" "x \<in> set L" "cursor < o_key x"
    and g: "group_of (o_key x) p d = Some g"
  shows "loop_inv p d L (g @ highest_rune) (r\<lparr>lr_common_prefixes := lr_common_prefixes r @ [g]\<rparr>) (g # seen)"
proof -
  have px: "has_prefix (o_key x) p" and le: "o_key x \<le> g @ highest_rune"
    using assms(2,3) g by (auto simp: rune_bounded_def)
  obtain t where t: "o_key x = g @ t" using group_of_prefix [OF g px] by (auto simp: has_prefix_iff)
  have last: "o_key (last (lr_objects r)) \<le> g" if ne: "lr_objects r \<noteq> []"
  proof (rule ccontr)
    let ?o = "o_key (last (lr_objects r))"
    assume "\<not> ?o \<le> g"
    moreover have "?o \<le> cursor" and none: "group_of ?o p d = None"
      using assms(1) ne by (auto simp: loop_inv_def)
    ultimately have "has_prefix ?o g"
      using between_prefixed [of g ?o t] assms(4) by (simp add: t)
    from group_of_same [OF g px this] none show False by simp
  qed
  have "g \<le> g @ highest_rune" by (rule prefix_le)
  have fresh: "g' \<notin> set (g # seen)"
    if y: "y \<in> set L" "g @ highest_rune < o_key y" "group_of (o_key y) p d = Some g'" for y g'
  proof -
    have "g' \<noteq> g" using assms(2) y by (auto simp: rune_bounded_def)
    moreover have "cursor < o_key y" using assms(4) le y(2) by (meson le_less_trans less_trans)
    then have "g' \<notin> set seen" using assms(1) y by (auto simp: loop_inv_def)
    ultimately show ?thesis by simp
  qed
  show ?thesis
    using assms(1) fresh last \<open>g \<le> g @ highest_rune\<close>
    by (auto simp: loop_inv_def previous_cursor_def dest: order_trans leD)
qed

lemma scan_batch_page:
  assumes "key_sorted L" "rune_bounded p d L" "0 < m"
    and "loop_inv p d L cursor r seen" "filter (\<lambda>y. cursor < o_key y) L = xs @ ys"
  shows "case scan_batch p d m xs cursor r seen of
      Full r' \<Rightarrow> page_from p d m (filter (\<lambda>y. cursor < o_key y) L) cursor r = r'
    | Scanned c' r' seen' \<Rightarrow> loop_inv p d L c' r' seen' \<and>
        page_from p d m (filter (\<lambda>y. cursor < o_key y) L) cursor r =
          page_from p d m (filter (\<lambda>y. c' < o_key y) L) c' r' \<and>
        (ys = [] \<and> \<not> has_suffix c' highest_rune \<longrightarrow> filter (\<lambda>y. c' < o_key y) L = [])"
  using assms(4,5)
proof (induction xs arbitrary: cursor r)
  case Nil
  then show ?case by simp
next
  case (Cons x xs)
  let ?rest = "filter (\<lambda>y. cursor < o_key y) L"
  have rest: "x # (xs @ ys) = ?rest" using Cons.prems(2) by simp
  have "x \<in> set ?rest" unfolding rest [symmetric] by simp
  then have x: "x \<in> set L" "cursor < o_key x" by simp_all
  have full: "previous_cursor r u = cursor" if "m \<le> page_count r" for u
    using Cons.prems(1) that assms(3) by (simp add: loop_inv_def)
  show ?case
  proof (cases "group_of (o_key x) p d")
    case None
    have next_rows: "filter (\<lambda>y. o_key x < o_key y) L = xs @ ys"
      using rows_after_first [OF assms(1) rest] by simp
    from Cons.IH [OF loop_inv_object [OF Cons.prems(1) x(2) None] next_rows] None full
    show ?thesis
      unfolding rest [symmetric] next_rows
      by (cases "m \<le> page_count r") (simp_all split: scan.splits)
  next
    case (Some g)
    have "g \<notin> set seen" using Cons.prems(1) x Some by (auto simp: loop_inv_def)
    moreover have "o_key x \<le> g @ highest_rune" using assms(2) x(1) Some by (simp add: rune_bounded_def)
    note rows_after_head [OF assms(1) rest this]
    moreover have "has_suffix (g @ highest_rune) highest_rune" by (auto simp: has_suffix_iff)
    ultimately show ?thesis
      unfolding rest [symmetric]
      using Some full loop_inv_group [OF Cons.prems(1) assms(2) x Some] by simp
  qed
qed

lemma page_loop_page:
  assumes "key_sorted (prefix_rows s b (lo_prefix opts))"
    "rune_bounded (lo_prefix opts) (lo_delimiter opts) (prefix_rows s b (lo_prefix opts))"
    "0 < m" "0 < n"
    "loop_inv (lo_prefix opts) (lo_delimiter opts) (prefix_rows s b (lo_prefix opts)) cursor r seen"
  shows "page_loop s b opts n m cursor r seen =
    page_from (lo_prefix opts) (lo_delimiter opts) m
      (filter (\<lambda>y. cursor < o_key y) (prefix_rows s b (lo_prefix opts))) cursor r"
  using assms
proof (induction s b opts n m cursor r seen rule: page_loop.induct)
  case (1 s b opts n m cursor r seen)
  let ?L = "prefix_rows s b (lo_prefix opts)" and ?p = "lo_prefix opts" and ?d = "lo_delimiter opts"
  let ?rest = "filter (\<lambda>y. cursor < o_key y) ?L"
  let ?batch = "key_batch s b ?p cursor n"
  have batch: "?batch = take n ?rest" by (rule key_batch_eq)
  show ?case
  proof (cases "?batch = []")
    case True
    with batch \<open>0 < n\<close> have "?rest = []" by simp
    with True show ?thesis by (subst page_loop.simps) simp
  next
    case False
    have "?rest = ?batch @ drop n ?rest" by (simp add: batch)
    note scan = scan_batch_page [OF "1.prems"(1-3,5) this]
    show ?thesis
    proof (cases "scan_batch ?p ?d m ?batch cursor r seen")
      case (Full r')
      with scan False show ?thesis by (subst page_loop.simps) simp
    next
      case (Scanned c' r' seen')
      from scan have inv: "loop_inv ?p ?d ?L c' r' seen'"
        and page: "page_from ?p ?d m ?rest cursor r = page_from ?p ?d m (filter (\<lambda>y. c' < o_key y) ?L) c' r'"
        and drained: "drop n ?rest = [] \<and> \<not> has_suffix c' highest_rune \<longrightarrow> filter (\<lambda>y. c' < o_key y) ?L = []"
        by (simp_all add: Scanned)
      show ?thesis
      proof (cases "m \<le> page_count r'")
        case True
        show ?thesis
          using False True Scanned
          by (subst page_loop.simps, cases "filter (\<lambda>y. c' < o_key y) ?L")
            (simp_all add: page key_batch_eq [of s b ?p c'])
      next
        case more: False
        show ?thesis
        proof (cases "length ?batch < n \<and> \<not> has_suffix c' highest_rune")
          case True
          then have "length ?rest < n" by (simp add: batch min_def split: if_splits)
          with True drained have "filter (\<lambda>y. c' < o_key y) ?L = []" by simp
          with True False more Scanned show ?thesis by (subst page_loop.simps) (simp add: page)
        next
          case again: False
          from "1.IH" [OF refl False Scanned more again "1.prems"(1-4) inv]
          show ?thesis
            using False more again Scanned by (subst page_loop.simps) (auto simp: page)
        qed
      qed
    qed
  qed
qed

lemma prefix_rows_sorted:
  assumes "wf_db s"
  shows "key_sorted (prefix_rows s b p)"
proof -
  have keys: "map o_key (bucket_rows s b) = map (snd \<circ> fst) (filter (\<lambda>((b', _), _). b' = b) (objects s))"
    unfolding bucket_rows_def
    using wf_rows(1) [OF assms] by (fastforce simp: row_defs listed_row_def)
  have "inj_on snd (fst ` set (filter (\<lambda>((b', _), _). b' = b) (objects s)))"
    by (auto simp: inj_on_def)
  moreover have "distinct (map fst (filter (\<lambda>((b', _), _). b' = b) (objects s)))"
    using assms by simp
  ultimately have "distinct (map snd (map fst (filter (\<lambda>((b', _), _). b' = b) (objects s))))"
    by (subst distinct_map) simp
  then have "distinct (map o_key (bucket_rows s b))" by (simp add: keys)
  then have "distinct (bucket_rows s b)" "inj_on o_key (set (bucket_rows s b))"
    unfolding distinct_map by simp_all
  then have "distinct (map o_key (prefix_rows s b p))"
    unfolding distinct_map prefix_rows_def by (auto intro: inj_on_subset)
  then show ?thesis
    unfolding key_sorted_def prefix_rows_def by (intro sorted_wrt_less_keys sorted_sort_key)
qed

subsection \<open>Pages and their sequence\<close>

text \<open>The keys a listing is to report, and the entries they roll up into.\<close>

definition matching_rows :: "db \<Rightarrow> string \<Rightarrow> list_options \<Rightarrow> object list" where
  "matching_rows s b opts =
     sort_key o_key (filter (\<lambda>r. has_prefix (o_key r) (lo_prefix opts) \<and> lo_start_after opts < o_key r)
       (bucket_rows s b))"

definition listing_entries :: "db \<Rightarrow> string \<Rightarrow> list_options \<Rightarrow> entry list" where
  "listing_entries s b opts = rollup (lo_prefix opts) (lo_delimiter opts) (matching_rows s b opts)"

definition listable :: "db \<Rightarrow> string \<Rightarrow> list_options \<Rightarrow> bool" where
  "listable s b opts \<longleftrightarrow> CHR 0xFF \<notin> set (lo_prefix opts) \<and>
     (\<forall>r \<in> set (bucket_rows s b). case group_of (o_key r) (lo_prefix opts) (lo_delimiter opts) of
        None \<Rightarrow> True | Some g \<Rightarrow> o_key r \<le> g @ highest_rune)"

lemma page_objects_page:
  assumes "wf_db s" "listable s b opts"
  defines "m \<equiv> page_size (lo_max_keys opts)" and "es \<equiv> listing_entries s b opts"
    and "page \<equiv> page_objects s b opts"
  shows "lr_objects page = entry_objects (take m es)"
    and "lr_common_prefixes page = entry_prefixes (take m es)"
    and "lr_is_truncated page \<longleftrightarrow> m < length es"
    and "lr_is_truncated page \<Longrightarrow>
      listing_entries s b (opts\<lparr>lo_start_after := lr_next_start_after page\<rparr>) = drop m es"
proof -
  let ?p = "lo_prefix opts" and ?d = "lo_delimiter opts" and ?L = "prefix_rows s b (lo_prefix opts)"
  have ff: "CHR 0xFF \<notin> set ?p" using assms(2) by (simp add: listable_def)
  have rows: "filter (\<lambda>y. c < o_key y) ?L =
      sort_key o_key (filter (\<lambda>r. has_prefix (o_key r) ?p \<and> c < o_key r) (bucket_rows s b))" for c
    by (simp add: prefix_rows_def filter_sort in_range_iff [OF ff])
  have sorted: "key_sorted ?L" by (rule prefix_rows_sorted [OF assms(1)])
  have bounded: "rune_bounded ?p ?d ?L"
    using assms(2) by (force simp: rune_bounded_def prefix_rows_def in_range_iff [OF ff] listable_def
        split: option.splits)
  have es: "rollup ?p ?d (filter (\<lambda>y. lo_start_after opts < o_key y) ?L) = es"
    by (simp add: es_def listing_entries_def matching_rows_def rows)
  have m: "0 < m" "m - page_count empty_page = m"
    using page_size_bounds(1) [of "lo_max_keys opts"] by (simp_all add: m_def page_count_def empty_page_def)
  have inv: "loop_inv ?p ?d ?L (lo_start_after opts) empty_page []"
    by (simp add: loop_inv_def empty_page_def page_count_def)
  have page: "page = page_from ?p ?d m (filter (\<lambda>y. lo_start_after opts < o_key y) ?L)
      (lo_start_after opts) empty_page"
    unfolding page_def page_objects_def m_def [symmetric]
    by (rule page_loop_page [OF sorted bounded m(1) _ inv]) (simp add: list_batch_size_def)
  have "extends_page empty_page (take m es) page \<and> (lr_is_truncated page \<longleftrightarrow> m < length es) \<and>
    (lr_is_truncated page \<longrightarrow> rollup ?p ?d (filter (\<lambda>y. lr_next_start_after page < o_key y) ?L) = drop m es)"
  proof -
    have "\<not> lr_is_truncated empty_page" "page_count empty_page \<le> m"
      by (simp_all add: empty_page_def page_count_def)
    from page_from_spec [OF sorted bounded refl [of "filter (\<lambda>y. lo_start_after opts < o_key y) ?L"] this]
    show ?thesis unfolding page [symmetric] es m(2) .
  qed
  then show "lr_objects page = entry_objects (take m es)"
    "lr_common_prefixes page = entry_prefixes (take m es)" "lr_is_truncated page \<longleftrightarrow> m < length es"
    "lr_is_truncated page \<Longrightarrow>
      listing_entries s b (opts\<lparr>lo_start_after := lr_next_start_after page\<rparr>) = drop m es"
    by (simp_all add: extends_page_def empty_page_def rows listing_entries_def matching_rows_def)
qed

text \<open>A client that follows the cursors, at most \<open>fuel\<close> pages.\<close>

fun list_all :: "db \<Rightarrow> string \<Rightarrow> list_options \<Rightarrow> nat \<Rightarrow> string + object list \<times> string list" where
  "list_all s b opts 0 = Inr ([], [])"
| "list_all s b opts (Suc fuel) =
     rbind (list_objects s b opts) (\<lambda>page.
     if lr_is_truncated page
     then rbind (list_all s b (opts\<lparr>lo_start_after := lr_next_start_after page\<rparr>) fuel) (\<lambda>rest.
       Inr (lr_objects page @ fst rest, lr_common_prefixes page @ snd rest))
     else Inr (lr_objects page, lr_common_prefixes page))"

lemma entry_parts_append:
  "entry_objects (es @ fs) = entry_objects es @ entry_objects fs"
  "entry_prefixes (es @ fs) = entry_prefixes es @ entry_prefixes fs"
  by (induction es rule: entry_objects.induct) simp_all

lemma list_all_entries:
  assumes "wf_db s" "listable s b opts" "length (listing_entries s b opts) < fuel"
    and "list_all s b opts fuel = Inr out"
  shows "out = (entry_objects (listing_entries s b opts), entry_prefixes (listing_entries s b opts))"
  using assms(2-4)
proof (induction fuel arbitrary: opts out)
  case (Suc fuel)
  let ?m = "page_size (lo_max_keys opts)" and ?es = "listing_entries s b opts"
  let ?page = "page_objects s b opts"
  let ?next = "opts\<lparr>lo_start_after := lr_next_start_after ?page\<rparr>"
  note page = page_objects_page [OF assms(1) Suc.prems(1)]
  have this_page: "list_objects s b opts = Inr ?page"
    using Suc.prems(3) list_objects_Inr [of s b opts] by (auto simp: result_iff)
  show ?case
  proof (cases "lr_is_truncated ?page")
    case True
    then obtain rest where rest: "list_all s b ?next fuel = Inr rest"
      "out = (lr_objects ?page @ fst rest, lr_common_prefixes ?page @ snd rest)"
      using Suc.prems(3) by (auto simp: this_page result_iff)
    have "listable s b ?next" using Suc.prems(1) by (simp add: listable_def)
    moreover have entries: "listing_entries s b ?next = drop ?m ?es" by (rule page(4) [OF True])
    moreover have "length (drop ?m ?es) < fuel"
      using Suc.prems(2) page_size_bounds(1) [of "lo_max_keys opts"] True page(3) by simp
    ultimately have "rest = (entry_objects (drop ?m ?es), entry_prefixes (drop ?m ?es))"
      using Suc.IH [of ?next rest] rest(1) by simp
    then show ?thesis by (simp add: rest(2) page(1,2) entry_parts_append [symmetric])
  next
    case False
    with page Suc.prems(3) show ?thesis by (simp add: this_page)
  qed
qed simp

lemma list_all_returns:
  assumes "queries_ok s b opts"
  shows "\<exists>out. list_all s b opts fuel = Inr out"
  using assms
proof (induction fuel arbitrary: opts)
  case (Suc fuel)
  from list_objects_returns [OF Suc.prems] Suc.IH show ?case by fastforce
qed simp

end
