(* ===== verification/Blob_Store.thy ===== *)
theory Blob_Store
  imports Blob_Refs Go_Strings
begin

text \<open>
  The content-addressed store of blobs on local disk (\<^verbatim>\<open>internal/storage/blobstore.go\<close>). The disk is
  the table of its regular files by path; directories are left out, since making one that exists
  is no error. Every system call may fail: \<open>io_faults\<close> says which one does. The hash functions
  are those of the Go standard library, given as \<open>hashes\<close>.
\<close>

subsection \<open>Paths and digests\<close>

type_synonym disk = "(string, string) table"

definition blobs_dir :: string where "blobs_dir = ''blobs''"
definition temp_dir :: string where "temp_dir = ''tmp''"

definition under :: "string \<Rightarrow> string \<Rightarrow> string" where
  "under dir name = dir @ ''/'' @ name"

text \<open>
  \<^verbatim>\<open>blobs/ab/cd/abcd...\<close>; the slices of \<^verbatim>\<open>pathFor\<close> panic on a digest of fewer than four bytes, so
  its callers check the length first.
\<close>

definition path_for :: "string \<Rightarrow> string \<Rightarrow> string" where
  "path_for root digest =
     under (under (under (under root blobs_dir) (take 2 digest)) (take 2 (drop 2 digest))) digest"

definition is_lower_hex :: "char \<Rightarrow> bool" where
  "is_lower_hex c \<longleftrightarrow> c \<in> set hex_digits"

definition valid_digest :: "string \<Rightarrow> bool" where
  "valid_digest d \<longleftrightarrow> length d = 64 \<and> dropWhile is_lower_hex d = []"

datatype store_error =
    ErrInvalidDigest string
  | ErrBlobNotFound string
  | ErrIO string
  | ErrPanic

definition validate_digest :: "string \<Rightarrow> store_error + unit" where
  "validate_digest d = guard_or (valid_digest d) (ErrInvalidDigest d)"

lemma validate_digest_Inr [result_iff]: "validate_digest d = Inr u \<longleftrightarrow> valid_digest d"
  by (simp add: validate_digest_def result_iff)

lemma valid_digest_iff: "valid_digest d \<longleftrightarrow> length d = 64 \<and> set d \<subseteq> set hex_digits"
  by (auto simp: valid_digest_def is_lower_hex_def dropWhile_eq_Nil_conv)

lemma path_for_inj:
  assumes "length d = length d'"
  shows "path_for root d = path_for root d' \<longleftrightarrow> d = d'"
  using assms by (auto simp: path_for_def under_def)

lemma path_for_inj4:
  assumes "path_for root d = path_for root d'" "4 \<le> length d" "4 \<le> length d'"
  shows "d = d'"
proof -
  have "length (path_for root d) = length (path_for root d')" using assms(1) by simp
  then have "length d = length d'" using assms(2,3) by (simp add: path_for_def under_def)
  with path_for_inj assms(1) show ?thesis by simp
qed

text \<open>A valid digest has neither a slash nor a dot: its path cannot leave the blob directory.\<close>

lemma valid_digest_chars:
  assumes "valid_digest d" "c \<in> set d"
  shows "c \<noteq> CHR ''/''" "c \<noteq> CHR ''.''"
  using assms by (auto simp: valid_digest_iff hex_digits_def)

subsection \<open>System calls\<close>

datatype io_call =
    Create_Temp | Chmod_Temp | Sync_Temp | Close_Temp | Make_Dir | Stat_File | Rename_Temp
  | Stat_Winner | Sync_Dir | Remove_File | Open_File | Read_Dir

type_synonym io_faults = "io_call \<Rightarrow> string option"

definition call :: "io_faults \<Rightarrow> io_call \<Rightarrow> store_error + unit" where
  "call faults c = (case faults c of None \<Rightarrow> Inr () | Some msg \<Rightarrow> Inl (ErrIO msg))"

lemma call_Inr [result_iff]: "call faults c = Inr u \<longleftrightarrow> faults c = None"
  by (simp add: call_def split: option.splits)

text \<open>
  One turn of the copy loop: whether the context is cancelled, what \<^verbatim>\<open>Read\<close> returns, and how much
  of it \<^verbatim>\<open>Write\<close> takes.
\<close>

datatype read_end = More | At_EOF | Read_Fails string

record copy_step =
  cs_cancelled :: bool
  cs_data :: string
  cs_end :: read_end
  cs_write_fails :: "string option"
  cs_written :: nat

text \<open>
  The result, and the bytes that reached the file. A reader always ends with an error or
  \<^verbatim>\<open>io.EOF\<close>; the list running out is the latter.
\<close>

fun copy_with_context :: "copy_step list \<Rightarrow> string \<Rightarrow> (store_error + nat) \<times> string" where
  "copy_with_context [] out = (Inr (length out), out)"
| "copy_with_context (st # rest) out =
     (if cs_cancelled st then (Inl (ErrIO ''upload cancelled''), out)
      else if cs_data st \<noteq> [] \<and> cs_write_fails st \<noteq> None
        then (Inl (ErrIO (the (cs_write_fails st))), out @ take (cs_written st) (cs_data st))
      else if cs_data st \<noteq> [] \<and> cs_written st \<noteq> length (cs_data st)
        then (Inl (ErrIO ''short write''), out @ take (cs_written st) (cs_data st))
      else case cs_end st of
          More \<Rightarrow> copy_with_context rest (out @ cs_data st)
        | At_EOF \<Rightarrow> (Inr (length (out @ cs_data st)), out @ cs_data st)
        | Read_Fails msg \<Rightarrow> (Inl (ErrIO msg), out @ cs_data st))"

text \<open>The bytes a source yields when nothing goes wrong.\<close>

fun source_bytes :: "copy_step list \<Rightarrow> string" where
  "source_bytes [] = []"
| "source_bytes (st # rest) =
     cs_data st @ (case cs_end st of More \<Rightarrow> source_bytes rest | _ \<Rightarrow> [])"

lemma copy_with_context_Inr:
  "copy_with_context steps out = (Inr n, written) \<Longrightarrow>
     written = out @ source_bytes steps \<and> n = length written"
proof (induction steps arbitrary: out)
  case (Cons st steps)
  then show ?case by (fastforce split: if_splits read_end.splits)
qed simp

subsection \<open>Put\<close>

record blob =
  b_digest :: string
  b_etag :: string
  b_size :: nat

text \<open>
  What happens between the \<^verbatim>\<open>Stat\<close> of the final path and the rename belongs to other writers:
  \<open>others\<close>; after a failed rename a second \<^verbatim>\<open>Stat\<close>, \<open>Stat_Winner\<close>, looks whether one of them has
  stored the same bytes. The deferred removal of the temporary file runs on every return but the one after the
  rename; its own failure is ignored.
\<close>

definition discard_temp :: "io_faults \<Rightarrow> string \<Rightarrow> disk \<Rightarrow> disk" where
  "discard_temp faults temp f = (if faults Remove_File = None then AList.delete temp f else f)"

definition blob_of :: "hashes \<Rightarrow> string \<Rightarrow> string \<Rightarrow> blob" where
  "blob_of h known written =
     \<lparr>b_digest = (if known = [] then hex_encode (h_sha256 h written) else known),
      b_etag = hex_encode (h_md5 h written), b_size = length written\<rparr>"

definition temp_path :: "string \<Rightarrow> string \<Rightarrow> string" where
  "temp_path root name = under (under root temp_dir) name"

definition store_put ::
  "hashes \<Rightarrow> string \<Rightarrow> io_faults \<Rightarrow> (disk \<Rightarrow> disk) \<Rightarrow> string \<Rightarrow> copy_step list \<Rightarrow> string \<Rightarrow> disk \<Rightarrow>
     (store_error + blob) \<times> disk" where
  "store_put h root faults others temp_name source known f =
     (let temp = temp_path root temp_name in
      case call faults Create_Temp of
        Inl err \<Rightarrow> (Inl err, f)
      | Inr _ \<Rightarrow>
      case call faults Chmod_Temp of
        Inl err \<Rightarrow> (Inl err, discard_temp faults temp (AList.update temp [] f))
      | Inr _ \<Rightarrow>
      (let (copied, written) = copy_with_context source [];
           f1 = AList.update temp written f
       in case rbind copied (\<lambda>n. rbind (call faults Sync_Temp) (\<lambda>_.
            rbind (call faults Close_Temp) (\<lambda>_. Inr n))) of
        Inl err \<Rightarrow> (Inl err, discard_temp faults temp f1)
      | Inr n \<Rightarrow>
      (let b = (blob_of h known written)\<lparr>b_size := n\<rparr>;
           final = path_for root (b_digest b)
       in if length (b_digest b) < 4 then (Inl ErrPanic, discard_temp faults temp f1)
       else case call faults Make_Dir of
        Inl err \<Rightarrow> (Inl err, discard_temp faults temp f1)
      | Inr _ \<Rightarrow>
       case call faults Stat_File of
        Inl err \<Rightarrow> (Inl err, discard_temp faults temp f1)
      | Inr _ \<Rightarrow>
       if map_of f1 final \<noteq> None then (Inr b, discard_temp faults temp f1)
       else let f2 = others f1 in
         case call faults Rename_Temp of
           Inl err \<Rightarrow> (if call faults Stat_Winner = Inr () \<and> map_of f2 final \<noteq> None then Inr b
               else Inl err, discard_temp faults temp f2)
         | Inr _ \<Rightarrow>
           (let f3 = AList.update final written (AList.delete temp f2)
            in case call faults Sync_Dir of
                 Inl err \<Rightarrow> (Inl err, f3)
               | Inr _ \<Rightarrow> (Inr b, f3)))))"

subsection \<open>Open, Stat, Remove, Exists\<close>

definition store_open :: "string \<Rightarrow> io_faults \<Rightarrow> string \<Rightarrow> disk \<Rightarrow> store_error + string" where
  "store_open root faults d f =
     rbind (validate_digest d) (\<lambda>_.
     case map_of f (path_for root d) of
       None \<Rightarrow> Inl (ErrBlobNotFound d)
     | Some bytes \<Rightarrow> rbind (call faults Open_File) (\<lambda>_. Inr bytes))"

definition store_stat :: "string \<Rightarrow> io_faults \<Rightarrow> string \<Rightarrow> disk \<Rightarrow> store_error + nat" where
  "store_stat root faults d f =
     rbind (validate_digest d) (\<lambda>_.
     case map_of f (path_for root d) of
       None \<Rightarrow> Inl (ErrBlobNotFound d)
     | Some bytes \<Rightarrow> rbind (call faults Stat_File) (\<lambda>_. Inr (length bytes)))"

definition store_exists :: "string \<Rightarrow> io_faults \<Rightarrow> string \<Rightarrow> disk \<Rightarrow> store_error + bool" where
  "store_exists root faults d f =
     rbind (validate_digest d) (\<lambda>_.
     case map_of f (path_for root d) of
       None \<Rightarrow> Inr False
     | Some _ \<Rightarrow> rbind (call faults Stat_File) (\<lambda>_. Inr True))"

definition store_remove :: "string \<Rightarrow> io_faults \<Rightarrow> string \<Rightarrow> disk \<Rightarrow> store_error + disk" where
  "store_remove root faults d f =
     rbind (validate_digest d) (\<lambda>_.
     case map_of f (path_for root d) of
       None \<Rightarrow> Inr f
     | Some _ \<Rightarrow> rbind (call faults Remove_File) (\<lambda>_. Inr (AList.delete (path_for root d) f)))"

subsection \<open>Concat and New\<close>

text \<open>Every part is opened before the first byte is copied; the readers are read in order.\<close>

fun open_all :: "string \<Rightarrow> io_faults \<Rightarrow> string list \<Rightarrow> disk \<Rightarrow> store_error + string list" where
  "open_all root faults [] f = Inr []"
| "open_all root faults (d # ds) f =
     rbind (store_open root faults d f) (\<lambda>bytes.
     rbind (open_all root faults ds f) (\<lambda>rest. Inr (bytes # rest)))"

text \<open>\<open>chop\<close> is how the joined readers hand out their bytes: any steps that yield them.\<close>

definition store_concat ::
  "hashes \<Rightarrow> string \<Rightarrow> io_faults \<Rightarrow> (disk \<Rightarrow> disk) \<Rightarrow> string \<Rightarrow> (string \<Rightarrow> copy_step list) \<Rightarrow>
     string list \<Rightarrow> disk \<Rightarrow> (store_error + blob) \<times> disk" where
  "store_concat h root faults others temp_name chop digests f =
     (if digests = [] then store_put h root faults others temp_name (chop []) [] f
      else case open_all root faults digests f of
        Inl err \<Rightarrow> (Inl err, f)
      | Inr pieces \<Rightarrow> store_put h root faults others temp_name (chop (concat pieces)) [] f)"

definition in_dir :: "string \<Rightarrow> string \<Rightarrow> bool" where
  "in_dir dir path \<longleftrightarrow> has_prefix path (under dir [])"

text \<open>
  \<^verbatim>\<open>New\<close> clears the temporary directory, which holds plain files only, in the order of
  \<^verbatim>\<open>os.ReadDir\<close>. The first file that cannot be removed ends it: \<open>fails\<close> says which ones, and
  the files before it are gone.
\<close>

fun remove_stale :: "(string \<Rightarrow> string option) \<Rightarrow> string list \<Rightarrow> disk \<Rightarrow> (store_error + unit) \<times> disk" where
  "remove_stale fails [] f = (Inr (), f)"
| "remove_stale fails (p # ps) f =
     (case fails p of
        Some msg \<Rightarrow> (Inl (ErrIO msg), f)
      | None \<Rightarrow> remove_stale fails ps (AList.delete p f))"

definition clean_temp ::
  "string \<Rightarrow> io_faults \<Rightarrow> (string \<Rightarrow> string option) \<Rightarrow> disk \<Rightarrow> (store_error + unit) \<times> disk" where
  "clean_temp root faults fails f =
     (case call faults Read_Dir of
        Inl err \<Rightarrow> (Inl err, f)
      | Inr _ \<Rightarrow> remove_stale fails (sort (filter (in_dir (under root temp_dir)) (map fst f))) f)"

definition store_new ::
  "string \<Rightarrow> io_faults \<Rightarrow> (string \<Rightarrow> string option) \<Rightarrow> disk \<Rightarrow> (store_error + unit) \<times> disk" where
  "store_new root faults fails f =
     (case call faults Make_Dir of
        Inl err \<Rightarrow> (Inl err, f)
      | Inr _ \<Rightarrow> clean_temp root faults fails f)"

lemma remove_stale_other:
  "p \<notin> set ps \<Longrightarrow> map_of (snd (remove_stale fails ps f)) p = map_of f p"
  by (induction ps arbitrary: f) (auto simp: delete_conv' split: option.splits)

lemma remove_stale_gone:
  "remove_stale fails ps f = (Inr u, f') \<Longrightarrow> p \<in> set ps \<Longrightarrow> map_of f' p = None"
proof (induction ps arbitrary: f)
  case (Cons q ps)
  then have rest: "remove_stale fails ps (AList.delete q f) = (Inr u, f')" by (simp split: option.splits)
  show ?case
  proof (cases "p \<in> set ps")
    case True
    with Cons.IH rest show ?thesis by blast
  next
    case False
    with Cons.prems(2) remove_stale_other [OF False, of fails "AList.delete q f"] rest
    show ?thesis by (simp add: delete_conv')
  qed
qed simp

text \<open>
  Opening the store touches no blob, whatever fails; when nothing fails, no partial upload is left.
\<close>

lemma store_new_effect:
  assumes "store_new root faults fails f = (res, f')"
  shows "map_of f' (path_for root d) = map_of f (path_for root d)"
    and "res = Inr u \<Longrightarrow> map_of f' (temp_path root t) = None"
proof -
  let ?stale = "sort (filter (in_dir (under root temp_dir)) (map fst f))"
  have "path_for root d \<notin> set ?stale"
    by (auto simp: in_dir_def path_for_def under_def has_prefix_iff temp_dir_def blobs_dir_def)
  then show "map_of f' (path_for root d) = map_of f (path_for root d)"
    using assms remove_stale_other [of "path_for root d" ?stale fails f]
    by (auto simp: store_new_def clean_temp_def split: sum.splits)
  assume "res = Inr u"
  then have run: "remove_stale fails ?stale f = (Inr u, f')"
    using assms by (auto simp: store_new_def clean_temp_def split: sum.splits)
  show "map_of f' (temp_path root t) = None"
  proof (cases "temp_path root t \<in> set ?stale")
    case True
    with run show ?thesis by (rule remove_stale_gone)
  next
    case False
    moreover have "in_dir (under root temp_dir) (temp_path root t)"
      by (simp add: in_dir_def temp_path_def under_def has_prefix_iff)
    ultimately have "map_of f (temp_path root t) = None" by (auto simp: map_of_eq_None_iff)
    with remove_stale_other [OF False, of fails f] run show ?thesis by simp
  qed
qed

subsection \<open>What Put leaves on disk\<close>

text \<open>Every file under a valid digest holds bytes of that digest.\<close>

definition sound_store :: "hashes \<Rightarrow> string \<Rightarrow> disk \<Rightarrow> bool" where
  "sound_store h root f \<longleftrightarrow>
     (\<forall>d c. valid_digest d \<longrightarrow> map_of f (path_for root d) = Some c \<longrightarrow> hex_encode (h_sha256 h c) = d)"

text \<open>Other writers add blobs of their own; none takes a file away.\<close>

definition well_behaved :: "hashes \<Rightarrow> string \<Rightarrow> (disk \<Rightarrow> disk) \<Rightarrow> bool" where
  "well_behaved h root others \<longleftrightarrow>
     (\<forall>g p c. map_of g p = Some c \<longrightarrow> map_of (others g) p = Some c) \<and>
     (\<forall>g. sound_store h root g \<longrightarrow> sound_store h root (others g))"

lemma temp_not_final [simp]: "temp_path root t \<noteq> path_for root d" "path_for root d \<noteq> temp_path root t"
  by (simp_all add: temp_path_def path_for_def under_def temp_dir_def blobs_dir_def)

lemma store_put_cases:
  assumes "store_put h root faults others t src known f = (res, f')"
  defines "w \<equiv> source_bytes src"
  defines "temp \<equiv> temp_path root t" and "b \<equiv> blob_of h known w"
  defines "final \<equiv> path_for root (b_digest b)"
  obtains (failed) e written where "res = Inl e"
      "f' = f \<or> f' = discard_temp faults temp (AList.update temp written f)"
  | (deduped) "res = Inr b" "map_of f final \<noteq> None"
      "f' = discard_temp faults temp (AList.update temp w f)"
  | (not_renamed) e where "map_of f final = None"
      "f' = discard_temp faults temp (others (AList.update temp w f))"
      "res = (if faults Stat_Winner = None \<and> map_of (others (AList.update temp w f)) final \<noteq> None
         then Inr b else Inl e)"
  | (committed) e where "map_of f final = None"
      "f' = AList.update final w (AList.delete temp (others (AList.update temp w f)))"
      "res = Inr b \<or> res = Inl e" "4 \<le> length (b_digest b)"
proof (cases "faults Create_Temp = None \<and> faults Chmod_Temp = None")
  case False
  with assms(1) show ?thesis
    by (auto simp: store_put_def call_def temp_def Let_def split: option.splits
        intro: failed [OF _ disjI1] failed [OF _ disjI2])
next
  case start: True
  obtain copied written where copy: "copy_with_context src [] = (copied, written)" by (rule prod.exhaust)
  show ?thesis
  proof (cases "rbind copied (\<lambda>n. rbind (call faults Sync_Temp) (\<lambda>_. rbind (call faults Close_Temp) (\<lambda>_. Inr n)))")
    case (Inl e)
    with assms(1) start copy show ?thesis
      by (auto simp: store_put_def call_def temp_def Let_def intro: failed [OF _ disjI2])
  next
    case (Inr n)
    then have w: "written = w" "n = length w"
      using copy_with_context_Inr [of src "[]" n written] copy by (auto simp: result_iff w_def)
    have b: "(blob_of h known w)\<lparr>b_size := n\<rparr> = b" by (simp add: blob_of_def w b_def)
    have st: "call faults Create_Temp = Inr ()" "call faults Chmod_Temp = Inr ()"
      using start by (simp_all add: call_def)
    have fin: "map_of (AList.update temp w f) final = map_of f final"
      by (simp add: final_def temp_def update_conv')
    have run: "(if length (b_digest b) < 4 then (Inl ErrPanic, discard_temp faults temp (AList.update temp w f))
       else case call faults Make_Dir of
        Inl err \<Rightarrow> (Inl err, discard_temp faults temp (AList.update temp w f))
      | Inr _ \<Rightarrow>
       case call faults Stat_File of
        Inl err \<Rightarrow> (Inl err, discard_temp faults temp (AList.update temp w f))
      | Inr _ \<Rightarrow>
       if map_of f final \<noteq> None then (Inr b, discard_temp faults temp (AList.update temp w f))
       else let f2 = others (AList.update temp w f) in
         case call faults Rename_Temp of
           Inl err \<Rightarrow> (if call faults Stat_Winner = Inr () \<and> map_of f2 final \<noteq> None then Inr b
               else Inl err, discard_temp faults temp f2)
         | Inr _ \<Rightarrow>
           (let f3 = AList.update final w (AList.delete temp f2)
            in case call faults Sync_Dir of Inl err \<Rightarrow> (Inl err, f3) | Inr _ \<Rightarrow> (Inr b, f3))) = (res, f')"
      using assms(1)
      unfolding store_put_def Let_def temp_def [symmetric] st copy prod.case Inr sum.case w(1) b
        final_def [symmetric] fin .
    show ?thesis
      using run
      by (auto simp: Let_def call_def split: if_splits option.splits
          intro: failed deduped not_renamed committed)
  qed
qed

text \<open>A digest the caller vouches for is the one of the bytes it sends.\<close>

definition trusted_digest :: "hashes \<Rightarrow> string \<Rightarrow> string \<Rightarrow> bool" where
  "trusted_digest h known bytes \<longleftrightarrow> known = [] \<or> known = hex_encode (h_sha256 h bytes)"

lemma blob_of_trusted:
  "trusted_digest h known w \<Longrightarrow> b_digest (blob_of h known w) = hex_encode (h_sha256 h w)"
  by (auto simp: trusted_digest_def blob_of_def)

lemma lookup_discard:
  "map_of (discard_temp faults temp f) p = (if p = temp \<and> faults Remove_File = None then None else map_of f p)"
  by (simp add: discard_temp_def delete_conv')

lemma sound_store_frame:
  assumes "sound_store h root f" "\<And>d. map_of f' (path_for root d) = map_of f (path_for root d)"
  shows "sound_store h root f'"
  using assms by (simp add: sound_store_def)

lemma store_put_sound:
  assumes "store_put h root faults others t src known f = (res, f')"
    and "trusted_digest h known (source_bytes src)" "well_behaved h root others" "sound_store h root f"
  shows "sound_store h root f'"
proof -
  let ?w = "source_bytes src" and ?temp = "temp_path root t"
  have written: "sound_store h root (AList.update ?temp x f)" for x
    by (rule sound_store_frame [OF assms(4)]) (simp add: update_conv')
  have interleaved: "sound_store h root (others (AList.update ?temp x f))" for x
    using assms(3) written by (simp add: well_behaved_def)
  have discarded: "sound_store h root (discard_temp faults ?temp g)" if "sound_store h root g" for g
    by (rule sound_store_frame [OF that]) (simp add: lookup_discard)
  from assms(1) show ?thesis
  proof (cases rule: store_put_cases)
    case (committed e)
    let ?g = "AList.delete ?temp (others (AList.update ?temp ?w f))"
    let ?d = "b_digest (blob_of h known ?w)"
    have g: "sound_store h root ?g"
      by (rule sound_store_frame [OF interleaved]) (simp add: delete_conv')
    have "hex_encode (h_sha256 h c) = d"
      if "valid_digest d" "map_of (AList.update (path_for root ?d) ?w ?g) (path_for root d) = Some c" for d c
    proof (cases "path_for root d = path_for root ?d")
      case True
      have "4 \<le> length d" using that(1) by (simp add: valid_digest_def)
      from path_for_inj4 [OF True this committed(4)] have "d = ?d" .
      then show ?thesis using that True blob_of_trusted [OF assms(2)] by (simp add: update_conv')
    next
      case False
      then show ?thesis using that g by (auto simp: update_conv' sound_store_def)
    qed
    then show ?thesis by (simp add: committed(2) sound_store_def)
  qed (use assms(4) written interleaved discarded in auto)
qed

lemma store_put_keeps:
  assumes "store_put h root faults others t src known f = (res, f')" "well_behaved h root others"
    and "p \<noteq> temp_path root t" "map_of f p = Some c"
  shows "map_of f' p = Some c"
proof -
  have grow: "map_of (others g) q = Some c" if "map_of g q = Some c" for g q
    using assms(2) that by (auto simp: well_behaved_def)
  have f1: "map_of (AList.update (temp_path root t) x f) p = Some c" for x
    using assms(3,4) by (simp add: update_conv')
  from assms(1) show ?thesis
  proof (cases rule: store_put_cases)
    case (committed e)
    have "p \<noteq> path_for root (b_digest (blob_of h known (source_bytes src)))"
      using committed(1) assms(4) by auto
    with committed(2) grow [OF f1] assms(3) show ?thesis by (simp add: update_conv' delete_conv')
  qed (use assms(3,4) f1 grow in \<open>auto simp: lookup_discard\<close>)
qed

lemma store_put_Inr:
  assumes "store_put h root faults others t src known f = (Inr b, f')"
    and "trusted_digest h known (source_bytes src)" "well_behaved h root others" "sound_store h root f"
    and "length (h_sha256 h (source_bytes src)) = 32"
  shows "b = blob_of h known (source_bytes src)" "valid_digest (b_digest b)"
    "\<exists>c. map_of f' (path_for root (b_digest b)) = Some c \<and> hex_encode (h_sha256 h c) = b_digest b"
proof -
  let ?w = "source_bytes src" and ?temp = "temp_path root t"
  let ?final = "path_for root (b_digest (blob_of h known ?w))"
  have grow: "map_of (others g) q = Some c" if "map_of g q = Some c" for g q c
    using assms(3) that by (auto simp: well_behaved_def)
  have here: "\<exists>c. map_of f' ?final = Some c" and b: "b = blob_of h known ?w"
    using assms(1)
    by (cases rule: store_put_cases; force simp: lookup_discard update_conv' split: if_splits dest: grow)+
  show "b = blob_of h known ?w" by (rule b)
  have digest: "b_digest b = hex_encode (h_sha256 h ?w)" unfolding b by (rule blob_of_trusted [OF assms(2)])
  show valid: "valid_digest (b_digest b)"
    unfolding valid_digest_iff digest using hex_encode_chars [of "h_sha256 h ?w"] assms(5) by simp
  show "\<exists>c. map_of f' (path_for root (b_digest b)) = Some c \<and> hex_encode (h_sha256 h c) = b_digest b"
    using here store_put_sound [OF assms(1-4)] valid unfolding b sound_store_def by blast
qed

text \<open>A failed Put leaves no part of a blob: what it adds under the blob directory is complete.\<close>

lemma store_put_atomic:
  assumes "store_put h root faults (\<lambda>g. g) t src known f = (res, f')" "map_of f (temp_path root t) = None"
    and "faults Remove_File = None"
  shows "map_of f' p = map_of f p \<or>
    p = path_for root (b_digest (blob_of h known (source_bytes src))) \<and> map_of f p = None \<and>
    map_of f' p = Some (source_bytes src)"
  using assms(1) by (cases rule: store_put_cases)
    (use assms(2,3) in \<open>auto simp: lookup_discard update_conv' delete_conv' split: if_splits\<close>)

subsection \<open>The store as the sweeper's remover\<close>

fun error_text :: "store_error \<Rightarrow> string" where
  "error_text (ErrInvalidDigest d) = ''invalid blob digest ''"
| "error_text (ErrBlobNotFound d) = ''blob not found''"
| "error_text (ErrIO msg) = msg"
| "error_text ErrPanic = ''panic''"

definition remove_blob :: "string \<Rightarrow> io_faults \<Rightarrow> string \<Rightarrow> disk \<Rightarrow> string + disk" where
  "remove_blob root faults d f =
     (case store_remove root faults d f of Inl err \<Rightarrow> Inl (error_text err) | Inr f' \<Rightarrow> Inr f')"

definition blob_present :: "string \<Rightarrow> disk \<Rightarrow> string \<Rightarrow> bool" where
  "blob_present root f d \<longleftrightarrow> map_of f (path_for root d) \<noteq> None"

text \<open>Joining blobs stores their bytes in the order of the digests.\<close>

lemma store_concat_Inr:
  assumes "store_concat h root faults others t chop digests f = (Inr b, f')"
    and "\<And>x. source_bytes (chop x) = x" "well_behaved h root others" "sound_store h root f"
    and "\<And>x. length (h_sha256 h x) = 32"
  shows "\<exists>pieces. length pieces = length digests \<and>
    (\<forall>i < length digests. map_of f (path_for root (digests ! i)) = Some (pieces ! i)) \<and>
    b_digest b = hex_encode (h_sha256 h (concat pieces)) \<and> b_size b = length (concat pieces) \<and>
    blob_present root f' (b_digest b)"
proof -
  have opened: "open_all root faults ds f = Inr ps \<Longrightarrow> length ps = length ds \<and>
      (\<forall>i < length ds. map_of f (path_for root (ds ! i)) = Some (ps ! i))" for ds ps
  proof (induction ds arbitrary: ps)
    case (Cons d ds)
    then obtain x rest where x: "store_open root faults d f = Inr x" "open_all root faults ds f = Inr rest"
      "ps = x # rest"
      by (auto simp: result_iff)
    have "map_of f (path_for root d) = Some x"
      using x(1) by (auto simp: store_open_def result_iff split: option.splits)
    with Cons.IH [OF x(2)] show ?case by (auto simp: x(3) nth_Cons split: nat.splits)
  qed simp
  have trusted: "trusted_digest h [] y" for y by (simp add: trusted_digest_def)
  obtain pieces where ps: "length pieces = length digests"
    "\<forall>i < length digests. map_of f (path_for root (digests ! i)) = Some (pieces ! i)"
    and put: "store_put h root faults others t (chop (concat pieces)) [] f = (Inr b, f')"
    using assms(1) opened by (auto simp: store_concat_def split: if_splits sum.splits)
  note res = store_put_Inr [OF put trusted assms(3-5)]
  show ?thesis
    using ps res blob_of_trusted [OF trusted] assms(2)
    by (intro exI [of _ pieces]) (auto simp: blob_of_def blob_present_def)
qed

lemma store_remove_present:
  assumes "store_remove root faults d f = Inr f'" "valid_digest x"
  shows "map_of f' (path_for root x) = (if x = d then None else map_of f (path_for root x))"
proof -
  have "path_for root x = path_for root d \<longleftrightarrow> x = d"
    using assms by (intro path_for_inj) (auto simp: store_remove_def result_iff valid_digest_def)
  with assms(1) show ?thesis
    by (auto simp: store_remove_def result_iff delete_conv' split: option.splits if_splits)
qed

interpretation disk_remover: blob_remover "remove_blob root faults" "blob_present root" valid_digest
  for root faults
proof
  fix d f f' x
  assume "remove_blob root faults d f = Inr f'" "valid_digest x"
  then show "blob_present root f' x = (x \<noteq> d \<and> blob_present root f x)"
    using store_remove_present [of root faults d f f' x]
    by (simp add: remove_blob_def blob_present_def split: sum.splits)
qed

end
