(* ===== verification/Samples.thy ===== *)
theory Samples
  imports Listing Blob_Store
begin

text \<open>
  Concrete environments and databases, for the instances of the theorems: a bucket, an object
  written to it, the object overwritten and deleted under versioning. Each database is the outcome
  of running the operations of the model.
\<close>

definition sample_env :: "nat \<Rightarrow> env" where
  "sample_env n = \<lparr>e_now = int n * second, e_uuid = (\<lambda>i. [char_of (97 + n), char_of (48 + i)]),
     e_rand = (\<lambda>i. Some [char_of (65 + n), char_of (48 + i)])\<rparr>"

definition sample_object :: "string \<Rightarrow> string \<Rightarrow> object" where
  "sample_object k d =
     \<lparr>o_id = [], o_bucket_id = ''b0'', o_key = k, o_blob_digest = d, o_size = length d, o_etag = ''e'',
      o_content_type = ''text/plain'', o_metadata = [], o_version_id = [], o_created_at = 0,
      o_updated_at = 0\<rparr>"

definition options :: "versioning_state \<Rightarrow> write_options" where
  "options v = \<lparr>wo_versioning = v, wo_actor = ''ada''\<rparr>"

text \<open>The bucket, with the id \<^verbatim>\<open>b0\<close> its environment hands out.\<close>

definition bucket_db :: db where
  "bucket_db = settle (create_bucket (sample_env 1) ''photos'' None) empty_db"

definition object_db :: db where
  "object_db = settle (put_object (sample_env 2) (sample_object ''a'' ''d1'') (options VersioningEnabled)) bucket_db"

definition version_db :: db where
  "version_db = settle (put_object (sample_env 3) (sample_object ''a'' ''d2'') (options VersioningEnabled)) object_db"

definition marked_db :: db where
  "marked_db = settle (delete_object (sample_env 4) ''b0'' ''a'' (options VersioningEnabled)) version_db"

lemma bucket_db_ok: "wf_db bucket_db" "slack bucket_db = (\<lambda>_. 0)"
proof -
  note wf_empty_db
  moreover have "slack empty_db = (\<lambda>_. 0)" "counts_safe empty_db"
    by (simp_all add: counts_safe_def empty_db_def slack_def fun_eq_iff references_def refcount_def)
  ultimately show "wf_db bucket_db" "slack bucket_db = (\<lambda>_. 0)"
    using create_bucket_tx.settle_safe unfolding bucket_db_def by metis+
qed

lemma sample_safe: "slack s = (\<lambda>_. 0) \<Longrightarrow> counts_safe s" "slack s = (\<lambda>_. 0) \<Longrightarrow> counts_exact s"
  by (simp_all add: counts_safe_iff counts_exact_iff)

lemma object_db_ok: "wf_db object_db" "slack object_db = (\<lambda>_. 0)"
  using put_tx.settle_safe [OF bucket_db_ok(1) sample_safe(1) [OF bucket_db_ok(2)]] bucket_db_ok(2)
  unfolding object_db_def by simp_all

lemma version_db_ok: "wf_db version_db" "slack version_db = (\<lambda>_. 0)"
  using put_tx.settle_safe [OF object_db_ok(1) sample_safe(1) [OF object_db_ok(2)]] object_db_ok(2)
  unfolding version_db_def by simp_all

lemma marked_db_ok: "wf_db marked_db" "slack marked_db = (\<lambda>_. 0)"
  using delete_tx.settle_safe [OF version_db_ok(1) sample_safe(1) [OF version_db_ok(2)]] version_db_ok(2)
  unfolding marked_db_def by simp_all

lemmas sample_exact = sample_safe(2) [OF bucket_db_ok(2)] sample_safe(2) [OF object_db_ok(2)]
  sample_safe(2) [OF version_db_ok(2)] sample_safe(2) [OF marked_db_ok(2)]

lemmas sample_wf = bucket_db_ok(1) object_db_ok(1) version_db_ok(1) marked_db_ok(1)

definition committed :: "db_error + 'a \<Rightarrow> bool" where
  "committed r = (case r of Inl _ \<Rightarrow> False | Inr _ \<Rightarrow> True)"

lemma committedE:
  assumes "committed r"
  obtains x where "r = Inr x"
  using assms by (auto simp: committed_def split: sum.splits)

text \<open>A run that commits, with what its result satisfies.\<close>

definition commits_with :: "db_error + 'r \<times> db \<Rightarrow> ('r \<Rightarrow> db \<Rightarrow> bool) \<Rightarrow> bool" where
  "commits_with out p = (case out of Inl _ \<Rightarrow> False | Inr (r, s') \<Rightarrow> p r s')"

lemma commits_withE:
  assumes "commits_with out p"
  obtains r s' where "out = Inr (r, s')" "p r s'"
  using assms by (auto simp: commits_with_def split: sum.splits)

lemma sample_put:
  "commits_with (put_object (sample_env 3) (sample_object ''a'' ''d2'') (options VersioningEnabled) object_db)
     (\<lambda>row s'. o_version_id row = ''4430'' \<and> committed (get_object_version s' ''b0'' ''a'' ''4330''))"
  by code_simp

lemma sample_delete:
  "commits_with (delete_object (sample_env 4) ''b0'' ''a'' (options VersioningEnabled) version_db)
     (\<lambda>res s'. d_marker_version_id res = ''4531'')"
  by code_simp

lemma sample_versions:
  "committed (get_object_version object_db ''b0'' ''a'' ''4330'')"
  "committed (get_object_version version_db ''b0'' ''a'' ''4330'')"
  "committed (get_object_version version_db ''b0'' ''a'' ''4430'')"
  by code_simp+

end
