(* ===== verification/Maintenance.thy ===== *)
theory Maintenance
  imports Buckets
begin

text \<open>
  The maintenance pass of \<^verbatim>\<open>cmd/s3d/maintenance.go\<close>: abandoned uploads are reaped, lifecycle rules
  expire objects through the ordinary delete, and unreferenced blobs are swept. Every transaction
  has an environment of its own: \<open>es\<close> hands them out by number.
\<close>

definition blob_grace :: time where "blob_grace = 3600 * second"
definition abandoned_upload_age :: time where "abandoned_upload_age = 24 * 3600 * second"
definition batch_limit :: nat where "batch_limit = 500"

definition lifecycle_options :: "bucket_settings \<Rightarrow> write_options" where
  "lifecycle_options x = \<lparr>wo_versioning = bs_versioning x, wo_actor = ''lifecycle''\<rparr>"

text \<open>A key that cannot be deleted is logged and skipped.\<close>

fun expire_keys :: "(nat \<Rightarrow> env) \<Rightarrow> nat \<Rightarrow> string \<Rightarrow> write_options \<Rightarrow> string list \<Rightarrow> db \<Rightarrow> nat \<times> db" where
  "expire_keys es i b opts [] s = (i, s)"
| "expire_keys es i b opts (k # ks) s =
     expire_keys es (i + 1) b opts ks (settle (delete_object (es i) b k opts) s)"

fun expire_rules :: "(nat \<Rightarrow> env) \<Rightarrow> nat \<Rightarrow> string \<Rightarrow> write_options \<Rightarrow> lifecycle_rule list \<Rightarrow> db \<Rightarrow> nat \<times> db" where
  "expire_rules es i b opts [] s = (i, s)"
| "expire_rules es i b opts (rule # rules) s =
     (if \<not> lr_enabled rule \<or> lr_expire_days rule \<le> 0 then expire_rules es i b opts rules s
      else let keys = expired_object_keys (es i) s b (lr_prefix rule) (lr_expire_days rule) batch_limit;
               (j, s1) = expire_keys es (i + 1) b opts keys s
           in expire_rules es j b opts rules s1)"

fun expire_targets :: "(nat \<Rightarrow> env) \<Rightarrow> nat \<Rightarrow> lifecycle_target list \<Rightarrow> db \<Rightarrow> nat \<times> db" where
  "expire_targets es i [] s = (i, s)"
| "expire_targets es i (t # ts) s =
     (let opts = lifecycle_options (get_bucket_settings False s (lt_bucket_id t));
          (j, s1) = expire_rules es i (lt_bucket_id t) opts (lt_rules t) s
      in expire_targets es j ts s1)"

definition expire_by_lifecycle :: "(nat \<Rightarrow> env) \<Rightarrow> nat \<Rightarrow> db \<Rightarrow> nat \<times> db" where
  "expire_by_lifecycle es i s = expire_targets es i (buckets_with_lifecycle s) s"

definition sweep_once ::
  "(string \<Rightarrow> 'f \<Rightarrow> string + 'f) \<Rightarrow> (nat \<Rightarrow> env) \<Rightarrow> db \<times> 'f \<Rightarrow> db \<times> 'f" where
  "sweep_once remove_file es = (\<lambda>(s, f).
     let s1 = snd (reap_abandoned_uploads (es 0) abandoned_upload_age batch_limit s);
         (i, s2) = expire_by_lifecycle es 1 s1;
         (_, s3, f') = sweep_unreferenced remove_file (es i) blob_grace batch_limit (s2, f)
     in (s3, f'))"

subsection \<open>The pass keeps the accounts\<close>

definition accounted_db :: "db \<Rightarrow> bool" where
  "accounted_db s \<longleftrightarrow> wf_db s \<and> counts_safe s"

lemma accounted_dbI:
  assumes "accounted_db s" "wf_db s'" "slack s' = slack s"
  shows "accounted_db s'"
  unfolding accounted_db_def counts_safe_cong [OF assms(3)] using assms(1,2) by (simp add: accounted_db_def)

lemma expire_keys_accounted:
  "accounted_db s \<Longrightarrow> expire_keys es i b opts ks s = (j, s') \<Longrightarrow> accounted_db s' \<and> slack s' = slack s"
proof (induction ks arbitrary: i s)
  case (Cons k ks)
  let ?s1 = "settle (delete_object (es i) b k opts) s"
  have step: "wf_db ?s1 \<and> slack ?s1 = slack s"
    using delete_tx.settle_safe Cons.prems(1) by (simp add: accounted_db_def)
  then have "accounted_db ?s1" using accounted_dbI [OF Cons.prems(1)] by blast
  from Cons.IH [OF this] Cons.prems(2) step show ?case by simp
qed simp

lemma expire_rules_accounted:
  "accounted_db s \<Longrightarrow> expire_rules es i b opts rules s = (j, s') \<Longrightarrow> accounted_db s' \<and> slack s' = slack s"
proof (induction rules arbitrary: i s)
  case (Cons rule rules)
  show ?case
  proof (cases "\<not> lr_enabled rule \<or> lr_expire_days rule \<le> 0")
    case True
    with Cons show ?thesis by simp
  next
    case False
    obtain j1 s1 where run: "expire_keys es (i + 1) b opts
        (expired_object_keys (es i) s b (lr_prefix rule) (lr_expire_days rule) batch_limit) s = (j1, s1)"
      by (rule prod.exhaust)
    from expire_keys_accounted [OF Cons.prems(1) run] Cons.IH [of s1 j1] Cons.prems(2) False run
    show ?thesis by simp
  qed
qed simp

lemma expire_targets_accounted:
  "accounted_db s \<Longrightarrow> expire_targets es i ts s = (j, s') \<Longrightarrow> accounted_db s' \<and> slack s' = slack s"
proof (induction ts arbitrary: i s)
  case (Cons t ts)
  obtain j1 s1 where run: "expire_rules es i (lt_bucket_id t)
      (lifecycle_options (get_bucket_settings False s (lt_bucket_id t))) (lt_rules t) s = (j1, s1)"
    by (rule prod.exhaust)
  from expire_rules_accounted [OF Cons.prems(1) run] Cons.IH [of s1 j1] Cons.prems(2) run
  show ?case by simp
qed simp

lemma reap_accounted:
  assumes "accounted_db s"
  shows "accounted_db (snd (reap_abandoned_uploads e age limit s))"
    "slack (snd (reap_abandoned_uploads e age limit s)) = slack s"
proof -
  obtain s' where "abort_all (abandoned_uploads e age limit s) 0 s =
      (Inr (length (abandoned_uploads e age limit s)), s')" "wf_db s'" "slack s' = slack s"
    using abort_all_balanced [of s _ 0] assms by (auto simp: accounted_db_def)
  with accounted_dbI [OF assms] show "accounted_db (snd (reap_abandoned_uploads e age limit s))"
    "slack (snd (reap_abandoned_uploads e age limit s)) = slack s"
    by (simp_all add: reap_abandoned_uploads_def)
qed

lemma sweep_once_accounted:
  assumes "sweep_once remove_file es (s, f) = (s', f')" "accounted_db s"
  shows "accounted_db s'" "slack s' = slack s"
proof -
  let ?s1 = "snd (reap_abandoned_uploads (es 0) abandoned_upload_age batch_limit s)"
  obtain i s2 where expire: "expire_by_lifecycle es 1 ?s1 = (i, s2)" by (rule prod.exhaust)
  obtain n where sweep: "sweep_unreferenced remove_file (es i) blob_grace batch_limit (s2, f) = (n, s', f')"
    using assms(1) unfolding sweep_once_def Let_def prod.case expire by (auto split: prod.splits)
  note s1 = reap_accounted [OF assms(2), of "es 0" abandoned_upload_age batch_limit]
  have s2: "accounted_db s2" "slack s2 = slack s"
    using expire_targets_accounted [OF s1(1) expire [unfolded expire_by_lifecycle_def]] s1(2) by simp_all
  have "wf_db s'" "slack s' = slack s2"
    using sweep_all_preserves [OF sweep [unfolded sweep_unreferenced_def prod.case]] s2(1)
    by (simp_all add: accounted_db_def)
  with s2 accounted_dbI [OF s2(1)] show "accounted_db s'" "slack s' = slack s" by simp_all
qed

end
