(* ===== verification/System.thy ===== *)
theory System
  imports Maintenance Blob_Store
begin

text \<open>
  The metadata store and the blob store together: every transaction of \<^verbatim>\<open>internal/db\<close> as one step,
  requests that first put bytes on disk and commit their metadata later, and the sweeper that
  unlinks blobs in between. What is kept is stated of every reachable state.
\<close>

subsection \<open>The digests in use\<close>

definition live :: "db \<Rightarrow> string set" where
  "live s = {d. \<exists>x \<in> set (objects s). o_blob_digest (snd x) = d} \<union>
     {d. \<exists>x \<in> set (versions s). v_blob_digest (snd x) = Some d} \<union>
     {d. \<exists>x \<in> set (parts s). mp_blob_digest (snd x) = d}"

lemma live_iff_references: "d \<in> live s \<longleftrightarrow> 0 < references s d"
proof -
  have "0 < references s d \<longleftrightarrow> \<not> (tally (object_refs d) (objects s) = 0 \<and>
      tally (version_refs d) (versions s) = 0 \<and> tally (part_refs d) (parts s) = 0)"
    by (simp add: references_def)
  also have "\<dots> \<longleftrightarrow> d \<in> live s" unfolding tally_eq_0_iff live_def by fastforce
  finally show ?thesis ..
qed

lemma liveI:
  "map_of (objects s) k = Some r \<Longrightarrow> o_blob_digest r \<in> live s"
  "map_of (versions s) kv = Some v \<Longrightarrow> v_blob_digest v = Some d \<Longrightarrow> d \<in> live s"
  "map_of (parts s) u = Some p \<Longrightarrow> mp_blob_digest p \<in> live s"
  by (force simp: live_def dest: map_of_in_set)+

lemma live_subsetI:
  assumes "\<And>x. x \<in> set (objects s') \<Longrightarrow> o_blob_digest (snd x) \<in> D"
    "\<And>x d. x \<in> set (versions s') \<Longrightarrow> v_blob_digest (snd x) = Some d \<Longrightarrow> d \<in> D"
    "\<And>x. x \<in> set (parts s') \<Longrightarrow> mp_blob_digest (snd x) \<in> D"
  shows "live s' \<subseteq> D"
  using assms by (auto simp: live_def)

lemma live_rows:
  "x \<in> set (objects s) \<Longrightarrow> o_blob_digest (snd x) \<in> live s"
  "y \<in> set (versions s) \<Longrightarrow> v_blob_digest (snd y) = Some d \<Longrightarrow> d \<in> live s"
  "z \<in> set (parts s) \<Longrightarrow> mp_blob_digest (snd z) \<in> live s"
  by (auto simp: live_def)

text \<open>What each component may do to the tables without using a digest that is not in \<open>D\<close>.\<close>

lemma live_by_tables:
  assumes "live s \<subseteq> D"
    and "set (objects s') \<subseteq> set (objects s) \<union> {x. o_blob_digest (snd x) \<in> D}"
    and "set (versions s') \<subseteq> set (versions s) \<union> {x. v_blob_digest (snd x) \<in> insert None (Some ` D)}"
    and "set (parts s') \<subseteq> set (parts s) \<union> {x. mp_blob_digest (snd x) \<in> D}"
  shows "live s' \<subseteq> D"
proof (rule live_subsetI)
  show "o_blob_digest (snd x) \<in> D" if "x \<in> set (objects s')" for x
    using that assms(1,2) live_rows(1) by blast
  show "mp_blob_digest (snd x) \<in> D" if "x \<in> set (parts s')" for x
    using that assms(1,4) live_rows(3) by blast
  show "d \<in> D" if "x \<in> set (versions s')" "v_blob_digest (snd x) = Some d" for x d
  proof (cases "x \<in> set (versions s)")
    case True
    with that(2) assms(1) live_rows(2) show ?thesis by blast
  next
    case False
    with that assms(3) show ?thesis by auto
  qed
qed

lemma supersede_versions:
  assumes "supersede e (read_current s b k) opts s1 = Inr (vid, s2)" "live s \<subseteq> D"
  shows "set (versions s2) \<subseteq> set (versions s1) \<union> {x. v_blob_digest (snd x) \<in> insert None (Some ` D)}"
  using assms(1)
proof (cases rule: supersede_InrE)
  case (preserved o1 r)
  then obtain row where row: "map_of (objects s) (b, k) = Some row" "o_blob_digest o1 = o_blob_digest row"
    by auto
  have "v_blob_digest r = Some (o_blob_digest o1)"
    using record_version_row(4) [OF preserved(3)] by (simp add: superseded_version_def)
  moreover have "o_blob_digest o1 \<in> D" using liveI(1) [OF row(1)] row(2) assms(2) by auto
  ultimately show ?thesis using record_version_row(1) [OF preserved(3)] by auto
qed simp

lemma put_object_tables:
  assumes "put_object e obj opts s = Inr (row, s')" "wf_db s"
  shows "objects s' = AList.update (o_bucket_id obj, o_key obj) row (objects s)"
    "o_blob_digest row = o_blob_digest obj" "parts s' = parts s"
    "live s \<subseteq> D \<Longrightarrow>
      set (versions s') \<subseteq> set (versions s) \<union> {x. v_blob_digest (snd x) \<in> insert None (Some ` D)}"
proof -
  let ?cur = "read_current s (o_bucket_id obj) (o_key obj)"
  obtain vid s2 s3 where
    sup: "supersede e ?cur opts (retain_blob e (o_blob_digest obj) (o_size obj) s) = Inr (vid, s2)" and
    up: "upsert_object e 1 (obj\<lparr>o_version_id := vid\<rparr>) s2 = Inr (row, s3)" and
    s': "s' = (case ?cur of None \<Rightarrow> s3 | Some p \<Rightarrow> released (o_blob_digest p) s3)"
    using assms(1) by (rule put_object_InrE)
  have same: "objects s' = objects s3" "versions s' = versions s3" "parts s' = parts s3"
    by (simp_all add: s' split: option.splits)
  have s2: "objects s2 = objects s" "parts s2 = parts s"
    using supersede_balanced [OF sup] assms(2) by simp_all
  from up show "objects s' = AList.update (o_bucket_id obj, o_key obj) row (objects s)"
    "o_blob_digest row = o_blob_digest obj" "parts s' = parts s"
    by (auto elim!: upsert_object_InrE simp: same s2)
  have "versions s' = versions s2" using up by (auto elim!: upsert_object_InrE simp: same)
  then show "live s \<subseteq> D \<Longrightarrow>
      set (versions s') \<subseteq> set (versions s) \<union> {x. v_blob_digest (snd x) \<in> insert None (Some ` D)}"
    using supersede_versions [OF sup] by simp
qed

lemma put_object_live:
  assumes "put_object e obj opts s = Inr (row, s')" "wf_db s"
  shows "live s' \<subseteq> insert (o_blob_digest obj) (live s)"
proof (rule live_by_tables)
  note tables = put_object_tables [OF assms]
  show "live s \<subseteq> insert (o_blob_digest obj) (live s)" by blast
  then show "set (versions s') \<subseteq> set (versions s) \<union>
      {x. v_blob_digest (snd x) \<in> insert None (Some ` insert (o_blob_digest obj) (live s))}"
    by (rule tables(4))
  show "set (objects s') \<subseteq> set (objects s) \<union> {x. o_blob_digest (snd x) \<in> insert (o_blob_digest obj) (live s)}"
    unfolding tables(1) using set_update_subset [of "(o_bucket_id obj, o_key obj)" row "objects s"] tables(2)
    by fastforce
qed (simp add: put_object_tables [OF assms])

lemma release_upload_live: "live (release_upload u s) \<subseteq> live s"
  by (rule live_by_tables [where s = s]) (auto simp: release_upload_def)

lemma delete_object_live:
  assumes "delete_object e b k opts s = Inr (res, s')" "wf_db s" "counts_safe s"
  shows "live s' \<subseteq> live s"
proof -
  obtain marker s1 where
    s1: "if configured (wo_versioning opts) then write_marker e b k opts s = Inr (marker, s1)
     else marker = [] \<and> s1 = s" and
    s': "s' = (case map_of (objects s) (b, k) of None \<Rightarrow> s1
           | Some r \<Rightarrow> released (o_blob_digest r) (delete_object_row b k s1))"
    using assms(1) by (rule delete_object_InrE)
  have "set (versions s1) \<subseteq> set (versions s) \<union> {x. v_blob_digest (snd x) \<in> insert None (Some ` live s)} \<and>
      objects s1 = objects s \<and> parts s1 = parts s"
  proof (cases "configured (wo_versioning opts)")
    case True
    with s1 have wm: "write_marker e b k opts s = Inr (marker, s1)" by simp
    then obtain vid s2 s3 mid m where
      sup: "supersede e (read_current s b k) opts s = Inr (vid, s2)" and
      s3: "s3 = s2 \<or> s3 = replace_null_version b k s2" and
      rv: "record_version e 1 2 (delete_marker b k mid (wo_actor opts)) s3 = Inr (m, s1)"
      by (elim write_marker_InrE) auto
    note b2 = supersede_balanced [OF sup assms(2)]
    have "counts_safe s2" using b2(2) assms(3) counts_safe_cong by blast
    note b3 = replace_null_version_balanced [OF b2(1) this, of b k]
    have "set (versions (replace_null_version b k s2)) \<subseteq> set (versions s2)"
      unfolding b3(8) by (rule set_delete_subset)
    with s3 b2(1) b3(1,4) have v3: "set (versions s3) \<subseteq> set (versions s2)" "parts s3 = parts s2" "wf_db s3"
      by blast+
    have "v_blob_digest m = None" using record_version_row(4) [OF rv] by (simp add: delete_marker_def)
    then have "set (versions s1) \<subseteq> set (versions s3) \<union> {x. v_blob_digest (snd x) = None}"
      unfolding record_version_row(1) [OF rv] by simp
    moreover note supersede_versions [OF sup subset_refl] v3(1)
    ultimately have "set (versions s1) \<subseteq> set (versions s) \<union> {x. v_blob_digest (snd x) \<in> insert None (Some ` live s)}"
      by blast
    moreover have "parts s1 = parts s"
      using record_version_balanced(4) [OF rv v3(3)] b2(4) v3(2) by simp
    ultimately show ?thesis using write_marker_balanced(3) [OF wm assms(2,3)] by blast
  qed (use s1 in simp)
  then have v1: "set (versions s1) \<subseteq> set (versions s) \<union> {x. v_blob_digest (snd x) \<in> insert None (Some ` live s)}"
    and "objects s1 = objects s" "parts s1 = parts s" by blast+
  then have "set (objects s') \<subseteq> set (objects s)" "versions s' = versions s1" "parts s' = parts s"
    using set_delete_subset [of "(b, k)" "objects s"] by (simp_all add: s' split: option.splits)
  with v1 show ?thesis by (intro live_by_tables [OF subset_refl]) auto
qed

lemma promote_live:
  assumes "promote_newest_version e b k s = Inr s'" "wf_db s" "counts_safe s"
  shows "live s' \<subseteq> live s"
  using assms(1)
proof (cases rule: promote_newest_version_cases)
  case (promoted v d s1)
  note tables = promote_newest_version_promoted [OF promoted(1,3) assms(2,3) promoted(4,5)]
  have "d \<in> live s" using liveI(2) [OF newest_version_Some(1) [OF promoted(1) assms(2)] promoted(3)] .
  then have objs: "set (objects s') \<subseteq> set (objects s) \<union> {x. o_blob_digest (snd x) \<in> live s}"
    unfolding tables(3) by (auto simp: promoted_object_def)
  have parts: "parts s' = parts s"
    using promoted(4,5) by (auto simp: result_iff delete_version_by_id_def)
  show ?thesis
    using set_delete_subset [of "(b, k, v_version_id v)" "versions s"]
    by (intro live_by_tables [OF subset_refl objs]) (auto simp: tables(4) parts)
qed simp_all

lemma delete_version_row_live:
  assumes "delete_version_row b k v s = Inr (r, s')"
  shows "live s' \<subseteq> live s"
proof -
  have tables: "objects s' = objects s" "versions s' = AList.delete (b, k, v) (versions s)" "parts s' = parts s"
    using assms by (auto simp: delete_version_row_def Let_def split: option.splits)
  show ?thesis
    using set_delete_subset [of "(b, k, v)" "versions s"]
    by (intro live_by_tables [OF subset_refl]) (auto simp: tables)
qed

lemma delete_object_version_live:
  assumes "delete_object_version e b k vid s = Inr (res, s')" "wf_db s" "counts_safe s"
  shows "live s' \<subseteq> live s"
  using assms(1)
proof (cases rule: delete_object_version_InrE)
  case (current r)
  let ?s1 = "released (o_blob_digest r) (delete_object_row b k s)"
  note bal = drop_current_balanced [OF current(1) assms(2,3)]
  have "counts_safe ?s1" using bal(2) assms(3) counts_safe_cong by blast
  note promote_live [OF current(3) bal(1) this]
  also have "live ?s1 \<subseteq> live s"
    using set_delete_subset [of "(b, k)" "objects s"] by (intro live_by_tables [OF subset_refl]) auto
  finally show ?thesis .
next
  case (noncurrent r v)
  from delete_version_row_live [OF noncurrent(3)] show ?thesis .
next
  case (deleted v s1)
  note bal = delete_version_row_balanced [OF deleted(2) assms(2,3)]
  have "counts_safe s1" using bal(2) assms(3) counts_safe_cong by blast
  from promote_live [OF deleted(3) bal(1) this] delete_version_row_live [OF deleted(2)] show ?thesis by simp
qed

lemma restore_version_live:
  assumes "restore_version e b k vid actor s = Inr (r, s')" "wf_db s" "counts_safe s"
  shows "live s' \<subseteq> live s"
proof -
  obtain v d row s2 s3 w where
    v: "map_of (versions s) (b, k, vid) = Some v" "v_blob_digest v = Some d" and
    up: "upsert_object e 0 (restored_object s b k v d) (retain_blob e d (v_size v) s) = Inr (row, s2)" and
    s3: "s3 = (case map_of (objects s) (b, k) of
             None \<Rightarrow> s2 | Some previous \<Rightarrow> released (o_blob_digest previous) s2)" and
    rv: "record_version e 1 0 (restored_version b k v actor) s3 = Inr (w, s')"
    using assms(1) by (rule restore_version_InrE)
  have d: "d \<in> live s" using liveI(2) [OF v] .
  have t3: "objects s3 = AList.update (b, k) row (objects s)" "o_blob_digest row = d"
    "versions s3 = versions s" "parts s3 = parts s"
    using up by (auto elim!: upsert_object_InrE simp: s3 split: option.splits)
  have "objects s' = objects s3" "parts s' = parts s3"
    using rv by (auto elim!: record_version_InrE simp: result_iff split: option.splits)
  moreover have "v_blob_digest w = Some d"
    using record_version_row(4) [OF rv] v(2) by (simp add: restored_version_def)
  ultimately show ?thesis
    using record_version_row(1) [OF rv] t3 d set_update_subset [of "(b, k)" row "objects s"]
    by (intro live_by_tables [OF subset_refl]) auto
qed

lemma purge_live:
  assumes "purge_version b k vid s = Inr s'"
  shows "live s' \<subseteq> live s"
proof -
  from assms obtain r where "delete_version_row b k vid s = Inr (r, s')"
    by (auto simp: purge_version_def result_iff)
  then show ?thesis by (rule delete_version_row_live)
qed

lemma purge_key_live:
  "purge_key_versions b k s = Inr (n, s') \<Longrightarrow> live s' \<subseteq> live s"
  by (intro live_by_tables [OF subset_refl]) (auto simp: purge_key_versions_def Let_def)

lemma put_part_live:
  assumes "put_multipart_part e u p s = Inr s'"
  shows "live s' \<subseteq> insert (mp_blob_digest p) (live s)"
proof -
  have "objects s' = objects s" "versions s' = versions s"
    "parts s' = AList.update (u, mp_part_number p) (p\<lparr>mp_uploaded_at := e_now e\<rparr>) (parts s)"
    using assms by (auto simp: put_multipart_part_def upsert_part_def result_iff Let_def split: option.splits)
  moreover have "set (AList.update (u, mp_part_number p) (p\<lparr>mp_uploaded_at := e_now e\<rparr>) (parts s)) \<subseteq>
      set (parts s) \<union> {x. mp_blob_digest (snd x) \<in> insert (mp_blob_digest p) (live s)}"
    by (rule subset_trans [OF set_update_subset]) simp
  moreover have "live s \<subseteq> insert (mp_blob_digest p) (live s)" by blast
  ultimately show ?thesis by - (rule live_by_tables [of s], simp_all)
qed

lemma complete_live:
  assumes "complete_multipart_upload e u obj opts s = Inr (row, s')" "wf_db s"
  shows "live s' \<subseteq> insert (o_blob_digest obj) (live s)"
proof -
  from assms(1) obtain s1 where put: "put_object e obj opts s = Inr (row, s1)"
    and s': "s' = release_upload u s1"
    by (auto simp: complete_multipart_upload_def result_iff)
  show ?thesis unfolding s' using release_upload_live put_object_live [OF put assms(2)] by blast
qed

lemma delete_bucket_live:
  assumes "delete_bucket name s = Inr s'"
  shows "live s' \<subseteq> live s"
  using assms
proof (rule delete_bucket_InrE)
  fix b assume "s' = drop_bucket (bk_id b) s"
  then show ?thesis by (intro live_by_tables [OF subset_refl]) auto
qed

subsection \<open>Transactions\<close>

text \<open>Every transaction of \<^verbatim>\<open>internal/db\<close> on buckets, objects, versions and uploads.\<close>

datatype transaction =
    Create_Bucket env string "string option"
  | Delete_Bucket string
  | Save_Settings env bucket_settings
  | Put_Object env object write_options
  | Delete_Object env string string write_options
  | Delete_Version env string string string
  | Restore_Version env string string string string
  | Purge_Version string string string
  | Purge_Key string string
  | Create_Upload env multipart_upload
  | Put_Part env string multipart_part
  | Complete_Upload env string object write_options
  | Abort_Upload string

fun run :: "transaction \<Rightarrow> db \<Rightarrow> db" where
  "run (Create_Bucket e name creator) = settle (create_bucket e name creator)"
| "run (Delete_Bucket name) = settle (no_result (delete_bucket name))"
| "run (Save_Settings e x) = settle (no_result (save_bucket_settings e x))"
| "run (Put_Object e obj opts) = settle (put_object e obj opts)"
| "run (Delete_Object e b k opts) = settle (delete_object e b k opts)"
| "run (Delete_Version e b k vid) = settle (delete_object_version e b k vid)"
| "run (Restore_Version e b k vid actor) = settle (restore_version e b k vid actor)"
| "run (Purge_Version b k vid) = settle (no_result (purge_version b k vid))"
| "run (Purge_Key b k) = settle (purge_key_versions b k)"
| "run (Create_Upload e u) = settle (create_multipart_upload e u)"
| "run (Put_Part e u p) = settle (no_result (put_multipart_part e u p))"
| "run (Complete_Upload e u obj opts) = settle (complete_multipart_upload e u obj opts)"
| "run (Abort_Upload u) = settle (no_result (abort_multipart_upload u))"

text \<open>The digest a transaction brings in from the blob store.\<close>

fun brings :: "transaction \<Rightarrow> string set" where
  "brings (Put_Object e obj opts) = {o_blob_digest obj}"
| "brings (Complete_Upload e u obj opts) = {o_blob_digest obj}"
| "brings (Put_Part e u p) = {mp_blob_digest p}"
| "brings _ = {}"

text \<open>A bucket is dropped with versions left in it.\<close>

definition drops_history :: "transaction \<Rightarrow> db \<Rightarrow> bool" where
  "drops_history t s \<longleftrightarrow> (\<exists>name b. t = Delete_Bucket name \<and> get_bucket s name = Inr b \<and>
     has_version_history s (bk_id b))"

lemma run_delete_bucket:
  assumes "wf_db s" "counts_safe s"
  shows "wf_db (run (Delete_Bucket name) s) \<and> counts_safe (run (Delete_Bucket name) s)"
proof (cases "delete_bucket name s")
  case (Inl e)
  with assms show ?thesis by (simp add: settle_def no_result_def)
next
  case (Inr s')
  then have run: "run (Delete_Bucket name) s = s'" by (simp add: settle_def no_result_def)
  obtain b where b: "get_bucket s name = Inr b" using Inr by (rule delete_bucket_InrE)
  note del = delete_bucket_slack [OF Inr b assms(1)]
  have "wf_db s'" by (rule del(1))
  moreover have "counts_safe s'"
    unfolding counts_safe_iff using assms(2) del(2) by (simp add: counts_safe_iff)
  ultimately show ?thesis by (simp only: run)
qed

lemma no_history_tally:
  assumes "\<not> has_version_history s b"
  shows "filter (\<lambda>((b', _, _), _). b' = b) (versions s) = []"
  using assms by (auto simp: has_version_history_def filter_empty_conv)

lemma run_accounted:
  assumes "wf_db s" "counts_safe s"
  shows "wf_db (run t s) \<and> counts_safe (run t s) \<and> (\<not> drops_history t s \<longrightarrow> slack (run t s) = slack s)"
proof (cases "\<exists>name. t = Delete_Bucket name")
  case True
  then obtain name where t: "t = Delete_Bucket name" by blast
  have "slack (run t s) = slack s" if "\<not> drops_history t s"
  proof (cases "delete_bucket name s")
    case (Inl e)
    then show ?thesis by (simp add: t settle_def no_result_def)
  next
    case (Inr s')
    obtain b where b: "get_bucket s name = Inr b" using Inr by (rule delete_bucket_InrE)
    note slack = delete_bucket_slack(2) [OF Inr b assms(1)]
    have "\<not> has_version_history s (bk_id b)" using that b by (auto simp: drops_history_def t)
    from no_history_tally [OF this] slack have "slack s' = slack s" by (simp add: fun_eq_iff)
    with Inr show ?thesis by (simp add: t settle_def no_result_def)
  qed
  with run_delete_bucket [OF assms] show ?thesis by (simp add: t)
next
  case False
  note settled = put_tx.settle_safe [OF assms] delete_tx.settle_safe [OF assms]
      delete_version_tx.settle_safe [OF assms] restore_tx.settle_safe [OF assms]
      purge_tx.settle_safe [OF assms] purge_key_tx.settle_safe [OF assms]
      create_upload_tx.settle_safe [OF assms] put_part_tx.settle_safe [OF assms]
      complete_tx.settle_safe [OF assms] abort_tx.settle_safe [OF assms]
      create_bucket_tx.settle_safe [OF assms] save_settings_tx.settle_safe [OF assms]
  have "wf_db (run t s) \<and> slack (run t s) = slack s"
  proof (cases t)
    case (Delete_Bucket name)
    with False show ?thesis by blast
  qed (simp_all only: run.simps settled simp_thms)
  with assms(2) counts_safe_cong show ?thesis by blast
qed

lemma settle_live:
  assumes "\<And>r s'. tx s = Inr (r, s') \<Longrightarrow> live s' \<subseteq> D" "live s \<subseteq> D"
  shows "live (settle tx s) \<subseteq> D"
  using assms by (auto simp: settle_def split: sum.splits)

lemma unit_live:
  assumes "\<And>s'. tx s = Inr s' \<Longrightarrow> live s' \<subseteq> D" "live s \<subseteq> D"
  shows "live (settle (no_result tx) s) \<subseteq> D"
  by (rule settle_live) (use assms in \<open>simp_all add: result_iff\<close>)

lemma same_tables_live:
  "objects s' = objects s \<Longrightarrow> versions s' = versions s \<Longrightarrow> parts s' = parts s \<Longrightarrow> live s' \<subseteq> live s"
  by (simp add: live_def)

lemma create_bucket_live: "create_bucket e n c s = Inr (r, s') \<Longrightarrow> live s' \<subseteq> live s"
  by (rule same_tables_live) (auto simp: create_bucket_def Let_def result_iff split: if_splits)

lemma create_upload_live: "create_multipart_upload e u s = Inr (r, s') \<Longrightarrow> live s' \<subseteq> live s"
  by (rule same_tables_live)
    (auto simp: create_multipart_upload_def insert_upload_def Let_def result_iff)

lemma save_settings_live: "save_bucket_settings e x s = Inr s' \<Longrightarrow> live s' \<subseteq> live s"
  by (rule same_tables_live) (auto simp: save_bucket_settings_def result_iff)

lemma abort_live: "abort_multipart_upload u s = Inr s' \<Longrightarrow> live s' \<subseteq> live s"
  using release_upload_live by (simp add: abort_multipart_upload_def) blast

lemma run_live:
  assumes "wf_db s" "counts_safe s"
  shows "live (run t s) \<subseteq> brings t \<union> live s"
proof (cases t)
  case (Put_Object e obj opts)
  show ?thesis
    unfolding Put_Object run.simps by (rule settle_live) (use put_object_live assms(1) in \<open>simp_all, blast\<close>)
next
  case (Complete_Upload e u obj opts)
  show ?thesis
    unfolding Complete_Upload run.simps by (rule settle_live) (use complete_live assms(1) in \<open>simp_all, blast\<close>)
next
  case (Put_Part e u p)
  show ?thesis
    unfolding Put_Part run.simps by (rule unit_live) (use put_part_live in \<open>simp_all, blast\<close>)
next
  case (Delete_Object e b k opts)
  show ?thesis
    unfolding Delete_Object run.simps by (rule settle_live) (simp_all add: delete_object_live [OF _ assms])
next
  case (Delete_Version e b k vid)
  show ?thesis
    unfolding Delete_Version run.simps
    by (rule settle_live) (simp_all add: delete_object_version_live [OF _ assms])
next
  case (Restore_Version e b k vid actor)
  show ?thesis
    unfolding Restore_Version run.simps by (rule settle_live) (simp_all add: restore_version_live [OF _ assms])
qed (simp_all add: settle_live [OF create_bucket_live] unit_live [OF delete_bucket_live]
    unit_live [OF save_settings_live] unit_live [OF purge_live] settle_live [OF purge_key_live]
    settle_live [OF create_upload_live] unit_live [OF abort_live])

subsection \<open>The world: metadata, disk and requests in flight\<close>

text \<open>
  A request that writes puts its bytes on disk first and commits its metadata later; in between
  its digest is pending. Copying an object makes the digest it read pending. The sweeper's claim of
  one batch is one step. \<open>guarded\<close> says whether a batch is free of pending digests, which is
  what the grace period of the sweeper is meant to ensure.
\<close>

record world =
  w_db :: db
  w_disk :: disk
  w_pending :: "string list"

inductive world_step :: "hashes \<Rightarrow> string \<Rightarrow> bool \<Rightarrow> world \<Rightarrow> world \<Rightarrow> bool"
  for h root guarded where
  stored: "store_put h root faults others t src known (w_disk w) = (Inr b, f') \<Longrightarrow>
     trusted_digest h known (source_bytes src) \<Longrightarrow> well_behaved h root others \<Longrightarrow>
     world_step h root guarded w (w\<lparr>w_disk := f', w_pending := b_digest b # w_pending w\<rparr>)"
| store_failed: "store_put h root faults others t src known (w_disk w) = (Inl err, f') \<Longrightarrow>
     trusted_digest h known (source_bytes src) \<Longrightarrow> well_behaved h root others \<Longrightarrow>
     world_step h root guarded w (w\<lparr>w_disk := f'\<rparr>)"
| read_source: "d \<in> live (w_db w) \<Longrightarrow>
     world_step h root guarded w (w\<lparr>w_pending := d # w_pending w\<rparr>)"
| commit: "brings t \<subseteq> set (w_pending w) \<Longrightarrow>
     world_step h root guarded w (w\<lparr>w_db := run t (w_db w)\<rparr>)"
| finished: "world_step h root guarded w (w\<lparr>w_pending := remove1 d (w_pending w)\<rparr>)"
| swept: "sweep_unreferenced (remove_blob root faults) e grace limit (w_db w, w_disk w) = (n, s', f') \<Longrightarrow>
     (guarded \<Longrightarrow> set (unreferenced_blobs e grace limit (w_db w)) \<inter> set (w_pending w) = {}) \<Longrightarrow>
     world_step h root guarded w (w\<lparr>w_db := s', w_disk := f'\<rparr>)"

inductive_cases world_stepE: "world_step h root guarded w w'"

definition initial_world :: world where
  "initial_world = \<lparr>w_db = empty_db, w_disk = [], w_pending = []\<rparr>"

inductive reachable :: "hashes \<Rightarrow> string \<Rightarrow> bool \<Rightarrow> world \<Rightarrow> bool" for h root guarded where
  start: "reachable h root guarded initial_world"
| step: "reachable h root guarded w \<Longrightarrow> world_step h root guarded w w' \<Longrightarrow> reachable h root guarded w'"

text \<open>Every digest a row points at, and every pending one, has its bytes on disk.\<close>

definition durable :: "hashes \<Rightarrow> string \<Rightarrow> world \<Rightarrow> bool" where
  "durable h root w \<longleftrightarrow> sound_store h root (w_disk w) \<and> accounted_db (w_db w) \<and>
     (\<forall>d \<in> live (w_db w) \<union> set (w_pending w). valid_digest d \<and> blob_present root (w_disk w) d)"

lemma sweep_frame:
  assumes "sweep_unreferenced rm e grace limit (s, f) = (n, s', f')" "wf_db s"
  shows "wf_db s'" "slack s' = slack s" "live s' = live s"
  using sweep_all_preserves [OF assms(1) [unfolded sweep_unreferenced_def prod.case] assms(2)]
  by (simp_all add: live_def)

lemma sweep_sound:
  assumes "sweep_all (remove_blob root faults) ds n (s, f) = (n', s', f')" "sound_store h root f"
  shows "sound_store h root f'"
  using assms
proof (induction ds arbitrary: n s f)
  case (Cons d ds)
  show ?case
  proof (cases "claim_and_unlink (remove_blob root faults) d (s, f)")
    case (Inl e)
    with Cons show ?thesis by fastforce
  next
    case (Inr r)
    obtain claimed s1 f1 where r: "r = (claimed, s1, f1)" by (cases r)
    with Inr have step: "claim_and_unlink (remove_blob root faults) d (s, f) = Inr (claimed, s1, f1)" by simp
    have "sound_store h root f1"
      using step
    proof (cases rule: claim_and_unlink_cases)
      case claimed
      then have "store_remove root faults d f = Inr f1" by (simp add: remove_blob_def split: sum.splits)
      from store_remove_present [OF this] Cons.prems(2) show ?thesis
        by (simp add: sound_store_def split: if_splits)
    qed (use Cons.prems(2) in simp)
    moreover have "sweep_all (remove_blob root faults) ds (if claimed then n + 1 else n) (s1, f1) = (n', s', f')"
      using Cons.prems(1) step by simp
    ultimately show ?thesis using Cons.IH by blast
  qed
qed simp

lemma durable_stored:
  assumes "durable h root w" "\<And>x. length (h_sha256 h x) = 32"
    and put: "store_put h root faults others t src known (w_disk w) = (Inr b, f')"
      "trusted_digest h known (source_bytes src)" "well_behaved h root others"
  shows "durable h root (w\<lparr>w_disk := f', w_pending := b_digest b # w_pending w\<rparr>)"
proof -
  from assms(1) have sound: "sound_store h root (w_disk w)" by (simp add: durable_def)
  note res = store_put_Inr [OF put sound assms(2)]
  have kept: "blob_present root f' d" if "blob_present root (w_disk w) d" for d
    using store_put_keeps [OF put(1,3)] that by (auto simp: blob_present_def)
  show ?thesis
    using assms(1) kept res(2,3) store_put_sound [OF put sound]
    by (auto simp: durable_def blob_present_def)
qed

lemma durable_swept:
  assumes "durable h root w"
    and sweep: "sweep_unreferenced (remove_blob root faults) e grace limit (w_db w, w_disk w) = (n, s', f')"
    and "set (unreferenced_blobs e grace limit (w_db w)) \<inter> set (w_pending w) = {}"
  shows "durable h root (w\<lparr>w_db := s', w_disk := f'\<rparr>)"
proof -
  from assms(1) have acc: "accounted_db (w_db w)" and wf: "wf_db (w_db w)"
    and sound: "sound_store h root (w_disk w)"
    by (simp_all add: durable_def accounted_db_def)
  note frame = sweep_frame [OF sweep wf]
  have all: "sweep_all (remove_blob root faults) (unreferenced_blobs e grace limit (w_db w)) 0
      (w_db w, w_disk w) = (n, s', f')"
    using sweep by (simp add: sweep_unreferenced_def)
  have "blob_present root f' d" if d: "d \<in> live (w_db w) \<union> set (w_pending w)" for d
  proof -
    have v: "valid_digest d" "blob_present root (w_disk w) d"
      using assms(1) d by (simp_all add: durable_def)
    show ?thesis
    proof (cases "d \<in> live (w_db w)")
      case True
      then have "0 < references (w_db w) d" by (simp add: live_iff_references)
      from disk_remover.sweep_keeps_referenced [OF sweep wf this v] show ?thesis .
    next
      case False
      with d assms(3) have "d \<notin> set (unreferenced_blobs e grace limit (w_db w))" by blast
      from disk_remover.sweep_all_keeps_unlisted [OF all this v] show ?thesis .
    qed
  qed
  then show ?thesis
    using assms(1) frame(3) accounted_dbI [OF acc frame(1,2)] sweep_sound [OF all sound]
    by (simp add: durable_def)
qed

lemma durable_step:
  assumes "world_step h root True w w'" "durable h root w" "\<And>x. length (h_sha256 h x) = 32"
  shows "durable h root w'"
  using assms(1)
proof (cases rule: world_step.cases)
  case (stored faults others t src known b f')
  from durable_stored [OF assms(2,3) stored(2-4)] show ?thesis by (simp add: stored(1))
next
  case (store_failed faults others t src known err f')
  have "blob_present root f' d" if "blob_present root (w_disk w) d" for d
    using store_put_keeps [OF store_failed(2,4)] that by (auto simp: blob_present_def)
  with assms(2) store_put_sound [OF store_failed(2-4)] show ?thesis
    by (simp add: store_failed(1) durable_def)
next
  case (read_source d)
  with assms(2) show ?thesis by (simp add: durable_def)
next
  case (commit t)
  have acc: "wf_db (w_db w)" "counts_safe (w_db w)" using assms(2) by (simp_all add: durable_def accounted_db_def)
  have "live (run t (w_db w)) \<subseteq> set (w_pending w) \<union> live (w_db w)"
    using run_live [OF acc, of t] commit(2) by blast
  moreover have "accounted_db (run t (w_db w))" using run_accounted [OF acc, of t] by (simp add: accounted_db_def)
  ultimately show ?thesis using assms(2) by (auto simp: commit(1) durable_def)
next
  case (finished d)
  with assms(2) show ?thesis by (auto simp: durable_def dest: notin_set_remove1)
next
  case (swept faults e grace limit n s' f')
  from durable_swept [OF assms(2) swept(2) swept(3)] show ?thesis by (simp add: swept(1))
qed

lemma reachable_durable:
  assumes "reachable h root True w" "\<And>x. length (h_sha256 h x) = 32"
  shows "durable h root w"
  using assms(1)
proof (induction rule: reachable.induct)
  case start
  show ?case
    by (simp add: durable_def initial_world_def sound_store_def accounted_db_def wf_empty_db live_def
        counts_safe_def references_def refcount_def) (simp add: empty_db_def)
next
  case (step w w')
  from durable_step [OF step.hyps(2) step.IH assms(2)] show ?case .
qed

subsection \<open>The ledger\<close>

text \<open>
  The databases that transactions and maintenance passes lead to from the empty one. The flag says
  that on the way no bucket was dropped with versions in it.
\<close>

inductive ledger :: "string \<Rightarrow> bool \<Rightarrow> db \<Rightarrow> bool" for root where
  opened: "ledger root True empty_db"
| transacted: "ledger root exact s \<Longrightarrow> ledger root (exact \<and> \<not> drops_history t s) (run t s)"
| maintained: "ledger root exact s \<Longrightarrow>
    sweep_once (remove_blob root faults) es (s, f) = (s', f') \<Longrightarrow> ledger root exact s'"

lemma ledger_balanced:
  assumes "ledger root exact s"
  shows "accounted_db s \<and> (exact \<longrightarrow> slack s = (\<lambda>_. 0))"
  using assms
proof (induction rule: ledger.induct)
  case opened
  show ?case
    by (simp add: accounted_db_def wf_empty_db counts_safe_def slack_def fun_eq_iff)
      (simp add: empty_db_def references_def refcount_def)
next
  case (transacted exact s t)
  then have acc: "wf_db s" "counts_safe s" by (simp_all add: accounted_db_def)
  from run_accounted [OF this, of t] transacted show ?case by (simp add: accounted_db_def)
next
  case (maintained exact s faults es f s' f')
  with sweep_once_accounted [OF maintained.hyps(2)] show ?case by simp
qed

end
