(* ===== verification/Metadata_Properties.thy ===== *)
theory Metadata_Properties
  imports Samples System
begin

text \<open>
  The properties of the metadata store, each with an instance on the databases of \<open>Samples\<close>.
\<close>

subsection \<open>Writing and reading\<close>

text \<open>A committed PutObject is what the next GetObject of the key returns, with the contents
  it was given; every other key, of this bucket or another, reads as before.\<close>

lemma put_object_correct:
  assumes "put_object e obj opts s = Inr (row, s')" "wf_db s"
  shows "get_object s' (o_bucket_id obj) (o_key obj) = Inr row \<and> contents row = contents obj \<and>
    (\<forall>b k. (b, k) \<noteq> (o_bucket_id obj, o_key obj) \<longrightarrow> get_object s' b k = get_object s b k)"
  using put_object_reads_back [OF assms(1)] put_object_others [OF assms] by (auto simp: get_object_def)

lemma put_object_correct_witness:
  "\<exists>row s'. get_object s' ''b0'' ''a'' = Inr row \<and> contents row = (''d2'', 2, ''e'', ''text/plain'', [])"
proof -
  obtain row s' where put: "put_object (sample_env 3) (sample_object ''a'' ''d2'') (options VersioningEnabled) object_db = Inr (row, s')"
    using sample_put by (rule commits_withE)
  from put_object_correct [OF put object_db_ok(1)] show ?thesis
    by (auto simp: sample_object_def contents_def)
qed

text \<open>C11. On a bucket with versioning enabled an overwrite loses nothing: every version a client
  could fetch by its id before the write can be fetched by the same id after it, with the same
  contents, unless the fresh random id of the write happens to be that id.\<close>

theorem put_object_preserves_versions:
  assumes "put_object e obj opts s = Inr (row, s')" "wf_db s"
    and "wo_versioning opts = VersioningEnabled"
    and "get_object_version s b k vid = Inr r"
    and "(b, k) = (o_bucket_id obj, o_key obj) \<Longrightarrow> o_version_id row \<noteq> internal_version_id vid"
  shows "\<exists>r'. get_object_version s' b k vid = Inr r' \<and> contents r' = contents r"
  by (rule put_object_keeps_versions [OF assms])

lemma put_object_preserves_versions_witness:
  "\<exists>s' r r'. get_object_version object_db ''b0'' ''a'' ''4330'' = Inr r \<and>
     get_object_version s' ''b0'' ''a'' ''4330'' = Inr r' \<and> contents r' = contents r"
proof -
  obtain row s' where put: "put_object (sample_env 3) (sample_object ''a'' ''d2'') (options VersioningEnabled) object_db = Inr (row, s')"
    and new: "o_version_id row = ''4430''"
    using sample_put by (rule commits_withE) blast
  obtain r where r: "get_object_version object_db ''b0'' ''a'' ''4330'' = Inr r"
    using sample_versions(1) by (rule committedE)
  have "o_version_id row \<noteq> internal_version_id ''4330''"
    by (simp add: new internal_version_id_def null_version_id_def)
  with put_object_preserves_versions [OF put object_db_ok(1) _ r] r show ?thesis
    by (auto simp: options_def)
qed

text \<open>C29. A delete on a versioned bucket destroys nothing: the key no longer reads, but every
  version of every key that could be fetched by its id still can.\<close>

theorem delete_object_preserves_versions:
  assumes "delete_object e b k opts s = Inr (res, s')" "wf_db s" "counts_safe s"
    and "wo_versioning opts = VersioningEnabled"
  shows "get_object s' b k = Inl ErrObjectNotFound \<and>
    (\<forall>b' k' vid r. get_object_version s b' k' vid = Inr r \<longrightarrow>
       (\<exists>r'. get_object_version s' b' k' vid = Inr r' \<and> contents r' = contents r))"
  using delete_object_gone [OF assms(1-3)] delete_object_keeps_versions [OF assms] by blast

lemma delete_object_preserves_versions_witness:
  "\<exists>s' r r'. get_object s' ''b0'' ''a'' = Inl ErrObjectNotFound \<and>
     get_object_version version_db ''b0'' ''a'' ''4330'' = Inr r \<and>
     get_object_version s' ''b0'' ''a'' ''4330'' = Inr r' \<and> contents r' = contents r"
proof -
  obtain res s' where del: "delete_object (sample_env 4) ''b0'' ''a'' (options VersioningEnabled) version_db = Inr (res, s')"
    using sample_delete by (rule commits_withE)
  obtain r where r: "get_object_version version_db ''b0'' ''a'' ''4330'' = Inr r"
    using sample_versions(2) by (rule committedE)
  from delete_object_preserves_versions [OF del version_db_ok(1) sample_safe(1) [OF version_db_ok(2)]] r
  show ?thesis by (force simp: options_def)
qed

text \<open>C16. Deleting the delete marker of a versioned delete undoes it, when every version in the key's
  history is strictly older than its current state: the object is current again with the same
  contents and the same version id, the history is the one before the delete, and the references
  to blobs are accounted for as before. The ids drawn must not be empty and the current state must
  have a time. A restore puts a version as new as the current state into the history, and then the
  property fails (\<open>restored_copy_is_promoted\<close>).\<close>

theorem delete_marker_round_trip:
  assumes "wf_db s" "counts_safe s" "wo_versioning opts = VersioningEnabled"
    and "map_of (objects s) (b, k) = Some r"
    and "delete_object e b k opts s = Inr (res, s1)"
    and "\<forall>buf. e_rand e 1 = Some buf \<longrightarrow> buf \<noteq> []"
    and "o_updated_at r \<noteq> zero_time"
    and "\<forall>v \<in> set (history s b k). v_created_at v < o_updated_at r"
  shows "\<exists>res2 s2 r2. delete_object_version e' b k (d_marker_version_id res) s1 = Inr (res2, s2) \<and>
    d_delete_marker res2 \<and> map_of (objects s2) (b, k) = Some r2 \<and> contents r2 = contents r \<and>
    o_version_id r2 = o_version_id r \<and> versions s2 = versions s \<and> wf_db s2 \<and> slack s2 = slack s"
  by (rule undelete [OF assms])

lemma delete_marker_round_trip_witness:
  "\<exists>res s1 res2 s2 r2.
     delete_object (sample_env 4) ''b0'' ''a'' (options VersioningEnabled) version_db = Inr (res, s1) \<and>
     delete_object_version (sample_env 5) ''b0'' ''a'' (d_marker_version_id res) s1 = Inr (res2, s2) \<and>
     map_of (objects s2) (''b0'', ''a'') = Some r2 \<and> o_version_id r2 = ''4430''"
proof -
  obtain res s1 where del: "delete_object (sample_env 4) ''b0'' ''a'' (options VersioningEnabled) version_db = Inr (res, s1)"
    using sample_delete by (rule commits_withE)
  have "case map_of (objects version_db) (''b0'', ''a'') of None \<Rightarrow> False
      | Some r \<Rightarrow> o_version_id r = ''4430'' \<and> o_updated_at r \<noteq> zero_time \<and>
          (\<forall>v \<in> set (history version_db ''b0'' ''a''). v_created_at v < o_updated_at r)"
    by code_simp
  then obtain r where r: "map_of (objects version_db) (''b0'', ''a'') = Some r" "o_version_id r = ''4430''"
    "o_updated_at r \<noteq> zero_time" "\<forall>v \<in> set (history version_db ''b0'' ''a''). v_created_at v < o_updated_at r"
    by (auto split: option.splits)
  have "\<forall>buf. e_rand (sample_env 4) 1 = Some buf \<longrightarrow> buf \<noteq> []" by (simp add: sample_env_def)
  from delete_marker_round_trip [OF version_db_ok(1) sample_safe(1) [OF version_db_ok(2)] _ r(1) del this r(3,4),
      of "sample_env 5"] del r(2)
  show ?thesis by (force simp: options_def)
qed

text \<open>
  Without the hypothesis on the history the version id can change: \<^verbatim>\<open>RestoreVersion\<close> records a
  copy with the time of the row it updates, under an id of its own. A delete and the removal of its
  marker then find two versions of the same time, and the larger row id decides.
\<close>

lemma restored_copy_is_promoted:
  "let s0 = settle (restore_version (sample_env 9) ''b0'' ''a'' ''4330'' ''ada'') version_db;
       s1 = settle (delete_object ((sample_env 4)\<lparr>e_now := 10 * second\<rparr>) ''b0'' ''a'' (options VersioningEnabled)) s0;
       s2 = settle (delete_object_version ((sample_env 5)\<lparr>e_now := 11 * second\<rparr>) ''b0'' ''a'' ''4531'') s1
   in map_option o_version_id (map_of (objects s0) (''b0'', ''a'')) = Some ''4430'' \<and>
      map_of (objects s1) (''b0'', ''a'') = None \<and>
      map_option o_version_id (map_of (objects s2) (''b0'', ''a'')) = Some ''4a30''"
  by code_simp

subsection \<open>Reference counts\<close>

text \<open>C1. However transactions and maintenance passes follow each other from the empty store on,
  commits and rollbacks alike, every key, unique column, foreign key and check of the schema holds
  of the rows, and no blob is referenced by more objects, versions and parts than its count says,
  so that a referenced blob always has a row with a positive count. The counts are exact as long
  as no bucket was dropped with versions in it.\<close>

theorem reference_counts_exact:
  assumes "ledger root exact s"
  shows "wf_db s \<and> (\<forall>d. references s d \<le> refcount s d) \<and>
    (\<forall>d. 0 < references s d \<longrightarrow> has_blob s d \<and> 0 < refcount s d) \<and>
    (exact \<longrightarrow> (\<forall>d. refcount s d = references s d))"
proof -
  have acc: "wf_db s" "counts_safe s" and exact: "exact \<longrightarrow> counts_exact s"
    using ledger_balanced [OF assms] by (simp_all add: accounted_db_def counts_exact_iff)
  from referenced_blob_row [OF acc(2)] refcount_pos_of_reference [OF acc(2)] acc exact show ?thesis
    by (simp add: counts_safe_def counts_exact_def)
qed

lemma sample_ledger: "ledger ''/data'' True version_db"
proof -
  let ?t1 = "Create_Bucket (sample_env 1) ''photos'' None"
  let ?t2 = "Put_Object (sample_env 2) (sample_object ''a'' ''d1'') (options VersioningEnabled)"
  let ?t3 = "Put_Object (sample_env 3) (sample_object ''a'' ''d2'') (options VersioningEnabled)"
  have "ledger ''/data'' (((True \<and> \<not> drops_history ?t1 empty_db) \<and> \<not> drops_history ?t2 (run ?t1 empty_db)) \<and>
      \<not> drops_history ?t3 (run ?t2 (run ?t1 empty_db))) (run ?t3 (run ?t2 (run ?t1 empty_db)))"
    by (intro ledger.transacted ledger.opened)
  then have "ledger ''/data'' True (run ?t3 (run ?t2 (run ?t1 empty_db)))"
    by (simp only: drops_history_def) simp
  then show ?thesis by (simp add: version_db_def object_db_def bucket_db_def)
qed

lemma reference_counts_exact_witness:
  "refcount version_db ''d1'' = 1 \<and> references version_db ''d1'' = 1"
proof -
  have "refcount version_db ''d1'' = 1" by code_simp
  with reference_counts_exact [OF sample_ledger] show ?thesis by simp
qed

text \<open>C30. Dropping a bucket removes its versions but gives back none of their references: each
  digest keeps exactly as many references too many as versions of the bucket pointed at it, so
  its blob is never collected.\<close>

theorem delete_bucket_leaks:
  assumes "delete_bucket name s = Inr s'" "get_bucket s name = Inr b" "wf_db s" "counts_exact s"
  shows "int (refcount s' d) = int (references s' d) +
    int (length (filter (\<lambda>((b', _, _), v). b' = bk_id b \<and> v_blob_digest v = Some d) (versions s)))"
proof -
  have "tally (version_refs d) (filter (\<lambda>((b', _, _), _). b' = bk_id b) (versions s)) =
      length (filter (\<lambda>((b', _, _), v). b' = bk_id b \<and> v_blob_digest v = Some d) (versions s))"
    by (simp add: tally_def conj_commute case_prod_unfold)
  moreover have "slack s d = 0" using assms(4) by (simp add: counts_exact_iff)
  ultimately show ?thesis
    using delete_bucket_slack(2) [OF assms(1-3), of d] unfolding slack_def by linarith
qed

lemma delete_bucket_leaks_witness:
  "\<exists>s'. delete_bucket ''photos'' marked_db = Inr s' \<and> references s' ''d1'' = 0 \<and> refcount s' ''d1'' = 1"
proof -
  have "case delete_bucket ''photos'' marked_db of Inl _ \<Rightarrow> False | Inr s' \<Rightarrow> references s' ''d1'' = 0"
    by code_simp
  then obtain s' where s': "delete_bucket ''photos'' marked_db = Inr s'" "references s' ''d1'' = 0"
    by (auto split: sum.splits)
  obtain b where b: "get_bucket marked_db ''photos'' = Inr b" using s'(1) by (rule delete_bucket_InrE)
  have "case get_bucket marked_db ''photos'' of Inl _ \<Rightarrow> False
      | Inr b \<Rightarrow> length (filter (\<lambda>((b', _, _), v). b' = bk_id b \<and> v_blob_digest v = Some ''d1'') (versions marked_db)) = 1"
    by code_simp
  with delete_bucket_leaks [OF s'(1) b marked_db_ok(1) sample_safe(2) [OF marked_db_ok(2)], of "''d1''"] s' b
  show ?thesis by simp
qed

subsection \<open>History\<close>

text \<open>A restore makes the contents of the chosen version current and appends them to the
  history once more, but it does not move the replaced state into the history and leaves the
  current version id as it was: the id now names other contents.\<close>

lemma restore_version_effect_on_key:
  assumes "restore_version e b k vid actor s = Inr (r, s')" "wf_db s" "counts_safe s"
    and "map_of (objects s) (b, k) = Some old"
  shows "\<exists>v row w. map_of (versions s) (b, k, vid) = Some v \<and> get_object s' b k = Inr row \<and>
    v_blob_digest v = Some (o_blob_digest row) \<and> o_version_id row = o_version_id old \<and>
    versions s' = versions s @ [((b, k, v_version_id w), w)] \<and> version_contents w = version_contents v"
  using assms(1-3)
  by (rule restore_version_effect) (use assms(4) in \<open>auto simp: get_object_def contents_def\<close>)

lemma restore_version_effect_on_key_witness:
  "\<exists>r s' row. restore_version (sample_env 5) ''b0'' ''a'' ''4330'' ''ada'' version_db = Inr (r, s') \<and>
     get_object s' ''b0'' ''a'' = Inr row \<and> o_version_id row = ''4430''"
proof -
  have "commits_with (restore_version (sample_env 5) ''b0'' ''a'' ''4330'' ''ada'' version_db) (\<lambda>_ _. True)"
    by code_simp
  then obtain r s' where run: "restore_version (sample_env 5) ''b0'' ''a'' ''4330'' ''ada'' version_db = Inr (r, s')"
    by (rule commits_withE)
  have "case map_of (objects version_db) (''b0'', ''a'') of None \<Rightarrow> False | Some old \<Rightarrow> o_version_id old = ''4430''"
    by code_simp
  then obtain old where "map_of (objects version_db) (''b0'', ''a'') = Some old" "o_version_id old = ''4430''"
    by (auto split: option.splits)
  with restore_version_effect_on_key [OF run version_db_ok(1) sample_safe(1) [OF version_db_ok(2)]] run
  show ?thesis by auto
qed

text \<open>
  A computation on one database: a key written while its bucket is unversioned, overwritten under
  versioning and overwritten again while versioning is suspended has its null version both current
  and in the history, and once versioning is enabled again neither a PutObject nor a DeleteObject of
  it gets past the unique constraint of the versions.
\<close>

lemma suspended_write_blocks_key:
  "let s1 = settle (put_object (sample_env 2) (sample_object ''a'' ''d1'') (options VersioningUnversioned)) bucket_db;
       s2 = settle (put_object (sample_env 3) (sample_object ''a'' ''d2'') (options VersioningEnabled)) s1;
       s3 = settle (put_object (sample_env 4) (sample_object ''a'' ''d3'') (options VersioningSuspended)) s2
   in put_object (sample_env 5) (sample_object ''a'' ''d4'') (options VersioningEnabled) s3 =
        Inl (ErrConstraint ''object_versions_bucket_id_key_version_id_key'') \<and>
      delete_object (sample_env 5) ''b0'' ''a'' (options VersioningEnabled) s3 =
        Inl (ErrConstraint ''object_versions_bucket_id_key_version_id_key'')"
  by code_simp

end
