(* ===== verification/Listing_Properties.thy ===== *)
theory Listing_Properties
  imports Samples
begin

text \<open>
  The properties of listings, multipart uploads and lifecycle expiry.
\<close>

subsection \<open>Listings\<close>

text \<open>For a prefix that is valid UTF-8, the half-open range the query scans holds exactly the
  keys that start with the prefix.\<close>

lemma prefix_range_exact:
  assumes "CHR 0xFF \<notin> set prefix" "prefix \<noteq> []"
  shows "prefix \<le> k \<and> k < prefix_upper_bound prefix \<longleftrightarrow> has_prefix k prefix"
  using in_range_iff [OF assms(1), of k] assms(2) by (simp add: in_range_def)

lemma prefix_range_exact_witness:
  "''photos/'' \<le> ''photos/a'' \<and> ''photos/a'' < prefix_upper_bound ''photos/''"
  using prefix_range_exact [of "''photos/''" "''photos/a''"] by (simp add: has_prefix_def)

text \<open>C9. One page of ListObjects: it holds the first entries of the listing, as many as the page
  size allows, where an entry is a key or a group of keys under the delimiter; it is truncated
  exactly when entries are left; and the cursor it hands out resumes at the first entry left. The
  keys must not continue a group with U+10FFFF. A page is returned whenever the database takes every
  bound and cursor of the queries as text (\<open>queries_ok\<close>), and otherwise either a page as described
  or the error of the query that was refused.\<close>

theorem list_objects_correct:
  assumes "wf_db s" "listable s b opts"
  shows "(\<forall>page. list_objects s b opts = Inr page \<longrightarrow>
      lr_objects page = entry_objects (take (page_size (lo_max_keys opts)) (listing_entries s b opts)) \<and>
      lr_common_prefixes page =
        entry_prefixes (take (page_size (lo_max_keys opts)) (listing_entries s b opts)) \<and>
      (lr_is_truncated page \<longleftrightarrow> page_size (lo_max_keys opts) < length (listing_entries s b opts)) \<and>
      (lr_is_truncated page \<longrightarrow>
        listing_entries s b (opts\<lparr>lo_start_after := lr_next_start_after page\<rparr>) =
          drop (page_size (lo_max_keys opts)) (listing_entries s b opts))) \<and>
    (queries_ok s b opts \<longrightarrow> (\<exists>page. list_objects s b opts = Inr page))"
  using page_objects_page [OF assms] list_objects_Inr list_objects_returns(1) by blast

definition sample_listing :: list_options where
  "sample_listing = \<lparr>lo_prefix = [], lo_delimiter = ''/'', lo_start_after = [], lo_max_keys = 1\<rparr>"

definition folder_db :: db where
  "folder_db = fold (\<lambda>k s. settle (put_object (sample_env (2 + length k)) (sample_object k ''d'')
     (options VersioningUnversioned)) s) [''a'', ''p/1'', ''p/22''] bucket_db"

lemma folder_db_wf: "wf_db folder_db"
proof -
  have "wf_db (fold (\<lambda>k s. settle (put_object (sample_env (2 + length k)) (sample_object k ''d'')
       (options VersioningUnversioned)) s) ks s)" if "wf_db s" "counts_safe s" for ks s
    using that
  proof (induction ks arbitrary: s)
    case (Cons k ks)
    let ?s1 = "settle (put_object (sample_env (2 + length k)) (sample_object k ''d'') (options VersioningUnversioned)) s"
    have "wf_db ?s1 \<and> slack ?s1 = slack s" using put_tx.settle_safe [OF Cons.prems] .
    moreover from this have "counts_safe ?s1" using Cons.prems(2) counts_safe_cong by blast
    ultimately show ?case using Cons.IH by simp
  qed simp
  then show ?thesis
    unfolding folder_db_def using bucket_db_ok sample_safe(1) by blast
qed

lemma folder_listing:
  "listable folder_db ''b0'' sample_listing"
  "queries_ok folder_db ''b0'' sample_listing"
  "length (listing_entries folder_db ''b0'' sample_listing) = 2"
  by code_simp+

lemma list_objects_correct_witness:
  "\<exists>page. list_objects folder_db ''b0'' sample_listing = Inr page \<and> lr_is_truncated page"
proof -
  have "page_size (lo_max_keys sample_listing) = 1"
    by (simp add: page_size_def sample_listing_def max_max_keys_def)
  with list_objects_correct [OF folder_db_wf folder_listing(1)] folder_listing(2,3) show ?thesis by fastforce
qed

text \<open>C20. Following the cursors from page to page yields every matching key and every group
  exactly once and in order, whatever the page size; and when the bounds of the first query and the
  cursors are text, every page is answered.\<close>

theorem list_all_complete:
  assumes "wf_db s" "listable s b opts" "length (listing_entries s b opts) < fuel"
  shows "(\<forall>out. list_all s b opts fuel = Inr out \<longrightarrow>
      out = (entry_objects (listing_entries s b opts), entry_prefixes (listing_entries s b opts))) \<and>
    (queries_ok s b opts \<longrightarrow> (\<exists>out. list_all s b opts fuel = Inr out))"
  using list_all_entries [OF assms] list_all_returns by blast

lemma list_all_complete_witness:
  "\<exists>out. list_all folder_db ''b0'' sample_listing 3 = Inr out \<and> snd out = [''p/'']"
proof -
  have "entry_prefixes (listing_entries folder_db ''b0'' sample_listing) = [''p/'']" by code_simp
  with list_all_complete [OF folder_db_wf folder_listing(1), of 3] folder_listing(2,3) show ?thesis by fastforce
qed

subsection \<open>Multipart uploads\<close>

text \<open>A committed completion replaces the key as a plain write does: the object reads back
  with the contents given, the upload and its parts are gone, and the parts of every other upload
  are untouched.\<close>

lemma complete_multipart_upload_correct:
  assumes "complete_multipart_upload e u obj opts s = Inr (row, s')" "wf_db s"
  shows "get_object s' (o_bucket_id obj) (o_key obj) = Inr row \<and> contents row = contents obj \<and>
    map_of (uploads s') u = None \<and> list_multipart_parts s' u = [] \<and>
    (\<forall>v. v \<noteq> u \<longrightarrow> list_multipart_parts s' v = list_multipart_parts s v)"
proof -
  from assms(1) obtain s1 where put: "put_object e obj opts s = Inr (row, s1)"
    and s': "s' = release_upload u s1"
    by (auto simp: complete_multipart_upload_def result_iff)
  have "list_multipart_parts s1 v = list_multipart_parts s v" for v
    using put_object_parts(1) [OF put assms(2)] by (simp add: list_multipart_parts_def)
  moreover have "get_object s' = get_object s1"
    by (simp add: s' release_upload_def get_object_def fun_eq_iff)
  ultimately show ?thesis
    using put_object_reads_back [OF put] release_upload_gone [of u s1] by (simp add: s' parts_of_others)
qed

definition sample_upload :: multipart_upload where
  "sample_upload = \<lparr>mu_id = [], mu_upload_id = [], mu_bucket_id = ''b0'', mu_key = ''a'',
     mu_content_type = ''text/plain'', mu_metadata = [], mu_initiated_at = 0\<rparr>"

definition sample_part :: "int \<Rightarrow> string \<Rightarrow> multipart_part" where
  "sample_part n d = \<lparr>mp_part_number = n, mp_blob_digest = d, mp_size = length d, mp_etag = ''e'', mp_uploaded_at = 0\<rparr>"

definition upload_db :: db where
  "upload_db = settle (no_result (put_multipart_part (sample_env 4) ''d0'' (sample_part 2 ''p2'')))
     (settle (no_result (put_multipart_part (sample_env 4) ''d0'' (sample_part 7 ''p7'')))
     (settle (create_multipart_upload (sample_env 3) sample_upload) bucket_db))"

lemma upload_db_ok: "wf_db upload_db" "counts_safe upload_db"
proof -
  let ?s1 = "settle (create_multipart_upload (sample_env 3) sample_upload) bucket_db"
  let ?s2 = "settle (no_result (put_multipart_part (sample_env 4) ''d0'' (sample_part 7 ''p7''))) ?s1"
  note s0 = bucket_db_ok(1) sample_safe(1) [OF bucket_db_ok(2)]
  note r1 = create_upload_tx.settle_safe [OF s0, of "sample_env 3" sample_upload]
  have c1: "counts_safe ?s1" using r1 s0(2) counts_safe_cong by blast
  note r2 = put_part_tx.settle_safe [OF conjunct1 [OF r1] c1, of "sample_env 4" "''d0''" "sample_part 7 ''p7''"]
  have c2: "counts_safe ?s2" using r2 c1 counts_safe_cong by blast
  note r3 = put_part_tx.settle_safe [OF conjunct1 [OF r2] c2, of "sample_env 4" "''d0''" "sample_part 2 ''p2''"]
  show "wf_db upload_db" using r3 by (simp add: upload_db_def)
  show "counts_safe upload_db" unfolding upload_db_def using r3 c2 counts_safe_cong by blast
qed

lemma complete_multipart_upload_correct_witness:
  "\<exists>row s'. complete_multipart_upload (sample_env 5) ''d0'' (sample_object ''a'' ''joined'')
      (options VersioningUnversioned) upload_db = Inr (row, s') \<and>
    get_object s' ''b0'' ''a'' = Inr row \<and> list_multipart_parts s' ''d0'' = []"
proof -
  have "commits_with (complete_multipart_upload (sample_env 5) ''d0'' (sample_object ''a'' ''joined'')
      (options VersioningUnversioned) upload_db) (\<lambda>_ _. True)"
    by code_simp
  then obtain row s' where run: "complete_multipart_upload (sample_env 5) ''d0'' (sample_object ''a'' ''joined'')
      (options VersioningUnversioned) upload_db = Inr (row, s')"
    by (rule commits_withE)
  from complete_multipart_upload_correct [OF run upload_db_ok(1)] run show ?thesis
    by (simp add: sample_object_def)
qed

text \<open>The parts of an upload are one per part number, listed in ascending order, each within
  1 to 10000 when it is written; uploading a part again replaces that part and no other.\<close>

lemma put_multipart_part_correct:
  assumes "put_multipart_part e u p s = Inr s'" "wf_db s" "counts_safe s"
  shows "sorted_wrt (\<lambda>p q. mp_part_number p < mp_part_number q) (list_multipart_parts s' u) \<and>
    1 \<le> mp_part_number p \<and> mp_part_number p \<le> 10000 \<and>
    (\<forall>q. q \<in> set (list_multipart_parts s' u) \<longleftrightarrow>
       (if mp_part_number q = mp_part_number p then q = p\<lparr>mp_uploaded_at := e_now e\<rparr>
        else q \<in> set (list_multipart_parts s u)))"
proof -
  note bal = put_multipart_part_balanced [OF assms]
  show ?thesis
    using bal(4) list_multipart_parts_sorted(1) [OF bal(1)] list_multipart_parts_sorted(2) [OF assms(2)]
      list_multipart_parts_sorted(2) [OF bal(1)] put_multipart_part_lookup [OF assms(1)]
    by auto
qed

lemma put_multipart_part_correct_witness:
  "\<exists>s'. put_multipart_part (sample_env 6) ''d0'' (sample_part 7 ''again'') upload_db = Inr s' \<and>
     sorted_wrt (\<lambda>p q. mp_part_number p < mp_part_number q) (list_multipart_parts s' ''d0'')"
proof -
  have "committed (put_multipart_part (sample_env 6) ''d0'' (sample_part 7 ''again'') upload_db)" by code_simp
  then obtain s' where run: "put_multipart_part (sample_env 6) ''d0'' (sample_part 7 ''again'') upload_db = Inr s'"
    by (rule committedE)
  from put_multipart_part_correct [OF run upload_db_ok] run show ?thesis by blast
qed

end
