(* ===== verification/Storage_Properties.thy ===== *)
theory Storage_Properties
  imports Samples System
begin

text \<open>
  The properties of the blob store, of the store and the metadata together, and of lifecycle
  expiry.
\<close>

subsection \<open>The blob store\<close>

definition no_faults :: io_faults where
  "no_faults = (\<lambda>_. None)"

text \<open>A hash of the right length for the instances; what it maps to is of no concern to them.\<close>

definition sample_hashes :: hashes where
  "sample_hashes = \<lparr>h_sha256 = (\<lambda>x. take 32 (x @ replicate 32 (CHR 0x00))),
     h_md5 = (\<lambda>x. take 16 (x @ replicate 16 (CHR 0x00)))\<rparr>"

lemma sample_hashes_length: "length (h_sha256 sample_hashes x) = 32"
  by (simp add: sample_hashes_def)

definition whole_read :: "string \<Rightarrow> copy_step list" where
  "whole_read x = [\<lparr>cs_cancelled = False, cs_data = x, cs_end = At_EOF, cs_write_fails = None,
     cs_written = length x\<rparr>]"

lemma source_bytes_whole [simp]: "source_bytes (whole_read x) = x"
  by (simp add: whole_read_def)

lemma well_behaved_id: "well_behaved h root (\<lambda>g. g)"
  by (simp add: well_behaved_def)

text \<open>A Put that reports success has stored the bytes it read: the blob's digest is well
  formed and is the SHA-256 of those bytes, the size is their number, and the file of the digest
  exists and holds bytes of that digest, whether Put wrote it, found it there or lost the race for
  it to another writer. No blob that was there before is lost.\<close>

lemma put_success:
  assumes "store_put h root faults others t src known f = (Inr b, f')"
    and "trusted_digest h known (source_bytes src)" "well_behaved h root others" "sound_store h root f"
    and "length (h_sha256 h (source_bytes src)) = 32"
  shows "b_digest b = hex_encode (h_sha256 h (source_bytes src)) \<and> b_size b = length (source_bytes src) \<and>
    valid_digest (b_digest b) \<and>
    (\<exists>c. map_of f' (path_for root (b_digest b)) = Some c \<and> hex_encode (h_sha256 h c) = b_digest b) \<and>
    (\<forall>d. blob_present root f d \<longrightarrow> blob_present root f' d) \<and> sound_store h root f'"
proof -
  note res = store_put_Inr [OF assms]
  have "blob_present root f' d" if "blob_present root f d" for d
    using store_put_keeps [OF assms(1,3)] that by (auto simp: blob_present_def)
  then show ?thesis
    using res blob_of_trusted [OF assms(2)] store_put_sound [OF assms(1-4)] by (auto simp: blob_of_def)
qed

lemma sample_store_put:
  obtains b f' where "store_put sample_hashes ''/data'' no_faults (\<lambda>g. g) ''upload-1'' (whole_read ''hi'') [] [] = (Inr b, f')"
proof -
  have "case store_put sample_hashes ''/data'' no_faults (\<lambda>g. g) ''upload-1'' (whole_read ''hi'') [] [] of
      (Inl _, _) \<Rightarrow> False | (Inr b, _) \<Rightarrow> True"
    by code_simp
  then show ?thesis using that by (auto split: prod.splits sum.splits)
qed

lemma put_success_witness:
  "\<exists>b f'. store_put sample_hashes ''/data'' no_faults (\<lambda>g. g) ''upload-1'' (whole_read ''hi'') [] [] = (Inr b, f') \<and>
     b_size b = 2 \<and> blob_present ''/data'' f' (b_digest b)"
proof -
  obtain b f' where put: "store_put sample_hashes ''/data'' no_faults (\<lambda>g. g) ''upload-1'' (whole_read ''hi'') [] [] = (Inr b, f')"
    by (rule sample_store_put)
  have "trusted_digest sample_hashes [] (source_bytes (whole_read ''hi''))" "sound_store sample_hashes ''/data'' []"
    by (simp_all add: trusted_digest_def sound_store_def)
  from put_success [OF put this(1) well_behaved_id this(2) sample_hashes_length] put show ?thesis
    by (auto simp: blob_present_def)
qed

text \<open>A digest decides its path and cannot escape the blob directory: a valid one has neither a
  slash nor a dot and names a file below \<^verbatim>\<open>blobs\<close> through two directories of two characters; any
  other is refused by Open, Stat, Exists and Remove before a path is formed.\<close>

lemma digest_path_confined:
  "if valid_digest d
   then path_for root d = root @ ''/blobs/'' @ take 2 d @ ''/'' @ take 2 (drop 2 d) @ ''/'' @ d \<and>
     CHR ''/'' \<notin> set d \<and> CHR ''.'' \<notin> set d \<and>
     (\<forall>d'. valid_digest d' \<and> path_for root d' = path_for root d \<longleftrightarrow> d' = d)
   else store_open root faults d f = Inl (ErrInvalidDigest d) \<and>
     store_stat root faults d f = Inl (ErrInvalidDigest d) \<and>
     store_exists root faults d f = Inl (ErrInvalidDigest d) \<and>
     store_remove root faults d f = Inl (ErrInvalidDigest d)"
proof (cases "valid_digest d")
  case True
  have "path_for root d' = path_for root d \<longleftrightarrow> d' = d" if "valid_digest d'" for d'
    using that True by (intro path_for_inj) (simp add: valid_digest_def)
  with True valid_digest_chars [OF True] show ?thesis
    by (auto simp: path_for_def under_def blobs_dir_def)
next
  case False
  then show ?thesis
    by (simp add: store_open_def store_stat_def store_exists_def store_remove_def validate_digest_def)
qed

subsection \<open>Metadata and bytes together\<close>

text \<open>C8. No acknowledged byte is lost: in every state the system reaches by requests that store
  bytes and commit later, by transactions of any kind and by the sweeper, every current object and
  every stored version has a file that opens and holds bytes of its digest. This holds as long as
  no batch of the sweeper contains the digest of a request in flight.\<close>

theorem objects_keep_their_bytes:
  assumes "reachable h root True w" "\<And>x. length (h_sha256 h x) = 32"
    and "map_of (objects (w_db w)) (b, k) = Some r \<and> d = o_blob_digest r \<or>
      map_of (versions (w_db w)) (b, k, vid) = Some v \<and> v_blob_digest v = Some d"
  shows "\<exists>bytes. store_open root no_faults d (w_disk w) = Inr bytes \<and> hex_encode (h_sha256 h bytes) = d"
proof -
  have dur: "durable h root w" by (rule reachable_durable [OF assms(1,2)])
  have "d \<in> live (w_db w)" using assms(3) liveI by blast
  then have valid: "valid_digest d" and present: "blob_present root (w_disk w) d"
    using dur by (simp_all add: durable_def)
  then obtain c where c: "map_of (w_disk w) (path_for root d) = Some c" by (auto simp: blob_present_def)
  with valid dur have "hex_encode (h_sha256 h c) = d" by (simp add: durable_def sound_store_def)
  with c valid show ?thesis
    by (simp add: store_open_def validate_digest_def call_def no_faults_def)
qed

text \<open>The run of the instances: a bucket, one stored blob, one object.\<close>

definition hi_digest :: string where
  "hi_digest = hex_encode (h_sha256 sample_hashes ''hi'')"

definition first_put :: "disk \<Rightarrow> (store_error + blob) \<times> disk" where
  "first_put f = store_put sample_hashes ''/data'' no_faults (\<lambda>g. g) ''upload-1'' (whole_read ''hi'') [] f"

definition hi_object :: transaction where
  "hi_object = Put_Object (sample_env 2) (sample_object ''a'' hi_digest) (options VersioningUnversioned)"

definition world_stored :: world where
  "world_stored = \<lparr>w_db = bucket_db, w_disk = snd (first_put []), w_pending = [hi_digest]\<rparr>"

lemma stored_step:
  assumes "first_put (w_disk w) = (Inr b, f')"
  shows "world_step sample_hashes ''/data'' guarded w (w\<lparr>w_disk := f', w_pending := b_digest b # w_pending w\<rparr>)"
  by (rule world_step.stored [OF assms [unfolded first_put_def] _ well_behaved_id])
    (simp add: trusted_digest_def)

lemma world_stored_reachable: "reachable sample_hashes ''/data'' guarded world_stored"
proof -
  let ?w1 = "initial_world\<lparr>w_db := run (Create_Bucket (sample_env 1) ''photos'' None) (w_db initial_world)\<rparr>"
  have "reachable sample_hashes ''/data'' guarded ?w1"
    by (rule reachable.step [OF reachable.start]) (rule world_step.commit, simp)
  moreover have "case first_put [] of (Inl _, _) \<Rightarrow> False | (Inr b, _) \<Rightarrow> b_digest b = hi_digest" by code_simp
  then obtain b f' where put: "first_put [] = (Inr b, f')" "b_digest b = hi_digest"
    by (auto split: prod.splits sum.splits)
  have "world_step sample_hashes ''/data'' guarded ?w1 (?w1\<lparr>w_disk := f', w_pending := b_digest b # w_pending ?w1\<rparr>)"
    by (rule stored_step) (simp add: put initial_world_def)
  moreover have "?w1\<lparr>w_disk := f', w_pending := b_digest b # w_pending ?w1\<rparr> = world_stored"
    by (simp add: world_stored_def put initial_world_def bucket_db_def)
  ultimately show ?thesis by (metis reachable.step)
qed

definition world_committed :: world where
  "world_committed = world_stored\<lparr>w_db := run hi_object bucket_db\<rparr>"

lemma world_committed_reachable: "reachable sample_hashes ''/data'' guarded world_committed"
proof -
  have "world_step sample_hashes ''/data'' guarded world_stored (world_stored\<lparr>w_db := run hi_object (w_db world_stored)\<rparr>)"
    by (rule world_step.commit) (simp add: hi_object_def world_stored_def sample_object_def)
  then have "world_step sample_hashes ''/data'' guarded world_stored world_committed"
    by (simp add: world_committed_def world_stored_def)
  with world_stored_reachable show ?thesis by (rule reachable.step)
qed

lemma objects_keep_their_bytes_witness:
  "\<exists>bytes. store_open ''/data'' no_faults hi_digest (w_disk world_committed) = Inr bytes"
proof -
  have "map_option o_blob_digest (map_of (objects (w_db world_committed)) (''b0'', ''a'')) = Some hi_digest"
    by code_simp
  then obtain r where "map_of (objects (w_db world_committed)) (''b0'', ''a'') = Some r" "hi_digest = o_blob_digest r"
    by auto
  with objects_keep_their_bytes [OF world_committed_reachable sample_hashes_length] show ?thesis by blast
qed

text \<open>The run of the next property: the object is deleted, and two hours later its bytes come again.\<close>

definition deleted_db :: db where
  "deleted_db = run (Delete_Object (sample_env 3) ''b0'' ''a'' (options VersioningUnversioned)) (w_db world_committed)"

definition late_env :: env where
  "late_env = (sample_env 2)\<lparr>e_now := 2 * 3600 * second\<rparr>"

lemma second_put:
  "case first_put (w_disk world_committed) of (Inl _, _) \<Rightarrow> False | (Inr b, _) \<Rightarrow> b_digest b = hi_digest"
  by code_simp

lemma swept_then_committed:
  "case sweep_unreferenced (remove_blob ''/data'' no_faults) late_env blob_grace batch_limit
      (deleted_db, snd (first_put (w_disk world_committed))) of
     (n, s, f) \<Rightarrow>
       (case map_of (objects (run hi_object s)) (''b0'', ''a'') of None \<Rightarrow> False
        | Some r \<Rightarrow> store_open ''/data'' no_faults (o_blob_digest r) f = Inl (ErrBlobNotFound (o_blob_digest r)))"
  by code_simp

text \<open>C25. Without that condition bytes are lost. An upload finds its blob already on disk, left over
  from an object deleted more than the grace period ago; before the upload's transaction retains
  the blob the sweeper claims it, and the transaction then commits an object whose file is gone.
  The grace period does not help: it is counted from the creation of the blob, not from the moment
  it lost its last reference.\<close>

theorem sweeper_race_loses_bytes:
  "\<exists>w r. reachable sample_hashes ''/data'' False w \<and>
     map_of (objects (w_db w)) (''b0'', ''a'') = Some r \<and>
     store_open ''/data'' no_faults (o_blob_digest r) (w_disk w) = Inl (ErrBlobNotFound (o_blob_digest r))"
proof -
  let ?reach = "reachable sample_hashes ''/data'' False"
  obtain n s3 f3 where swept: "sweep_unreferenced (remove_blob ''/data'' no_faults) late_env blob_grace
      batch_limit (deleted_db, snd (first_put (w_disk world_committed))) = (n, s3, f3)"
    by (rule prod_cases3)
  define w1 where "w1 = world_committed\<lparr>w_db := deleted_db\<rparr>"
  define w2 where "w2 = w1\<lparr>w_disk := snd (first_put (w_disk w1)), w_pending := hi_digest # w_pending w1\<rparr>"
  define w3 where "w3 = w2\<lparr>w_db := s3, w_disk := f3\<rparr>"
  define w4 where "w4 = w3\<lparr>w_db := run hi_object s3\<rparr>"
  have "world_step sample_hashes ''/data'' False world_committed w1"
    unfolding w1_def deleted_db_def by (rule world_step.commit) simp
  with world_committed_reachable have r1: "?reach w1" by (rule reachable.step)
  obtain b f' where put: "first_put (w_disk w1) = (Inr b, f')" "b_digest b = hi_digest"
    using second_put by (auto simp: w1_def split: prod.splits sum.splits)
  from reachable.step [OF r1 stored_step [OF put(1)]] have r2: "?reach w2" by (simp add: w2_def put)
  have "world_step sample_hashes ''/data'' False w2 w3"
    unfolding w3_def
    by (rule world_step.swept [of _ no_faults late_env blob_grace batch_limit _ n])
      (use swept in \<open>simp_all add: w2_def w1_def\<close>)
  with r2 have r3: "?reach w3" by (rule reachable.step)
  have "world_step sample_hashes ''/data'' False w3 (w3\<lparr>w_db := run hi_object (w_db w3)\<rparr>)"
    by (rule world_step.commit) (simp add: hi_object_def w3_def w2_def sample_object_def)
  then have "world_step sample_hashes ''/data'' False w3 w4" by (simp add: w4_def w3_def)
  with r3 have "?reach w4" by (rule reachable.step)
  moreover have final: "w_db w4 = run hi_object s3" "w_disk w4 = f3" by (simp_all add: w4_def w3_def)
  have "case map_of (objects (w_db w4)) (''b0'', ''a'') of None \<Rightarrow> False
      | Some r \<Rightarrow> store_open ''/data'' no_faults (o_blob_digest r) (w_disk w4) = Inl (ErrBlobNotFound (o_blob_digest r))"
    using swept_then_committed unfolding swept prod.case final .
  ultimately show ?thesis by (auto split: option.splits)
qed

subsection \<open>Lifecycle expiry and the versioning setting\<close>

text \<open>A rule whose prefix has no LIKE wildcard and no backslash expires only keys that start
  with the prefix, and of these only objects written longer ago than the rule's days; never more
  than the batch limit at once.\<close>

lemma expired_keys_match_rule:
  assumes "\<forall>c \<in> set prefix. \<not> wildcard c" "wf_db s"
  shows "length (expired_object_keys e s b prefix days limit) \<le> limit \<and>
    (\<forall>k \<in> set (expired_object_keys e s b prefix days limit). has_prefix k prefix \<and>
      (\<exists>r. map_of (objects s) (b, k) = Some r \<and> o_updated_at r < e_now e - days * day))"
  using expired_object_keys_sound [OF _ assms(2)] like_literal_prefix [OF assms(1)]
  by (fastforce simp: expired_object_keys_def)

lemma expired_keys_match_rule_witness:
  "has_prefix ''a'' ''a'' \<and> (\<exists>r. map_of (objects object_db) (''b0'', ''a'') = Some r)"
proof -
  let ?e = "(sample_env 2)\<lparr>e_now := 40 * day\<rparr>"
  have "''a'' \<in> set (expired_object_keys ?e object_db ''b0'' ''a'' 30 10)" by code_simp
  with expired_keys_match_rule [of "''a''" object_db ?e "''b0''" 30 10] show ?thesis
    using object_db_ok(1) by (auto simp: wildcard_def)
qed

text \<open>
  One database shows that the wildcards matter: the rule with the prefix \<^verbatim>\<open>_\<close> expires the key \<^verbatim>\<open>a\<close>,
  since the prefix goes into a LIKE pattern unescaped.
\<close>

lemma expired_keys_escape_prefix:
  "\<exists>k. k \<in> set (expired_object_keys ((sample_env 2)\<lparr>e_now := 40 * day\<rparr>) object_db ''b0'' ''_'' 30 10) \<and>
     \<not> has_prefix k ''_''"
proof -
  have "''a'' \<in> set (expired_object_keys ((sample_env 2)\<lparr>e_now := 40 * day\<rparr>) object_db ''b0'' ''_'' 30 10)"
    by code_simp
  then show ?thesis by (intro exI [of _ "''a''"]) (simp add: has_prefix_def)
qed

text \<open>A versioning transition either moves to one of the two configured states or changes
  nothing; a bucket whose versioning was ever configured never becomes unversioned again.\<close>

lemma transition_stays_configured:
  "(snd (transition_to v next) = None \<longrightarrow> fst (transition_to v next) = next) \<and>
   (snd (transition_to v next) \<noteq> None \<longrightarrow> fst (transition_to v next) = v) \<and>
   (configured v \<longrightarrow> configured (fst (transition_to v next))) \<and>
   (valid_state v \<longrightarrow> valid_state (fst (transition_to v next)))"
  by (cases "(v, next)" rule: transition_to.cases) (auto simp: configured_def valid_state_def)

end
