(* ===== verification/Clock.thy ===== *)
theory Clock
  imports Go_Strings "HOL-Library.Monad_Syntax"
begin

text \<open>
  The part of Go's \<^verbatim>\<open>time\<close> package the S3 protocol code uses: the calendar behind
  \<^verbatim>\<open>time.Time\<close>, the basic ISO 8601 format of \<^verbatim>\<open>x-amz-date\<close>, the date of a credential scope, and
  the dates of HTTP headers. An instant is its number of nanoseconds since 1970 in UTC. The
  calendar starts its years in March, so that the leap day comes last.
\<close>

subsection \<open>The calendar\<close>

text \<open>The day within a cycle of 400 years, as year of the cycle and day of the year.\<close>

definition year_and_day :: "int \<Rightarrow> int \<times> int" where
  "year_and_day doe =
     (let c0 = doe div 36524; c = c0 - c0 div 4; r = doe - 36524 * c;
          q = r div 1461; r2 = r - 1461 * q;
          y0 = r2 div 365; y = y0 - y0 div 4
      in (100 * c + 4 * q + y, r2 - 365 * y))"

definition civil_from_days :: "int \<Rightarrow> int \<times> int \<times> int" where
  "civil_from_days days =
     (let z = days + 719468;
          (yoe, doy) = year_and_day (z mod 146097);
          mp = (5 * doy + 2) div 153;
          m = (if mp < 10 then mp + 3 else mp - 9)
      in (yoe + 400 * (z div 146097) + (if m \<le> 2 then 1 else 0), m, doy - (153 * mp + 2) div 5 + 1))"

definition days_from_civil :: "int \<Rightarrow> int \<Rightarrow> int \<Rightarrow> int" where
  "days_from_civil y m d =
     (let y' = (if m \<le> 2 then y - 1 else y);
          yoe = y' mod 400;
          doy = (153 * (if m > 2 then m - 3 else m + 9) + 2) div 5 + d - 1
      in 146097 * (y' div 400) + (365 * yoe + yoe div 4 - yoe div 100 + doy) - 719468)"

definition leap_year :: "int \<Rightarrow> bool" where
  "leap_year y \<longleftrightarrow> y mod 4 = 0 \<and> (y mod 100 \<noteq> 0 \<or> y mod 400 = 0)"

definition days_in_month :: "int \<Rightarrow> int \<Rightarrow> int" where
  "days_in_month y m =
     (if m = 2 then (if leap_year y then 29 else 28)
      else if m \<in> {4, 6, 9, 11} then 30 else 31)"

lemma year_and_day_bounds:
  assumes "0 \<le> doe" "doe < 146097"
  defines "p \<equiv> year_and_day doe"
  shows "0 \<le> fst p" "fst p \<le> 399" "0 \<le> snd p" "snd p \<le> 365"
    and "365 * fst p + fst p div 4 - fst p div 100 + snd p = doe"
    and "snd p = 365 \<Longrightarrow> leap_year (fst p + 1)"
proof -
  define c0 where "c0 = doe div 36524"
  define c where "c = c0 - c0 div 4"
  define r where "r = doe - 36524 * c"
  define q where "q = r div 1461"
  define r2 where "r2 = r - 1461 * q"
  define y0 where "y0 = r2 div 365"
  define y where "y = y0 - y0 div 4"
  have p: "fst p = 100 * c + 4 * q + y" "snd p = r2 - 365 * y"
    by (simp_all add: p_def year_and_day_def Let_def c0_def c_def r_def q_def r2_def y0_def y_def)
  have c0: "0 \<le> c0" "c0 \<le> 4" "36524 * c0 \<le> doe" "doe < 36524 * c0 + 36524"
    using assms(1,2) unfolding c0_def by linarith+
  then have "c0 = 0 \<or> c0 = 1 \<or> c0 = 2 \<or> c0 = 3 \<or> c0 = 4" by linarith
  then have c: "0 \<le> c" "c \<le> 3" "0 \<le> r" "r \<le> 36524" "c \<noteq> 3 \<longrightarrow> r < 36524"
    using c0 assms(1,2) unfolding c_def r_def by auto
  have q: "0 \<le> q" "1461 * q \<le> r" "r < 1461 * q + 1461"
    using c unfolding q_def by linarith+
  with c have q24: "q \<le> 24" and r2: "0 \<le> r2" "r2 \<le> 1460" unfolding r2_def by linarith+
  have y0: "0 \<le> y0" "365 * y0 \<le> r2" "r2 < 365 * y0 + 365"
    using r2 unfolding y0_def by linarith+
  with r2 have "y0 = 0 \<or> y0 = 1 \<or> y0 = 2 \<or> y0 = 3 \<or> y0 = 4" by linarith
  then have y: "0 \<le> y" "y \<le> 3" "0 \<le> r2 - 365 * y" "r2 - 365 * y \<le> 365" "r2 - 365 * y = 365 \<longrightarrow> y = 3"
    using y0 r2 unfolding y_def by auto
  have small: "0 \<le> 4 * q + y" "4 * q + y \<le> 99" using q q24 y by linarith+
  show "0 \<le> fst p" "fst p \<le> 399" "0 \<le> snd p" "snd p \<le> 365"
    unfolding p using c q y small by linarith+
  have d4: "fst p div 4 = 25 * c + q"
    by (rule int_div_pos_eq [where r = y]) (use p y in auto)
  have d100: "fst p div 100 = c"
    by (rule int_div_pos_eq [where r = "4 * q + y"]) (use p small in auto)
  show "365 * fst p + fst p div 4 - fst p div 100 + snd p = doe"
    unfolding d4 d100 unfolding p r2_def r_def by simp
  assume "snd p = 365"
  with p y have last: "y = 3" "r2 = 1460" by linarith+
  show "leap_year (fst p + 1)"
  proof (cases "q = 24")
    case True
    with last have "r = 36524" by (simp add: r2_def)
    with c have "c = 3" by auto
    with True last p show ?thesis by (simp add: leap_year_def)
  next
    case False
    have "(fst p + 1) mod 4 = 0"
      by (rule int_mod_pos_eq [where q = "25 * c + q + 1"]) (use p last in auto)
    moreover have "(fst p + 1) mod 100 = 4 * q + 4"
      by (rule int_mod_pos_eq [where q = c]) (use p last q q24 False in auto)
    ultimately show ?thesis using q by (simp add: leap_year_def)
  qed
qed

lemma days_civil_inverse:
  assumes "civil_from_days n = (y, m, d)"
  shows "days_from_civil y m d = n" "1 \<le> m" "m \<le> 12" "1 \<le> d" "d \<le> days_in_month y m"
proof -
  define z where "z = n + 719468"
  define doe where "doe = z mod 146097"
  define era where "era = z div 146097"
  obtain yoe doy where yd: "year_and_day doe = (yoe, doy)" by fastforce
  have "0 \<le> doe" "doe < 146097" by (simp_all add: doe_def)
  from year_and_day_bounds [OF this] yd
  have b: "0 \<le> yoe" "yoe \<le> 399" "0 \<le> doy" "doy \<le> 365"
    "365 * yoe + yoe div 4 - yoe div 100 + doy = doe" "doy = 365 \<longrightarrow> leap_year (yoe + 1)" by auto
  define mp where "mp = (5 * doy + 2) div 153"
  have mp: "0 \<le> mp" "mp \<le> 11" using b unfolding mp_def by linarith+
  have m: "m = (if mp < 10 then mp + 3 else mp - 9)"
    and d: "d = doy - (153 * mp + 2) div 5 + 1"
    and y: "y = yoe + 400 * era + (if m \<le> 2 then 1 else 0)"
    using assms yd by (auto simp: civil_from_days_def Let_def mp_def z_def doe_def era_def)
  show "1 \<le> m" "m \<le> 12" unfolding m using mp by auto
  have y': "(if m \<le> 2 then y - 1 else y) = yoe + 400 * era" unfolding y by auto
  have mp': "(if m > 2 then m - 3 else m + 9) = mp" unfolding m using mp by auto
  have "days_from_civil y m d =
      146097 * era + (365 * yoe + yoe div 4 - yoe div 100 + ((153 * mp + 2) div 5 + d - 1)) - 719468"
    unfolding days_from_civil_def Let_def y' mp' using b(1,2) by simp
  also have "\<dots> = 146097 * era + doe - 719468" using b(5) d by simp
  also have "\<dots> = n" using mult_div_mod_eq [of 146097 z] unfolding doe_def era_def z_def by linarith
  finally show "days_from_civil y m d = n" .
  have leap: "leap_year (yoe + 400 * era + 1) = leap_year (yoe + 1)"
  proof -
    have shift: "(yoe + 400 * era + 1) mod k = (yoe + 1) mod k" if "400 = k * j" for k j
    proof -
      from that have "yoe + 400 * era + 1 = (yoe + 1) + k * (j * era)" by simp
      then show ?thesis by (simp only: mod_mult_self2)
    qed
    from shift [of 4 100] shift [of 100 4] shift [of 400 1] show ?thesis by (simp add: leap_year_def)
  qed
  have range: "153 * mp \<le> 5 * doy + 2" "5 * doy + 2 < 153 * mp + 153" unfolding mp_def by linarith+
  have "mp \<in> set [0..11]" using mp by simp
  then have "mp \<in> {0, 1, 2, 3, 4, 5, 6, 7, 8, 9, 10, 11}" by (simp add: upto.simps)
  then have "1 \<le> d \<and> d \<le> days_in_month y m"
    by (elim insertE emptyE) (use range b leap in \<open>auto simp: m d y days_in_month_def\<close>)
  then show "1 \<le> d" "d \<le> days_in_month y m" by simp_all
qed

subsection \<open>Digits\<close>

definition is_digit :: "char \<Rightarrow> bool" where
  "is_digit c \<longleftrightarrow> CHR ''0'' \<le> c \<and> c \<le> CHR ''9''"

definition digit_char :: "nat \<Rightarrow> char" where
  "digit_char n = char_of (48 + n mod 10)"

primrec decimal :: "nat \<Rightarrow> nat \<Rightarrow> string" where
  "decimal 0 n = []"
| "decimal (Suc w) n = decimal w (n div 10) @ [digit_char n]"

fun get_digits :: "nat \<Rightarrow> nat \<Rightarrow> string \<Rightarrow> (nat \<times> string) option" where
  "get_digits 0 acc s = Some (acc, s)"
| "get_digits (Suc w) acc [] = None"
| "get_digits (Suc w) acc (c # s) =
     (if is_digit c then get_digits w (10 * acc + (of_char c - 48)) s else None)"

lemma digit_char [simp]: "is_digit (digit_char n)" "of_char (digit_char n) - 48 = n mod 10"
proof -
  have n: "of_char (digit_char n) = 48 + n mod 10"
    unfolding digit_char_def of_char_of by (rule mod_less) simp
  then show "of_char (digit_char n) - 48 = n mod 10" by simp
  have "(48 :: nat) \<le> of_char (digit_char n) \<and> of_char (digit_char n) \<le> (57 :: nat)"
    unfolding n by auto
  then show "is_digit (digit_char n)"
    unfolding is_digit_def less_eq_char_def by (simp only: of_char_Char) simp
qed

lemma get_digits_add:
  "get_digits (a + b) acc s = do { (v, r) \<leftarrow> get_digits a acc s; get_digits b v r }"
  by (induction a acc s rule: get_digits.induct) auto

lemma get_digits_decimal:
  "n < 10 ^ w \<Longrightarrow> get_digits w acc (decimal w n @ s) = Some (acc * 10 ^ w + n, s)"
proof (induction w arbitrary: n s)
  case (Suc w)
  from Suc.prems have "n div 10 < 10 ^ w" by (simp add: div_less_iff_less_mult mult.commute)
  from Suc.IH [OF this, of "digit_char n # s"]
  show ?case using get_digits_add [of w 1 acc "decimal (Suc w) n @ s"]
    by (simp add: algebra_simps)
qed simp

subsection \<open>Formats\<close>

definition require :: "bool \<Rightarrow> unit option" where
  "require b = (if b then Some () else None)"

definition skip :: "string \<Rightarrow> string \<Rightarrow> string option" where
  "skip p s = (if has_prefix s p then Some (drop (length p) s) else None)"

lemma require_simps [simp]: "require True = Some ()" "require False = None"
  by (simp_all add: require_def)

lemma skip_append [simp]: "skip p (p @ s) = Some s"
  by (simp add: skip_def)

definition instant :: "nat \<Rightarrow> nat \<Rightarrow> nat \<Rightarrow> nat \<Rightarrow> nat \<Rightarrow> nat \<Rightarrow> time" where
  "instant y mo d h mi s =
     day * days_from_civil (int y) (int mo) (int d) + second * (3600 * int h + 60 * int mi + int s)"

text \<open>
  Like Go, a parser takes one or two digits for the hour, and a fraction after the seconds
  although the layout has none; digits beyond the ninth are dropped.
\<close>

definition get_hour :: "string \<Rightarrow> (nat \<times> string) option" where
  "get_hour s = (case get_digits 2 0 s of None \<Rightarrow> get_digits 1 0 s | Some r \<Rightarrow> Some r)"

definition fraction :: "string \<Rightarrow> int \<times> string" where
  "fraction s =
     (case s of
        p # c # rest \<Rightarrow>
          if (p = CHR ''.'' \<or> p = CHR '','') \<and> is_digit c
          then (let ds = takeWhile is_digit (c # rest); kept = take 9 ds
                in (case get_digits (length kept) 0 kept of
                      Some (v, _) \<Rightarrow> int v * 10 ^ (9 - length kept) | None \<Rightarrow> 0,
                    dropWhile is_digit (c # rest)))
          else (0, s)
      | _ \<Rightarrow> (0, s))"

definition get_clock :: "string \<Rightarrow> string \<Rightarrow> ((nat \<times> nat \<times> nat \<times> int) \<times> string) option" where
  "get_clock sep s = do {
     (h, s) \<leftarrow> get_hour s;
     require (h < 24);
     s \<leftarrow> skip sep s;
     (mi, s) \<leftarrow> get_digits 2 0 s;
     require (mi < 60);
     s \<leftarrow> skip sep s;
     (sec, s) \<leftarrow> get_digits 2 0 s;
     require (sec < 60);
     Some ((h, mi, sec, fst (fraction s)), snd (fraction s)) }"

definition valid_date :: "nat \<Rightarrow> nat \<Rightarrow> nat \<Rightarrow> bool" where
  "valid_date y mo d \<longleftrightarrow> 1 \<le> mo \<and> mo \<le> 12 \<and> 1 \<le> d \<and> int d \<le> days_in_month (int y) (int mo)"

text \<open>\<^verbatim>\<open>time.Parse(iso8601, s)\<close> with the layout \<^verbatim>\<open>20060102T150405Z\<close>.\<close>

definition parse_iso8601 :: "string \<Rightarrow> time option" where
  "parse_iso8601 s = do {
     (y, s) \<leftarrow> get_digits 4 0 s;
     (mo, s) \<leftarrow> get_digits 2 0 s;
     (d, s) \<leftarrow> get_digits 2 0 s;
     s \<leftarrow> skip ''T'' s;
     ((h, mi, sec, ns), s) \<leftarrow> get_clock [] s;
     s \<leftarrow> skip ''Z'' s;
     require (s = [] \<and> valid_date y mo d);
     Some (instant y mo d h mi sec + ns) }"

definition civil_of :: "time \<Rightarrow> nat \<times> nat \<times> nat" where
  "civil_of t = (let (y, m, d) = civil_from_days (t div day) in (nat y, nat m, nat d))"

definition clock_of :: "time \<Rightarrow> nat \<times> nat \<times> nat" where
  "clock_of t = (let s = nat (t mod day div second) in (s div 3600, s div 60 mod 60, s mod 60))"

text \<open>\<^verbatim>\<open>t.UTC().Format(dateOnly)\<close> and \<^verbatim>\<open>t.UTC().Format(iso8601)\<close>, for years of four digits.\<close>

definition format_date :: "time \<Rightarrow> string" where
  "format_date t = (let (y, m, d) = civil_of t in decimal 4 y @ decimal 2 m @ decimal 2 d)"

definition format_iso8601 :: "time \<Rightarrow> string" where
  "format_iso8601 t =
     (let (h, mi, s) = clock_of t
      in format_date t @ ''T'' @ decimal 2 h @ decimal 2 mi @ decimal 2 s @ ''Z'')"

text \<open>\<^verbatim>\<open>t.UTC().Format(time.RFC3339)\<close>.\<close>

definition format_rfc3339 :: "time \<Rightarrow> string" where
  "format_rfc3339 t =
     (let (y, m, d) = civil_of t; (h, mi, s) = clock_of t
      in decimal 4 y @ ''-'' @ decimal 2 m @ ''-'' @ decimal 2 d @ ''T'' @
         decimal 2 h @ '':'' @ decimal 2 mi @ '':'' @ decimal 2 s @ ''Z'')"

definition formattable :: "time \<Rightarrow> bool" where
  "formattable t \<longleftrightarrow> fst (civil_from_days (t div day)) \<in> {0..9999}"

definition truncate_second :: "time \<Rightarrow> time" where
  "truncate_second t = t - t mod second"

lemma two_digits: "n < 100 \<Longrightarrow> get_digits 2 0 (decimal 2 n @ s) = Some (n, s)"
  using get_digits_decimal [of n 2 0 s] by simp

lemma clock_of_bounds:
  assumes "clock_of t = (h, mi, s)"
  shows "h < 24" "mi < 60" "s < 60"
    and "second * (3600 * int h + 60 * int mi + int s) = truncate_second (t mod day)"
proof -
  define n where "n = nat (t mod day div second)"
  have eqs: "h = n div 3600" "mi = n div 60 mod 60" "s = n mod 60"
    using assms by (auto simp: clock_of_def Let_def n_def)
  have "0 \<le> t mod day" "t mod day < 86400 * second" unfolding day_def second_def by simp_all
  then have "0 \<le> t mod day div second" "t mod day div second < 86400"
    by (simp_all add: second_def pos_imp_zdiv_nonneg_iff div_less_iff_less_mult)
  then have n: "n < 86400" "int n = t mod day div second" unfolding n_def by simp_all
  from n(1) show "h < 24" "mi < 60" "s < 60" unfolding eqs by (simp_all add: div_less_iff_less_mult)
  have "n div 3600 = n div 60 div 60" by (simp flip: div_mult2_eq)
  with mult_div_mod_eq [of 60 n] mult_div_mod_eq [of 60 "n div 60"]
  have "3600 * h + 60 * mi + s = n" unfolding eqs by linarith
  then have "3600 * int h + 60 * int mi + int s = t mod day div second" using n(2) by linarith
  then show "second * (3600 * int h + 60 * int mi + int s) = truncate_second (t mod day)"
    by (simp add: truncate_second_def minus_mod_eq_mult_div)
qed

lemma clock_digits:
  assumes "clock_of t = (h, mi, s)" "get_digits 1 0 r = None"
  shows "get_clock [] (decimal 2 h @ decimal 2 mi @ decimal 2 s @ r) =
    Some ((h, mi, s, fst (fraction r)), snd (fraction r))"
  using clock_of_bounds(1-3) [OF assms(1)]
  by (simp add: get_clock_def get_hour_def two_digits skip_def del: decimal.simps)

lemma civil_of_bounds:
  assumes "formattable t" "civil_of t = (y, m, d)"
  shows "y < 10000" "m < 100" "d < 100" "valid_date y m d"
    and "days_from_civil (int y) (int m) (int d) = t div day"
proof -
  obtain y' m' d' where c: "civil_from_days (t div day) = (y', m', d')" by (cases "civil_from_days (t div day)")
  note inv = days_civil_inverse [OF c]
  have "days_in_month y' m' \<le> 31" by (simp add: days_in_month_def)
  moreover have "0 \<le> y'" "y' \<le> 9999" using assms(1) c by (auto simp: formattable_def)
  ultimately show "y < 10000" "m < 100" "d < 100" "valid_date y m d"
    "days_from_civil (int y) (int m) (int d) = t div day"
    using assms(2) c inv by (auto simp: civil_of_def valid_date_def)
qed

lemma truncate_second_split: "truncate_second t = day * (t div day) + truncate_second (t mod day)"
proof -
  have "t mod second = t mod day mod second"
    by (rule mod_mod_cancel [symmetric]) (simp add: day_def)
  with mult_div_mod_eq [of day t] show ?thesis unfolding truncate_second_def by linarith
qed

lemma parse_format_iso8601:
  assumes "formattable t"
  shows "parse_iso8601 (format_iso8601 t) = Some (truncate_second t)"
proof -
  obtain y mo d where civil: "civil_of t = (y, mo, d)" by (cases "civil_of t")
  obtain h mi s where clock: "clock_of t = (h, mi, s)" by (cases "clock_of t")
  note b = civil_of_bounds [OF assms civil]
  have year: "get_digits 4 0 (decimal 4 y @ r) = Some (y, r)" for r
    using get_digits_decimal [of y 4 0 r] b(1) by simp
  have frac: "fraction ''Z'' = (0, ''Z'')" by (simp add: fraction_def)
  have z: "get_digits 1 0 ''Z'' = None" by (simp add: is_digit_def)
  have "parse_iso8601 (format_iso8601 t) = Some (instant y mo d h mi s + 0)"
    unfolding parse_iso8601_def format_iso8601_def format_date_def civil clock
    by (simp add: year two_digits b frac clock_digits [OF clock z] skip_def del: decimal.simps get_digits.simps)
  then show ?thesis
    using b(5) clock_of_bounds(4) [OF clock] truncate_second_split [of t] by (simp add: instant_def)
qed

lemma truncate_second_parts:
  "truncate_second t div day = t div day"
  "truncate_second t mod day div second = t mod day div second"
proof -
  have day: "day = second * 86400" by (simp add: day_def)
  have sec: "truncate_second t = second * (t div second)"
    by (simp add: truncate_second_def minus_mod_eq_mult_div)
  have s: "second \<noteq> 0" "0 < second" by (simp_all add: second_def)
  have "x div day = x div second div 86400" for x
    unfolding day by (rule zdiv_zmult2_eq) simp
  moreover have "x mod day div second = x div second mod 86400" for x
  proof -
    have "x mod day = second * (x div second mod 86400) + x mod second"
      unfolding day by (rule zmod_zmult2_eq) simp
    then show ?thesis using s by (simp add: div_pos_pos_trivial)
  qed
  ultimately show "truncate_second t div day = t div day"
    "truncate_second t mod day div second = t mod day div second"
    using s by (simp_all add: sec)
qed

lemma truncate_second_format [simp]:
  "civil_of (truncate_second t) = civil_of t" "clock_of (truncate_second t) = clock_of t"
  "format_date (truncate_second t) = format_date t"
  "format_iso8601 (truncate_second t) = format_iso8601 t"
  by (simp_all add: civil_of_def clock_of_def format_date_def format_iso8601_def truncate_second_parts)

lemma truncate_second_bounds: "truncate_second t \<le> t" "t < truncate_second t + second"
  by (simp_all add: truncate_second_def second_def)

subsection \<open>HTTP dates\<close>

text \<open>
  \<^verbatim>\<open>http.TimeFormat\<close>, \<^verbatim>\<open>Mon, 02 Jan 2006 15:04:05 GMT\<close>. Names match in either case, and a space of
  the layout matches any number of them. \<^verbatim>\<open>http.ParseTime\<close> also tries two obsolete formats, whose
  zone names depend on the host; a parser for them is the argument \<open>obsolete\<close>.
\<close>

definition month_names :: "string list" where
  "month_names = [''Jan'', ''Feb'', ''Mar'', ''Apr'', ''May'', ''Jun'', ''Jul'', ''Aug'', ''Sep'', ''Oct'',
     ''Nov'', ''Dec'']"

definition weekday_names :: "string list" where
  "weekday_names = [''Sun'', ''Mon'', ''Tue'', ''Wed'', ''Thu'', ''Fri'', ''Sat'']"

definition get_name :: "string list \<Rightarrow> string \<Rightarrow> (nat \<times> string) option" where
  "get_name names s =
     map_option (\<lambda>i. (i, drop 3 s)) (find (\<lambda>i. equal_fold (take 3 s) (names ! i)) [0..<length names])"

fun skip_layout :: "string \<Rightarrow> string \<Rightarrow> string option" where
  "skip_layout [] s = Some s"
| "skip_layout (c # p) s =
     (if c = CHR '' ''
      then (if s \<noteq> [] \<and> hd s \<noteq> CHR '' '' then None
            else skip_layout p (dropWhile (\<lambda>x. x = CHR '' '') s))
      else case s of [] \<Rightarrow> None | d # s' \<Rightarrow> if c = d then skip_layout p s' else None)"

definition parse_fixdate :: "string \<Rightarrow> time option" where
  "parse_fixdate s = do {
     (_, s) \<leftarrow> get_name weekday_names s;
     s \<leftarrow> skip_layout '', '' s;
     (d, s) \<leftarrow> get_digits 2 0 s;
     s \<leftarrow> skip_layout '' '' s;
     (mo, s) \<leftarrow> get_name month_names s;
     s \<leftarrow> skip_layout '' '' s;
     (y, s) \<leftarrow> get_digits 4 0 s;
     s \<leftarrow> skip_layout '' '' s;
     ((h, mi, sec, ns), s) \<leftarrow> get_clock '':'' s;
     s \<leftarrow> skip_layout '' GMT'' s;
     require (s = [] \<and> valid_date y (mo + 1) d);
     Some (instant y (mo + 1) d h mi sec + ns) }"

definition parse_http_time :: "(string \<Rightarrow> time option) \<Rightarrow> string \<Rightarrow> time option" where
  "parse_http_time obsolete s =
     (case parse_fixdate s of Some t \<Rightarrow> Some t | None \<Rightarrow> obsolete s)"

definition format_http_time :: "time \<Rightarrow> string" where
  "format_http_time t =
     (let (y, m, d) = civil_of t; (h, mi, s) = clock_of t
      in weekday_names ! nat ((t div day + 4) mod 7) @ '', '' @ decimal 2 d @ '' '' @
         month_names ! (m - 1) @ '' '' @ decimal 4 y @ '' '' @
         decimal 2 h @ '':'' @ decimal 2 mi @ '':'' @ decimal 2 s @ '' GMT'')"

lemma get_name_nth:
  assumes i: "i < length names" and len: "\<forall>n \<in> set names. length n = 3"
    and dist: "distinct (map to_lower names)"
  shows "get_name names (names ! i @ s) = Some (i, s)"
proof -
  have "take 3 (names ! i @ s) = names ! i" "drop 3 (names ! i @ s) = s" using i len by auto
  moreover have "find (\<lambda>j. equal_fold (names ! i) (names ! j)) [0..<length names] = Some i"
    unfolding find_Some_iff using i nth_eq_iff_index_eq [OF dist]
    by (intro exI [of _ i]) (auto simp: equal_fold_def)
  ultimately show ?thesis by (simp add: get_name_def)
qed

lemma get_weekday: "i < 7 \<Longrightarrow> get_name weekday_names (weekday_names ! i @ s) = Some (i, s)"
  by (rule get_name_nth) (simp_all add: weekday_names_def to_lower_def lower_char_def)

lemma get_month: "i < 12 \<Longrightarrow> get_name month_names (month_names ! i @ s) = Some (i, s)"
  by (rule get_name_nth) (simp_all add: month_names_def to_lower_def lower_char_def)

lemma hour_digits: "h < 24 \<Longrightarrow> get_hour (decimal 2 h @ s) = Some (h, s)"
  by (simp add: get_hour_def two_digits del: decimal.simps)

lemma skip_layout_sep: "skip_layout [CHR '' ''] (CHR '' '' # s) = Some (dropWhile (\<lambda>x. x = CHR '' '') s)"
  by simp

lemma decimal_no_space: "dropWhile (\<lambda>x. x = CHR '' '') (decimal w n @ s) = decimal w n @ s" if "w \<noteq> 0"
proof -
  have "\<forall>c \<in> set (decimal w n). is_digit c" by (induction w arbitrary: n) auto
  moreover from that have "decimal w n \<noteq> []" by (cases w) auto
  then obtain c cs where "decimal w n = c # cs" by (cases "decimal w n") auto
  ultimately show ?thesis by (auto simp: is_digit_def)
qed

lemma parse_format_http_time:
  assumes "formattable t"
  shows "parse_fixdate (format_http_time t) = Some (truncate_second t)"
proof -
  obtain y mo d where civil: "civil_of t = (y, mo, d)" by (cases "civil_of t")
  obtain h mi s where clock: "clock_of t = (h, mi, s)" by (cases "clock_of t")
  note b = civil_of_bounds [OF assms civil] and cb = clock_of_bounds [OF clock]
  from b(4) have mo: "mo - 1 < 12" "mo - 1 + 1 = mo" by (auto simp: valid_date_def)
  have name: "dropWhile (\<lambda>x. x = CHR '' '') (month_names ! (mo - 1) @ r) = month_names ! (mo - 1) @ r" for r
  proof -
    have "\<forall>n \<in> set month_names. n \<noteq> [] \<and> hd n \<noteq> CHR '' ''" by (simp add: month_names_def)
    then have "month_names ! (mo - 1) \<noteq> []" "hd (month_names ! (mo - 1)) \<noteq> CHR '' ''"
      using mo(1) nth_mem [of "mo - 1" month_names] by (auto simp: month_names_def simp del: nth_mem)
    then show ?thesis by (cases "month_names ! (mo - 1)") auto
  qed
  have year: "get_digits 4 0 (decimal 4 y @ r) = Some (y, r)" for r
    using get_digits_decimal [of y 4 0 r] b(1) by simp
  have day: "nat ((t div day + 4) mod 7) < 7" by (simp add: nat_less_iff)
  have frac: "fraction '' GMT'' = (0, '' GMT'')" by (simp add: fraction_def)
  have clk: "get_clock '':'' (decimal 2 h @ '':'' @ decimal 2 mi @ '':'' @ decimal 2 s @ '' GMT'') =
      Some ((h, mi, s, 0), '' GMT'')"
    using cb(1-3) frac by (simp add: get_clock_def hour_digits two_digits skip_def del: decimal.simps)
  have "parse_fixdate (format_http_time t) = Some (instant y (mo - 1 + 1) d h mi s + 0)"
    unfolding parse_fixdate_def format_http_time_def civil clock
    using clk b mo
    by (simp add: year two_digits name get_weekday [OF day] get_month decimal_no_space
      del: decimal.simps get_digits.simps One_nat_def)
  then show ?thesis
    using b(5) cb(4) mo truncate_second_split [of t] by (simp add: instant_def)
qed

end
