(* ===== verification/Http.thy ===== *)
theory Http
  imports Clock
begin

text \<open>
  The part of \<^verbatim>\<open>net/http\<close> and \<^verbatim>\<open>net/url\<close> the S3 protocol code reads: a received request with its
  path and query as transmitted, header lookup by canonical name, the parsed query, and the escaped
  form of the path.
\<close>

subsection \<open>Requests and headers\<close>

text \<open>
  \<open>rq_path\<close> and \<open>rq_query\<close> are the two halves of the request target as transmitted, split at the
  first question mark. Headers are stored under their canonical names, as the server does.
\<close>

type_synonym header = "(string \<times> string list) list"

record request =
  rq_method :: string
  rq_path :: string
  rq_query :: string
  rq_header :: header
  rq_host :: string
  rq_remote_addr :: string
  rq_tls :: bool
  rq_body :: string

definition is_letter :: "char \<Rightarrow> bool" where
  "is_letter c \<longleftrightarrow> CHR ''A'' \<le> c \<and> c \<le> CHR ''Z'' \<or> CHR ''a'' \<le> c \<and> c \<le> CHR ''z''"

definition is_token_char :: "char \<Rightarrow> bool" where
  "is_token_char c \<longleftrightarrow> is_letter c \<or> is_digit c \<or> c \<in> set ''!#$%&*+-.^_`|~'' \<or> c = CHR 0x27"

fun capitalise :: "bool \<Rightarrow> string \<Rightarrow> string" where
  "capitalise upper [] = []"
| "capitalise upper (c # cs) =
     (if upper then upper_char c else lower_char c) # capitalise (c = CHR ''-'') cs"

definition canonical_header_key :: "string \<Rightarrow> string" where
  "canonical_header_key s = (if list_all is_token_char s then capitalise True s else s)"

definition header_values :: "header \<Rightarrow> string \<Rightarrow> string list" where
  "header_values h name = (case map_of h (canonical_header_key name) of None \<Rightarrow> [] | Some vs \<Rightarrow> vs)"

definition header_get :: "header \<Rightarrow> string \<Rightarrow> string" where
  "header_get h name = (case header_values h name of [] \<Rightarrow> [] | v # vs \<Rightarrow> v)"

subsection \<open>Escaping\<close>

definition upper_hex :: string where
  "upper_hex = ''0123456789ABCDEF''"

definition escape_byte :: "char \<Rightarrow> string" where
  "escape_byte c = [CHR ''%'', upper_hex ! (of_char c div 16), upper_hex ! (of_char c mod 16)]"

text \<open>\<^verbatim>\<open>url.unescape\<close>; the flag is set for a query, in which a plus stands for a space.\<close>

fun url_unescape :: "bool \<Rightarrow> string \<Rightarrow> string option" where
  "url_unescape form [] = Some []"
| "url_unescape form (c # cs) =
     (if c = CHR ''%''
      then (case cs of
              h # l # rest \<Rightarrow>
                (case (digit_value h, digit_value l, url_unescape form rest) of
                   (Some a, Some b, Some s) \<Rightarrow> Some (char_of (16 * a + b) # s)
                 | _ \<Rightarrow> None)
            | _ \<Rightarrow> None)
      else map_option ((#) (if form \<and> c = CHR ''+'' then CHR '' '' else c)) (url_unescape form cs))"

definition unreserved_char :: "char \<Rightarrow> bool" where
  "unreserved_char c \<longleftrightarrow> is_letter c \<or> is_digit c \<or> c \<in> set ''-_.~''"

definition should_escape_path :: "char \<Rightarrow> bool" where
  "should_escape_path c \<longleftrightarrow> \<not> (unreserved_char c \<or> c \<in> set ''$&+,/:;=@'')"

definition valid_encoded_path :: "string \<Rightarrow> bool" where
  "valid_encoded_path s \<longleftrightarrow>
     list_all (\<lambda>c. c \<in> set ''!$&()*+,;=:@[]%'' \<or> c = CHR 0x27 \<or> \<not> should_escape_path c) s"

definition escape_path :: "string \<Rightarrow> string" where
  "escape_path s = concat (map (\<lambda>c. if should_escape_path c then escape_byte c else [c]) s)"

text \<open>
  \<^verbatim>\<open>URL.Path\<close> and \<^verbatim>\<open>URL.EscapedPath\<close>. A target whose path does not unescape is answered by the HTTP
  server and never reaches the program.
\<close>

definition url_path :: "request \<Rightarrow> string" where
  "url_path r = (case url_unescape False (rq_path r) of Some p \<Rightarrow> p | None \<Rightarrow> rq_path r)"

definition escaped_path :: "request \<Rightarrow> string" where
  "escaped_path r =
     (if valid_encoded_path (rq_path r) \<or> rq_path r = escape_path (url_path r)
      then rq_path r else escape_path (url_path r))"

subsection \<open>The query\<close>

definition query_pair :: "string \<Rightarrow> (string \<times> string) option" where
  "query_pair pair =
     (if pair = [] \<or> CHR '';'' \<in> set pair then None
      else let (k, v, _) = cut pair ''='' in
        case (url_unescape True k, url_unescape True v) of
          (Some k', Some v') \<Rightarrow> Some (k', v')
        | _ \<Rightarrow> None)"

definition parse_query :: "string \<Rightarrow> (string \<times> string) list" where
  "parse_query q = List.map_filter query_pair (split_on CHR ''&'' q)"

definition query_get :: "request \<Rightarrow> string \<Rightarrow> string" where
  "query_get r name = (case map_of (parse_query (rq_query r)) name of None \<Rightarrow> [] | Some v \<Rightarrow> v)"

definition query_has :: "request \<Rightarrow> string \<Rightarrow> bool" where
  "query_has r name \<longleftrightarrow> map_of (parse_query (rq_query r)) name \<noteq> None"

lemma upper_hex_digit:
  "n < 16 \<Longrightarrow> digit_value (upper_hex ! n) = Some n"
proof -
  assume "n < 16"
  have "list_all (\<lambda>i. digit_value (upper_hex ! i) = Some i) [0..<16]"
    by (simp add: upper_hex_def digit_value_def upt_rec)
  with \<open>n < 16\<close> show ?thesis by (simp add: list_all_iff)
qed

lemma byte_halves: "(of_char c :: nat) div 16 < 16" "(of_char c :: nat) mod 16 < 16"
  using nat_of_char_less_256 [of c] by (simp_all add: div_less_iff_less_mult)

lemma char_of_halves: "char_of (16 * (of_char c div 16) + of_char c mod (16 :: nat)) = c"
  by (simp only: mult_div_mod_eq char_of_char)

lemma url_unescape_escape_byte [simp]:
  "url_unescape p (escape_byte c @ s) = map_option ((#) c) (url_unescape p s)"
  by (simp add: escape_byte_def upper_hex_digit byte_halves char_of_halves split: option.splits)

lemma url_unescape_append:
  "url_unescape p u = Some s \<Longrightarrow> url_unescape p (u @ v) = map_option ((@) s) (url_unescape p v)"
proof (induction p u arbitrary: s rule: url_unescape.induct)
  case (1 form)
  then show ?case by (cases "url_unescape form v") auto
next
  case (2 form c cs)
  then show ?case
    by (cases "url_unescape form v") (auto split: if_splits list.splits option.splits)
qed

end
