(* ===== verification/Encoding.thy ===== *)
theory Encoding
  imports Http "HOL-Library.Multiset"
begin

text \<open>
  The percent encoding of Signature Version 4 and the canonical query string
  (\<^verbatim>\<open>internal/s3api/encoding.go\<close>).
\<close>

subsection \<open>Percent encoding\<close>

definition is_unreserved :: "char \<Rightarrow> bool" where
  "is_unreserved c \<longleftrightarrow>
     CHR ''A'' \<le> c \<and> c \<le> CHR ''Z'' \<or> CHR ''a'' \<le> c \<and> c \<le> CHR ''z'' \<or>
     CHR ''0'' \<le> c \<and> c \<le> CHR ''9'' \<or>
     c = CHR ''-'' \<or> c = CHR ''_'' \<or> c = CHR ''.'' \<or> c = CHR ''~''"

fun uri_encode :: "string \<Rightarrow> bool \<Rightarrow> string" where
  "uri_encode [] encode_slash = []"
| "uri_encode (c # cs) encode_slash =
     (if is_unreserved c then [c]
      else if c = CHR ''/'' \<and> \<not> encode_slash then ''/''
      else escape_byte c) @ uri_encode cs encode_slash"

definition unhex :: "char \<Rightarrow> nat option" where
  "unhex c =
     (if CHR ''0'' \<le> c \<and> c \<le> CHR ''9'' then Some (of_char c - 48)
      else if CHR ''a'' \<le> c \<and> c \<le> CHR ''f'' then Some (of_char c - 97 + 10)
      else if CHR ''A'' \<le> c \<and> c \<le> CHR ''F'' then Some (of_char c - 65 + 10)
      else None)"

fun decode_escapes :: "string \<Rightarrow> string option" where
  "decode_escapes [] = Some []"
| "decode_escapes (c # cs) =
     (if c \<noteq> CHR ''%'' then map_option ((#) c) (decode_escapes cs)
      else case cs of
          h # l # rest \<Rightarrow>
            (case (unhex h, unhex l) of
               (Some hi, Some lo) \<Rightarrow> map_option ((#) (char_of (16 * hi + lo))) (decode_escapes rest)
             | _ \<Rightarrow> None)
        | _ \<Rightarrow> None)"

definition percent_decode :: "string \<Rightarrow> string option" where
  "percent_decode s = (if CHR ''%'' \<notin> set s then Some s else decode_escapes s)"

lemma unhex_digit_value: "unhex c = digit_value c"
proof -
  have "(97 :: nat) \<le> of_char c" if "CHR ''a'' \<le> c"
    using that unfolding less_eq_char_def by (simp only: of_char_Char) simp
  moreover have "(65 :: nat) \<le> of_char c" if "CHR ''A'' \<le> c"
    using that unfolding less_eq_char_def by (simp only: of_char_Char) simp
  ultimately show ?thesis by (auto simp: unhex_def digit_value_def)
qed

lemma decode_escapes_unescape: "decode_escapes s = url_unescape False s"
  by (induction s rule: decode_escapes.induct)
    (auto simp: unhex_digit_value split: list.splits option.splits)

lemma unescape_plain: "CHR ''%'' \<notin> set s \<Longrightarrow> url_unescape False s = Some s"
  by (induction s) auto

text \<open>The program decodes a path exactly as \<^verbatim>\<open>net/url\<close> does.\<close>

lemma percent_decode_unescape: "percent_decode s = url_unescape False s"
  by (simp add: percent_decode_def decode_escapes_unescape unescape_plain)

lemma percent_not_unreserved [simp]: "\<not> is_unreserved CHR ''%''"
  by (simp add: is_unreserved_def)

lemma unescape_uri_encode: "url_unescape False (uri_encode s b) = Some s"
  by (induction s) auto

lemma percent_decode_uri_encode [simp]: "percent_decode (uri_encode s b) = Some s"
  by (simp add: percent_decode_unescape unescape_uri_encode)

lemma uri_encode_eq_Nil [simp]: "uri_encode s b = [] \<longleftrightarrow> s = []"
  by (cases s) (auto simp: escape_byte_def)

lemma uri_encode_append: "uri_encode (s @ t) b = uri_encode s b @ uri_encode t b"
  by (induction s) auto

lemma uri_encode_plain: "list_all is_unreserved s \<Longrightarrow> uri_encode s b = s"
  by (induction s) auto

lemma escape_byte_chars:
  assumes "x \<in> set (escape_byte c)"
  shows "is_unreserved x \<or> x = CHR ''%''"
proof -
  have "list_all is_unreserved upper_hex" by (simp add: upper_hex_def is_unreserved_def)
  moreover have "length upper_hex = 16" by (simp add: upper_hex_def)
  ultimately have "n < 16 \<Longrightarrow> is_unreserved (upper_hex ! n)" for n
    by (simp add: list_all_length)
  with assms byte_halves [of c] show ?thesis by (auto simp: escape_byte_def)
qed

lemma uri_encode_chars:
  "x \<in> set (uri_encode s b) \<Longrightarrow> is_unreserved x \<or> x = CHR ''%'' \<or> x = CHR ''/'' \<and> \<not> b"
  by (induction s) (auto dest: escape_byte_chars split: if_splits)

lemma uri_encode_no_separator:
  "CHR ''&'' \<notin> set (uri_encode s b)" "CHR ''='' \<notin> set (uri_encode s b)"
  "CHR '';'' \<notin> set (uri_encode s b)" "CHR ''+'' \<notin> set (uri_encode s b)"
  "CHR ''?'' \<notin> set (uri_encode s b)" "CHR ''/'' \<notin> set (uri_encode s True)"
  by (auto dest!: uri_encode_chars simp: is_unreserved_def)

subsection \<open>The canonical query\<close>

text \<open>
  \<^verbatim>\<open>pair == ""\<close> is skipped, a name or value that does not decode is taken as it is, and the
  parameter called \<open>exclude\<close>, in either case, is dropped.
\<close>

definition decoded_or_raw :: "string \<Rightarrow> string" where
  "decoded_or_raw s = (case percent_decode s of Some d \<Rightarrow> d | None \<Rightarrow> s)"

definition canonical_param :: "string \<Rightarrow> string \<Rightarrow> (string \<times> string) option" where
  "canonical_param exclude pair =
     (if pair = [] then None
      else let (name, value, _) = cut pair ''=''; decoded_name = decoded_or_raw name
        in if exclude \<noteq> [] \<and> equal_fold decoded_name exclude then None
           else Some (uri_encode decoded_name True, uri_encode (decoded_or_raw value) True))"

definition render_param :: "string \<times> string \<Rightarrow> string" where
  "render_param p = fst p @ ''='' @ snd p"

definition canonical_query :: "string \<Rightarrow> string \<Rightarrow> string" where
  "canonical_query raw exclude =
     (if raw = [] then []
      else join ''&'' (map render_param
        (sort (List.map_filter (canonical_param exclude) (split_on CHR ''&'' raw)))))"

text \<open>
  \<^verbatim>\<open>canonicalURIs\<close>: the path as transmitted, then the path with AWS's encoding if it differs.
\<close>

definition canonical_uris :: "request \<Rightarrow> string list" where
  "canonical_uris r =
     (if url_path r = [] then [''/'']
      else let as_transmitted = escaped_path r; re_encoded = uri_encode (url_path r) False
        in if as_transmitted = re_encoded then [as_transmitted] else [as_transmitted, re_encoded])"

text \<open>A parameter in canonical form, and what the canonical query does with one.\<close>

definition encoded_param :: "string \<times> string \<Rightarrow> bool" where
  "encoded_param p \<longleftrightarrow> (\<exists>n v. p = (uri_encode n True, uri_encode v True))"

lemma decoded_or_raw_encode [simp]: "decoded_or_raw (uri_encode s b) = s"
  by (simp add: decoded_or_raw_def)

lemma cut_render [simp]:
  "cut (uri_encode n True @ ''='' @ v) ''='' = (uri_encode n True, v, True)"
  using cut_append_char [OF uri_encode_no_separator(2)] by simp

lemma canonical_param_render:
  "encoded_param p \<Longrightarrow> canonical_param [] (render_param p) = Some p"
  by (auto simp: encoded_param_def canonical_param_def render_param_def Let_def
    simp flip: append_Cons)

lemma canonical_param_encoded: "canonical_param e pair = Some p \<Longrightarrow> encoded_param p"
  by (auto simp: canonical_param_def encoded_param_def Let_def split: if_splits prod.splits)

lemma render_no_amp: "encoded_param p \<Longrightarrow> CHR ''&'' \<notin> set (render_param p)"
  by (auto simp: encoded_param_def render_param_def uri_encode_no_separator)

lemma split_render:
  assumes "\<forall>p \<in> set ps. encoded_param p" "ps \<noteq> []"
  shows "split_on CHR ''&'' (join ''&'' (map render_param ps)) = map render_param ps"
  using assms render_no_amp by (intro split_on_join) auto

lemma map_filter_render:
  "\<forall>p \<in> set ps. encoded_param p \<Longrightarrow> List.map_filter (canonical_param []) (map render_param ps) = ps"
  by (induction ps) (simp_all add: canonical_param_render map_filter_simps)

lemma canonical_query_render:
  assumes "\<forall>p \<in> set ps. encoded_param p"
  shows "canonical_query (join ''&'' (map render_param ps)) [] = join ''&'' (map render_param (sort ps))"
proof (cases "ps = []")
  case False
  then obtain p qs where "ps = p # qs" by (cases ps) auto
  then have "join ''&'' (map render_param ps) \<noteq> []"
    by (cases qs) (auto simp: render_param_def)
  with False assms show ?thesis
    by (simp add: canonical_query_def split_render map_filter_render)
qed (simp add: canonical_query_def)

lemma map_filter_encoded: "p \<in> set (List.map_filter (canonical_param e) ss) \<Longrightarrow> encoded_param p"
  by (auto simp: map_filter_def dest: canonical_param_encoded)

lemma canonical_query_stable:
  "canonical_query (canonical_query q e) [] = canonical_query q e"
proof (cases "q = []")
  case False
  let ?ps = "List.map_filter (canonical_param e) (split_on CHR ''&'' q)"
  have "\<forall>p \<in> set (sort ?ps). encoded_param p" by (auto dest: map_filter_encoded)
  from canonical_query_render [OF this] False show ?thesis
    unfolding canonical_query_def [of q] by (simp add: sorted_sort_id)
qed (simp add: canonical_query_def)

lemma canonical_query_permute:
  assumes "mset (split_on CHR ''&'' q) = mset (split_on CHR ''&'' q')"
  shows "canonical_query q e = canonical_query q' e"
proof -
  let ?params = "\<lambda>q. List.map_filter (canonical_param e) (split_on CHR ''&'' q)"
  have "mset (?params q) = mset (?params q')"
    unfolding map_filter_def mset_map mset_filter assms by simp
  then have "sort (?params q) = sort (?params q')"
    by (intro properties_for_sort) simp_all
  moreover have "canonical_query r e = join ''&'' (map render_param (sort (?params r)))" for r
    by (cases "r = []") (simp_all add: canonical_query_def map_filter_simps canonical_param_def)
  ultimately show ?thesis by simp
qed

end
