(* ===== verification/Errors.thy ===== *)
theory Errors
  imports Go_Strings
begin

text \<open>
  The errors of the S3 protocol (\<^verbatim>\<open>internal/s3api/errors.go\<close>): the table of codes, messages and
  statuses, and the mapping of internal errors to what a client is told. A Go error wrapping a
  sentinel with \<^verbatim>\<open>%w\<close> is a \<open>Sentinel\<close> with the text that follows it.
\<close>

record api_error =
  ae_code :: string
  ae_message :: string
  ae_status :: nat

definition mk_error :: "string \<Rightarrow> string \<Rightarrow> nat \<Rightarrow> api_error" where
  "mk_error code message status = \<lparr>ae_code = code, ae_message = message, ae_status = status\<rparr>"

definition with_message :: "api_error \<Rightarrow> string \<Rightarrow> api_error" where
  "with_message e m = e\<lparr>ae_message := m\<rparr>"

subsection \<open>The table\<close>

definition err_no_such_bucket :: api_error where
  "err_no_such_bucket = mk_error ''NoSuchBucket''
    ''The specified bucket does not exist.'' 404"

definition err_no_such_key :: api_error where
  "err_no_such_key = mk_error ''NoSuchKey''
    ''The specified key does not exist.'' 404"

definition err_no_such_upload :: api_error where
  "err_no_such_upload = mk_error ''NoSuchUpload''
    (''The specified multipart upload does not exist. The upload ID may be '' @
     ''invalid, or the upload may have been aborted or completed.'') 404"

definition err_bucket_already_owned_by_you :: api_error where
  "err_bucket_already_owned_by_you = mk_error ''BucketAlreadyOwnedByYou''
    (''Your previous request to create the named bucket succeeded and you already '' @
     ''own it.'') 409"

definition err_bucket_already_exists :: api_error where
  "err_bucket_already_exists = mk_error ''BucketAlreadyExists''
    ''The requested bucket name is not available.'' 409"

definition err_bucket_not_empty :: api_error where
  "err_bucket_not_empty = mk_error ''BucketNotEmpty''
    ''The bucket you tried to delete is not empty.'' 409"

definition err_invalid_bucket_name :: api_error where
  "err_invalid_bucket_name = mk_error ''InvalidBucketName''
    ''The specified bucket is not valid.'' 400"

definition err_access_denied :: api_error where
  "err_access_denied = mk_error ''AccessDenied''
    ''Access Denied.'' 403"

definition err_signature_does_not_match :: api_error where
  "err_signature_does_not_match = mk_error ''SignatureDoesNotMatch''
    (''The request signature we calculated does not match the signature you '' @
     ''provided. Check your key and signing method.'') 403"

definition err_invalid_access_key_id_code :: api_error where
  "err_invalid_access_key_id_code = mk_error ''InvalidAccessKeyId''
    ''The AWS Access Key Id you provided does not exist in our records.'' 403"

definition err_request_time_too_skewed :: api_error where
  "err_request_time_too_skewed = mk_error ''RequestTimeTooSkewed''
    ''The difference between the request time and the current time is too large.'' 403"

definition err_missing_security_header :: api_error where
  "err_missing_security_header = mk_error ''MissingSecurityHeader''
    ''Your request is missing a required header.'' 400"

definition err_entity_too_large :: api_error where
  "err_entity_too_large = mk_error ''EntityTooLarge''
    ''Your proposed upload exceeds the maximum allowed object size.'' 400"

definition err_entity_too_small :: api_error where
  "err_entity_too_small = mk_error ''EntityTooSmall''
    ''Your proposed upload is smaller than the minimum allowed object size.'' 400"

definition err_invalid_part :: api_error where
  "err_invalid_part = mk_error ''InvalidPart''
    (''One or more of the specified parts could not be found. The part may not '' @
     ''have been uploaded, or the specified entity tag may not match the part's entity tag.'') 400"

definition err_invalid_part_order :: api_error where
  "err_invalid_part_order = mk_error ''InvalidPartOrder''
    (''The list of parts was not in ascending order. Parts must be ordered by part '' @
     ''number.'') 400"

definition err_invalid_argument :: api_error where
  "err_invalid_argument = mk_error ''InvalidArgument''
    ''Invalid Argument.'' 400"

definition err_invalid_digest :: api_error where
  "err_invalid_digest = mk_error ''InvalidDigest''
    ''The Content-MD5 or checksum value you specified is not valid.'' 400"

definition err_bad_digest :: api_error where
  "err_bad_digest = mk_error ''BadDigest''
    (''The Content-MD5 or checksum value you specified did not match what the '' @
     ''server received.'') 400"

definition err_invalid_range :: api_error where
  "err_invalid_range = mk_error ''InvalidRange''
    ''The requested range is not satisfiable.'' 416"

definition err_precondition_failed :: api_error where
  "err_precondition_failed = mk_error ''PreconditionFailed''
    ''At least one of the preconditions you specified did not hold.'' 412"

definition err_no_such_version :: api_error where
  "err_no_such_version = mk_error ''NoSuchVersion''
    ''The version id specified does not match any version of this object.'' 404"

definition err_method_not_allowed :: api_error where
  "err_method_not_allowed = mk_error ''MethodNotAllowed''
    ''The specified method is not allowed against this resource.'' 405"

definition err_not_implemented :: api_error where
  "err_not_implemented = mk_error ''NotImplemented''
    (''A header or parameter you provided implies functionality that is not '' @
     ''implemented.'') 501"

definition err_internal_error :: api_error where
  "err_internal_error = mk_error ''InternalError''
    ''We encountered an internal error. Please try again.'' 500"

definition err_malformed_xml :: api_error where
  "err_malformed_xml = mk_error ''MalformedXML''
    (''The XML you provided was not well-formed or did not validate against our '' @
     ''published schema.'') 400"

definition err_incomplete_body :: api_error where
  "err_incomplete_body = mk_error ''IncompleteBody''
    (''You did not provide the number of bytes specified by the Content-Length '' @
     ''HTTP header.'') 400"

definition err_key_too_long :: api_error where
  "err_key_too_long = mk_error ''KeyTooLongError''
    ''Your key is too long.'' 400"

subsection \<open>What a client is told\<close>

datatype sentinel =
    Missing_Authorization
  | Malformed_Authorization
  | Unsupported_Algorithm
  | Invalid_Access_Key_ID
  | Signature_Mismatch
  | Request_Expired
  | Missing_Date
  | Missing_Signed_Header
  | Content_Hash_Mismatch
  | Malformed_Chunk
  | Chunk_Signature

datatype s3_error = Api api_error | Sentinel sentinel string | Internal string

fun sentinel_text :: "sentinel \<Rightarrow> string" where
  "sentinel_text Missing_Authorization = ''request is not signed''"
| "sentinel_text Malformed_Authorization = ''authorization header is malformed''"
| "sentinel_text Unsupported_Algorithm = ''unsupported signing algorithm''"
| "sentinel_text Invalid_Access_Key_ID = ''unknown access key id''"
| "sentinel_text Signature_Mismatch = ''signature does not match''"
| "sentinel_text Request_Expired = ''request timestamp is outside the permitted window''"
| "sentinel_text Missing_Date = ''request has no usable date''"
| "sentinel_text Missing_Signed_Header = ''a required header was not signed''"
| "sentinel_text Content_Hash_Mismatch = ''body does not match x-amz-content-sha256''"
| "sentinel_text Malformed_Chunk = ''malformed aws-chunked encoding''"
| "sentinel_text Chunk_Signature = ''chunk signature does not match''"

fun s3_error_text :: "s3_error \<Rightarrow> string" where
  "s3_error_text (Api e) = ae_code e @ '' ('' @ show_nat (ae_status e) @ ''): '' @ ae_message e"
| "s3_error_text (Sentinel s detail) =
     sentinel_text s @ (if detail = [] then [] else '': '' @ detail)"
| "s3_error_text (Internal t) = t"

fun as_api_error :: "s3_error \<Rightarrow> api_error" where
  "as_api_error (Api e) = e"
| "as_api_error (Internal t) = err_internal_error"
| "as_api_error (Sentinel s detail) =
     (case s of
        Missing_Authorization \<Rightarrow> with_message err_access_denied
          ''The request is not signed. This server requires AWS Signature Version 4.''
      | Malformed_Authorization \<Rightarrow> with_message err_missing_security_header (s3_error_text (Sentinel s detail))
      | Missing_Date \<Rightarrow> with_message err_missing_security_header (s3_error_text (Sentinel s detail))
      | Missing_Signed_Header \<Rightarrow> with_message err_missing_security_header (s3_error_text (Sentinel s detail))
      | Unsupported_Algorithm \<Rightarrow> with_message err_invalid_argument (s3_error_text (Sentinel s detail))
      | Invalid_Access_Key_ID \<Rightarrow> err_invalid_access_key_id_code
      | Request_Expired \<Rightarrow> err_request_time_too_skewed
      | Signature_Mismatch \<Rightarrow> err_signature_does_not_match
      | Chunk_Signature \<Rightarrow> err_signature_does_not_match
      | Content_Hash_Mismatch \<Rightarrow> with_message err_bad_digest (s3_error_text (Sentinel s detail))
      | Malformed_Chunk \<Rightarrow> with_message err_incomplete_body (s3_error_text (Sentinel s detail)))"

end
