(* ===== verification/Forwarded.thy ===== *)
theory Forwarded
  imports Http
begin

text \<open>
  What the client used behind a reverse proxy (\<^verbatim>\<open>internal/httpx/forwarded.go\<close>): forwarding headers
  are believed from the configured networks only. Addresses, networks and the split of a
  host and port follow \<^verbatim>\<open>net\<close>.
\<close>

subsection \<open>Addresses\<close>

text \<open>An address is its bytes, four for IPv4, also when written as an IPv4-mapped IPv6 address.\<close>

type_synonym ip = "nat list"

definition parse_octet :: "string \<Rightarrow> nat option" where
  "parse_octet s =
     (if s = [] \<or> \<not> list_all is_digit s \<or> (length s > 1 \<and> hd s = CHR ''0'') then None
      else case parse_digits 10 s 0 of
        Some v \<Rightarrow> if v \<le> 255 then Some v else None
      | None \<Rightarrow> None)"

definition those_all :: "'a option list \<Rightarrow> 'a list option" where
  "those_all xs = (if None \<in> set xs then None else Some (map the xs))"

definition parse_ipv4 :: "string \<Rightarrow> ip option" where
  "parse_ipv4 s =
     (let fields = map parse_octet (split_on CHR ''.'' s)
      in if length fields = 4 then those_all fields else None)"

text \<open>
  One side of the double colon: groups of up to four hexadecimal digits, two bytes each; on the right
  the last one may be an IPv4 address.
\<close>

definition parse_group :: "string \<Rightarrow> ip option" where
  "parse_group s =
     (if s = [] \<or> 4 < length s then None
      else map_option (\<lambda>v. [v div 256, v mod 256]) (parse_digits 16 s 0))"

definition parse_groups :: "bool \<Rightarrow> string \<Rightarrow> ip option" where
  "parse_groups v4_end s =
     (if s = [] then Some []
      else let gs = split_on CHR '':'' s;
               parts = map parse_group (butlast gs) @
                 [if v4_end \<and> CHR ''.'' \<in> set (last gs) then parse_ipv4 (last gs) else parse_group (last gs)]
        in map_option concat (those_all parts))"

definition parse_ipv6 :: "string \<Rightarrow> ip option" where
  "parse_ipv6 s =
     (let (left, right, ellipsis) = cut s ''::''
      in if \<not> ellipsis
         then (case (if s = [] then None else parse_groups True s) of
                 Some bs \<Rightarrow> if length bs = 16 then Some bs else None
               | None \<Rightarrow> None)
         else case (parse_groups False left, parse_groups True right) of
                (Some l, Some r) \<Rightarrow>
                  if length l + length r \<le> 14 then Some (l @ replicate (16 - length l - length r) 0 @ r)
                  else None
              | _ \<Rightarrow> None)"

definition to4 :: "ip \<Rightarrow> ip" where
  "to4 bs = (if length bs = 16 \<and> take 12 bs = replicate 10 0 @ [255, 255] then drop 12 bs else bs)"

text \<open>The first separator decides the family; a zone is refused.\<close>

definition parse_ip_raw :: "string \<Rightarrow> ip option" where
  "parse_ip_raw s =
     (case find (\<lambda>c. c = CHR ''.'' \<or> c = CHR '':'' \<or> c = CHR ''%'') s of
        Some c \<Rightarrow>
          if CHR ''%'' \<in> set s then None
          else if c = CHR ''.'' then parse_ipv4 s
          else parse_ipv6 s
      | None \<Rightarrow> None)"

definition parse_ip :: "string \<Rightarrow> ip option" where
  "parse_ip s = map_option to4 (parse_ip_raw s)"

subsection \<open>Networks\<close>

record network =
  nw_address :: ip
  nw_bits :: nat

definition byte_bits :: "nat \<Rightarrow> bool list" where
  "byte_bits b = map (\<lambda>i. odd (b div 2 ^ i)) [7, 6, 5, 4, 3, 2, 1, 0]"

definition address_bits :: "ip \<Rightarrow> bool list" where
  "address_bits bs = concat (map byte_bits bs)"

definition network_contains :: "network \<Rightarrow> ip \<Rightarrow> bool" where
  "network_contains n a \<longleftrightarrow>
     length a = length (nw_address n) \<and>
     take (nw_bits n) (address_bits a) = take (nw_bits n) (address_bits (nw_address n))"

text \<open>
  A network written on an IPv4-mapped address is one of IPv4 if its prefix covers the mapping.
\<close>

definition parse_cidr :: "string \<Rightarrow> network option" where
  "parse_cidr s =
     (let (addr, mask, found) = cut s ''/''
      in if \<not> found then None
         else case (parse_ip_raw addr, if mask = [] \<or> \<not> list_all is_digit mask then None else parse_digits 10 mask 0) of
           (Some a, Some n) \<Rightarrow>
             if 8 * length a < n then None
             else if length (to4 a) = 4 \<and> length a = 16 \<and> 96 \<le> n
             then Some \<lparr>nw_address = to4 a, nw_bits = n - 96\<rparr>
             else Some \<lparr>nw_address = a, nw_bits = n\<rparr>
         | _ \<Rightarrow> None)"

fun new_proxy_trust :: "string list \<Rightarrow> string + network list" where
  "new_proxy_trust [] = Inr []"
| "new_proxy_trust (raw0 # cidrs) =
     (let raw = trim_space raw0
      in if raw = [] then new_proxy_trust cidrs
      else if CHR ''/'' \<notin> set raw
      then (case parse_ip raw of
              None \<Rightarrow> Inl (''trusted proxy '' @ quoted raw @ '' is neither an IP address nor a CIDR'')
            | Some a \<Rightarrow> rbind (new_proxy_trust cidrs)
                (\<lambda>ns. Inr (\<lparr>nw_address = a, nw_bits = 8 * length a\<rparr> # ns)))
      else (case parse_cidr raw of
              None \<Rightarrow> Inl (''trusted proxy '' @ quoted raw)
            | Some n \<Rightarrow> rbind (new_proxy_trust cidrs) (\<lambda>ns. Inr (n # ns))))"

subsection \<open>What the client used\<close>

definition split_host_port :: "string \<Rightarrow> string option" where
  "split_host_port hp =
     (if CHR '':'' \<notin> set hp then None
      else let port = rev (takeWhile (\<lambda>c. c \<noteq> CHR '':'') (rev hp));
               front = take (length hp - length port - 1) hp
        in if hd hp = CHR ''[''
           then (let host = takeWhile (\<lambda>c. c \<noteq> CHR '']'') (tl front)
                 in if front = CHR ''['' # host @ '']'' \<and> CHR ''['' \<notin> set host \<and>
                       CHR ''['' \<notin> set port \<and> CHR '']'' \<notin> set port then Some host else None)
           else if CHR '':'' \<in> set front \<or> CHR ''['' \<in> set hp \<or> CHR '']'' \<in> set hp then None
           else Some front)"

definition proxy_trusted :: "network list \<Rightarrow> request \<Rightarrow> bool" where
  "proxy_trusted networks r =
     (let host = (case split_host_port (rq_remote_addr r) of Some h \<Rightarrow> h | None \<Rightarrow> rq_remote_addr r)
      in case parse_ip host of
           None \<Rightarrow> False
         | Some a \<Rightarrow> list_ex (\<lambda>n. network_contains n a) networks)"

text \<open>The first entry of a forwarding header, if the peer is trusted and the entry is not blank.\<close>

definition forwarded_first :: "network list \<Rightarrow> request \<Rightarrow> string \<Rightarrow> string option" where
  "forwarded_first networks r name =
     (if proxy_trusted networks r \<and> header_get (rq_header r) name \<noteq> []
      then let first = trim_space (fst (cut (header_get (rq_header r) name) '',''))
        in if first \<noteq> [] then Some first else None
      else None)"

definition proxy_host :: "network list \<Rightarrow> request \<Rightarrow> string" where
  "proxy_host networks r =
     (case forwarded_first networks r ''X-Forwarded-Host'' of Some h \<Rightarrow> h | None \<Rightarrow> rq_host r)"

definition proxy_scheme :: "network list \<Rightarrow> request \<Rightarrow> string" where
  "proxy_scheme networks r =
     (let actual = (if rq_tls r then ''https'' else ''http'')
      in case map_option to_lower (forwarded_first networks r ''X-Forwarded-Proto'') of
           Some p \<Rightarrow> if p = ''http'' \<or> p = ''https'' then p else actual
         | None \<Rightarrow> actual)"

definition client_ip :: "network list \<Rightarrow> request \<Rightarrow> string" where
  "client_ip networks r =
     (case forwarded_first networks r ''X-Forwarded-For'' of
        Some a \<Rightarrow> a
      | None \<Rightarrow> (case split_host_port (rq_remote_addr r) of None \<Rightarrow> rq_remote_addr r | Some h \<Rightarrow> h))"

lemma untrusted_forwarding:
  "\<not> proxy_trusted networks r \<Longrightarrow> forwarded_first networks r name = None"
  by (simp add: forwarded_first_def)

lemma network_contains_self:
  "network_contains \<lparr>nw_address = a, nw_bits = 8 * length a\<rparr> b \<longleftrightarrow>
     length b = length a \<and> address_bits b = address_bits a"
proof -
  have "length (address_bits c) = 8 * length c" for c
    by (induction c) (simp_all add: address_bits_def byte_bits_def)
  then show ?thesis by (auto simp: network_contains_def)
qed

end
