(* ===== verification/Names.thy ===== *)
theory Names
  imports Encoding Errors Forwarded
begin

text \<open>
  Bucket names, object keys and the two styles of addressing
  (\<^verbatim>\<open>bucketname.go\<close>, \<^verbatim>\<open>addressing.go\<close> and \<^verbatim>\<open>splitPath\<close> of \<^verbatim>\<open>server.go\<close>).
\<close>

subsection \<open>Bucket names\<close>

definition min_bucket_name_length :: nat where "min_bucket_name_length = 3"
definition max_bucket_name_length :: nat where "max_bucket_name_length = 63"

definition reserved_bucket_prefixes :: "string list" where
  "reserved_bucket_prefixes = [''xn--'', ''sthree-'', ''amzn-s3-demo-'']"

definition reserved_bucket_suffixes :: "string list" where
  "reserved_bucket_suffixes = [''-s3alias'', ''--ol-s3'', ''.mrap'', ''--x-s3'']"

definition is_bucket_name_alnum :: "char \<Rightarrow> bool" where
  "is_bucket_name_alnum c \<longleftrightarrow>
     CHR ''a'' \<le> c \<and> c \<le> CHR ''z'' \<or> CHR ''0'' \<le> c \<and> c \<le> CHR ''9''"

definition bucket_char :: "char \<Rightarrow> bool" where
  "bucket_char c \<longleftrightarrow> is_bucket_name_alnum c \<or> c = CHR ''-'' \<or> c = CHR ''.''"

definition validate_bucket_name :: "string \<Rightarrow> api_error + unit" where
  "validate_bucket_name name =
     (let invalid = (\<lambda>m. Inl (with_message err_invalid_bucket_name m))
      in if length name < min_bucket_name_length \<or> max_bucket_name_length < length name
      then invalid (''Bucket name must be between '' @ show_nat min_bucket_name_length @ '' and '' @
        show_nat max_bucket_name_length @ '' characters long, got '' @ show_nat (length name) @ ''.'')
      else case find (\<lambda>c. \<not> bucket_char c) name of
        Some c \<Rightarrow>
          if CHR ''A'' \<le> c \<and> c \<le> CHR ''Z''
          then invalid ''Bucket name must not contain uppercase characters.''
          else invalid ''Bucket name must contain only lowercase letters, numbers, hyphens and periods.''
      | None \<Rightarrow>
      if \<not> is_bucket_name_alnum (hd name)
      then invalid ''Bucket name must begin with a letter or number.''
      else if \<not> is_bucket_name_alnum (last name)
      then invalid ''Bucket name must end with a letter or number.''
      else if contains name ''..''
      then invalid ''Bucket name must not contain two adjacent periods.''
      else if contains name ''.-'' \<or> contains name ''-.''
      then invalid ''Bucket name must not contain a period adjacent to a hyphen.''
      else if parse_ip name \<noteq> None
      then invalid ''Bucket name must not be formatted as an IP address.''
      else case find (has_prefix name) reserved_bucket_prefixes of
        Some p \<Rightarrow> invalid (''Bucket name must not start with the reserved prefix '' @ quoted p @ ''.'')
      | None \<Rightarrow>
      (case find (has_suffix name) reserved_bucket_suffixes of
        Some p \<Rightarrow> invalid (''Bucket name must not end with the reserved suffix '' @ quoted p @ ''.'')
      | None \<Rightarrow> Inr ()))"

text \<open>
  The rules in one conjunction: what an accepted name satisfies.
\<close>

lemma validate_bucket_name_iff:
  "validate_bucket_name name = Inr u \<longleftrightarrow>
     3 \<le> length name \<and> length name \<le> 63 \<and> list_all bucket_char name \<and>
     is_bucket_name_alnum (hd name) \<and> is_bucket_name_alnum (last name) \<and>
     \<not> contains name ''..'' \<and> \<not> contains name ''.-'' \<and> \<not> contains name ''-.'' \<and>
     parse_ip name = None \<and>
     list_all (\<lambda>p. \<not> has_prefix name p) reserved_bucket_prefixes \<and>
     list_all (\<lambda>p. \<not> has_suffix name p) reserved_bucket_suffixes"
proof -
  have n: "find p xs = None \<longleftrightarrow> list_all (\<lambda>x. \<not> p x) xs" for p and xs :: "'a list"
    by (auto simp: find_None_iff list_all_iff)
  have c: "list_all bucket_char name \<longleftrightarrow> find (\<lambda>c. \<not> bucket_char c) name = None"
    using n [of "\<lambda>c. \<not> bucket_char c" name] by simp
  show ?thesis
    unfolding c validate_bucket_name_def Let_def min_bucket_name_length_def max_bucket_name_length_def
    by (auto simp: not_less split: option.splits if_splits simp flip: n)
qed

subsection \<open>Object keys\<close>

definition max_object_key_length :: nat where "max_object_key_length = 1024"

definition validate_object_key :: "string \<Rightarrow> api_error + unit" where
  "validate_object_key key =
     (if key = [] then Inl (with_message err_invalid_argument ''Object key must not be empty.'')
      else if max_object_key_length < length key
      then Inl (with_message err_key_too_long (''Object key must be at most '' @
        show_nat max_object_key_length @ '' bytes, got '' @ show_nat (length key) @ ''.''))
      else if CHR 0x00 \<in> set key
      then Inl (with_message err_invalid_argument ''Object key must not contain null bytes.'')
      else Inr ())"

lemma validate_object_key_iff:
  "validate_object_key key = Inr u \<longleftrightarrow> key \<noteq> [] \<and> length key \<le> 1024 \<and> CHR 0x00 \<notin> set key"
  by (simp add: validate_object_key_def max_object_key_length_def not_less)

subsection \<open>Addressing\<close>

text \<open>Path style: the escaped path is split, then decoded.\<close>

definition split_path :: "string \<Rightarrow> s3_error + string \<times> string" where
  "split_path escaped =
     (let (raw_bucket, raw_key, _) = cut (trim_prefix escaped ''/'') ''/''
      in case (percent_decode raw_bucket, percent_decode raw_key) of
           (Some bucket, Some key) \<Rightarrow> Inr (bucket, key)
         | _ \<Rightarrow> Inl (Internal ''invalid percent-encoding''))"

text \<open>\<^verbatim>\<open>strings.LastIndex(host, ":")\<close>, as the text up to the last colon and the text from it on.\<close>

definition last_colon :: "string \<Rightarrow> (string \<times> string) option" where
  "last_colon s =
     (if CHR '':'' \<notin> set s then None
      else let tail = takeWhile (\<lambda>c. c \<noteq> CHR '':'') (rev s)
        in Some (take (length s - length tail - 1) s, CHR '':'' # rev tail))"

definition bucket_from_host :: "string \<Rightarrow> string \<Rightarrow> string option" where
  "bucket_from_host host0 s3_domain =
     (if s3_domain = [] then None
      else let
        host1 = (case last_colon host0 of
            None \<Rightarrow> host0
          | Some (front, from) \<Rightarrow> if CHR '']'' \<in> set from then host0 else front);
        host = to_lower (trim_suffix host1 ''.'');
        domain = to_lower (trim_suffix s3_domain ''.'');
        suffix = ''.'' @ domain
      in if \<not> has_suffix host suffix then None
      else let candidate = trim_suffix host suffix
        in if candidate = [] \<or> CHR ''.'' \<in> set candidate then None
        else case validate_bucket_name candidate of
          Inl _ \<Rightarrow> None
        | Inr _ \<Rightarrow> Some candidate)"

text \<open>\<open>host\<close> is the host after the proxies; \<open>s3_domain\<close> is empty when the virtual-host style is off.\<close>

definition resolve_addressing :: "string \<Rightarrow> string \<Rightarrow> request \<Rightarrow> s3_error + string \<times> string" where
  "resolve_addressing s3_domain host r =
     rbind (split_path (escaped_path r)) (\<lambda>(path_bucket, path_key).
       case bucket_from_host host s3_domain of
         Some host_bucket \<Rightarrow>
           Inr (host_bucket, path_bucket @ (if path_key \<noteq> [] then ''/'' @ path_key else []))
       | None \<Rightarrow> Inr (path_bucket, path_key))"

lemma bucket_char_unreserved: "bucket_char c \<Longrightarrow> is_unreserved c"
  by (auto simp: bucket_char_def is_bucket_name_alnum_def is_unreserved_def)

lemma uri_encode_bucket: "list_all bucket_char b \<Longrightarrow> uri_encode b t = b"
  by (rule uri_encode_plain) (auto simp: list_all_iff bucket_char_unreserved)

lemma split_path_encoded:
  "split_path (''/'' @ uri_encode bucket True @ ''/'' @ uri_encode key False) = Inr (bucket, key)"
  using cut_append_char [OF uri_encode_no_separator(6), of bucket "uri_encode key False"]
  by (simp add: split_path_def trim_prefix_def has_prefix_def)

lemma split_path_bucket: "split_path (''/'' @ uri_encode bucket True) = Inr (bucket, [])"
  using cut_absent_char [OF uri_encode_no_separator(6), of bucket]
  by (simp add: split_path_def trim_prefix_def has_prefix_def percent_decode_def [of "[]"])

lemma bucket_from_host_sound:
  assumes "bucket_from_host host domain = Some b"
  shows "validate_bucket_name b = Inr ()" "CHR ''.'' \<notin> set b" "domain \<noteq> []"
  using assms by (auto simp: bucket_from_host_def Let_def split: if_splits option.splits sum.splits)

end
