(* ===== verification/Grants.thy ===== *)
theory Grants
  imports Errors
begin

text \<open>
  What an access key may do (\<^verbatim>\<open>internal/db/grants.go\<close>), and how the router and the listings apply
  it (\<^verbatim>\<open>internal/s3api/authorize.go\<close>).
\<close>

subsection \<open>Grants\<close>

datatype permission =
    PermissionRead
  | PermissionWrite
  | PermissionDelete
  | OtherPermission string

record grant_rule =
  gr_bucket :: string
  gr_prefix :: string
  gr_permissions :: "permission list"

record grant =
  g_unrestricted :: bool
  g_rules :: "grant_rule list"

definition all_permissions :: "permission list" where
  "all_permissions = [PermissionRead, PermissionWrite, PermissionDelete]"

fun permission_text :: "permission \<Rightarrow> string" where
  "permission_text PermissionRead = ''read''"
| "permission_text PermissionWrite = ''write''"
| "permission_text PermissionDelete = ''delete''"
| "permission_text (OtherPermission s) = s"

definition valid_permission :: "permission \<Rightarrow> bool" where
  "valid_permission p \<longleftrightarrow> p \<in> set all_permissions"

definition rule_grants :: "grant_rule \<Rightarrow> permission \<Rightarrow> bool" where
  "rule_grants r p \<longleftrightarrow> p \<in> set (gr_permissions r)"

definition rule_covers :: "grant_rule \<Rightarrow> string \<Rightarrow> bool" where
  "rule_covers r key \<longleftrightarrow> has_prefix key (gr_prefix r)"

definition unrestricted_grant :: grant where
  "unrestricted_grant = \<lparr>g_unrestricted = True, g_rules = []\<rparr>"

definition grant_allows :: "grant \<Rightarrow> string \<Rightarrow> string \<Rightarrow> permission \<Rightarrow> bool" where
  "grant_allows g b k p \<longleftrightarrow> g_unrestricted g \<or>
     list_ex (\<lambda>r. gr_bucket r = b \<and> rule_covers r k \<and> rule_grants r p) (g_rules g)"

definition allows_anywhere_in :: "grant \<Rightarrow> string \<Rightarrow> permission \<Rightarrow> bool" where
  "allows_anywhere_in g b p \<longleftrightarrow> g_unrestricted g \<or>
     list_ex (\<lambda>r. gr_bucket r = b \<and> rule_grants r p) (g_rules g)"

definition allows_whole_bucket :: "grant \<Rightarrow> string \<Rightarrow> permission \<Rightarrow> bool" where
  "allows_whole_bucket g b p \<longleftrightarrow> g_unrestricted g \<or>
     list_ex (\<lambda>r. gr_bucket r = b \<and> gr_prefix r = [] \<and> rule_grants r p) (g_rules g)"

definition grant_visible :: "grant \<Rightarrow> string \<Rightarrow> bool" where
  "grant_visible g b \<longleftrightarrow> g_unrestricted g \<or>
     list_ex (\<lambda>r. gr_bucket r = b \<and> gr_permissions r \<noteq> []) (g_rules g)"

text \<open>A nil slice is \<open>None\<close>: the whole bucket is readable.\<close>

fun collect_prefixes :: "string \<Rightarrow> grant_rule list \<Rightarrow> string list \<Rightarrow> string list option" where
  "collect_prefixes b [] prefixes = Some prefixes"
| "collect_prefixes b (r # rs) prefixes =
     (if gr_bucket r \<noteq> b \<or> \<not> rule_grants r PermissionRead then collect_prefixes b rs prefixes
      else if gr_prefix r = [] then None
      else if gr_prefix r \<notin> set prefixes then collect_prefixes b rs (prefixes @ [gr_prefix r])
      else collect_prefixes b rs prefixes)"

definition readable_prefixes :: "grant \<Rightarrow> string \<Rightarrow> string list option" where
  "readable_prefixes g b = (if g_unrestricted g then None else collect_prefixes b (g_rules g) [])"

text \<open>\<^verbatim>\<open>Validate\<close> numbers the rules from 1; \<open>n\<close> is the number of the first rule of the list.\<close>

fun validate_rules :: "nat \<Rightarrow> grant_rule list \<Rightarrow> string + unit" where
  "validate_rules n [] = Inr ()"
| "validate_rules n (r # rs) =
     (if gr_bucket r = [] then Inl (''rule '' @ show_nat n @ '' names no bucket'')
      else if 63 < length (gr_bucket r) then Inl (''rule '' @ show_nat n @ '': bucket name is too long'')
      else if gr_permissions r = []
      then Inl (''rule '' @ show_nat n @ '' for '' @ quoted (gr_bucket r) @ '' grants no permissions'')
      else case find (\<lambda>p. \<not> valid_permission p) (gr_permissions r) of
        Some p \<Rightarrow> Inl (''rule '' @ show_nat n @ '' for '' @ quoted (gr_bucket r) @ '': '' @ quoted (permission_text p) @
          '' is not a permission'')
      | None \<Rightarrow> validate_rules (Suc n) rs)"

definition validate_grant :: "grant \<Rightarrow> string + unit" where
  "validate_grant g =
     (if g_unrestricted g
      then (if g_rules g \<noteq> [] then Inl ''an unrestricted key cannot also carry rules'' else Inr ())
      else validate_rules 1 (g_rules g))"

definition describe_rule :: "grant_rule \<Rightarrow> string" where
  "describe_rule r =
     gr_bucket r @ (if gr_prefix r \<noteq> [] then ''/'' @ gr_prefix r else []) @ '' ('' @
     join '', '' (map permission_text (gr_permissions r)) @ '')''"

definition describe_grant :: "grant \<Rightarrow> string" where
  "describe_grant g =
     (if g_unrestricted g then ''unrestricted''
      else if g_rules g = [] then ''no access''
      else join ''; '' (map describe_rule (g_rules g)))"

lemma allows_iff:
  "grant_allows g b k p \<longleftrightarrow> g_unrestricted g \<or>
     (\<exists>r \<in> set (g_rules g). gr_bucket r = b \<and> has_prefix k (gr_prefix r) \<and> p \<in> set (gr_permissions r))"
  by (auto simp: grant_allows_def list_ex_iff rule_covers_def rule_grants_def)

lemma whole_bucket_allows: "allows_whole_bucket g b p \<Longrightarrow> grant_allows g b k p"
  by (auto simp: allows_whole_bucket_def grant_allows_def list_ex_iff rule_covers_def)

lemma allows_anywhere: "grant_allows g b k p \<Longrightarrow> allows_anywhere_in g b p"
  by (auto simp: allows_anywhere_in_def grant_allows_def list_ex_iff)

lemma allows_anywhere_witness:
  assumes "allows_anywhere_in g b p"
  shows "\<exists>k. grant_allows g b k p"
proof (cases "g_unrestricted g")
  case False
  with assms obtain r where r: "r \<in> set (g_rules g)" "gr_bucket r = b" "rule_grants r p"
    by (auto simp: allows_anywhere_in_def list_ex_iff)
  then have "grant_allows g b (gr_prefix r) p"
    by (auto simp: allows_iff rule_grants_def)
  then show ?thesis ..
qed (simp add: grant_allows_def)

lemma visible_of_allows: "grant_allows g b k p \<Longrightarrow> grant_visible g b"
  by (auto simp: allows_iff grant_visible_def list_ex_iff)

lemma collect_prefixes_None:
  "collect_prefixes b rs ps = None \<longleftrightarrow>
     (\<exists>r \<in> set rs. gr_bucket r = b \<and> rule_grants r PermissionRead \<and> gr_prefix r = [])"
  by (induction b rs ps rule: collect_prefixes.induct) auto

lemma collect_prefixes_Some:
  "collect_prefixes b rs ps = Some qs \<Longrightarrow>
     set qs = set ps \<union> gr_prefix ` {r \<in> set rs. gr_bucket r = b \<and> rule_grants r PermissionRead} \<and>
     (distinct ps \<longrightarrow> distinct qs)"
  by (induction b rs ps rule: collect_prefixes.induct) (auto split: if_splits)

subsection \<open>Requirements\<close>

datatype breadth = ReachesObject | ReachesSomewhere | ReachesEverything

record access =
  ac_permission :: permission
  ac_breadth :: breadth

definition access_of :: "permission \<Rightarrow> breadth \<Rightarrow> access" where
  "access_of p b = \<lparr>ac_permission = p, ac_breadth = b\<rparr>"

definition write_object :: access where "write_object = access_of PermissionWrite ReachesObject"
definition read_object :: access where "read_object = access_of PermissionRead ReachesObject"
definition delete_object_access :: access where
  "delete_object_access = access_of PermissionDelete ReachesObject"
definition read_bucket :: access where "read_bucket = access_of PermissionRead ReachesSomewhere"
definition create_bucket_access :: access where
  "create_bucket_access = access_of PermissionWrite ReachesEverything"
definition delete_bucket_access :: access where
  "delete_bucket_access = access_of PermissionDelete ReachesEverything"

definition allowed :: "grant \<Rightarrow> string \<Rightarrow> string \<Rightarrow> access \<Rightarrow> bool" where
  "allowed g b k want =
     (case ac_breadth want of
        ReachesEverything \<Rightarrow> allows_whole_bucket g b (ac_permission want)
      | ReachesSomewhere \<Rightarrow> allows_anywhere_in g b (ac_permission want)
      | ReachesObject \<Rightarrow> grant_allows g b k (ac_permission want))"

definition deny_scope :: "string \<Rightarrow> string \<Rightarrow> api_error" where
  "deny_scope b k = with_message err_access_denied
     (''The access key is not permitted to perform this operation on '' @
      (if k \<noteq> [] then b @ ''/'' @ k else b) @ ''.'')"

text \<open>A caller is the grant of the verified key, or \<open>None\<close> for an anonymous request.\<close>

definition permit :: "grant option \<Rightarrow> string \<Rightarrow> string \<Rightarrow> access \<Rightarrow> api_error + unit" where
  "permit caller b k want =
     (case caller of
        None \<Rightarrow> Inr ()
      | Some g \<Rightarrow> if allowed g b k want then Inr () else Inl (deny_scope b k))"

subsection \<open>Listings\<close>

record listing_limit =
  ll_unrestricted :: bool
  ll_prefixes :: "string list"

definition listing_limit_for :: "grant option \<Rightarrow> string \<Rightarrow> listing_limit" where
  "listing_limit_for caller b =
     (case caller of
        None \<Rightarrow> \<lparr>ll_unrestricted = True, ll_prefixes = []\<rparr>
      | Some g \<Rightarrow>
          (case readable_prefixes g b of
             None \<Rightarrow> \<lparr>ll_unrestricted = True, ll_prefixes = []\<rparr>
           | Some ps \<Rightarrow> \<lparr>ll_unrestricted = False, ll_prefixes = ps\<rparr>))"

definition shows_nothing :: "listing_limit \<Rightarrow> bool" where
  "shows_nothing l \<longleftrightarrow> \<not> ll_unrestricted l \<and> ll_prefixes l = []"

definition allows_key :: "listing_limit \<Rightarrow> string \<Rightarrow> bool" where
  "allows_key l key \<longleftrightarrow> ll_unrestricted l \<or> list_ex (has_prefix key) (ll_prefixes l)"

definition allows_common_prefix :: "listing_limit \<Rightarrow> string \<Rightarrow> bool" where
  "allows_common_prefix l cp \<longleftrightarrow>
     ll_unrestricted l \<or> list_ex (\<lambda>p. has_prefix cp p \<or> has_prefix p cp) (ll_prefixes l)"

definition narrow :: "listing_limit \<Rightarrow> string \<Rightarrow> string" where
  "narrow l requested =
     (if ll_unrestricted l \<or> length (ll_prefixes l) \<noteq> 1 then requested
      else let only = hd (ll_prefixes l) in if has_prefix only requested then only else requested)"

lemma limit_prefixes:
  assumes "listing_limit_for (Some g) b = l" "\<not> ll_unrestricted l"
  shows "set (ll_prefixes l) =
      gr_prefix ` {r \<in> set (g_rules g). gr_bucket r = b \<and> rule_grants r PermissionRead}"
    and "[] \<notin> set (ll_prefixes l)" "\<not> g_unrestricted g"
proof -
  from assms obtain ps where ps: "readable_prefixes g b = Some ps" "l = \<lparr>ll_unrestricted = False, ll_prefixes = ps\<rparr>"
    by (auto simp: listing_limit_for_def split: option.splits)
  then have c: "\<not> g_unrestricted g" "collect_prefixes b (g_rules g) [] = Some ps"
    by (auto simp: readable_prefixes_def split: if_splits)
  from collect_prefixes_Some [OF c(2)] ps(2) show eq: "set (ll_prefixes l) =
      gr_prefix ` {r \<in> set (g_rules g). gr_bucket r = b \<and> rule_grants r PermissionRead}" by simp
  from c(2) have "\<not> (\<exists>r \<in> set (g_rules g). gr_bucket r = b \<and> rule_grants r PermissionRead \<and> gr_prefix r = [])"
    using collect_prefixes_None [of b "g_rules g" "[]"] by simp
  then show "[] \<notin> set (ll_prefixes l)" unfolding eq by auto
  show "\<not> g_unrestricted g" by (rule c)
qed

text \<open>A listing shows exactly the keys the caller could read one by one.\<close>

lemma allows_key_iff:
  "allows_key (listing_limit_for (Some g) b) k \<longleftrightarrow> grant_allows g b k PermissionRead"
proof (cases "ll_unrestricted (listing_limit_for (Some g) b)")
  case True
  then have "readable_prefixes g b = None"
    by (auto simp: listing_limit_for_def split: option.splits)
  then have "grant_allows g b k PermissionRead"
    by (auto simp: readable_prefixes_def collect_prefixes_None allows_iff rule_grants_def split: if_splits)
  with True show ?thesis by (simp add: allows_key_def)
next
  case False
  note l = limit_prefixes [OF refl False]
  from False l(3) show ?thesis
    unfolding allows_key_def allows_iff list_ex_iff l(1) by (auto simp: rule_grants_def)
qed

text \<open>Narrowing loses no key the caller may see, and adds none outside the requested prefix.\<close>

lemma narrow_keeps:
  "allows_key l k \<and> has_prefix k requested \<longleftrightarrow>
     allows_key l k \<and> has_prefix k (narrow l requested)"
proof (cases "narrow l requested = requested")
  case False
  then have n: "\<not> ll_unrestricted l" "ll_prefixes l = [narrow l requested]"
    "has_prefix (narrow l requested) requested"
    by (auto simp: narrow_def Let_def length_Suc_conv split: if_splits)
  then have "allows_key l k \<longleftrightarrow> has_prefix k (narrow l requested)"
    by (simp add: allows_key_def)
  with n(3) show ?thesis by (auto intro: has_prefix_trans)
qed simp

end
