(* ===== verification/Sigv4.thy ===== *)
theory Sigv4
  imports Encoding Errors
begin

text \<open>
  Signature Version 4 (\<^verbatim>\<open>internal/s3api/sigv4.go\<close>): the parsed \<^verbatim>\<open>Authorization\<close> header, the canonical
  request, the string to sign and the key derivation.
\<close>

subsection \<open>Constants and the credential scope\<close>

definition sig_algorithm :: string where "sig_algorithm = ''AWS4-HMAC-SHA256''"
definition sig_service :: string where "sig_service = ''s3''"
definition scope_terminator :: string where "scope_terminator = ''aws4_request''"
definition max_clock_skew :: time where "max_clock_skew = 15 * 60 * second"

definition unsigned_payload :: string where "unsigned_payload = ''UNSIGNED-PAYLOAD''"
definition streaming_signed :: string where
  "streaming_signed = ''STREAMING-AWS4-HMAC-SHA256-PAYLOAD''"
definition streaming_signed_trailer :: string where
  "streaming_signed_trailer = ''STREAMING-AWS4-HMAC-SHA256-PAYLOAD-TRAILER''"
definition streaming_unsigned_trailer :: string where
  "streaming_unsigned_trailer = ''STREAMING-UNSIGNED-PAYLOAD-TRAILER''"
definition empty_string_sha256 :: string where
  "empty_string_sha256 = ''e3b0c44298fc1c149afbf4c8996fb92427ae41e4649b934ca495991b7852b855''"

definition is_streaming :: "string \<Rightarrow> bool" where
  "is_streaming ph \<longleftrightarrow>
     ph = streaming_signed \<or> ph = streaming_signed_trailer \<or> ph = streaming_unsigned_trailer"

record scope =
  sc_date :: string
  sc_region :: string
  sc_service :: string

definition scope_string :: "scope \<Rightarrow> string" where
  "scope_string s = join ''/'' [sc_date s, sc_region s, sc_service s, scope_terminator]"

subsection \<open>The Authorization header\<close>

record auth_header =
  ah_access_key_id :: string
  ah_scope :: scope
  ah_signed_headers :: "string list"
  ah_signature :: string

abbreviation malformed :: s3_error where "malformed \<equiv> Sentinel Malformed_Authorization []"

definition parse_credential :: "string \<Rightarrow> s3_error + string \<times> scope" where
  "parse_credential value =
     (case split_on CHR ''/'' value of
        [key, date, region, serv, term] \<Rightarrow>
          if term \<noteq> scope_terminator then Inl malformed
          else if key = [] \<or> date = [] \<or> region = [] \<or> serv = [] then Inl malformed
          else Inr (key, \<lparr>sc_date = date, sc_region = region, sc_service = serv\<rparr>)
      | _ \<Rightarrow> Inl malformed)"

text \<open>What the loop over the components has seen so far; a repeated component replaces the earlier one.\<close>

record seen_parts =
  sp_credential :: "(string \<times> scope) option"
  sp_signed_headers :: "string list option"
  sp_signature :: "string option"

fun parse_components :: "string list \<Rightarrow> seen_parts \<Rightarrow> s3_error + seen_parts" where
  "parse_components [] sp = Inr sp"
| "parse_components (part # parts) sp =
     (let (key, value, found) = cut (trim_space part) ''=''
      in if \<not> found then Inl malformed
      else if key = ''Credential''
      then rbind (parse_credential value) (\<lambda>c. parse_components parts (sp\<lparr>sp_credential := Some c\<rparr>))
      else if key = ''SignedHeaders''
      then (if value = [] then Inl malformed
        else parse_components parts (sp\<lparr>sp_signed_headers := Some (split_on CHR '';'' value)\<rparr>))
      else if key = ''Signature''
      then (if value = [] then Inl malformed
        else parse_components parts (sp\<lparr>sp_signature := Some value\<rparr>))
      else parse_components parts sp)"

definition parse_authorization :: "string \<Rightarrow> s3_error + auth_header" where
  "parse_authorization header =
     (let (algorithm, rest, found) = cut header '' ''
      in if \<not> found then Inl malformed
      else if algorithm \<noteq> sig_algorithm then Inl (Sentinel Unsupported_Algorithm (quoted algorithm))
      else rbind (parse_components (split_on CHR '','' rest)
          \<lparr>sp_credential = None, sp_signed_headers = None, sp_signature = None\<rparr>) (\<lambda>sp.
        case (sp_credential sp, sp_signed_headers sp, sp_signature sp) of
          (Some (key, sc), Some hs, Some sig) \<Rightarrow>
            Inr \<lparr>ah_access_key_id = key, ah_scope = sc, ah_signed_headers = hs, ah_signature = sig\<rparr>
        | _ \<Rightarrow> Inl malformed))"

subsection \<open>The canonical request\<close>

text \<open>\<open>in_quotes\<close> and \<open>prev_space\<close> are the flags of the loop.\<close>

fun collapse_spaces :: "bool \<Rightarrow> bool \<Rightarrow> string \<Rightarrow> string" where
  "collapse_spaces in_quotes prev_space [] = []"
| "collapse_spaces in_quotes prev_space (c # cs) =
     (let q = (if c = CHR 0x22 then \<not> in_quotes else in_quotes)
      in if c = CHR '' '' \<and> \<not> q
         then (if prev_space then [] else [c]) @ collapse_spaces q True cs
         else c # collapse_spaces q False cs)"

definition trim_header_value :: "string \<Rightarrow> string" where
  "trim_header_value v =
     (let s = trim_space v in if \<not> contains s ''  '' then s else collapse_spaces False False s)"

definition header_line_value :: "header \<Rightarrow> string \<Rightarrow> string \<Rightarrow> string" where
  "header_line_value h host name =
     (if name = ''host'' then trim_header_value host
      else join '','' (map trim_header_value (header_values h name)))"

definition newline :: string where "newline = [CHR 0x0A]"

definition canonical_headers :: "header \<Rightarrow> string \<Rightarrow> string list \<Rightarrow> string" where
  "canonical_headers h host names =
     concat (map (\<lambda>n. n @ '':'' @ header_line_value h host n @ newline) names)"

definition canonical_request ::
  "string \<Rightarrow> string \<Rightarrow> string \<Rightarrow> header \<Rightarrow> string \<Rightarrow> string list \<Rightarrow> string \<Rightarrow> string" where
  "canonical_request meth uri query h host signed_headers payload_hash =
     meth @ newline @ uri @ newline @ query @ newline @ canonical_headers h host signed_headers @
     newline @ join '';'' signed_headers @ newline @ payload_hash"

definition string_to_sign :: "hashes \<Rightarrow> time \<Rightarrow> scope \<Rightarrow> string \<Rightarrow> string" where
  "string_to_sign h t sc canonical =
     join newline [sig_algorithm, format_iso8601 t, scope_string sc, hex_encode (h_sha256 h canonical)]"

definition signing_key :: "hashes \<Rightarrow> string \<Rightarrow> scope \<Rightarrow> string" where
  "signing_key h secret sc =
     (let k1 = hmac_sha256 h (''AWS4'' @ secret) (sc_date sc);
          k2 = hmac_sha256 h k1 (sc_region sc);
          k3 = hmac_sha256 h k2 (sc_service sc)
      in hmac_sha256 h k3 scope_terminator)"

definition sign :: "hashes \<Rightarrow> string \<Rightarrow> string \<Rightarrow> string" where
  "sign h key s = hex_encode (hmac_sha256 h key s)"

definition signatures_equal :: "string \<Rightarrow> string \<Rightarrow> bool" where
  "signatures_equal a b \<longleftrightarrow> a = b"

definition sorted_signed_headers :: "string list \<Rightarrow> string list" where
  "sorted_signed_headers names = sort (map (\<lambda>n. to_lower (trim_space n)) names)"

subsection \<open>What a canonical request binds\<close>

text \<open>
  A canonical request is a list of lines, so its parts can be read back from it: two requests with
  the same one agree on everything that was signed. Neither a request line nor a header value of an
  HTTP request holds a line feed.
\<close>

definition one_line :: "string \<Rightarrow> bool" where
  "one_line s \<longleftrightarrow> CHR 0x0A \<notin> set s"

definition request_lines ::
  "string \<Rightarrow> string \<Rightarrow> string \<Rightarrow> header \<Rightarrow> string \<Rightarrow> string list \<Rightarrow> string \<Rightarrow> string list" where
  "request_lines meth uri query h host names payload_hash =
     [meth, uri, query] @ map (\<lambda>n. n @ '':'' @ header_line_value h host n) names @
     [[], join '';'' names, payload_hash]"

definition one_line_request ::
  "string \<Rightarrow> string \<Rightarrow> string \<Rightarrow> header \<Rightarrow> string \<Rightarrow> string list \<Rightarrow> string \<Rightarrow> bool" where
  "one_line_request meth uri query h host names payload_hash \<longleftrightarrow>
     list_all one_line (request_lines meth uri query h host names payload_hash) \<and>
     list_all (\<lambda>n. CHR '';'' \<notin> set n) names \<and> names \<noteq> []"

lemma canonical_request_lines:
  "canonical_request meth uri query h host names payload_hash =
     join newline (request_lines meth uri query h host names payload_hash)"
  using join_append [of "[[], join '';'' names, payload_hash]" newline
    "[meth, uri, query] @ map (\<lambda>n. n @ '':'' @ header_line_value h host n) names"]
  by (simp add: canonical_request_def request_lines_def canonical_headers_def comp_def)

lemma split_request_lines:
  "one_line_request meth uri query h host names payload_hash \<Longrightarrow>
     split_on CHR 0x0A (canonical_request meth uri query h host names payload_hash) =
     request_lines meth uri query h host names payload_hash"
  unfolding canonical_request_lines newline_def
  by (rule split_on_join) (auto simp: one_line_request_def one_line_def list_all_iff request_lines_def)

lemma append_three_eq:
  "xs @ [a, b, c] = ys @ [a', b', c'] \<longleftrightarrow> xs = ys \<and> a = a' \<and> b = b' \<and> c = c'"
  by simp

lemma request_lines_eq:
  "request_lines meth uri query h host names ph = request_lines meth' uri' query' h' host' names' ph' \<longleftrightarrow>
     meth = meth' \<and> uri = uri' \<and> query = query' \<and>
     map (\<lambda>n. n @ '':'' @ header_line_value h host n) names =
     map (\<lambda>n. n @ '':'' @ header_line_value h' host' n) names' \<and>
     join '';'' names = join '';'' names' \<and> ph = ph'"
  unfolding request_lines_def append_Cons append_Nil list.inject append_three_eq by blast

lemma split_signed_headers:
  "one_line_request m u q h ho ns p \<Longrightarrow> split_on CHR '';'' (join '';'' ns) = ns"
  by (intro split_on_join) (auto simp: one_line_request_def list_all_iff)

lemma canonical_request_binds:
  assumes eq: "canonical_request meth uri query h host names ph =
      canonical_request meth' uri' query' h' host' names' ph'"
    and ok: "one_line_request meth uri query h host names ph"
      "one_line_request meth' uri' query' h' host' names' ph'"
  shows "meth = meth' \<and> uri = uri' \<and> query = query' \<and> ph = ph' \<and> names = names' \<and>
    (\<forall>n \<in> set names. header_line_value h host n = header_line_value h' host' n)"
proof -
  from eq split_request_lines [OF ok(1)] split_request_lines [OF ok(2)]
  have "request_lines meth uri query h host names ph =
      request_lines meth' uri' query' h' host' names' ph'" by argo
  note parts = this [unfolded request_lines_eq]
  from parts split_signed_headers [OF ok(1)] split_signed_headers [OF ok(2)]
  have names: "names = names'" by argo
  from parts have "map (\<lambda>n. n @ '':'' @ header_line_value h host n) names =
      map (\<lambda>n. n @ '':'' @ header_line_value h' host' n) names" unfolding names by blast
  then have "\<forall>n \<in> set names. header_line_value h host n = header_line_value h' host' n"
    by (simp only: map_eq_conv same_append_eq)
  with parts names show ?thesis by blast
qed

subsection \<open>Headers clients send\<close>

text \<open>The header as the AWS documentation gives it, and fields made of unreserved characters.\<close>

definition authorization_header :: "auth_header \<Rightarrow> string" where
  "authorization_header a =
     sig_algorithm @ '' Credential='' @ ah_access_key_id a @ ''/'' @ scope_string (ah_scope a) @
     '', SignedHeaders='' @ join '';'' (ah_signed_headers a) @ '', Signature='' @ ah_signature a"

definition plain_field :: "string \<Rightarrow> bool" where
  "plain_field s \<longleftrightarrow> s \<noteq> [] \<and> list_all is_unreserved s"

definition plain_scope :: "scope \<Rightarrow> bool" where
  "plain_scope sc \<longleftrightarrow> plain_field (sc_date sc) \<and> plain_field (sc_region sc) \<and> plain_field (sc_service sc)"

lemma plain_field_chars:
  assumes "plain_field s"
  shows "CHR ''/'' \<notin> set s" "CHR '','' \<notin> set s" "CHR ''='' \<notin> set s" "CHR '';'' \<notin> set s"
    "CHR ''&'' \<notin> set s" "CHR '' '' \<notin> set s" "s \<noteq> []"
  using assms by (auto simp: plain_field_def list_all_iff is_unreserved_def)

lemma unreserved_not_space: "is_unreserved c \<Longrightarrow> \<not> is_space c"
  by (auto simp: is_unreserved_def is_space_def)

lemma parse_credential_scope:
  assumes "plain_field key" "plain_scope sc"
  shows "parse_credential (key @ ''/'' @ scope_string sc) = Inr (key, sc)"
proof -
  have trm: "CHR ''/'' \<notin> set scope_terminator" by (simp add: scope_terminator_def)
  have "key @ ''/'' @ scope_string sc =
      join ''/'' [key, sc_date sc, sc_region sc, sc_service sc, scope_terminator]"
    by (simp add: scope_string_def)
  moreover have "split_on CHR ''/'' (join ''/'' [key, sc_date sc, sc_region sc, sc_service sc, scope_terminator]) =
      [key, sc_date sc, sc_region sc, sc_service sc, scope_terminator]"
    using assms trm by (intro split_on_join) (auto simp: plain_scope_def dest: plain_field_chars)
  ultimately show ?thesis
    using assms by (simp add: parse_credential_def plain_scope_def plain_field_def)
qed

lemma last_unreserved: "plain_field s \<Longrightarrow> \<not> is_space (last s)"
  by (simp add: plain_field_def list_all_iff unreserved_not_space)

lemma parse_authorization_header:
  assumes key: "plain_field (ah_access_key_id a)" and sc: "plain_scope (ah_scope a)"
    and hs: "ah_signed_headers a \<noteq> []" "list_all plain_field (ah_signed_headers a)"
    and sig: "plain_field (ah_signature a)"
  shows "parse_authorization (authorization_header a) = Inr a"
proof -
  let ?cred = "''Credential='' @ ah_access_key_id a @ ''/'' @ scope_string (ah_scope a)"
  let ?hs = "join '';'' (ah_signed_headers a)"
  let ?headers = "''SignedHeaders='' @ ?hs"
  let ?sig = "''Signature='' @ ah_signature a"
  have final: "plain_field (last (ah_signed_headers a))" using hs by (simp add: list_all_iff)
  from last_join [OF hs(1) plain_field_chars(7) [OF final], of "'';''"]
  have last: "?hs \<noteq> []" "\<not> is_space (last ?hs)"
    by (simp_all add: last_unreserved [OF final])
  have comma: "CHR '','' \<notin> set ?hs"
    using hs(2) by (auto dest!: set_join simp: list_all_iff dest: plain_field_chars)
  have scope: "CHR '','' \<notin> set (scope_string (ah_scope a))"
    "scope_string (ah_scope a) \<noteq> []" "\<not> is_space (last (scope_string (ah_scope a)))"
    using sc by (auto simp: scope_string_def plain_scope_def scope_terminator_def is_space_def
      dest: plain_field_chars)
  have solid: "solid ?cred" "solid ?headers" "solid ?sig"
    using last scope last_unreserved [OF sig] plain_field_chars(7) [OF sig]
    by (auto simp: solid_def is_space_def)
  have trimmed: "trim_space ?cred = ?cred" "trim_space (CHR '' '' # ?headers) = ?headers"
    "trim_space (CHR '' '' # ?sig) = ?sig"
    using solid by (simp_all only: trim_space_solid trim_space_blank)
  have pieces: "split_on CHR '','' (join '','' [?cred, CHR '' '' # ?headers, CHR '' '' # ?sig]) =
      [?cred, CHR '' '' # ?headers, CHR '' '' # ?sig]"
    using comma scope(1) plain_field_chars(2) [OF key] plain_field_chars(2) [OF sig]
    by (intro split_on_join) auto
  have header: "authorization_header a = sig_algorithm @ '' '' @ join '','' [?cred, CHR '' '' # ?headers, CHR '' '' # ?sig]"
    by (simp add: authorization_header_def)
  have alg: "cut (authorization_header a) '' '' =
      (sig_algorithm, join '','' [?cred, CHR '' '' # ?headers, CHR '' '' # ?sig], True)"
    unfolding header using cut_append_char [of "CHR '' ''" sig_algorithm] by (simp add: sig_algorithm_def)
  have keys: "cut ?cred ''='' = (''Credential'', ah_access_key_id a @ ''/'' @ scope_string (ah_scope a), True)"
    "cut ?headers ''='' = (''SignedHeaders'', ?hs, True)" "cut ?sig ''='' = (''Signature'', ah_signature a, True)"
    using cut_append_char [of "CHR ''=''" "''Credential''"] cut_append_char [of "CHR ''=''" "''SignedHeaders''"]
      cut_append_char [of "CHR ''=''" "''Signature''"] by simp_all
  have names: "split_on CHR '';'' ?hs = ah_signed_headers a"
    using hs by (intro split_on_join) (auto simp: list_all_iff dest: plain_field_chars)
  show ?thesis
    unfolding parse_authorization_def alg Let_def split_conv pieces parse_components.simps trimmed keys
    using parse_credential_scope [OF key sc] last(1) plain_field_chars(7) [OF sig] names
    by simp
qed

end
