(* ===== verification/Verify.thy ===== *)
theory Verify
  imports Sigv4 Grants Forwarded
begin

text \<open>
  Authentication of a request (\<^verbatim>\<open>internal/s3api/verify.go\<close> and \<^verbatim>\<open>presign.go\<close>): the signed header, the
  presigned query, and the presigned URLs the server hands out itself.
\<close>

subsection \<open>State of the verifier\<close>

text \<open>
  \<open>vf_lookup\<close> is the credential store, \<open>None\<close> for an unknown or revoked key; \<open>vf_obsolete_dates\<close>
  parses the obsolete formats of the \<^verbatim>\<open>Date\<close> header.
\<close>

record key_material =
  km_secret_key :: string
  km_grant :: grant

record verifier =
  vf_hashes :: hashes
  vf_lookup :: "string \<Rightarrow> key_material option"
  vf_proxies :: "network list"
  vf_obsolete_dates :: "string \<Rightarrow> time option"
  vf_now :: time

record identity =
  id_access_key_id :: string
  id_grant :: grant
  id_payload_hash :: string
  id_signing_key :: string
  id_scope :: scope
  id_timestamp :: string
  id_signature :: string

subsection \<open>Signed headers\<close>

definition request_time :: "verifier \<Rightarrow> request \<Rightarrow> s3_error + time" where
  "request_time v r =
     (let raw = header_get (rq_header r) ''X-Amz-Date''; date = header_get (rq_header r) ''Date''
      in if raw \<noteq> []
         then (case parse_iso8601 raw of
                 Some t \<Rightarrow> Inr t
               | None \<Rightarrow> Inl (Sentinel Missing_Date
                   (''x-amz-date '' @ quoted raw @ '' is not ISO8601 basic format'')))
         else case (if date = [] then None else parse_http_time (vf_obsolete_dates v) date) of
                Some t \<Rightarrow> Inr t
              | None \<Rightarrow> Inl (Sentinel Missing_Date []))"

definition payload_hash_of :: "request \<Rightarrow> string" where
  "payload_hash_of r =
     (let h = header_get (rq_header r) ''X-Amz-Content-Sha256''
      in if h \<noteq> [] then h else empty_string_sha256)"

text \<open>\<open>signature_at\<close>: the signature expected for one candidate of the canonical path.\<close>

definition signature_at ::
  "verifier \<Rightarrow> request \<Rightarrow> string \<Rightarrow> time \<Rightarrow> scope \<Rightarrow> string \<Rightarrow> string list \<Rightarrow> string \<Rightarrow> string \<Rightarrow> string" where
  "signature_at v r secret t sc query signed_headers payload_hash uri =
     sign (vf_hashes v) (signing_key (vf_hashes v) secret sc)
       (string_to_sign (vf_hashes v) t sc
         (canonical_request (rq_method r) uri query (rq_header r) (proxy_host (vf_proxies v) r)
           signed_headers payload_hash))"

definition make_identity ::
  "verifier \<Rightarrow> string \<Rightarrow> key_material \<Rightarrow> string \<Rightarrow> scope \<Rightarrow> time \<Rightarrow> string \<Rightarrow> identity" where
  "make_identity v key m payload_hash sc t sig =
     \<lparr>id_access_key_id = key, id_grant = km_grant m, id_payload_hash = payload_hash,
      id_signing_key = signing_key (vf_hashes v) (km_secret_key m) sc, id_scope = sc,
      id_timestamp = format_iso8601 t, id_signature = sig\<rparr>"

definition check_signature ::
  "verifier \<Rightarrow> request \<Rightarrow> string \<Rightarrow> key_material \<Rightarrow> time \<Rightarrow> scope \<Rightarrow> string \<Rightarrow> string list \<Rightarrow> string \<Rightarrow>
     string \<Rightarrow> s3_error + identity" where
  "check_signature v r key m t sc query signed_headers payload_hash sig =
     (if list_ex (\<lambda>uri. signatures_equal
           (signature_at v r (km_secret_key m) t sc query signed_headers payload_hash uri) sig)
         (canonical_uris r)
      then Inr (make_identity v key m payload_hash sc t sig)
      else Inl (Sentinel Signature_Mismatch []))"

definition verify_header :: "verifier \<Rightarrow> request \<Rightarrow> s3_error + identity" where
  "verify_header v r =
     (let authorization = header_get (rq_header r) ''Authorization''
      in if authorization = [] then Inl (Sentinel Missing_Authorization [])
      else rbind (parse_authorization authorization) (\<lambda>auth.
      rbind (request_time v r) (\<lambda>t.
      let skew = vf_now v - t
      in if max_clock_skew < skew \<or> skew < - max_clock_skew
      then Inl (Sentinel Request_Expired (''signed at '' @ format_rfc3339 t @
        '', server clock reads '' @ format_rfc3339 (vf_now v)))
      else if format_date t \<noteq> sc_date (ah_scope auth)
      then Inl (Sentinel Signature_Mismatch (''credential scope date '' @ quoted (sc_date (ah_scope auth)) @
        '' does not match request date '' @ quoted (format_date t)))
      else let signed_headers = sorted_signed_headers (ah_signed_headers auth)
      in if ''host'' \<notin> set signed_headers then Inl (Sentinel Missing_Signed_Header ''host'')
      else case vf_lookup v (ah_access_key_id auth) of
        None \<Rightarrow> Inl (Sentinel Invalid_Access_Key_ID (ah_access_key_id auth))
      | Some m \<Rightarrow>
          check_signature v r (ah_access_key_id auth) m t (ah_scope auth) (canonical_query (rq_query r) [])
            signed_headers (payload_hash_of r) (ah_signature auth))))"

subsection \<open>Presigned queries\<close>

definition param_algorithm :: string where "param_algorithm = ''X-Amz-Algorithm''"
definition param_credential :: string where "param_credential = ''X-Amz-Credential''"
definition param_date :: string where "param_date = ''X-Amz-Date''"
definition param_expires :: string where "param_expires = ''X-Amz-Expires''"
definition param_signed_headers :: string where "param_signed_headers = ''X-Amz-SignedHeaders''"
definition param_signature :: string where "param_signature = ''X-Amz-Signature''"
definition max_presign_expiry :: time where "max_presign_expiry = 7 * 24 * 3600 * second"

definition is_presigned :: "request \<Rightarrow> bool" where
  "is_presigned r \<longleftrightarrow> query_get r param_signature \<noteq> []"

definition is_signature_v2 :: "request \<Rightarrow> bool" where
  "is_signature_v2 r \<longleftrightarrow> query_get r ''AWSAccessKeyId'' \<noteq> [] \<and> query_get r ''Signature'' \<noteq> []"

definition err_signature_v2 :: s3_error where
  "err_signature_v2 = Api (with_message err_invalid_argument
     (''This request is signed with the deprecated AWS Signature Version 2. '' @
      ''This server requires Signature Version 4. '' @
      ''In boto3, pass Config(signature_version='' @ quoted ''s3v4'' @ ''); '' @
      ''in the AWS CLI, set signature_version = s3v4 in your profile.''))"

text \<open>
  \<^verbatim>\<open>time.Duration(expiresSeconds) * time.Second\<close> is a product of 64-bit integers, which wraps.
\<close>

definition wrap64 :: "int \<Rightarrow> int" where
  "wrap64 n = (n + 2 ^ 63) mod 2 ^ 64 - 2 ^ 63"

definition presigned_payload_hash :: "request \<Rightarrow> string" where
  "presigned_payload_hash r =
     (let declared = header_get (rq_header r) ''X-Amz-Content-Sha256''
      in if declared \<noteq> [] then declared else unsigned_payload)"

definition verify_presigned :: "verifier \<Rightarrow> request \<Rightarrow> s3_error + identity" where
  "verify_presigned v r =
     (if query_get r param_algorithm \<noteq> sig_algorithm
      then Inl (Sentinel Unsupported_Algorithm (quoted (query_get r param_algorithm)))
      else rbind (parse_credential (query_get r param_credential)) (\<lambda>(key, sc).
      case parse_iso8601 (query_get r param_date) of
        None \<Rightarrow> Inl (Sentinel Missing_Date (param_date @ '' is not ISO8601 basic format''))
      | Some signed_at \<Rightarrow>
      case (case atoi (query_get r param_expires) of Some n \<Rightarrow> if n \<le> 0 then None else Some n | None \<Rightarrow> None) of
        None \<Rightarrow> Inl (Api (with_message err_invalid_argument
          (param_expires @ '' must be a positive number of seconds.'')))
      | Some seconds \<Rightarrow>
      let expiry = wrap64 (seconds * second)
      in if max_presign_expiry < expiry
      then Inl (Api (with_message err_invalid_argument
        (param_expires @ '' must be at most '' @ show_int (max_presign_expiry div second) @ '' seconds (7 days).'')))
      else if vf_now v < signed_at - max_clock_skew
      then Inl (Sentinel Request_Expired (''signed at '' @ format_rfc3339 signed_at @ '', which is in the future''))
      else if signed_at + expiry < vf_now v
      then Inl (Sentinel Request_Expired (''the link expired at '' @ format_rfc3339 (signed_at + expiry)))
      else let signed_headers = sorted_signed_headers (split_on CHR '';'' (query_get r param_signed_headers))
      in if ''host'' \<notin> set signed_headers then Inl (Sentinel Missing_Signed_Header ''host'')
      else case vf_lookup v key of
        None \<Rightarrow> Inl (Sentinel Invalid_Access_Key_ID key)
      | Some m \<Rightarrow>
          check_signature v r key m signed_at sc (canonical_query (rq_query r) param_signature)
            signed_headers (presigned_payload_hash r) (query_get r param_signature)))"

definition verify :: "verifier \<Rightarrow> request \<Rightarrow> s3_error + identity" where
  "verify v r =
     (if is_presigned r then verify_presigned v r
      else if is_signature_v2 r then Inl err_signature_v2
      else verify_header v r)"

end
