(* ===== verification/Responses.thy ===== *)
theory Responses
  imports Names Grants Verify
begin

text \<open>
  Responses of the S3 listener, as the values the handlers hand to \<^verbatim>\<open>encoding/xml\<close> and to
  \<^verbatim>\<open>net/http\<close>, and the server's configuration (\<^verbatim>\<open>xml.go\<close>, \<^verbatim>\<open>WriteError\<close> of \<^verbatim>\<open>errors.go\<close>, \<^verbatim>\<open>Server\<close> of
  \<^verbatim>\<open>server.go\<close>). The request id, a random text on every response, is left out.
\<close>

subsection \<open>Documents\<close>

record object_entry =
  oe_key :: string
  oe_last_modified :: string
  oe_etag :: string
  oe_size :: nat
  oe_storage_class :: string

record list_bucket_result =
  lb_name :: string
  lb_prefix :: string
  lb_delimiter :: string
  lb_max_keys :: int
  lb_key_count :: nat
  lb_is_truncated :: bool
  lb_continuation_token :: string
  lb_next_continuation_token :: string
  lb_start_after :: string
  lb_marker :: string
  lb_next_marker :: string
  lb_encoding_type :: string
  lb_contents :: "object_entry list"
  lb_common_prefixes :: "string list"

record deleted_entry =
  de_key :: string
  de_version_id :: string
  de_delete_marker :: bool
  de_marker_version_id :: string

record delete_error =
  dr_key :: string
  dr_version_id :: string
  dr_code :: string
  dr_message :: string

record part_entry =
  pe_part_number :: int
  pe_last_modified :: string
  pe_etag :: string
  pe_size :: nat

record version_entry =
  ve_is_marker :: bool
  ve_key :: string
  ve_version_id :: string
  ve_is_latest :: bool
  ve_last_modified :: string
  ve_etag :: string
  ve_size :: "nat option"

record list_versions_result =
  lv_name :: string
  lv_prefix :: string
  lv_delimiter :: string
  lv_key_marker :: string
  lv_version_id_marker :: string
  lv_next_key_marker :: string
  lv_next_version_id_marker :: string
  lv_max_keys :: int
  lv_is_truncated :: bool
  lv_encoding_type :: string
  lv_entries :: "version_entry list"
  lv_common_prefixes :: "string list"

datatype document =
    Error_Document string string string
  | Buckets_Document "(string \<times> string) list"
  | Location_Document string
  | Versioning_Document string
  | Listing_Document list_bucket_result
  | Versions_Document list_versions_result
  | Delete_Document "deleted_entry list" "delete_error list"
  | Copy_Document string string
  | Initiate_Document string string string
  | Complete_Document string string string string
  | Parts_Document string string string "part_entry list"
  | Uploads_Document string string "(string \<times> string \<times> string) list"

subsection \<open>Responses\<close>

text \<open>
  \<open>Content\<close> is a call of \<^verbatim>\<open>http.ServeContent\<close> with a modification time and the bytes to serve, whole
  or the range the request asks for.
\<close>

datatype body = No_Body | Doc document | Content time string

type_synonym response_headers = "(string \<times> string) list"

record response =
  rs_status :: nat
  rs_headers :: response_headers
  rs_body :: body

definition reply :: "nat \<Rightarrow> response_headers \<Rightarrow> response" where
  "reply status hs = \<lparr>rs_status = status, rs_headers = hs, rs_body = No_Body\<rparr>"

definition write_xml :: "nat \<Rightarrow> response_headers \<Rightarrow> document \<Rightarrow> response" where
  "write_xml status hs doc =
     \<lparr>rs_status = status, rs_headers = hs @ [(''Content-Type'', ''application/xml'')], rs_body = Doc doc\<rparr>"

definition write_error :: "request \<Rightarrow> s3_error \<Rightarrow> response" where
  "write_error r err =
     (let e = as_api_error err;
          hs = [(''x-amz-error-code'', ae_code e), (''Content-Type'', ''application/xml'')]
      in \<lparr>rs_status = ae_status e, rs_headers = hs,
          rs_body = (if rq_method r = ''HEAD'' then No_Body
                     else Doc (Error_Document (ae_code e) (ae_message e) (url_path r)))\<rparr>)"

definition with_headers :: "response_headers \<Rightarrow> response \<Rightarrow> response" where
  "with_headers hs resp = resp\<lparr>rs_headers := hs @ rs_headers resp\<rparr>"

definition internal :: "request \<Rightarrow> response" where
  "internal r = write_error r (Api err_internal_error)"

lemma response_simps [simp]:
  "rs_status (reply c hs) = c" "rs_headers (reply c hs) = hs" "rs_body (reply c hs) = No_Body"
  "rs_status (write_xml c hs d) = c" "rs_body (write_xml c hs d) = Doc d"
  "rs_status (with_headers hs x) = rs_status x" "rs_body (with_headers hs x) = rs_body x"
  "rs_headers (with_headers hs x) = hs @ rs_headers x"
  by (simp_all add: reply_def write_xml_def with_headers_def)

lemma status_write_error [simp]: "rs_status (write_error r e) = ae_status (as_api_error e)"
  by (simp add: write_error_def Let_def)

subsection \<open>Times and tags\<close>

text \<open>\<^verbatim>\<open>2006-01-02T15:04:05.000Z\<close>: always three digits of a second's fraction.\<close>

definition format_xml_time :: "time \<Rightarrow> string" where
  "format_xml_time t =
     (let (y, m, d) = civil_of t; (hh, mm, ss) = clock_of t
      in decimal 4 y @ ''-'' @ decimal 2 m @ ''-'' @ decimal 2 d @ ''T'' @ decimal 2 hh @ '':'' @
         decimal 2 mm @ '':'' @ decimal 2 ss @ ''.'' @ decimal 3 (nat (t div 10 ^ 6 mod 1000)) @ ''Z'')"

definition storage_class_standard :: string where "storage_class_standard = ''STANDARD''"

definition version_headers :: "string \<Rightarrow> response_headers" where
  "version_headers version_id = (if version_id \<noteq> [] then [(''x-amz-version-id'', version_id)] else [])"

subsection \<open>The server\<close>

text \<open>
  \<^verbatim>\<open>xml.Unmarshal\<close> into the four request documents: quiet flag and the keys with their version ids;
  part numbers with their tags; the versioning status; the region.
\<close>

record xml_decoder =
  xml_delete :: "string \<Rightarrow> (bool \<times> (string \<times> string) list) option"
  xml_complete :: "string \<Rightarrow> (int \<times> string) list option"
  xml_versioning :: "string \<Rightarrow> string option"
  xml_location :: "string \<Rightarrow> string option"

record server =
  sv_verifier :: verifier
  sv_region :: string
  sv_public_url :: string
  sv_s3_domain :: string
  sv_root :: string
  sv_xml :: xml_decoder

definition server_address :: "server \<Rightarrow> request \<Rightarrow> s3_error + string \<times> string" where
  "server_address sv r = resolve_addressing (sv_s3_domain sv) (proxy_host (vf_proxies (sv_verifier sv)) r) r"

end
