(* ===== verification/Cors.thy ===== *)
theory Cors
  imports Responses Buckets
begin

text \<open>
  Public buckets and cross-origin requests (\<^verbatim>\<open>internal/s3api/public.go\<close>).
\<close>

subsection \<open>Anonymous reads\<close>

definition anonymous_method_allowed :: "string \<Rightarrow> bool" where
  "anonymous_method_allowed m \<longleftrightarrow> m = ''GET'' \<or> m = ''HEAD'' \<or> m = ''OPTIONS''"

definition allow_anonymous :: "server \<Rightarrow> db \<Rightarrow> request \<Rightarrow> bool" where
  "allow_anonymous sv s r \<longleftrightarrow>
     anonymous_method_allowed (rq_method r) \<and>
     (case server_address sv r of
        Inl _ \<Rightarrow> False
      | Inr (bucket, _) \<Rightarrow> bucket \<noteq> [] \<and> public_bucket s bucket)"

subsection \<open>Rules\<close>

definition origin_matches :: "string list \<Rightarrow> string \<Rightarrow> bool" where
  "origin_matches cs origin = list_ex (\<lambda>c. c = ''*'' \<or> equal_fold c origin) cs"

definition method_matches :: "string list \<Rightarrow> string \<Rightarrow> bool" where
  "method_matches cs m = list_ex (\<lambda>c. equal_fold c m) cs"

definition match_cors_rule :: "cors_rule list \<Rightarrow> string \<Rightarrow> string \<Rightarrow> cors_rule option" where
  "match_cors_rule rules origin m =
     find (\<lambda>x. origin_matches (allowed_origins x) origin \<and> method_matches (allowed_methods x) m) rules"

definition allowed_origin_value :: "cors_rule \<Rightarrow> string \<Rightarrow> string" where
  "allowed_origin_value x origin = (if list_ex (\<lambda>c. c = ''*'') (allowed_origins x) then ''*'' else origin)"

definition allowed_headers_value :: "cors_rule \<Rightarrow> string \<Rightarrow> string" where
  "allowed_headers_value x requested =
     (if list_ex (\<lambda>c. c = ''*'') (allowed_headers x) \<or> allowed_headers x = []
      then requested else join '', '' (allowed_headers x))"

subsection \<open>The response headers\<close>

text \<open>
  The headers the bucket's rules add and, for a preflight that is answered here, its status.
  \<open>fails\<close> is a failing read of the settings.
\<close>

definition requested_method :: "request \<Rightarrow> string" where
  "requested_method r =
     (let asked = header_get (rq_header r) ''Access-Control-Request-Method''
      in if rq_method r = ''OPTIONS'' \<and> asked \<noteq> [] then asked else rq_method r)"

definition cors_headers :: "cors_rule \<Rightarrow> string \<Rightarrow> response_headers" where
  "cors_headers x origin =
     [(''Access-Control-Allow-Origin'', allowed_origin_value x origin), (''Vary'', ''Origin''),
      (''Access-Control-Allow-Methods'', join '', '' (allowed_methods x))] @
     (if expose_headers x \<noteq> [] then [(''Access-Control-Expose-Headers'', join '', '' (expose_headers x))] else [])"

definition preflight_headers :: "cors_rule \<Rightarrow> request \<Rightarrow> response_headers" where
  "preflight_headers x r =
     (let asked = header_get (rq_header r) ''Access-Control-Request-Headers''
      in (if asked \<noteq> [] then [(''Access-Control-Allow-Headers'', allowed_headers_value x asked)] else []) @
         (if 0 < max_age_seconds x then [(''Access-Control-Max-Age'', show_int (max_age_seconds x))] else []))"

definition bucket_cors_rules :: "server \<Rightarrow> bool \<Rightarrow> db \<Rightarrow> request \<Rightarrow> cors_rule list" where
  "bucket_cors_rules sv fails s r =
     (case server_address sv r of
        Inl _ \<Rightarrow> []
      | Inr (name, _) \<Rightarrow>
          if name = [] then []
          else case get_bucket s name of
            Inl _ \<Rightarrow> []
          | Inr b \<Rightarrow> bs_cors_rules (get_bucket_settings fails s (bk_id b)))"

definition apply_cors :: "server \<Rightarrow> bool \<Rightarrow> db \<Rightarrow> request \<Rightarrow> response_headers \<times> nat option" where
  "apply_cors sv fails s r =
     (let origin = header_get (rq_header r) ''Origin''; rules = bucket_cors_rules sv fails s r;
          preflight = (rq_method r = ''OPTIONS'')
      in if origin = [] \<or> rules = [] then ([], None)
      else case match_cors_rule rules origin (requested_method r) of
        None \<Rightarrow> ([], if preflight then Some 403 else None)
      | Some x \<Rightarrow>
          if preflight then (cors_headers x origin @ preflight_headers x r, Some 204)
          else (cors_headers x origin, None))"

text \<open>What a browser gets is an origin the rules name, or none.\<close>

lemma match_cors_rule_Some:
  assumes "match_cors_rule rules origin m = Some x"
  shows "x \<in> set rules" "origin_matches (allowed_origins x) origin" "method_matches (allowed_methods x) m"
  using find_Some_in [OF assms [unfolded match_cors_rule_def]] by simp_all

lemma allowed_origin_sound:
  assumes "origin_matches (allowed_origins x) origin"
  shows "allowed_origin_value x origin = ''*'' \<and> ''*'' \<in> set (allowed_origins x) \<or>
    allowed_origin_value x origin = origin \<and> (\<exists>c \<in> set (allowed_origins x). equal_fold c origin)"
  using assms by (auto simp: allowed_origin_value_def origin_matches_def list_ex_iff)

lemma apply_cors_headers:
  assumes "apply_cors sv fails s r = (hs, status)" "v \<in> set (map snd (filter (\<lambda>h. fst h = ''Access-Control-Allow-Origin'') hs))"
  obtains x where "x \<in> set (bucket_cors_rules sv fails s r)"
    "origin_matches (allowed_origins x) (header_get (rq_header r) ''Origin'')"
    "method_matches (allowed_methods x) (requested_method r)"
    "v = allowed_origin_value x (header_get (rq_header r) ''Origin'')"
proof -
  from assms obtain x where x: "match_cors_rule (bucket_cors_rules sv fails s r) (header_get (rq_header r) ''Origin'')
      (requested_method r) = Some x"
    and "hs = cors_headers x (header_get (rq_header r) ''Origin'') \<or>
      hs = cors_headers x (header_get (rq_header r) ''Origin'') @ preflight_headers x r"
    by (auto simp: apply_cors_def Let_def split: if_splits option.splits)
  with assms(2) have "v = allowed_origin_value x (header_get (rq_header r) ''Origin'')"
    by (auto simp: cors_headers_def preflight_headers_def Let_def split: if_splits)
  with that match_cors_rule_Some [OF x] show ?thesis by blast
qed

end
