(* ===== verification/Routing.thy ===== *)
theory Routing
  imports Cors
begin

text \<open>
  Dispatch of a request to the operation it asks for, with the permissions each needs
  (\<^verbatim>\<open>route\<close>, \<^verbatim>\<open>routeService\<close>, \<^verbatim>\<open>routeBucket\<close> and \<^verbatim>\<open>routeObject\<close> of \<^verbatim>\<open>server.go\<close>). An operation names the
  handler and its arguments.
\<close>

subsection \<open>The source of a copy\<close>

definition parse_copy_source :: "string \<Rightarrow> api_error + string \<times> string \<times> string" where
  "parse_copy_source raw =
     (let (trimmed, version, _) = cut (trim_prefix raw ''/'') ''?versionId='';
          (raw_bucket, raw_key, found) = cut trimmed ''/''
      in if \<not> found \<or> raw_bucket = [] \<or> raw_key = []
         then Inl (with_message err_invalid_argument
           (''The x-amz-copy-source header must name a bucket and key, got '' @ quoted raw @ ''.''))
         else case (percent_decode raw_bucket, percent_decode raw_key) of
           (Some bucket, Some key) \<Rightarrow> Inr (bucket, key, version)
         | _ \<Rightarrow> Inl (with_message err_invalid_argument ''The x-amz-copy-source header is not valid.''))"

subsection \<open>Operations\<close>

datatype operation =
    Op_List_Buckets
  | Op_Delete_Objects string
  | Op_Put_Bucket_Versioning string
  | Op_Create_Bucket string
  | Op_Get_Bucket string
  | Op_Head_Bucket string
  | Op_Delete_Bucket string
  | Op_Create_Multipart_Upload string string
  | Op_Upload_Part string string string
  | Op_Complete_Multipart_Upload string string string
  | Op_Abort_Multipart_Upload string string string
  | Op_List_Parts string string string
  | Op_Copy_Object string string string
  | Op_Put_Object string string
  | Op_Get_Object string string
  | Op_Head_Object string string
  | Op_Delete_Object string string

definition unsupported :: "request \<Rightarrow> api_error" where
  "unsupported r = with_message err_not_implemented
     (rq_method r @ '' '' @ url_path r @ '' is not supported by this server.'')"

definition route_service :: "request \<Rightarrow> api_error + operation" where
  "route_service r = (if rq_method r = ''GET'' then Inr Op_List_Buckets else Inl (unsupported r))"

text \<open>\<open>permit\<close> first, then the operation.\<close>

definition gated :: "api_error + unit \<Rightarrow> operation \<Rightarrow> api_error + operation" where
  "gated permitted op = rbind permitted (\<lambda>_. Inr op)"

definition route_bucket :: "grant option \<Rightarrow> request \<Rightarrow> string \<Rightarrow> api_error + operation" where
  "route_bucket caller r bucket =
     (let m = rq_method r; may = permit caller bucket []
      in if m = ''POST'' \<and> query_has r ''delete''
         then gated (may (access_of PermissionDelete ReachesSomewhere)) (Op_Delete_Objects bucket)
      else if m = ''PUT'' \<and> query_has r ''versioning''
         then gated (may (access_of PermissionWrite ReachesEverything)) (Op_Put_Bucket_Versioning bucket)
      else if m = ''PUT'' then gated (may create_bucket_access) (Op_Create_Bucket bucket)
      else if m = ''GET'' then gated (may read_bucket) (Op_Get_Bucket bucket)
      else if m = ''HEAD'' then gated (may read_bucket) (Op_Head_Bucket bucket)
      else if m = ''DELETE'' then gated (may delete_bucket_access) (Op_Delete_Bucket bucket)
      else Inl (unsupported r))"

definition route_object :: "grant option \<Rightarrow> request \<Rightarrow> string \<Rightarrow> string \<Rightarrow> api_error + operation" where
  "route_object caller r bucket key =
     (let m = rq_method r; upload = query_get r ''uploadId'';
          source = header_get (rq_header r) ''x-amz-copy-source'';
          write = permit caller bucket key write_object
      in if m = ''POST'' \<and> query_has r ''uploads'' then gated write (Op_Create_Multipart_Upload bucket key)
      else if m = ''PUT'' \<and> upload \<noteq> [] then gated write (Op_Upload_Part bucket key upload)
      else if m = ''POST'' \<and> upload \<noteq> [] then gated write (Op_Complete_Multipart_Upload bucket key upload)
      else if m = ''DELETE'' \<and> upload \<noteq> [] then gated write (Op_Abort_Multipart_Upload bucket key upload)
      else if m = ''GET'' \<and> upload \<noteq> [] then gated write (Op_List_Parts bucket key upload)
      else if m = ''PUT'' \<and> source \<noteq> [] then
        rbind write (\<lambda>_. rbind (parse_copy_source source) (\<lambda>(source_bucket, source_key, _).
        gated (permit caller source_bucket source_key read_object) (Op_Copy_Object bucket key source)))
      else if m = ''PUT'' then gated write (Op_Put_Object bucket key)
      else if m = ''GET'' then gated (permit caller bucket key read_object) (Op_Get_Object bucket key)
      else if m = ''HEAD'' then gated (permit caller bucket key read_object) (Op_Head_Object bucket key)
      else if m = ''DELETE'' then gated (permit caller bucket key delete_object_access) (Op_Delete_Object bucket key)
      else Inl (unsupported r))"

definition route :: "server \<Rightarrow> grant option \<Rightarrow> request \<Rightarrow> api_error + operation" where
  "route sv caller r =
     (case server_address sv r of
        Inl _ \<Rightarrow> Inl (with_message err_invalid_argument ''The request URI is not valid.'')
      | Inr (bucket, key) \<Rightarrow>
          if bucket = [] then route_service r
          else if key = [] then route_bucket caller r bucket
          else route_object caller r bucket key)"

subsection \<open>What each operation needs\<close>

text \<open>
  The permissions as a table, independent of how requests are dispatched: the bucket, the key or a
  whole bucket, and the permission.
\<close>

fun required :: "operation \<Rightarrow> (string \<times> string \<times> access) list" where
  "required Op_List_Buckets = []"
| "required (Op_Delete_Objects b) = [(b, [], access_of PermissionDelete ReachesSomewhere)]"
| "required (Op_Put_Bucket_Versioning b) = [(b, [], access_of PermissionWrite ReachesEverything)]"
| "required (Op_Create_Bucket b) = [(b, [], access_of PermissionWrite ReachesEverything)]"
| "required (Op_Get_Bucket b) = [(b, [], access_of PermissionRead ReachesSomewhere)]"
| "required (Op_Head_Bucket b) = [(b, [], access_of PermissionRead ReachesSomewhere)]"
| "required (Op_Delete_Bucket b) = [(b, [], access_of PermissionDelete ReachesEverything)]"
| "required (Op_Create_Multipart_Upload b k) = [(b, k, access_of PermissionWrite ReachesObject)]"
| "required (Op_Upload_Part b k u) = [(b, k, access_of PermissionWrite ReachesObject)]"
| "required (Op_Complete_Multipart_Upload b k u) = [(b, k, access_of PermissionWrite ReachesObject)]"
| "required (Op_Abort_Multipart_Upload b k u) = [(b, k, access_of PermissionWrite ReachesObject)]"
| "required (Op_List_Parts b k u) = [(b, k, access_of PermissionWrite ReachesObject)]"
| "required (Op_Copy_Object b k source) = (b, k, access_of PermissionWrite ReachesObject) #
     (case parse_copy_source source of
        Inl _ \<Rightarrow> [] | Inr (sb, sk, _) \<Rightarrow> [(sb, sk, access_of PermissionRead ReachesObject)])"
| "required (Op_Put_Object b k) = [(b, k, access_of PermissionWrite ReachesObject)]"
| "required (Op_Get_Object b k) = [(b, k, access_of PermissionRead ReachesObject)]"
| "required (Op_Head_Object b k) = [(b, k, access_of PermissionRead ReachesObject)]"
| "required (Op_Delete_Object b k) = [(b, k, access_of PermissionDelete ReachesObject)]"

definition authorized :: "grant option \<Rightarrow> operation \<Rightarrow> bool" where
  "authorized caller op \<longleftrightarrow>
     (case caller of None \<Rightarrow> True | Some g \<Rightarrow> list_all (\<lambda>(b, k, want). allowed g b k want) (required op))"

fun reads_only :: "operation \<Rightarrow> bool" where
  "reads_only Op_List_Buckets \<longleftrightarrow> True"
| "reads_only (Op_Get_Bucket b) \<longleftrightarrow> True"
| "reads_only (Op_Head_Bucket b) \<longleftrightarrow> True"
| "reads_only (Op_List_Parts b k u) \<longleftrightarrow> True"
| "reads_only (Op_Get_Object b k) \<longleftrightarrow> True"
| "reads_only (Op_Head_Object b k) \<longleftrightarrow> True"
| "reads_only _ \<longleftrightarrow> False"

lemma permit_Inr: "permit caller b k want = Inr u \<longleftrightarrow>
    (case caller of None \<Rightarrow> True | Some g \<Rightarrow> allowed g b k want)"
  by (simp add: permit_def split: option.splits)

lemma gated_Inr [result_iff]: "gated p op = Inr op' \<longleftrightarrow> p = Inr () \<and> op' = op"
  by (auto simp: gated_def result_iff)

lemmas access_defs = write_object_def read_object_def delete_object_access_def read_bucket_def
  create_bucket_access_def delete_bucket_access_def

lemma route_bucket_Inr:
  "route_bucket caller r b = Inr op \<longleftrightarrow> route_bucket None r b = Inr op \<and> authorized caller op"
  by (auto simp: route_bucket_def Let_def result_iff permit_Inr authorized_def access_defs
    split: if_splits option.splits)

lemma route_object_Inr:
  "route_object caller r b k = Inr op \<longleftrightarrow> route_object None r b k = Inr op \<and> authorized caller op"
proof (cases caller)
  case (Some g)
  show ?thesis unfolding Some
    by (auto simp: route_object_def Let_def result_iff permit_Inr authorized_def access_defs
      split: if_splits)
qed (simp add: authorized_def)


lemma route_Inr:
  "route sv caller r = Inr op \<longleftrightarrow> route sv None r = Inr op \<and> authorized caller op"
proof (cases "server_address sv r")
  case (Inr bk)
  obtain b k where bk: "bk = (b, k)" by (cases bk)
  have service: "route_service r = Inr op \<longleftrightarrow> route_service r = Inr op \<and> authorized caller op"
    by (auto simp: route_service_def authorized_def split: if_splits option.splits)
  show ?thesis
    unfolding route_def Inr bk sum.case prod.case
    using service route_bucket_Inr [of caller r b op] route_object_Inr [of caller r b k op] by presburger
qed (simp add: route_def)

text \<open>The bucket an operation acts on is the one the request addresses.\<close>

fun target_bucket :: "operation \<Rightarrow> string" where
  "target_bucket Op_List_Buckets = []"
| "target_bucket (Op_Delete_Objects b) = b"
| "target_bucket (Op_Put_Bucket_Versioning b) = b"
| "target_bucket (Op_Create_Bucket b) = b"
| "target_bucket (Op_Get_Bucket b) = b"
| "target_bucket (Op_Head_Bucket b) = b"
| "target_bucket (Op_Delete_Bucket b) = b"
| "target_bucket (Op_Create_Multipart_Upload b k) = b"
| "target_bucket (Op_Upload_Part b k u) = b"
| "target_bucket (Op_Complete_Multipart_Upload b k u) = b"
| "target_bucket (Op_Abort_Multipart_Upload b k u) = b"
| "target_bucket (Op_List_Parts b k u) = b"
| "target_bucket (Op_Copy_Object b k source) = b"
| "target_bucket (Op_Put_Object b k) = b"
| "target_bucket (Op_Get_Object b k) = b"
| "target_bucket (Op_Head_Object b k) = b"
| "target_bucket (Op_Delete_Object b k) = b"

lemma route_target:
  assumes "route sv caller r = Inr op"
  shows "\<exists>k. server_address sv r = Inr (target_bucket op, k)"
proof (cases "server_address sv r")
  case (Inr bk)
  obtain b k where bk: "bk = (b, k)" by (cases bk)
  have "target_bucket op = b"
    using assms unfolding route_def Inr bk sum.case prod.case
    by (auto simp: route_service_def route_bucket_def route_object_def Let_def result_iff split: if_splits)
  with Inr bk show ?thesis by simp
qed (use assms in \<open>simp add: route_def\<close>)

text \<open>Only GET, HEAD and OPTIONS are served without a signature, and none of them writes.\<close>

lemma anonymous_reads_only:
  assumes "route sv caller r = Inr op" "anonymous_method_allowed (rq_method r)"
  shows "reads_only op"
  using assms
  by (auto simp: route_def route_service_def route_bucket_def route_object_def anonymous_method_allowed_def
    Let_def result_iff split: if_splits sum.splits)

text \<open>An operation that writes asks for more than reading.\<close>

lemma writing_needs_permission:
  assumes "\<not> reads_only op"
  shows "list_ex (\<lambda>(b, k, want). ac_permission want \<noteq> PermissionRead) (required op)"
  using assms by (cases op) (simp_all add: access_of_def)

end
