(* ===== verification/Chunked.thy ===== *)
theory Chunked
  imports Sigv4 "HOL-Library.Sublist"
begin

text \<open>
  The aws-chunked framing (\<^verbatim>\<open>internal/s3api/chunked.go\<close>). A source is the bytes still to come and
  whether they end in \<^verbatim>\<open>io.EOF\<close>; reading a decoder to the end gives the bytes it delivered and the
  error it stopped with, \<open>None\<close> for \<^verbatim>\<open>io.EOF\<close>.
\<close>

subsection \<open>Lines\<close>

type_synonym source = "string \<times> bool"

datatype read_error = Read_EOF | Read_Failed s3_error

definition max_chunk_header_size :: nat where "max_chunk_header_size = 1024"
definition max_chunk_size :: int where "max_chunk_size = 16 * 2 ^ 20"
definition max_trailer_bytes :: nat where "max_trailer_bytes = 8 * 2 ^ 10"

abbreviation malformed_chunk :: "string \<Rightarrow> s3_error" where
  "malformed_chunk detail \<equiv> Sentinel Malformed_Chunk detail"

definition read_line :: "source \<Rightarrow> read_error + string \<times> source" where
  "read_line src =
     (let (bs, clean) = src; (u, rest, found) = cut bs newline; line = (if found then u @ newline else bs)
      in if \<not> found \<and> \<not> clean then Inl (Read_Failed (malformed_chunk ''read error''))
      else if \<not> found \<and> line = [] then Inl Read_EOF
      else if max_chunk_header_size < length line
      then Inl (Read_Failed (malformed_chunk (''chunk header exceeds '' @ show_nat max_chunk_header_size @ '' bytes'')))
      else Inr (trim_right (\<lambda>c. c = CHR 0x0D \<or> c = CHR 0x0A) line, (rest, clean)))"

text \<open>\<^verbatim>\<open>io.ReadFull\<close> of \<open>n\<close> bytes.\<close>

definition read_full :: "nat \<Rightarrow> source \<Rightarrow> (string \<times> source) option" where
  "read_full n src =
     (if length (fst src) < n then None else Some (take n (fst src), (drop n (fst src), snd src)))"

definition crlf :: string where "crlf = [CHR 0x0D, CHR 0x0A]"

definition expect_crlf :: "source \<Rightarrow> s3_error + source" where
  "expect_crlf src =
     (case read_full 2 src of
        None \<Rightarrow> Inl (malformed_chunk ''expected CRLF after chunk'')
      | Some (bs, rest) \<Rightarrow>
          if bs \<noteq> crlf then Inl (malformed_chunk (''expected CRLF after chunk, got '' @ quoted bs))
          else Inr rest)"

lemma read_line_shorter:
  "read_line src = Inr (line, src') \<Longrightarrow> length (fst src') < length (fst src)"
  by (cases src; cases "cut (fst src) newline")
    (auto simp: read_line_def Let_def newline_def dest: cut_found cut_not_found split: if_splits)

text \<open>The section after the last chunk; \<open>read\<close> counts its bytes.\<close>

function consume_trailers :: "nat \<Rightarrow> source \<Rightarrow> s3_error + unit" where
  "consume_trailers n src =
     (case read_line src of
        Inl Read_EOF \<Rightarrow> Inr ()
      | Inl (Read_Failed e) \<Rightarrow> Inl e
      | Inr (line, src') \<Rightarrow>
          if line = [] then Inr ()
          else if max_trailer_bytes < n + length line
          then Inl (malformed_chunk (''trailing headers exceed '' @ show_nat max_trailer_bytes @ '' bytes''))
          else consume_trailers (n + length line) src')"
  by pat_completeness auto
termination consume_trailers
  by (relation "measure (\<lambda>(_, src). length (fst src))") (auto dest: read_line_shorter)

declare consume_trailers.simps [simp del]

subsection \<open>Chunk signatures\<close>

record chunk_signer =
  ck_hashes :: hashes
  ck_signing_key :: string
  ck_scope :: scope
  ck_timestamp :: string

definition chunk_string_to_sign :: "chunk_signer \<Rightarrow> string \<Rightarrow> string \<Rightarrow> string" where
  "chunk_string_to_sign k prev data =
     join newline [''AWS4-HMAC-SHA256-PAYLOAD'', ck_timestamp k, scope_string (ck_scope k), prev,
       hex_encode (h_sha256 (ck_hashes k) []), hex_encode (h_sha256 (ck_hashes k) data)]"

definition chunk_signature :: "chunk_signer \<Rightarrow> string \<Rightarrow> string \<Rightarrow> string" where
  "chunk_signature k prev data = sign (ck_hashes k) (ck_signing_key k) (chunk_string_to_sign k prev data)"

definition verify_chunk :: "chunk_signer \<Rightarrow> string \<Rightarrow> string \<Rightarrow> string \<Rightarrow> s3_error + string" where
  "verify_chunk k prev data sig =
     (if \<not> signatures_equal (chunk_signature k prev data) sig
      then Inl (Sentinel Chunk_Signature []) else Inr sig)"

definition chunk_signature_from :: "string \<Rightarrow> bool \<Rightarrow> s3_error + string" where
  "chunk_signature_from param present =
     (if \<not> present then Inl (malformed_chunk ''chunk has no signature'')
      else let (name, value, found) = cut (trim_space param) ''=''
        in if \<not> found \<or> name \<noteq> ''chunk-signature'' \<or> value = []
           then Inl (malformed_chunk (''bad chunk-signature parameter '' @ quoted param))
           else Inr value)"

subsection \<open>Reading to the end\<close>

text \<open>
  \<^verbatim>\<open>nextChunk\<close> up to the data: the size and, with a signer, the signature the chunk declares.
\<close>

definition chunk_header :: "bool \<Rightarrow> string \<Rightarrow> s3_error + nat \<times> string" where
  "chunk_header signed line =
     (let (size_field, signature_param, has_signature) = cut line '';''
      in case parse_int 16 (trim_space size_field) of
           None \<Rightarrow> Inl (malformed_chunk (''bad chunk size '' @ quoted size_field))
         | Some sz \<Rightarrow>
             if sz < 0 then Inl (malformed_chunk (''bad chunk size '' @ quoted size_field))
             else if max_chunk_size < sz
             then Inl (malformed_chunk (''chunk of '' @ show_int sz @ '' bytes exceeds the '' @
               show_int max_chunk_size @ '' byte limit''))
             else if signed
             then rbind (chunk_signature_from signature_param has_signature) (\<lambda>sig. Inr (nat sz, sig))
             else Inr (nat sz, []))"

text \<open>
  One chunk: its data, the signature to chain from and the source after it, or the last bytes and the
  error of a stream that ends. An unsigned chunk streams, so what is there of a truncated one is
  delivered; a signed chunk is buffered and verified first.
\<close>

datatype chunk_step = Stop string "s3_error option" | Chunk string string source

definition next_chunk :: "chunk_signer option \<Rightarrow> string \<Rightarrow> source \<Rightarrow> chunk_step" where
  "next_chunk signer prev src =
     (case read_line src of
        Inl Read_EOF \<Rightarrow> Stop [] None
      | Inl (Read_Failed e) \<Rightarrow> Stop [] (Some e)
      | Inr (line, src1) \<Rightarrow>
      (case chunk_header (signer \<noteq> None) line of
        Inl e \<Rightarrow> Stop [] (Some e)
      | Inr (sz, sig) \<Rightarrow>
      (case read_full sz src1 of
        None \<Rightarrow>
          (case signer of
             None \<Rightarrow> Stop (fst src1) (Some (malformed_chunk ''truncated chunk data''))
           | Some k \<Rightarrow> Stop [] (Some (malformed_chunk ''truncated chunk'')))
      | Some (data, src2) \<Rightarrow>
      (case (case signer of None \<Rightarrow> Inr prev | Some k \<Rightarrow> verify_chunk k prev data sig) of
        Inl e \<Rightarrow> Stop [] (Some e)
      | Inr prev' \<Rightarrow>
          if sz = 0
          then Stop [] (case consume_trailers 0 src2 of Inl e \<Rightarrow> Some e | Inr _ \<Rightarrow> None)
          else case expect_crlf src2 of
            Inl e \<Rightarrow> Stop data (Some e)
          | Inr src3 \<Rightarrow> Chunk data prev' src3))))"

lemma next_chunk_shorter:
  "next_chunk signer prev src = Chunk data prev' src' \<Longrightarrow> length (fst src') < length (fst src)"
  unfolding next_chunk_def
  by (auto dest!: read_line_shorter simp: read_full_def expect_crlf_def
    split: sum.splits prod.splits option.splits read_error.splits if_splits)

function read_chunks ::
  "chunk_signer option \<Rightarrow> string \<Rightarrow> source \<Rightarrow> string \<times> s3_error option" where
  "read_chunks signer prev src =
     (case next_chunk signer prev src of
        Stop data e \<Rightarrow> (data, e)
      | Chunk data prev' src' \<Rightarrow>
          (let (rest, e) = read_chunks signer prev' src' in (data @ rest, e)))"
  by pat_completeness auto
termination read_chunks
  by (relation "measure (\<lambda>(_, _, src). length (fst src))") (auto dest: next_chunk_shorter)

declare read_chunks.simps [simp del]

subsection \<open>What clients send\<close>

fun show_hex :: "nat \<Rightarrow> string" where
  "show_hex n = (if n < 16 then [hex_digits ! n] else show_hex (n div 16) @ [hex_digits ! (n mod 16)])"

declare show_hex.simps [simp del]

definition chunk_line :: "chunk_signer option \<Rightarrow> string \<Rightarrow> string \<Rightarrow> string" where
  "chunk_line signer prev data =
     show_hex (length data) @
     (case signer of None \<Rightarrow> [] | Some k \<Rightarrow> '';chunk-signature='' @ chunk_signature k prev data) @ crlf"

definition next_signature :: "chunk_signer option \<Rightarrow> string \<Rightarrow> string \<Rightarrow> string" where
  "next_signature signer prev data =
     (case signer of None \<Rightarrow> prev | Some k \<Rightarrow> chunk_signature k prev data)"

fun encode_chunks :: "chunk_signer option \<Rightarrow> string \<Rightarrow> string list \<Rightarrow> string" where
  "encode_chunks signer prev [] = []"
| "encode_chunks signer prev (d # ds) =
     chunk_line signer prev d @ d @ crlf @ encode_chunks signer (next_signature signer prev d) ds"

fun last_signature :: "chunk_signer option \<Rightarrow> string \<Rightarrow> string list \<Rightarrow> string" where
  "last_signature signer prev [] = prev"
| "last_signature signer prev (d # ds) = last_signature signer (next_signature signer prev d) ds"

definition final_chunk :: "chunk_signer option \<Rightarrow> string \<Rightarrow> string" where
  "final_chunk signer prev = chunk_line signer prev []"

lemma hex_digit_value:
  assumes "n < 16"
  shows "digit_value (hex_digits ! n) = Some n"
    and "hex_digits ! n \<notin> {CHR ''-'', CHR ''+'', CHR '';'', CHR 0x0A, CHR 0x0D}"
    and "\<not> is_space (hex_digits ! n)"
proof -
  have "list_all (\<lambda>i. digit_value (hex_digits ! i) = Some i \<and>
      hex_digits ! i \<notin> {CHR ''-'', CHR ''+'', CHR '';'', CHR 0x0A, CHR 0x0D} \<and> \<not> is_space (hex_digits ! i)) [0..<16]"
    by (simp add: hex_digits_def digit_value_def upt_rec is_space_def)
  with assms show "digit_value (hex_digits ! n) = Some n"
    "hex_digits ! n \<notin> {CHR ''-'', CHR ''+'', CHR '';'', CHR 0x0A, CHR 0x0D}"
    "\<not> is_space (hex_digits ! n)" by (auto simp: list_all_iff)
qed

lemma parse_digits_show_hex: "parse_digits 16 (show_hex n) 0 = Some n"
proof (induction n rule: show_hex.induct)
  case (1 n)
  then show ?case
    by (subst show_hex.simps) (auto simp: hex_digit_value(1) parse_digits_append)
qed

lemma show_hex_chars:
  "c \<in> set (show_hex n) \<Longrightarrow> c \<notin> {CHR ''-'', CHR ''+'', CHR '';'', CHR 0x0A, CHR 0x0D} \<and> \<not> is_space c"
proof (induction n rule: show_hex.induct)
  case (1 n)
  then show ?case
    using hex_digit_value(2,3) [of n] hex_digit_value(2,3) [of "n mod 16"]
    by (subst (asm) show_hex.simps) (auto split: if_splits)
qed

lemma show_hex_nonempty [simp]: "show_hex n \<noteq> []"
  by (subst show_hex.simps) simp

lemma length_show_hex: "n < 16 ^ k \<Longrightarrow> 0 < k \<Longrightarrow> length (show_hex n) \<le> k"
proof (induction k arbitrary: n)
  case (Suc k)
  show ?case
  proof (cases "n < 16")
    case True
    then show ?thesis by (subst show_hex.simps) simp
  next
    case False
    with Suc.prems have "n div 16 < 16 ^ k" "0 < k"
      by (auto simp: div_less_iff_less_mult mult.commute intro!: Suc_leI gr0I)
    with Suc.IH [of "n div 16"] False show ?thesis by (subst show_hex.simps) simp
  qed
qed simp

lemma parse_int_show_hex:
  assumes "int n < 2 ^ 63"
  shows "parse_int 16 (show_hex n) = Some (int n)"
proof -
  obtain c cs where s: "show_hex n = c # cs" by (cases "show_hex n") auto
  with show_hex_chars [of c n] have "c \<noteq> CHR ''-''" "c \<noteq> CHR ''+''" by auto
  with s parse_digits_show_hex [of n] assms show ?thesis by (simp add: parse_int_def)
qed

lemma show_hex_solid: "solid (show_hex n)"
  using show_hex_chars [of "hd (show_hex n)" n] show_hex_chars [of "last (show_hex n)" n]
  by (simp add: solid_def)

lemma read_line_crlf:
  assumes "CHR 0x0A \<notin> set u" "u \<noteq> []" "last u \<noteq> CHR 0x0D" "length u \<le> 1022"
  shows "read_line (u @ crlf @ s, clean) = Inr (u, (s, clean))"
proof -
  have cut: "cut (u @ crlf @ s) newline = (u @ [CHR 0x0D], s, True)"
    using cut_append_char [of "CHR 0x0A" "u @ [CHR 0x0D]" s] assms(1) by (simp add: crlf_def newline_def)
  have "trim_right (\<lambda>c. c = CHR 0x0D \<or> c = CHR 0x0A) ((u @ [CHR 0x0D]) @ newline) = u"
    using assms(1-3) by (cases u rule: rev_cases) (auto simp: trim_right_def newline_def)
  with cut assms(4) show ?thesis
    by (simp add: read_line_def max_chunk_header_size_def newline_def)
qed

subsection \<open>Decoding what clients send\<close>

definition signer_ok :: "chunk_signer option \<Rightarrow> bool" where
  "signer_ok signer \<longleftrightarrow>
     (case signer of None \<Rightarrow> True | Some k \<Rightarrow> \<forall>s. length (h_sha256 (ck_hashes k) s) = 32)"

definition sendable :: "string list \<Rightarrow> bool" where
  "sendable ds \<longleftrightarrow> (\<forall>d \<in> set ds. d \<noteq> [] \<and> length d \<le> 16 * 2 ^ 20)"

lemma signature_text:
  assumes "\<forall>s. length (h_sha256 (ck_hashes k) s) = 32"
  shows "length (chunk_signature k prev d) = 64" "set (chunk_signature k prev d) \<subseteq> set hex_digits"
  using assms hex_encode_chars by (simp_all add: chunk_signature_def sign_def hmac_sha256_def Let_def)

lemma hex_digits_solid:
  assumes ne: "x \<noteq> []" and hex: "set x \<subseteq> set hex_digits"
  shows "solid x" "CHR 0x0A \<notin> set x" "last x \<noteq> CHR 0x0D" "CHR ''='' \<notin> set x"
proof -
  have digits: "\<forall>c \<in> set hex_digits. \<not> is_space c \<and> c \<noteq> CHR 0x0A \<and> c \<noteq> CHR 0x0D \<and> c \<noteq> CHR ''=''"
    by (simp add: hex_digits_def is_space_def)
  have ends: "hd x \<in> set hex_digits" "last x \<in> set hex_digits"
    using ne hex hd_in_set [OF ne] last_in_set [OF ne] by blast+
  with digits ne show "solid x" "last x \<noteq> CHR 0x0D" by (simp_all add: solid_def)
  from digits hex show "CHR 0x0A \<notin> set x" "CHR ''='' \<notin> set x" by blast+
qed

lemma chunk_line_read:
  assumes ok: "signer_ok signer" and len: "length d \<le> 16 * 2 ^ 20"
  obtains line where
    "read_line (chunk_line signer prev d @ s, clean) = Inr (line, (s, clean))"
    "chunk_header (signer \<noteq> None) line =
       Inr (length d, case signer of None \<Rightarrow> [] | Some k \<Rightarrow> chunk_signature k prev d)"
proof -
  let ?n = "show_hex (length d)"
  have n: "length ?n \<le> 7" using len by (intro length_show_hex) simp_all
  have small: "int (length d) \<le> max_chunk_size" "int (length d) < 2 ^ 63"
    using len by (simp_all add: max_chunk_size_def)
  have chars: "CHR '';'' \<notin> set ?n" "CHR 0x0A \<notin> set ?n" "last ?n \<noteq> CHR 0x0D"
    using show_hex_chars [of _ "length d"] last_in_set [of ?n] by auto
  show ?thesis
  proof (cases signer)
    case None
    have "read_line (?n @ crlf @ s, clean) = Inr (?n, (s, clean))"
      using chars n by (intro read_line_crlf) auto
    moreover have "chunk_header False ?n = Inr (length d, [])"
      using small cut_absent_char [OF chars(1)]
      by (simp add: chunk_header_def trim_space_solid [OF show_hex_solid] parse_int_show_hex)
    ultimately show ?thesis using None that by (simp add: chunk_line_def)
  next
    case (Some k)
    let ?sig = "chunk_signature k prev d" and ?param = "''chunk-signature='' @ chunk_signature k prev d"
    have sha: "\<forall>s. length (h_sha256 (ck_hashes k) s) = 32" using ok Some by (simp add: signer_ok_def)
    note st = signature_text [OF sha, of prev d]
    then have ne: "?sig \<noteq> []" by auto
    note sig = hex_digits_solid [OF ne st(2)]
    have read: "read_line ((?n @ '';'' @ ?param) @ crlf @ s, clean) = Inr (?n @ '';'' @ ?param, (s, clean))"
    proof (rule read_line_crlf)
      show "CHR 0x0A \<notin> set (?n @ '';'' @ ?param)" using chars(2) sig(2) by simp
      show "last (?n @ '';'' @ ?param) \<noteq> CHR 0x0D" using sig(3) ne by simp
      show "length (?n @ '';'' @ ?param) \<le> 1022" using n st(1) by simp
    qed simp
    have cuts: "cut ?param ''='' = (''chunk-signature'', ?sig, True)"
      "cut (?n @ '';'' @ ?param) '';'' = (?n, ?param, True)"
      using cut_append_char [of "CHR ''=''" "''chunk-signature''"] cut_append_char [OF chars(1), of ?param] by simp_all
    have trimmed: "trim_space ?param = ?param"
      using sig(1) ne by (intro trim_space_solid) (simp add: solid_def is_space_def)
    have "chunk_signature_from ?param True = Inr ?sig"
      unfolding chunk_signature_from_def trimmed cuts using ne by simp
    then have "chunk_header True (?n @ '';'' @ ?param) = Inr (length d, ?sig)"
      unfolding chunk_header_def cuts
      using small by (simp add: trim_space_solid [OF show_hex_solid] parse_int_show_hex)
    with read Some that [of "?n @ '';'' @ ?param"] show ?thesis by (simp add: chunk_line_def)
  qed
qed

lemma read_chunk_step:
  assumes ok: "signer_ok signer" and d: "d \<noteq> []" "length d \<le> 16 * 2 ^ 20"
  shows "read_chunks signer prev (chunk_line signer prev d @ d @ crlf @ s, clean) =
    (let (r, e) = read_chunks signer (next_signature signer prev d) (s, clean) in (d @ r, e))"
proof -
  obtain line where line: "read_line (chunk_line signer prev d @ d @ crlf @ s, clean) = Inr (line, (d @ crlf @ s, clean))"
    "chunk_header (signer \<noteq> None) line =
       Inr (length d, case signer of None \<Rightarrow> [] | Some k \<Rightarrow> chunk_signature k prev d)"
    using chunk_line_read [OF ok d(2), of prev "d @ crlf @ s" clean] by blast
  have data: "read_full (length d) (d @ crlf @ s, clean) = Some (d, (crlf @ s, clean))"
    by (simp add: read_full_def)
  have sig: "(case signer of None \<Rightarrow> Inr prev
      | Some k \<Rightarrow> verify_chunk k prev d (case signer of None \<Rightarrow> [] | Some k \<Rightarrow> chunk_signature k prev d)) =
      Inr (next_signature signer prev d)"
    by (cases signer) (simp_all add: verify_chunk_def signatures_equal_def next_signature_def)
  have ending: "expect_crlf (crlf @ s, clean) = Inr (s, clean)"
    by (simp add: expect_crlf_def read_full_def crlf_def)
  show ?thesis
    by (subst read_chunks.simps) (simp add: next_chunk_def line data sig ending d(1) del: not_None_eq)
qed

lemma read_chunks_encode:
  assumes "signer_ok signer" "sendable ds"
  shows "read_chunks signer prev (encode_chunks signer prev ds @ s, clean) =
    (let (r, e) = read_chunks signer (last_signature signer prev ds) (s, clean) in (concat ds @ r, e))"
  using assms(2)
proof (induction ds arbitrary: prev)
  case (Cons d ds)
  then show ?case
    using read_chunk_step [OF assms(1), of d prev "encode_chunks signer (next_signature signer prev d) ds @ s" clean]
    by (auto simp: sendable_def split: prod.splits)
qed (simp split: prod.split)

lemma read_final_chunk:
  assumes "signer_ok signer"
  shows "read_chunks signer prev (final_chunk signer prev @ crlf, True) = ([], None)"
proof -
  obtain line where line: "read_line (chunk_line signer prev [] @ crlf, True) = Inr (line, (crlf, True))"
    "chunk_header (signer \<noteq> None) line =
       Inr (0, case signer of None \<Rightarrow> [] | Some k \<Rightarrow> chunk_signature k prev [])"
    using chunk_line_read [OF assms, of "[]" prev crlf True] by auto
  have sig: "(case signer of None \<Rightarrow> Inr prev
      | Some k \<Rightarrow> verify_chunk k prev [] (case signer of None \<Rightarrow> [] | Some k \<Rightarrow> chunk_signature k prev [])) =
      Inr (next_signature signer prev [])"
    by (cases signer) (simp_all add: verify_chunk_def signatures_equal_def next_signature_def)
  have "read_line (crlf, True) = Inr ([], ([], True))"
    by (simp add: read_line_def crlf_def newline_def cut_def trim_right_def max_chunk_header_size_def)
  then have "consume_trailers 0 (crlf, True) = Inr ()"
    by (subst consume_trailers.simps) simp
  then show ?thesis
    unfolding final_chunk_def
    by (subst read_chunks.simps) (simp add: next_chunk_def line sig read_full_def del: not_None_eq)
qed

lemma read_nothing: "read_chunks signer prev ([], True) = ([], None)"
  by (subst read_chunks.simps) (simp add: next_chunk_def read_line_def cut_def newline_def)

subsection \<open>Signed chunks\<close>

text \<open>A chain of chunks, each signed over the signature before it.\<close>

fun signed_chain :: "chunk_signer \<Rightarrow> string \<Rightarrow> string list \<Rightarrow> string list \<Rightarrow> bool" where
  "signed_chain k prev [] [] \<longleftrightarrow> True"
| "signed_chain k prev (d # ds) (sig # sigs) \<longleftrightarrow>
     sig = chunk_signature k prev d \<and> signed_chain k sig ds sigs"
| "signed_chain k prev _ _ \<longleftrightarrow> False"

lemma trim_space_sublist: "sublist (trim_space s) s"
proof -
  have "sublist (trim_right p t) t" for p t using trim_right_suffix [of t p] by (metis sublist_appendI append_Nil)
  moreover have "sublist (trim_left p t) t" for p t
    unfolding trim_left_def by (metis suffix_dropWhile suffix_imp_sublist)
  ultimately show ?thesis unfolding trim_space_def by (metis sublist_order.order_trans)
qed

lemma cut_sublist:
  assumes "cut s sep = (u, v, found)"
  shows "sublist u s" "sublist v s"
proof -
  have "s = u @ sep @ v \<or> u = s \<and> v = []"
    using assms by (cases found) (auto dest: cut_found cut_not_found)
  then show "sublist u s" "sublist v s"
    by (auto intro: sublist_order.order_trans [OF sublist_append_leftI sublist_append_leftI])
qed

lemma chunk_header_signature:
  assumes "chunk_header True line = Inr (n, sig)"
  shows "sublist sig line"
proof -
  obtain sz param has where c: "cut line '';'' = (sz, param, has)" by (cases "cut line '';''")
  with assms have "chunk_signature_from param has = Inr sig"
    by (auto simp: chunk_header_def rbind_def split: option.splits if_splits sum.splits)
  then obtain name where "cut (trim_space param) ''='' = (name, sig, True)"
    by (auto simp: chunk_signature_from_def split: if_splits prod.splits)
  then have "sublist sig (trim_space param)" by (rule cut_sublist(2))
  with trim_space_sublist [of param] cut_sublist(2) [OF c] cut_sublist(1) [OF c] show ?thesis
    by (metis sublist_order.order_trans)
qed

lemma read_line_parts:
  assumes "read_line src = Inr (line, src1)"
  shows "sublist line (fst src)" "suffix (fst src1) (fst src)"
proof -
  obtain u rest found where c: "cut (fst src) newline = (u, rest, found)" by (cases "cut (fst src) newline")
  let ?line = "if found then u @ newline else fst src"
  from assms c have l: "line = trim_right (\<lambda>c. c = CHR 0x0D \<or> c = CHR 0x0A) ?line" "fst src1 = rest"
    by (auto simp: read_line_def Let_def split: prod.splits if_splits)
  have src: "fst src = ?line @ rest"
    using c by (cases found) (auto dest: cut_found cut_not_found)
  with l(2) show "suffix (fst src1) (fst src)" unfolding suffix_def by metis
  from trim_right_suffix [of ?line "\<lambda>c. c = CHR 0x0D \<or> c = CHR 0x0A"] obtain r where "?line = line @ r"
    unfolding l(1) by blast
  with src have "fst src = line @ r @ rest" by simp
  then show "sublist line (fst src)" by simp
qed

text \<open>The data of a signed chunk was covered by a signature that came with the body.\<close>

lemma next_chunk_signed:
  assumes "next_chunk (Some k) prev src = step"
  shows "case step of
      Chunk data prev' src' \<Rightarrow> prev' = chunk_signature k prev data \<and> sublist prev' (fst src) \<and> suffix (fst src') (fst src)
    | Stop data e \<Rightarrow> data = [] \<or> sublist (chunk_signature k prev data) (fst src)"
proof (cases "read_line src")
  case (Inl err)
  with assms show ?thesis by (cases err) (auto simp: next_chunk_def)
next
  case line: (Inr ls)
  obtain line src1 where ls: "ls = (line, src1)" by (cases ls)
  note parts = read_line_parts [OF line [unfolded ls]]
  show ?thesis
  proof (cases "chunk_header True line")
    case (Inl err)
    with assms line ls show ?thesis by (auto simp: next_chunk_def)
  next
    case header: (Inr h)
    obtain n sig where h: "h = (n, sig)" by (cases h)
    from chunk_header_signature [OF header [unfolded h]] parts(1) have sig: "sublist sig (fst src)"
      by (metis sublist_order.order_trans)
    have rest: "suffix (drop i (fst src1)) (fst src)" for i
      using parts(2) suffix_drop [of i "fst src1"] by (meson suffix_order.order_trans)
    have verified: "verify_chunk k prev d sig = Inr p \<longleftrightarrow> sig = chunk_signature k prev d \<and> p = sig" for d p
      by (auto simp: verify_chunk_def signatures_equal_def)
    from assms line ls header h show ?thesis
      using sig rest
      by (auto simp: next_chunk_def verified read_full_def expect_crlf_def
        split: option.splits sum.splits if_splits)
  qed
qed

lemma read_chunks_signed:
  "read_chunks (Some k) prev src = (out, e) \<Longrightarrow>
     \<exists>ds sigs. signed_chain k prev ds sigs \<and> out = concat ds \<and> (\<forall>s \<in> set sigs. sublist s (fst src))"
proof (induction "Some k" prev src arbitrary: out e rule: read_chunks.induct)
  case (1 prev src)
  show ?case
  proof (cases "next_chunk (Some k) prev src")
    case (Stop data err)
    with 1(2) have out: "out = data" by (simp add: read_chunks.simps [of _ prev src])
    from next_chunk_signed [OF Stop] consider "data = []" | "sublist (chunk_signature k prev data) (fst src)" by auto
    then show ?thesis
    proof cases
      case 1
      then show ?thesis using out by (intro exI [of _ "[]"]) simp
    next
      case 2
      then show ?thesis using out
        by (intro exI [of _ "[data]"] exI [of _ "[chunk_signature k prev data]"]) simp
    qed
  next
    case (Chunk data prev' src')
    obtain rest e' where rest: "read_chunks (Some k) prev' src' = (rest, e')" by fastforce
    with 1(2) Chunk have out: "out = data @ rest" by (simp add: read_chunks.simps [of _ prev src])
    from 1(1) [OF Chunk rest] obtain ds sigs
      where "signed_chain k prev' ds sigs" "rest = concat ds" "\<forall>s \<in> set sigs. sublist s (fst src')" by blast
    with out next_chunk_signed [OF Chunk] show ?thesis
      by (intro exI [of _ "data # ds"] exI [of _ "prev' # sigs"])
        (auto intro: sublist_order.order_trans suffix_imp_sublist)
  qed
qed

end
