(* ===== verification/Upload_Body.thy ===== *)
theory Upload_Body
  imports Verify Chunked Blob_Store
begin

text \<open>
  The payload of an authenticated request (\<^verbatim>\<open>Body\<close>, \<^verbatim>\<open>TrustedContentSHA256\<close> and the verifying reader
  of \<^verbatim>\<open>verify.go\<close>), and how it meets the blob store: a digest the store is told to trust has been
  checked by the time the last byte was read.
\<close>

definition body_signer :: "hashes \<Rightarrow> identity \<Rightarrow> chunk_signer" where
  "body_signer h i = \<lparr>ck_hashes = h, ck_signing_key = id_signing_key i, ck_scope = id_scope i,
     ck_timestamp = id_timestamp i\<rparr>"

definition verifying_reader :: "hashes \<Rightarrow> string \<Rightarrow> source \<Rightarrow> string \<times> s3_error option" where
  "verifying_reader h expected_hex src =
     (let expected = to_lower expected_hex; got = hex_encode (h_sha256 h (fst src))
      in (fst src,
          if \<not> snd src then Some (Internal ''read error'')
          else if got \<noteq> expected
          then Some (Sentinel Content_Hash_Mismatch (''declared '' @ expected @ '', received '' @ got))
          else None))"

definition read_body :: "hashes \<Rightarrow> identity \<Rightarrow> source \<Rightarrow> string \<times> s3_error option" where
  "read_body h i src =
     (let ph = id_payload_hash i
      in if ph = streaming_signed \<or> ph = streaming_signed_trailer
         then read_chunks (Some (body_signer h i)) (id_signature i) src
         else if ph = streaming_unsigned_trailer then read_chunks None [] src
         else if ph = unsigned_payload \<or> ph = []
         then (fst src, if snd src then None else Some (Internal ''read error''))
         else verifying_reader h ph src)"

definition trusted_content_sha256 :: "identity \<Rightarrow> string" where
  "trusted_content_sha256 i =
     (let ph = id_payload_hash i
      in if ph \<in> {streaming_signed, streaming_signed_trailer, streaming_unsigned_trailer, unsigned_payload, []}
         then [] else to_lower ph)"

text \<open>The turns of the copy loop that read a body to its end, in whatever pieces.\<close>

fun source_error :: "copy_step list \<Rightarrow> string option" where
  "source_error [] = None"
| "source_error (st # rest) =
     (case cs_end st of More \<Rightarrow> source_error rest | At_EOF \<Rightarrow> None | Read_Fails m \<Rightarrow> Some m)"

definition delivers :: "copy_step list \<Rightarrow> string \<times> s3_error option \<Rightarrow> bool" where
  "delivers steps body \<longleftrightarrow>
     source_bytes steps = fst body \<and> source_error steps = map_option s3_error_text (snd body)"

lemma copied_source_error:
  "copy_with_context steps out = (Inr n, written) \<Longrightarrow> source_error steps = None"
  by (induction steps arbitrary: out) (auto split: if_splits read_end.splits)

lemma put_reads_to_end:
  "store_put h root faults others t steps known f = (Inr b, f') \<Longrightarrow> source_error steps = None"
  by (auto simp: store_put_def Let_def rbind_def split: sum.splits prod.splits if_splits
    dest!: copied_source_error)

text \<open>An error of the body is never one of the server's own answers.\<close>

definition of_body :: "s3_error \<Rightarrow> bool" where
  "of_body e \<longleftrightarrow> (case e of Api _ \<Rightarrow> False | _ \<Rightarrow> True)"

lemma of_body_simps [simp]: "of_body (Sentinel c d)" "of_body (Internal t)" "\<not> of_body (Api a)"
  by (simp_all add: of_body_def)

lemma read_line_error: "read_line src = Inl (Read_Failed e) \<Longrightarrow> of_body e"
  by (auto simp: read_line_def Let_def split: prod.splits if_splits)

lemma consume_trailers_error: "consume_trailers n src = Inl e \<Longrightarrow> of_body e"
proof (induction n src rule: consume_trailers.induct)
  case (1 n src)
  note run = "1.prems" [unfolded consume_trailers.simps [of n src]]
  show ?case
  proof (cases "read_line src")
    case (Inl le)
    with run show ?thesis by (cases le) (simp_all add: read_line_error)
  next
    case (Inr x)
    obtain line src' where x: "x = (line, src')" by (cases x)
    show ?thesis
    proof (cases "line = [] \<or> max_trailer_bytes < n + length line")
      case True
      with run Inr x show ?thesis by (auto split: if_splits)
    next
      case False
      with run Inr x have "consume_trailers (n + length line) src' = Inl e" by simp
      with False show ?thesis using "1.IH" [OF Inr x [symmetric]] by simp
    qed
  qed
qed

lemma chunk_header_error: "chunk_header signed line = Inl e \<Longrightarrow> of_body e"
  by (auto simp: chunk_header_def chunk_signature_from_def rbind_def Let_def
    split: prod.splits option.splits if_splits sum.splits)

lemma chunk_end_error:
  "verify_chunk k prev data sig = Inl e \<Longrightarrow> of_body e" "expect_crlf src = Inl e \<Longrightarrow> of_body e"
  by (auto simp: verify_chunk_def expect_crlf_def split: option.splits prod.splits if_splits)

lemma next_chunk_error:
  assumes "next_chunk signer prev src = Stop d (Some e)"
  shows "of_body e"
proof (cases "read_line src")
  case (Inl le)
  with assms show ?thesis by (cases le) (auto simp: next_chunk_def dest: read_line_error)
next
  case (Inr x)
  obtain line src1 where x: "x = (line, src1)" by (cases x)
  show ?thesis
  proof (cases "chunk_header (signer \<noteq> None) line")
    case (Inl he)
    with assms Inr x show ?thesis by (simp add: next_chunk_def chunk_header_error del: not_None_eq)
  next
    case h: (Inr y)
    obtain sz sig where y: "y = (sz, sig)" by (cases y)
    note step = assms [unfolded next_chunk_def Inr x h y sum.case prod.case]
    show ?thesis
      using step
      by (auto split: option.splits prod.splits sum.splits if_splits
        dest: chunk_end_error consume_trailers_error)
  qed
qed

lemma read_chunks_error: "snd (read_chunks signer prev src) = Some e \<Longrightarrow> of_body e"
proof (induction signer prev src rule: read_chunks.induct)
  case (1 signer prev src)
  note run = "1.prems" [unfolded read_chunks.simps [of signer prev src]]
  show ?case
  proof (cases "next_chunk signer prev src")
    case (Stop d x)
    with run show ?thesis by (simp add: next_chunk_error)
  next
    case (Chunk d prev' src')
    with run have "snd (read_chunks signer prev' src') = Some e" by (simp add: Let_def case_prod_unfold)
    then show ?thesis by (rule "1.IH" [OF Chunk])
  qed
qed

lemma read_body_error: "snd (read_body h i src) = Some e \<Longrightarrow> of_body e"
  by (auto simp: read_body_def verifying_reader_def Let_def split: if_splits dest: read_chunks_error)

lemma trusted_after_read:
  assumes "snd (read_body h i src) = None"
  shows "trusted_digest h (trusted_content_sha256 i) (fst (read_body h i src))"
  using assms
  by (auto simp: trusted_digest_def trusted_content_sha256_def read_body_def verifying_reader_def Let_def
    split: if_splits)

lemma put_body_trusted:
  assumes "store_put h root faults others t steps (trusted_content_sha256 i) f = (Inr b, f')"
    and "delivers steps (read_body h i src)"
  shows "snd (read_body h i src) = None"
    and "trusted_digest h (trusted_content_sha256 i) (source_bytes steps)"
proof -
  from put_reads_to_end [OF assms(1)] assms(2) show none: "snd (read_body h i src) = None"
    by (auto simp: delivers_def)
  from trusted_after_read [OF none] assms(2)
  show "trusted_digest h (trusted_content_sha256 i) (source_bytes steps)"
    by (simp add: delivers_def)
qed

end
