(* ===== verification/Conditional.thy ===== *)
theory Conditional
  imports Http Errors Schema
begin

text \<open>
  Conditional requests (\<^verbatim>\<open>internal/s3api/conditional.go\<close>) and the entity tag they compare
  (\<^verbatim>\<open>quoteETag\<close> of \<^verbatim>\<open>objects.go\<close>). A status of 0 lets the request proceed.
\<close>

definition quote_etag :: "string \<Rightarrow> string" where
  "quote_etag etag = (if has_prefix etag [CHR 0x22] then etag else CHR 0x22 # etag @ [CHR 0x22])"

definition etag_entry_matches :: "bool \<Rightarrow> string \<Rightarrow> string \<Rightarrow> bool" where
  "etag_entry_matches allow_weak candidate raw =
     (let entry = trim_space raw
      in if has_prefix entry ''W/''
         then allow_weak \<and> trim_prefix entry ''W/'' = candidate
         else entry = candidate)"

definition etag_matches :: "string \<Rightarrow> string \<Rightarrow> bool \<Rightarrow> bool" where
  "etag_matches header candidate allow_weak =
     (let h = trim_space header
      in h = ''*'' \<or> list_ex (etag_entry_matches allow_weak candidate) (split_on CHR '','' h))"

definition is_read :: "request \<Rightarrow> bool" where
  "is_read r \<longleftrightarrow> rq_method r = ''GET'' \<or> rq_method r = ''HEAD''"

definition unmodified_fails :: "(string \<Rightarrow> time option) \<Rightarrow> string \<Rightarrow> time \<Rightarrow> bool" where
  "unmodified_fails obsolete header modified =
     (case parse_http_time obsolete header of Some since \<Rightarrow> since < modified | None \<Rightarrow> False)"

definition not_modified_since :: "(string \<Rightarrow> time option) \<Rightarrow> string \<Rightarrow> time \<Rightarrow> bool" where
  "not_modified_since obsolete header modified =
     (case parse_http_time obsolete header of Some since \<Rightarrow> modified \<le> since | None \<Rightarrow> False)"

definition check_preconditions :: "(string \<Rightarrow> time option) \<Rightarrow> request \<Rightarrow> object \<Rightarrow> nat" where
  "check_preconditions obsolete r obj =
     (let etag = quote_etag (o_etag obj);
          modified = truncate_second (o_updated_at obj);
          if_match = header_get (rq_header r) ''If-Match'';
          if_unmodified = header_get (rq_header r) ''If-Unmodified-Since'';
          if_none_match = header_get (rq_header r) ''If-None-Match'';
          if_modified = header_get (rq_header r) ''If-Modified-Since''
      in if if_match \<noteq> [] \<and> \<not> etag_matches if_match etag False then 412
      else if if_match = [] \<and> if_unmodified \<noteq> [] \<and> unmodified_fails obsolete if_unmodified modified then 412
      else if if_none_match \<noteq> []
      then (if etag_matches if_none_match etag True then (if is_read r then 304 else 412) else 0)
      else if if_modified \<noteq> [] \<and> is_read r \<and> not_modified_since obsolete if_modified modified then 304
      else 0)"

lemma etag_matches_star: "etag_matches ''*'' candidate w"
  by (simp add: etag_matches_def trim_space_def trim_left_def trim_right_def is_space_def)

lemma quote_etag_solid:
  assumes "\<not> has_prefix etag [CHR 0x22]"
  shows "solid (quote_etag etag)" "\<not> has_prefix (quote_etag etag) ''W/''"
  using assms by (auto simp: quote_etag_def solid_def is_space_def)

text \<open>A plain tag sent back alone matches, strongly and weakly.\<close>

lemma etag_matches_self:
  assumes "CHR '','' \<notin> set etag" "\<not> has_prefix etag [CHR 0x22]"
  shows "etag_matches (quote_etag etag) (quote_etag etag) w"
proof -
  have "CHR '','' \<notin> set (quote_etag etag)" using assms by (simp add: quote_etag_def)
  with quote_etag_solid [OF assms(2)] show ?thesis
    by (simp add: etag_matches_def etag_entry_matches_def trim_space_solid split_on_absent)
qed

lemma etag_matches_other:
  assumes "CHR '','' \<notin> set (quote_etag e1)" "\<not> has_prefix e1 [CHR 0x22]" "quote_etag e1 \<noteq> quote_etag e2"
  shows "\<not> etag_matches (quote_etag e1) (quote_etag e2) w"
  using quote_etag_solid [OF assms(2)] assms
  by (auto simp: etag_matches_def etag_entry_matches_def trim_space_solid split_on_absent quote_etag_def)

end
