(* ===== verification/Sites.thy ===== *)
theory Sites
  imports Routing Upload_Body Conditional
begin

text \<open>
  What every handler of the S3 listener shares: the state it runs on, what it takes from outside,
  the checks it starts with and the way it commits.
\<close>

subsection \<open>State and surroundings\<close>

record site =
  st_disk :: disk
  st_db :: db

text \<open>
  \<open>su_env n\<close> is the environment of the request's \<open>n\<close>-th transaction; \<open>su_chop\<close> is how the body's
  reader hands out its bytes to the copy loop; \<open>su_clean\<close> tells whether the connection delivers
  the whole body; \<open>su_settings_fail\<close> is a failing read of the bucket settings.
\<close>

record surroundings =
  su_env :: "nat \<Rightarrow> env"
  su_faults :: io_faults
  su_others :: "disk \<Rightarrow> disk"
  su_temp_name :: string
  su_chop :: "string \<times> s3_error option \<Rightarrow> copy_step list"
  su_clean :: bool
  su_settings_fail :: bool

definition commit :: "(db \<Rightarrow> db_error + 'r \<times> db) \<Rightarrow> site \<Rightarrow> (db_error + 'r) \<times> site" where
  "commit tx w =
     (case tx (st_db w) of Inl e \<Rightarrow> (Inl e, w) | Inr (x, s) \<Rightarrow> (Inr x, w\<lparr>st_db := s\<rparr>))"

lemma commit_cases:
  assumes "commit tx w = (res, w')"
  obtains (rolled_back) e where "tx (st_db w) = Inl e" "res = Inl e" "w' = w"
  | (committed) x s where "tx (st_db w) = Inr (x, s)" "res = Inr x" "w' = w\<lparr>st_db := s\<rparr>"
  using assms by (auto simp: commit_def split: sum.splits prod.splits)

lemma commit_site [simp]:
  "st_db (snd (commit tx w)) = settle tx (st_db w)" "st_disk (snd (commit tx w)) = st_disk w"
  by (simp_all add: commit_def settle_def split: sum.splits prod.splits)

subsection \<open>Checks\<close>

definition require_bucket :: "db \<Rightarrow> string \<Rightarrow> api_error + bucket" where
  "require_bucket s name =
     rbind (validate_bucket_name name) (\<lambda>_.
     case get_bucket s name of
       Inl ErrBucketNotFound \<Rightarrow> Inl err_no_such_bucket
     | Inl _ \<Rightarrow> Inl err_internal_error
     | Inr b \<Rightarrow> Inr b)"

definition with_bucket :: "request \<Rightarrow> string \<Rightarrow> (bucket \<Rightarrow> site \<Rightarrow> response \<times> site) \<Rightarrow> site \<Rightarrow> response \<times> site" where
  "with_bucket r name handler w =
     (case require_bucket (st_db w) name of
        Inl e \<Rightarrow> (write_error r (Api e), w)
      | Inr b \<Rightarrow> handler b w)"

definition grant_for :: "identity option \<Rightarrow> grant option" where
  "grant_for caller = map_option id_grant caller"

definition write_options_for :: "surroundings \<Rightarrow> db \<Rightarrow> identity option \<Rightarrow> bucket \<Rightarrow> write_options" where
  "write_options_for su s caller b =
     \<lparr>wo_versioning = bs_versioning (get_bucket_settings (su_settings_fail su) s (bk_id b)),
      wo_actor = (case caller of None \<Rightarrow> ''s3'' | Some i \<Rightarrow> id_access_key_id i)\<rparr>"

subsection \<open>Metadata of a request\<close>

definition user_metadata_prefix :: string where "user_metadata_prefix = ''x-amz-meta-''"
definition default_content_type :: string where "default_content_type = ''binary/octet-stream''"
definition max_user_metadata_bytes :: nat where "max_user_metadata_bytes = 2 * 2 ^ 10"

definition metadata_entry :: "string \<times> string list \<Rightarrow> (string \<times> string) option" where
  "metadata_entry h =
     (let lower = to_lower (fst h); suffix = trim_prefix lower user_metadata_prefix
      in if \<not> has_prefix lower user_metadata_prefix \<or> suffix = [] then None
         else Some (suffix, join '','' (snd h)))"

definition user_metadata :: "header \<Rightarrow> api_error + metadata" where
  "user_metadata h =
     (let entries = List.map_filter metadata_entry h
      in if max_user_metadata_bytes < sum_list (map (\<lambda>(n, v). length n + length v) entries)
         then Inl (with_message err_invalid_argument
           (''Your metadata headers exceed the maximum allowed metadata size of '' @
            show_nat max_user_metadata_bytes @ '' bytes.''))
         else Inr (fold (\<lambda>(n, v). AList.update n v) entries []))"

definition content_type_of :: "request \<Rightarrow> string" where
  "content_type_of r =
     (let ct = header_get (rq_header r) ''Content-Type'' in if ct \<noteq> [] then ct else default_content_type)"

definition metadata_headers :: "metadata \<Rightarrow> response_headers" where
  "metadata_headers md = map (\<lambda>(n, v). (user_metadata_prefix @ to_lower n, v)) md"

definition object_headers :: "object \<Rightarrow> response_headers" where
  "object_headers obj =
     version_headers (o_version_id obj) @
     [(''ETag'', quote_etag (o_etag obj)), (''Content-Type'', o_content_type obj),
      (''Last-Modified'', format_http_time (o_updated_at obj)), (''Accept-Ranges'', ''bytes'')] @
     metadata_headers (o_metadata obj)"

subsection \<open>Storing a request body\<close>

text \<open>
  The error a failed \<^verbatim>\<open>Put\<close> carries: the body's own, which the copy loop wraps, or one of the disk.
\<close>

definition read_upload_error :: "s3_error \<Rightarrow> s3_error" where
  "read_upload_error e =
     (let text = ''read upload body: '' @ s3_error_text e
      in case e of
           Sentinel Content_Hash_Mismatch _ \<Rightarrow> Api (with_message err_bad_digest text)
         | Sentinel Malformed_Chunk _ \<Rightarrow> Api (with_message err_incomplete_body text)
         | _ \<Rightarrow> e)"

definition upload_failure :: "s3_error option \<Rightarrow> store_error \<Rightarrow> s3_error" where
  "upload_failure body_error e =
     (case body_error of
        Some b \<Rightarrow> if e = ErrIO (s3_error_text b) then read_upload_error b else Internal ''write object data''
      | None \<Rightarrow> Internal ''write object data'')"

definition upload_blob ::
  "server \<Rightarrow> surroundings \<Rightarrow> request \<Rightarrow> identity \<Rightarrow> site \<Rightarrow> (s3_error + blob) \<times> site" where
  "upload_blob sv su r i w =
     (let h = vf_hashes (sv_verifier sv); body = read_body h i (rq_body r, su_clean su);
          (res, f) = store_put h (sv_root sv) (su_faults su) (su_others su) (su_temp_name su)
            (su_chop su body) (trusted_content_sha256 i) (st_disk w)
      in (case res of Inl e \<Rightarrow> Inl (upload_failure (snd body) e) | Inr b \<Rightarrow> Inr b, w\<lparr>st_disk := f\<rparr>))"

text \<open>\<^verbatim>\<open>io.ReadAll\<close> of a limited reader: the limit hides an error beyond it.\<close>

definition read_limited :: "surroundings \<Rightarrow> request \<Rightarrow> nat \<Rightarrow> string option" where
  "read_limited su r limit =
     (if \<not> su_clean su \<and> length (rq_body r) < limit then None else Some (take limit (rq_body r)))"

subsection \<open>Facts\<close>

lemma require_bucket_Inr:
  "require_bucket s name = Inr b \<longleftrightarrow> validate_bucket_name name = Inr () \<and> get_bucket s name = Inr b"
  by (auto simp: require_bucket_def result_iff split: sum.splits db_error.splits)

text \<open>Every error is answered with a status of 400 or more.\<close>

lemmas error_constants = err_no_such_bucket_def err_no_such_key_def err_no_such_upload_def
  err_bucket_already_owned_by_you_def err_bucket_not_empty_def err_invalid_bucket_name_def
  err_access_denied_def err_signature_does_not_match_def err_invalid_access_key_id_code_def
  err_request_time_too_skewed_def err_missing_security_header_def err_entity_too_small_def
  err_invalid_part_def err_invalid_part_order_def err_invalid_argument_def err_bad_digest_def
  err_precondition_failed_def err_no_such_version_def err_method_not_allowed_def
  err_not_implemented_def err_internal_error_def err_malformed_xml_def err_incomplete_body_def
  err_key_too_long_def mk_error_def

lemma status_with_message [simp]: "ae_status (with_message e m) = ae_status e"
  by (simp add: with_message_def)

lemma status_internal [simp]: "rs_status (internal r) = 500"
  by (simp add: internal_def err_internal_error_def mk_error_def)

lemma body_error_status: "of_body e \<Longrightarrow> 400 \<le> ae_status (as_api_error e)"
  by (cases e) (auto simp: error_constants split: sentinel.splits)

lemma read_upload_error_status: "of_body e \<Longrightarrow> 400 \<le> ae_status (as_api_error (read_upload_error e))"
  using body_error_status [of e]
  by (auto simp: read_upload_error_def Let_def error_constants split: s3_error.splits sentinel.splits)

lemma upload_blob_status:
  assumes "upload_blob sv su r i w = (Inl e, w')"
  shows "400 \<le> ae_status (as_api_error e)"
proof -
  obtain be se where e: "e = upload_failure be se"
    and be: "be = snd (read_body (vf_hashes (sv_verifier sv)) i (rq_body r, su_clean su))"
    using assms by (auto simp: upload_blob_def Let_def split: prod.splits sum.splits)
  show ?thesis
  proof (cases be)
    case None
    then show ?thesis by (simp add: e upload_failure_def error_constants)
  next
    case (Some x)
    then have "of_body x" using be by (metis read_body_error)
    then show ?thesis
      using read_upload_error_status by (simp add: e Some upload_failure_def error_constants)
  qed
qed

lemma bucket_name_status: "validate_bucket_name n = Inl e \<Longrightarrow> ae_status e = 400"
  by (auto simp: validate_bucket_name_def Let_def error_constants split: if_splits option.splits)

lemma require_bucket_status: "require_bucket s n = Inl e \<Longrightarrow> 400 \<le> ae_status e"
  by (auto simp: require_bucket_def rbind_def error_constants dest: bucket_name_status
    split: sum.splits db_error.splits)

lemma object_key_status: "validate_object_key k = Inl e \<Longrightarrow> 400 \<le> ae_status e"
  by (auto simp: validate_object_key_def error_constants split: if_splits)

lemma user_metadata_status: "user_metadata h = Inl e \<Longrightarrow> 400 \<le> ae_status e"
  by (auto simp: user_metadata_def Let_def error_constants split: if_splits)

lemma upload_blob_db [simp]: "st_db (snd (upload_blob sv su r i w)) = st_db w"
  by (simp add: upload_blob_def Let_def split: prod.splits)

lemma upload_blob_Inr:
  assumes "upload_blob sv su r i w = (Inr b, w')"
  obtains f where "w' = w\<lparr>st_disk := f\<rparr>"
    "store_put (vf_hashes (sv_verifier sv)) (sv_root sv) (su_faults su) (su_others su) (su_temp_name su)
       (su_chop su (read_body (vf_hashes (sv_verifier sv)) i (rq_body r, su_clean su)))
       (trusted_content_sha256 i) (st_disk w) = (Inr b, f)"
  using assms by (auto simp: upload_blob_def Let_def split: prod.splits sum.splits)

end
