(* ===== verification/Object_Handlers.thy ===== *)
theory Object_Handlers
  imports Sites
begin

text \<open>
  PUT, GET, HEAD and DELETE of an object (\<^verbatim>\<open>internal/s3api/objects.go\<close>).
\<close>

subsection \<open>Put\<close>

definition uploaded_object :: "bucket \<Rightarrow> string \<Rightarrow> request \<Rightarrow> metadata \<Rightarrow> blob \<Rightarrow> object" where
  "uploaded_object b key r md bl =
     \<lparr>o_id = [], o_bucket_id = bk_id b, o_key = key, o_blob_digest = b_digest bl, o_size = b_size bl,
      o_etag = b_etag bl, o_content_type = content_type_of r, o_metadata = md, o_version_id = [],
      o_created_at = zero_time, o_updated_at = zero_time\<rparr>"

definition put_object_checks :: "request \<Rightarrow> identity option \<Rightarrow> string \<Rightarrow> api_error + metadata \<times> identity" where
  "put_object_checks r caller key =
     rbind (validate_object_key key) (\<lambda>_.
     rbind (user_metadata (rq_header r)) (\<lambda>md.
     case caller of None \<Rightarrow> Inl err_access_denied | Some i \<Rightarrow> Inr (md, i)))"

definition handle_put_object ::
  "server \<Rightarrow> surroundings \<Rightarrow> request \<Rightarrow> identity option \<Rightarrow> string \<Rightarrow> string \<Rightarrow> site \<Rightarrow> response \<times> site" where
  "handle_put_object sv su r caller name key =
     with_bucket r name (\<lambda>b w.
       case put_object_checks r caller key of
         Inl e \<Rightarrow> (write_error r (Api e), w)
       | Inr (md, i) \<Rightarrow>
       (case upload_blob sv su r i w of
         (Inl e, w1) \<Rightarrow> (write_error r e, w1)
       | (Inr bl, w1) \<Rightarrow>
       (case commit (put_object (su_env su 0) (uploaded_object b key r md bl)
               (write_options_for su (st_db w1) caller b)) w1 of
         (Inl _, w2) \<Rightarrow> (internal r, w2)
       | (Inr row, w2) \<Rightarrow>
           (reply 200 ((''ETag'', quote_etag (b_etag bl)) # version_headers (o_version_id row)), w2))))"

subsection \<open>Get and Head\<close>

definition lookup_object ::
  "request \<Rightarrow> bucket \<Rightarrow> string \<Rightarrow> db \<Rightarrow> response + object" where
  "lookup_object r b key s =
     (case validate_object_key key of
        Inl e \<Rightarrow> Inl (write_error r (Api e))
      | Inr _ \<Rightarrow>
      (let version_id = query_get r ''versionId''
       in if version_id \<noteq> [] then
         (case get_object_version s (bk_id b) key version_id of
            Inr obj \<Rightarrow> Inr obj
          | Inl ErrIsDeleteMarker \<Rightarrow>
              Inl (with_headers [(''x-amz-delete-marker'', ''true''), (''x-amz-version-id'', version_id)]
                (write_error r (Api err_method_not_allowed)))
          | Inl ErrVersionNotFound \<Rightarrow> Inl (write_error r (Api err_no_such_version))
          | Inl ErrObjectNotFound \<Rightarrow> Inl (write_error r (Api err_no_such_version))
          | Inl _ \<Rightarrow> Inl (internal r))
       else
         (case get_object s (bk_id b) key of
            Inr obj \<Rightarrow> Inr obj
          | Inl ErrObjectNotFound \<Rightarrow> Inl (write_error r (Api err_no_such_key))
          | Inl _ \<Rightarrow> Inl (internal r))))"

definition conditional_response :: "request \<Rightarrow> nat \<Rightarrow> object \<Rightarrow> response" where
  "conditional_response r status obj =
     (if status = 304
      then reply 304 [(''ETag'', quote_etag (o_etag obj)), (''Last-Modified'', format_http_time (o_updated_at obj))]
      else write_error r (Api err_precondition_failed))"

text \<open>The answer to a read once the object is found; \<open>k\<close> produces the contents.\<close>

definition answer_read :: "server \<Rightarrow> request \<Rightarrow> object \<Rightarrow> (object \<Rightarrow> response) \<Rightarrow> response" where
  "answer_read sv r obj k =
     (let status = check_preconditions (vf_obsolete_dates (sv_verifier sv)) r obj
      in if status \<noteq> 0 then conditional_response r status obj else k obj)"

definition handle_get_object ::
  "server \<Rightarrow> surroundings \<Rightarrow> request \<Rightarrow> string \<Rightarrow> string \<Rightarrow> site \<Rightarrow> response \<times> site" where
  "handle_get_object sv su r name key =
     with_bucket r name (\<lambda>b w.
       (case lookup_object r b key (st_db w) of
          Inl resp \<Rightarrow> resp
        | Inr obj \<Rightarrow> answer_read sv r obj (\<lambda>obj.
            case store_open (sv_root sv) (su_faults su) (o_blob_digest obj) (st_disk w) of
              Inl _ \<Rightarrow> internal r
            | Inr bytes \<Rightarrow> \<lparr>rs_status = 200, rs_headers = object_headers obj,
                rs_body = Content (o_updated_at obj) bytes\<rparr>), w))"

definition handle_head_object ::
  "server \<Rightarrow> request \<Rightarrow> string \<Rightarrow> string \<Rightarrow> site \<Rightarrow> response \<times> site" where
  "handle_head_object sv r name key =
     with_bucket r name (\<lambda>b w.
       (case lookup_object r b key (st_db w) of
          Inl resp \<Rightarrow> resp
        | Inr obj \<Rightarrow> answer_read sv r obj (\<lambda>obj.
            reply 200 (object_headers obj @ [(''Content-Length'', show_nat (o_size obj))])), w))"

subsection \<open>Delete\<close>

definition handle_delete_object ::
  "surroundings \<Rightarrow> request \<Rightarrow> identity option \<Rightarrow> string \<Rightarrow> string \<Rightarrow> site \<Rightarrow> response \<times> site" where
  "handle_delete_object su r caller name key =
     with_bucket r name (\<lambda>b w.
       let version_id = query_get r ''versionId''
       in if version_id \<noteq> [] then
         (case commit (delete_object_version (su_env su 0) (bk_id b) key version_id) w of
            (Inl ErrVersionNotFound, w1) \<Rightarrow> (write_error r (Api err_no_such_version), w1)
          | (Inl _, w1) \<Rightarrow> (internal r, w1)
          | (Inr d, w1) \<Rightarrow>
              (reply 204 ((if d_delete_marker d then [(''x-amz-delete-marker'', ''true'')] else []) @
                 [(''x-amz-version-id'', version_id)]), w1))
       else
         (case commit (delete_object (su_env su 0) (bk_id b) key
                 (write_options_for su (st_db w) caller b)) w of
            (Inl _, w1) \<Rightarrow> (internal r, w1)
          | (Inr d, w1) \<Rightarrow>
              (reply 204 (if d_delete_marker d
                 then (''x-amz-delete-marker'', ''true'') # version_headers (d_marker_version_id d)
                 else []), w1)))"

subsection \<open>Effects\<close>

lemma with_bucket_cases:
  assumes "with_bucket r name h w = (resp, w')"
  obtains (refused) e where "require_bucket (st_db w) name = Inl e" "resp = write_error r (Api e)" "w' = w"
  | (found) b where "require_bucket (st_db w) name = Inr b" "h b w = (resp, w')"
  using assms by (auto simp: with_bucket_def split: sum.splits)

lemma get_object_frame: "snd (handle_get_object sv su r name key w) = w"
  by (simp add: handle_get_object_def with_bucket_def split: sum.split)

lemma head_object_frame: "snd (handle_head_object sv r name key w) = w"
  by (simp add: handle_head_object_def with_bucket_def split: sum.split)

lemma put_object_checks_status: "put_object_checks r caller key = Inl e \<Longrightarrow> 400 \<le> ae_status e"
  by (auto simp: put_object_checks_def rbind_def error_constants
    dest: object_key_status user_metadata_status split: sum.splits option.splits)

text \<open>A put that is refused or fails leaves the metadata as it was; one that answers 200 committed.\<close>

lemma put_object_outcome:
  assumes "handle_put_object sv su r caller name key w = (resp, w')"
  obtains (failed) "400 \<le> rs_status resp" "st_db w' = st_db w"
  | (stored) b md i bl w1 row s where
      "require_bucket (st_db w) name = Inr b" "put_object_checks r caller key = Inr (md, i)"
      "upload_blob sv su r i w = (Inr bl, w1)" "w' = w1\<lparr>st_db := s\<rparr>"
      "put_object (su_env su 0) (uploaded_object b key r md bl)
         (write_options_for su (st_db w) caller b) (st_db w) = Inr (row, s)"
      "resp = reply 200 ((''ETag'', quote_etag (b_etag bl)) # version_headers (o_version_id row))"
  using assms
proof (cases rule: with_bucket_cases [OF assms [unfolded handle_put_object_def]])
  case 1
  then show ?thesis using require_bucket_status by (intro failed) auto
next
  case (2 b)
  show ?thesis
  proof (cases "put_object_checks r caller key")
    case (Inl e)
    with 2 put_object_checks_status [OF Inl] show ?thesis by (intro failed) auto
  next
    case (Inr mi)
    obtain md i where mi: "mi = (md, i)" by (cases mi)
    obtain res w1 where up: "upload_blob sv su r i w = (res, w1)" by (cases "upload_blob sv su r i w")
    then have db: "st_db w1 = st_db w" using upload_blob_db by (metis snd_conv)
    show ?thesis
    proof (cases res)
      case (Inl e)
      with 2 Inr mi up db upload_blob_status [of sv su r i w e w1]
      show ?thesis using \<open>put_object_checks _ _ _ = _\<close> by (intro failed) auto
    next
      case (Inr bl)
      obtain res2 w2 where c: "commit (put_object (su_env su 0) (uploaded_object b key r md bl)
          (write_options_for su (st_db w1) caller b)) w1 = (res2, w2)" (is "commit ?tx w1 = _")
        by (cases "commit ?tx w1")
      from c show ?thesis
      proof (cases rule: commit_cases)
        case rolled_back
        with c 2 \<open>put_object_checks _ _ _ = _\<close> mi up Inr db show ?thesis by (intro failed) auto
      next
        case (committed row s)
        with c 2 \<open>put_object_checks _ _ _ = _\<close> mi up Inr db show ?thesis
          by (intro stored [of b md i bl w1 s row]) simp_all
      qed
    qed
  qed
qed

end
