(* ===== verification/Version_Listing.thy ===== *)
theory Version_Listing
  imports Listing
begin

text \<open>
  The listing of every version of every key (\<^verbatim>\<open>internal/db/version_listing.go\<close>).
\<close>

subsection \<open>Rows\<close>

record version_list_options =
  vo_prefix :: string
  vo_delimiter :: string
  vo_max_keys :: int
  vo_key_marker :: string
  vo_version_id_marker :: string

record object_version_entry =
  vl_key :: string
  vl_version_id :: string
  vl_is_latest :: bool
  vl_is_delete_marker :: bool
  vl_size :: nat
  vl_etag :: string
  vl_content_type :: string
  vl_last_modified :: time

record version_list_result =
  vr_versions :: "object_version_entry list"
  vr_common_prefixes :: "string list"
  vr_is_truncated :: bool
  vr_next_key_marker :: string
  vr_next_version_id :: string

definition version_batch_size :: nat where "version_batch_size = 1000"

text \<open>
  The union of the live rows, flagged as current, and the history; the id is the stored one until
  the row is scanned.
\<close>

definition history_rows :: "db \<Rightarrow> string \<Rightarrow> (bool \<times> object_version_entry) list" where
  "history_rows s b =
     map (\<lambda>((_, k), r). (True, \<lparr>vl_key = k, vl_version_id = o_version_id r, vl_is_latest = False,
         vl_is_delete_marker = False, vl_size = o_size r, vl_etag = o_etag r,
         vl_content_type = o_content_type r, vl_last_modified = o_updated_at r\<rparr>))
       (filter (\<lambda>((b', _), _). b' = b) (objects s)) @
     map (\<lambda>((_, k, v), r). (False, \<lparr>vl_key = k, vl_version_id = v, vl_is_latest = False,
         vl_is_delete_marker = v_is_delete_marker r, vl_size = v_size r, vl_etag = v_etag r,
         vl_content_type = v_content_type r, vl_last_modified = v_created_at r\<rparr>))
       (filter (\<lambda>((b', _), _). b' = b) (versions s))"

text \<open>\<^verbatim>\<open>ORDER BY key, is_current DESC, at DESC, version_id DESC\<close>.\<close>

definition listing_order :: "bool \<times> object_version_entry \<Rightarrow> string \<times> bool \<times> time desc \<times> string desc" where
  "listing_order x =
     (vl_key (snd x), \<not> fst x, Desc (vl_last_modified (snd x)), Desc (vl_version_id (snd x)))"

text \<open>\<^verbatim>\<open>row_number() = 1\<close> within the key, on rows in listing order; the id a client sees.\<close>

fun scan_rows :: "string option \<Rightarrow> (bool \<times> object_version_entry) list \<Rightarrow> object_version_entry list" where
  "scan_rows previous [] = []"
| "scan_rows previous ((_, x) # xs) =
     x\<lparr>vl_is_latest := (previous \<noteq> Some (vl_key x)), vl_version_id := external_version_id (vl_version_id x)\<rparr>
       # scan_rows (Some (vl_key x)) xs"

definition listed_versions :: "db \<Rightarrow> string \<Rightarrow> string \<Rightarrow> string \<Rightarrow> object_version_entry list" where
  "listed_versions s b prefix after =
     scan_rows None (sort_key listing_order
       (filter (\<lambda>x. in_range prefix (vl_key (snd x)) \<and> after \<le> vl_key (snd x)) (history_rows s b)))"

text \<open>
  The parameters of the query are text, the upper bound of the prefix among them; Postgres refuses
  any that is not valid UTF-8 or holds a zero byte.
\<close>

definition fetch_version_batch ::
  "db \<Rightarrow> string \<Rightarrow> string \<Rightarrow> string \<Rightarrow> nat \<Rightarrow> db_error + object_version_entry list" where
  "fetch_version_batch s b prefix after limit =
     rbind (guard_or (text_ok prefix \<and> text_ok (prefix_upper_bound prefix) \<and> text_ok after)
       (ErrConstraint ''invalid byte sequence for encoding'')) (\<lambda>_.
     Inr (take limit (listed_versions s b prefix after)))"

lemma bounds_ok_iff: "bounds_ok p \<longleftrightarrow> text_ok p \<and> text_ok (prefix_upper_bound p)"
proof -
  have "text_ok (prefix_upper_bound [])" by code_simp
  then show ?thesis by (auto simp: bounds_ok_def)
qed

lemma fetch_version_batch_eq:
  "fetch_version_batch s b prefix after limit =
     (if bounds_ok prefix \<and> text_ok after then Inr (take limit (listed_versions s b prefix after))
      else Inl (ErrConstraint ''invalid byte sequence for encoding''))"
  by (simp add: fetch_version_batch_def bounds_ok_iff guard_or_def)

subsection \<open>The scan\<close>

record version_scan =
  vs_cursor :: string
  vs_skipping :: bool
  vs_last :: "string \<times> string"
  vs_seen :: "string list"
  vs_page :: version_list_result

definition version_count :: "version_list_result \<Rightarrow> nat" where
  "version_count r = length (vr_versions r) + length (vr_common_prefixes r)"

definition truncated_at :: "version_scan \<Rightarrow> version_list_result" where
  "truncated_at z = (vs_page z)\<lparr>vr_is_truncated := True, vr_next_key_marker := fst (vs_last z),
     vr_next_version_id := snd (vs_last z)\<rparr>"

text \<open>The inner loop: \<open>Inl\<close> is its return of a truncated page.\<close>

fun scan_versions ::
  "version_list_options \<Rightarrow> nat \<Rightarrow> object_version_entry list \<Rightarrow> version_scan \<Rightarrow>
     version_list_result + version_scan" where
  "scan_versions opts max_keys [] z = Inr z"
| "scan_versions opts max_keys (x # xs) z =
     (if vs_skipping z then
        scan_versions opts max_keys xs
          (if vl_key x = vo_key_marker opts \<and> vl_version_id x = vo_version_id_marker opts
           then z\<lparr>vs_skipping := False\<rparr> else z)
      else let z1 = z\<lparr>vs_cursor := vl_key x\<rparr> in
        case group_of (vl_key x) (vo_prefix opts) (vo_delimiter opts) of
          Some g \<Rightarrow>
            if g \<in> set (vs_seen z) then scan_versions opts max_keys xs z1
            else if max_keys \<le> version_count (vs_page z) then Inl (truncated_at z1)
            else scan_versions opts max_keys xs
              (z1\<lparr>vs_seen := g # vs_seen z, vs_last := (vl_key x, vl_version_id x),
                 vs_page := (vs_page z)\<lparr>vr_common_prefixes := vr_common_prefixes (vs_page z) @ [g]\<rparr>\<rparr>)
        | None \<Rightarrow>
            if max_keys \<le> version_count (vs_page z) then Inl (truncated_at z1)
            else scan_versions opts max_keys xs
              (z1\<lparr>vs_last := (vl_key x, vl_version_id x),
                 vs_page := (vs_page z)\<lparr>vr_versions := vr_versions (vs_page z) @ [x]\<rparr>\<rparr>))"

text \<open>
  The outer loop ends after two turns at the latest: the cursor of the second holds the zero byte
  that was appended to it.
\<close>

function version_loop ::
  "db \<Rightarrow> string \<Rightarrow> version_list_options \<Rightarrow> nat \<Rightarrow> version_scan \<Rightarrow> db_error + version_list_result" where
  "version_loop s b opts max_keys z =
     (case fetch_version_batch s b (vo_prefix opts) (vs_cursor z) version_batch_size of
        Inl e \<Rightarrow> Inl e
      | Inr batch \<Rightarrow>
          if batch = [] then Inr (vs_page z)
          else case scan_versions opts max_keys batch z of
            Inl page \<Rightarrow> Inr page
          | Inr z' \<Rightarrow>
              if length batch < version_batch_size then Inr (vs_page z')
              else version_loop s b opts max_keys (z'\<lparr>vs_cursor := vs_cursor z' @ [CHR 0x00]\<rparr>))"
  by pat_completeness auto
termination version_loop
  by (relation "measure (\<lambda>(_, _, _, _, z). if CHR 0x00 \<in> set (vs_cursor z) then 0 else 1)")
    (auto simp: fetch_version_batch_eq text_ok_def split: if_splits)

declare version_loop.simps [simp del]

definition start_scan :: "version_list_options \<Rightarrow> version_scan" where
  "start_scan opts =
     \<lparr>vs_cursor = vo_key_marker opts, vs_skipping = (vo_version_id_marker opts \<noteq> []), vs_last = ([], []),
      vs_seen = [], vs_page = \<lparr>vr_versions = [], vr_common_prefixes = [], vr_is_truncated = False,
        vr_next_key_marker = [], vr_next_version_id = []\<rparr>\<rparr>"

definition list_object_versions ::
  "db \<Rightarrow> string \<Rightarrow> version_list_options \<Rightarrow> db_error + version_list_result" where
  "list_object_versions s b opts =
     version_loop s b opts (page_size (vo_max_keys opts)) (start_scan opts)"

subsection \<open>A listing without delimiter or marker\<close>

definition plain_options :: "version_list_options \<Rightarrow> bool" where
  "plain_options opts \<longleftrightarrow> vo_delimiter opts = [] \<and> vo_version_id_marker opts = [] \<and>
     bounds_ok (vo_prefix opts) \<and> text_ok (vo_key_marker opts)"

lemma group_of_no_delimiter: "group_of k p [] = None"
  by (simp add: group_of_def)

lemma scan_versions_plain:
  assumes "vo_delimiter opts = []" "\<not> vs_skipping z" "version_count (vs_page z) \<le> m"
  shows "scan_versions opts m xs z =
    (let n = m - version_count (vs_page z); ys = take n xs;
         page = (vs_page z)\<lparr>vr_versions := vr_versions (vs_page z) @ ys\<rparr>;
         last_id = (if ys = [] then vs_last z else (vl_key (last ys), vl_version_id (last ys)))
     in if length xs \<le> n
        then Inr (z\<lparr>vs_cursor := (if xs = [] then vs_cursor z else vl_key (last xs)), vs_last := last_id,
          vs_page := page\<rparr>)
        else Inl (page\<lparr>vr_is_truncated := True, vr_next_key_marker := fst last_id,
          vr_next_version_id := snd last_id\<rparr>))"
  using assms
proof (induction xs arbitrary: z)
  case Nil
  then show ?case by (simp add: Let_def)
next
  case (Cons x xs)
  show ?case
  proof (cases "m \<le> version_count (vs_page z)")
    case True
    with Cons.prems show ?thesis
      by (simp add: group_of_no_delimiter truncated_at_def Let_def)
  next
    case False
    let ?z = "z\<lparr>vs_cursor := vl_key x, vs_last := (vl_key x, vl_version_id x),
      vs_page := (vs_page z)\<lparr>vr_versions := vr_versions (vs_page z) @ [x]\<rparr>\<rparr>"
    have n: "m - version_count (vs_page z) = Suc (m - version_count (vs_page ?z))"
      using False by (simp add: version_count_def)
    have "scan_versions opts m (x # xs) z = scan_versions opts m xs ?z"
      using False Cons.prems by (simp add: group_of_no_delimiter Let_def)
    also note Cons.IH [of ?z]
    finally show ?thesis using Cons.prems False n by (auto simp: version_count_def Let_def)
  qed
qed

text \<open>The page that holds the first \<open>n\<close> of the rows.\<close>

definition version_page :: "nat \<Rightarrow> object_version_entry list \<Rightarrow> version_list_result" where
  "version_page n rows =
     (let page = take n rows; more = n < length rows
      in \<lparr>vr_versions = page, vr_common_prefixes = [], vr_is_truncated = more,
          vr_next_key_marker = (if more then vl_key (last page) else []),
          vr_next_version_id = (if more then vl_version_id (last page) else [])\<rparr>)"

lemma list_object_versions_plain:
  fixes s :: db and b :: string
  assumes "plain_options opts"
  defines "rows \<equiv> listed_versions s b (vo_prefix opts) (vo_key_marker opts)"
    and "n \<equiv> page_size (vo_max_keys opts)"
  shows "length rows < 1000 \<or> n < 1000 \<Longrightarrow> list_object_versions s b opts = Inr (version_page n rows)"
    and "1000 \<le> length rows \<Longrightarrow> n = 1000 \<Longrightarrow> \<exists>e. list_object_versions s b opts = Inl e"
proof -
  let ?z = "start_scan opts"
  have n: "1 \<le> n" "n \<le> 1000" using page_size_bounds by (simp_all add: n_def)
  have plain: "vo_delimiter opts = []" "\<not> vs_skipping ?z" "version_count (vs_page ?z) = 0"
    "bounds_ok (vo_prefix opts)" "text_ok (vo_key_marker opts)"
    using assms(1) by (simp_all add: plain_options_def start_scan_def version_count_def)
  have fetch: "fetch_version_batch s b (vo_prefix opts) (vs_cursor ?z) version_batch_size = Inr (take 1000 rows)"
    using plain by (simp add: fetch_version_batch_eq start_scan_def rows_def version_batch_size_def)
  have later: "\<exists>e. version_loop s b opts m (z\<lparr>vs_cursor := vs_cursor z @ [CHR 0x00]\<rparr>) = Inl e" for m z
    by (subst version_loop.simps) (simp add: fetch_version_batch_eq text_ok_def)
  note step = version_loop.simps [of s b opts n ?z, unfolded fetch sum.case]
  have "version_count (vs_page ?z) \<le> n" using plain(3) by simp
  note scan = scan_versions_plain [of opts ?z n "take 1000 rows", OF plain(1,2) this]
  show "list_object_versions s b opts = Inr (version_page n rows)" if small: "length rows < 1000 \<or> n < 1000"
  proof (cases "rows = []")
    case True
    then show ?thesis
      using step by (simp add: list_object_versions_def n_def version_page_def start_scan_def)
  next
    case ne: False
    show ?thesis
    proof (cases "length rows \<le> n")
      case True
      with small n have len: "length rows < 1000" by auto
      with True have "scan_versions opts n (take 1000 rows) ?z = Inr (?z\<lparr>vs_cursor := vl_key (last rows),
          vs_last := (vl_key (last rows), vl_version_id (last rows)),
          vs_page := (vs_page ?z)\<lparr>vr_versions := rows\<rparr>\<rparr>)"
        using scan plain(3) ne n by (simp add: Let_def start_scan_def)
      then show ?thesis
        using step ne len True
        by (simp add: list_object_versions_def n_def [symmetric] version_page_def version_batch_size_def start_scan_def)
    next
      case False
      have "\<not> length (take 1000 rows) \<le> n" using False small by auto
      moreover have "take n (take 1000 rows) = take n rows" using n by (simp add: min_def)
      moreover have "take n rows \<noteq> []" using ne n by auto
      ultimately have "scan_versions opts n (take 1000 rows) ?z = Inl (version_page n rows)"
        using scan plain(3) False ne n by (simp add: Let_def start_scan_def version_page_def)
      then show ?thesis using step ne by (simp add: list_object_versions_def n_def [symmetric])
    qed
  qed
  show "\<exists>e. list_object_versions s b opts = Inl e" if "1000 \<le> length rows" "n = 1000"
  proof -
    have len: "length (take 1000 rows) = 1000" using that by simp
    have "\<exists>z'. scan_versions opts n (take 1000 rows) ?z = Inr z'"
      unfolding scan Let_def plain(3) len using that(2) by simp
    then obtain z' where "scan_versions opts n (take 1000 rows) ?z = Inr z'" by blast
    then show ?thesis
      using step later [of n z'] len that
      by (auto simp: list_object_versions_def n_def [symmetric] version_batch_size_def)
  qed
qed

lemma list_object_versions_refused:
  "\<not> bounds_ok (vo_prefix opts) \<or> \<not> text_ok (vo_key_marker opts) \<Longrightarrow>
     \<exists>e. list_object_versions s b opts = Inl e"
  unfolding list_object_versions_def
  by (subst version_loop.simps) (auto simp: fetch_version_batch_eq start_scan_def)

end
