(* ===== verification/Base64.thy ===== *)
theory Base64
  imports Go_Strings
begin

text \<open>
  \<^verbatim>\<open>base64.RawURLEncoding\<close>: the URL alphabet, no padding. The decoder ignores the bits that do not
  fill a byte and the line ends CR and LF.
\<close>

definition base64_alphabet :: string where
  "base64_alphabet = ''ABCDEFGHIJKLMNOPQRSTUVWXYZabcdefghijklmnopqrstuvwxyz0123456789-_''"

definition base64_digit :: "nat \<Rightarrow> char" where
  "base64_digit n = base64_alphabet ! n"

definition base64_value :: "char \<Rightarrow> nat option" where
  "base64_value c =
     (if CHR ''A'' \<le> c \<and> c \<le> CHR ''Z'' then Some (of_char c - 65)
      else if CHR ''a'' \<le> c \<and> c \<le> CHR ''z'' then Some (of_char c - 71)
      else if CHR ''0'' \<le> c \<and> c \<le> CHR ''9'' then Some (of_char c + 4)
      else if c = CHR ''-'' then Some 62
      else if c = CHR ''_'' then Some 63
      else None)"

fun sextets :: "string \<Rightarrow> nat list" where
  "sextets [] = []"
| "sextets [a] = [of_char a div 4, of_char a mod 4 * 16]"
| "sextets [a, b] = [of_char a div 4, of_char a mod 4 * 16 + of_char b div 16, of_char b mod 16 * 4]"
| "sextets (a # b # c # rest) =
     of_char a div 4 # (of_char a mod 4 * 16 + of_char b div 16) # (of_char b mod 16 * 4 + of_char c div 64) #
     of_char c mod 64 # sextets rest"

definition base64_encode :: "string \<Rightarrow> string" where
  "base64_encode s = map base64_digit (sextets s)"

fun octets :: "nat list \<Rightarrow> string option" where
  "octets [] = Some []"
| "octets [w] = None"
| "octets [w, x] = Some [char_of (w * 4 + x div 16)]"
| "octets [w, x, y] = Some [char_of (w * 4 + x div 16), char_of (x mod 16 * 16 + y div 4)]"
| "octets (w # x # y # z # rest) =
     map_option ((@) [char_of (w * 4 + x div 16), char_of (x mod 16 * 16 + y div 4), char_of (y mod 4 * 64 + z)])
       (octets rest)"

fun base64_values :: "string \<Rightarrow> nat list option" where
  "base64_values [] = Some []"
| "base64_values (c # cs) =
     (if c = CHR 0x0D \<or> c = CHR 0x0A then base64_values cs
      else case (base64_value c, base64_values cs) of
        (Some v, Some vs) \<Rightarrow> Some (v # vs)
      | _ \<Rightarrow> None)"

definition base64_decode :: "string \<Rightarrow> string option" where
  "base64_decode s = Option.bind (base64_values s) octets"

lemma base64_value_digit:
  assumes "n < 64"
  shows "base64_value (base64_digit n) = Some n" "base64_digit n \<noteq> CHR 0x0D" "base64_digit n \<noteq> CHR 0x0A"
proof -
  have "list_all (\<lambda>n. base64_value (base64_digit n) = Some n \<and> base64_digit n \<noteq> CHR 0x0D \<and>
      base64_digit n \<noteq> CHR 0x0A) [0..<64]"
    by code_simp
  with assms show "base64_value (base64_digit n) = Some n" "base64_digit n \<noteq> CHR 0x0D"
    "base64_digit n \<noteq> CHR 0x0A" by (simp_all add: list_all_iff)
qed

lemma char_parts:
  "(of_char a :: nat) div 4 < 64" "(of_char a :: nat) div 16 < 16" "(of_char a :: nat) div 64 < 4"
  by (rule less_mult_imp_div_less, simp)+

lemma sextets_small: "x \<in> set (sextets s) \<Longrightarrow> x < 64"
proof (induction s rule: sextets.induct)
  case (2 a)
  with char_parts(1) [of a] show ?case by auto
next
  case (3 a b)
  with char_parts(1) [of a] char_parts(2) [of b] show ?case by auto
next
  case (4 a b c rest)
  with char_parts(1) [of a] char_parts(2) [of b] char_parts(3) [of c] show ?case by auto
qed simp

lemma base64_values_digits: "(\<And>x. x \<in> set xs \<Longrightarrow> x < 64) \<Longrightarrow> base64_values (map base64_digit xs) = Some xs"
  by (induction xs) (simp_all add: base64_value_digit)

lemma octets_sextets: "octets (sextets s) = Some s"
proof (induction s rule: sextets.induct)
  case (2 a)
  then show ?case by simp
next
  case (3 a b)
  with char_parts(2) [of b] show ?case by simp
next
  case (4 a b c rest)
  with char_parts(2) [of b] char_parts(3) [of c] show ?case by simp
qed simp

lemma base64_decode_encode: "base64_decode (base64_encode s) = Some s"
  by (simp add: base64_decode_def base64_encode_def base64_values_digits sextets_small octets_sextets)

lemma base64_encode_eq_Nil [simp]: "base64_encode s = [] \<longleftrightarrow> s = []"
  by (cases s rule: sextets.cases) (simp_all add: base64_encode_def)

end
