(* ===== verification/Listing_Handlers.thy ===== *)
theory Listing_Handlers
  imports Object_Handlers Version_Listing Base64
begin

text \<open>
  The listings of the S3 surface and the narrowing to what a key may see
  (\<^verbatim>\<open>internal/s3api/listing.go\<close>, \<^verbatim>\<open>handleListObjectVersions\<close> of \<^verbatim>\<open>versioning.go\<close>).
\<close>

subsection \<open>Parameters\<close>

definition encode_continuation_token :: "string \<Rightarrow> string" where
  "encode_continuation_token cursor = (if cursor = [] then [] else base64_encode cursor)"

definition decode_continuation_token :: "string \<Rightarrow> api_error + string" where
  "decode_continuation_token token =
     (if token = [] then Inr []
      else case base64_decode token of
        None \<Rightarrow> Inl (with_message err_invalid_argument ''The continuation token provided is incorrect.'')
      | Some raw \<Rightarrow> Inr raw)"

definition parse_max_keys :: "string \<Rightarrow> api_error + int" where
  "parse_max_keys raw =
     (let bad = Inl (with_message err_invalid_argument
        (''Argument max-keys must be an integer between 0 and 1000, got '' @ quoted raw @ ''.''))
      in if raw = [] then Inr 1000
      else case atoi raw of
        None \<Rightarrow> bad
      | Some n \<Rightarrow> if n < 0 then bad else if 1000 < n then Inr 1000 else Inr n)"

definition encodes_url :: "request \<Rightarrow> bool" where
  "encodes_url r = equal_fold (query_get r ''encoding-type'') ''url''"

definition url_text :: "request \<Rightarrow> string \<Rightarrow> string" where
  "url_text r s = (if encodes_url r then uri_encode s True else s)"

definition is_v2 :: "request \<Rightarrow> bool" where
  "is_v2 r \<longleftrightarrow> query_get r ''list-type'' = ''2''"

text \<open>Where the listing resumes: a token or \<^verbatim>\<open>start-after\<close> in version 2, the marker in version 1.\<close>

definition resume_point :: "request \<Rightarrow> api_error + string" where
  "resume_point r =
     (if is_v2 r then
        (let token = query_get r ''continuation-token''
         in if token \<noteq> [] then decode_continuation_token token else Inr (query_get r ''start-after''))
      else Inr (query_get r ''marker''))"

definition listing_request :: "request \<Rightarrow> listing_limit \<Rightarrow> api_error + list_options" where
  "listing_request r limit =
     rbind (parse_max_keys (query_get r ''max-keys'')) (\<lambda>max_keys.
     rbind (resume_point r) (\<lambda>start.
     Inr \<lparr>lo_prefix = narrow limit (query_get r ''prefix''), lo_delimiter = query_get r ''delimiter'',
          lo_start_after = start, lo_max_keys = max_keys\<rparr>))"

subsection \<open>Objects\<close>

definition object_entry_of :: "request \<Rightarrow> object \<Rightarrow> object_entry" where
  "object_entry_of r obj =
     \<lparr>oe_key = url_text r (o_key obj), oe_last_modified = format_xml_time (o_updated_at obj),
      oe_etag = quote_etag (o_etag obj), oe_size = o_size obj, oe_storage_class = storage_class_standard\<rparr>"

definition listing_document ::
  "request \<Rightarrow> string \<Rightarrow> listing_limit \<Rightarrow> list_options \<Rightarrow> list_result \<Rightarrow> list_bucket_result" where
  "listing_document r name limit opts page =
     (let contents = map (object_entry_of r) (filter (\<lambda>obj. allows_key limit (o_key obj)) (lr_objects page));
          prefixes = map (url_text r) (filter (allows_common_prefix limit) (lr_common_prefixes page));
          v2 = is_v2 r; more = lr_is_truncated page
      in \<lparr>lb_name = name, lb_prefix = url_text r (query_get r ''prefix''),
          lb_delimiter = url_text r (lo_delimiter opts), lb_max_keys = lo_max_keys opts,
          lb_key_count = length contents + length prefixes, lb_is_truncated = more,
          lb_continuation_token = (if v2 then query_get r ''continuation-token'' else []),
          lb_next_continuation_token =
            (if v2 \<and> more then encode_continuation_token (lr_next_start_after page) else []),
          lb_start_after = (if v2 then url_text r (query_get r ''start-after'') else []),
          lb_marker = (if v2 then [] else url_text r (query_get r ''marker'')),
          lb_next_marker = (if \<not> v2 \<and> more then url_text r (lr_next_start_after page) else []),
          lb_encoding_type = (if encodes_url r then ''url'' else []),
          lb_contents = contents, lb_common_prefixes = prefixes\<rparr>)"

definition handle_list_objects :: "request \<Rightarrow> identity option \<Rightarrow> bucket \<Rightarrow> site \<Rightarrow> response \<times> site" where
  "handle_list_objects r caller b w =
     (let limit = listing_limit_for (grant_for caller) (bk_name b)
      in (case listing_request r limit of
            Inl e \<Rightarrow> write_error r (Api e)
          | Inr opts \<Rightarrow> (case list_objects (st_db w) (bk_id b) opts of
              Inl _ \<Rightarrow> internal r
            | Inr page \<Rightarrow> write_xml 200 [] (Listing_Document
                (listing_document r (bk_name b) limit opts page))), w))"

subsection \<open>Versions\<close>

definition version_entry_of :: "request \<Rightarrow> object_version_entry \<Rightarrow> version_entry" where
  "version_entry_of r x =
     (let marker = vl_is_delete_marker x
      in \<lparr>ve_is_marker = marker, ve_key = url_text r (vl_key x), ve_version_id = vl_version_id x,
          ve_is_latest = vl_is_latest x, ve_last_modified = format_xml_time (vl_last_modified x),
          ve_etag = (if marker then [] else quote_etag (vl_etag x)),
          ve_size = (if marker then None else Some (vl_size x))\<rparr>)"

definition versions_document ::
  "request \<Rightarrow> string \<Rightarrow> listing_limit \<Rightarrow> version_list_options \<Rightarrow> version_list_result \<Rightarrow> list_versions_result" where
  "versions_document r name limit opts page =
     \<lparr>lv_name = name, lv_prefix = url_text r (query_get r ''prefix''),
      lv_delimiter = url_text r (vo_delimiter opts), lv_key_marker = url_text r (vo_key_marker opts),
      lv_version_id_marker = vo_version_id_marker opts,
      lv_next_key_marker = url_text r (vr_next_key_marker page),
      lv_next_version_id_marker = vr_next_version_id page, lv_max_keys = vo_max_keys opts,
      lv_is_truncated = vr_is_truncated page, lv_encoding_type = (if encodes_url r then ''url'' else []),
      lv_entries = map (version_entry_of r) (filter (\<lambda>x. allows_key limit (vl_key x)) (vr_versions page)),
      lv_common_prefixes =
        map (url_text r) (filter (allows_common_prefix limit) (vr_common_prefixes page))\<rparr>"

definition handle_list_object_versions ::
  "request \<Rightarrow> identity option \<Rightarrow> bucket \<Rightarrow> site \<Rightarrow> response \<times> site" where
  "handle_list_object_versions r caller b w =
     (let limit = listing_limit_for (grant_for caller) (bk_name b)
      in (case parse_max_keys (query_get r ''max-keys'') of
            Inl e \<Rightarrow> write_error r (Api e)
          | Inr max_keys \<Rightarrow>
              (let opts = \<lparr>vo_prefix = narrow limit (query_get r ''prefix''),
                     vo_delimiter = query_get r ''delimiter'', vo_max_keys = max_keys,
                     vo_key_marker = query_get r ''key-marker'',
                     vo_version_id_marker = query_get r ''version-id-marker''\<rparr>
               in case list_object_versions (st_db w) (bk_id b) opts of
                 Inl _ \<Rightarrow> internal r
               | Inr page \<Rightarrow> write_xml 200 [] (Versions_Document
                   (versions_document r (bk_name b) limit opts page))), w))"

subsection \<open>What a caller sees\<close>

lemma decode_encode_token: "decode_continuation_token (encode_continuation_token cursor) = Inr cursor"
  by (simp add: decode_continuation_token_def encode_continuation_token_def base64_decode_encode)

lemma parse_max_keys_range: "parse_max_keys raw = Inr n \<Longrightarrow> 0 \<le> n \<and> n \<le> 1000"
  by (auto simp: parse_max_keys_def Let_def split: if_splits option.splits)

lemma listing_document_keys:
  "lb_contents (listing_document r name limit opts page) =
     map (object_entry_of r) (filter (\<lambda>obj. allows_key limit (o_key obj)) (lr_objects page))"
  "lb_common_prefixes (listing_document r name limit opts page) =
     map (url_text r) (filter (allows_common_prefix limit) (lr_common_prefixes page))"
  "lb_is_truncated (listing_document r name limit opts page) = lr_is_truncated page"
  by (simp_all add: listing_document_def Let_def)

end
