(* ===== verification/Multipart_Handlers.thy ===== *)
theory Multipart_Handlers
  imports Object_Handlers
begin

text \<open>
  The multipart upload of the S3 surface (\<^verbatim>\<open>internal/s3api/multipart.go\<close>).
\<close>

definition min_part_number :: int where "min_part_number = 1"
definition max_part_number :: int where "max_part_number = 10000"
definition min_part_size :: nat where "min_part_size = 5 * 2 ^ 20"
definition max_complete_body_size :: nat where "max_complete_body_size = 4 * 2 ^ 20"
definition max_uploads :: nat where "max_uploads = 1000"

subsection \<open>Parts\<close>

definition parse_part_number :: "string \<Rightarrow> api_error + int" where
  "parse_part_number raw =
     (case atoi raw of
        Some n \<Rightarrow>
          if n < min_part_number \<or> max_part_number < n then
            Inl (with_message err_invalid_argument (''Part number must be an integer between '' @
              show_int min_part_number @ '' and '' @ show_int max_part_number @ '', got '' @ quoted raw @ ''.''))
          else Inr n
      | None \<Rightarrow> Inl (with_message err_invalid_argument (''Part number must be an integer between '' @
          show_int min_part_number @ '' and '' @ show_int max_part_number @ '', got '' @ quoted raw @ ''.'')))"

definition unquote_etag :: "string \<Rightarrow> string" where
  "unquote_etag etag =
     (if 2 \<le> length etag \<and> hd etag = CHR 0x22 \<and> last etag = CHR 0x22 then butlast (tl etag) else etag)"

text \<open>\<open>previous\<close> is the number of the part before; every part but the last has a minimal size.\<close>

fun select_parts ::
  "(int \<Rightarrow> multipart_part option) \<Rightarrow> int \<Rightarrow> (int \<times> string) list \<Rightarrow> api_error + multipart_part list" where
  "select_parts uploaded previous [] = Inr []"
| "select_parts uploaded previous ((n, etag) # rest) =
     (if n \<le> previous then Inl err_invalid_part_order
      else case uploaded n of
        None \<Rightarrow> Inl (with_message err_invalid_part (''Part number '' @ show_int n @ '' was not uploaded.''))
      | Some have_part \<Rightarrow>
          if unquote_etag etag \<noteq> mp_etag have_part
          then Inl (with_message err_invalid_part (''The entity tag for part number '' @ show_int n @
            '' does not match the part that was uploaded.''))
          else if rest \<noteq> [] \<and> mp_size have_part < min_part_size
          then Inl (with_message err_entity_too_small (''Part number '' @ show_int n @ '' is '' @
            show_nat (mp_size have_part) @ '' bytes; every part except the last must be at least '' @
            show_nat min_part_size @ '' bytes.''))
          else rbind (select_parts uploaded n rest) (\<lambda>ps. Inr (have_part # ps)))"

definition part_digest_bytes :: "multipart_part \<Rightarrow> string" where
  "part_digest_bytes p = (case hex_decode (mp_etag p) of Some raw \<Rightarrow> raw | None \<Rightarrow> mp_etag p)"

definition composite_etag :: "hashes \<Rightarrow> multipart_part list \<Rightarrow> string" where
  "composite_etag h ps =
     hex_encode (h_md5 h (concat (map part_digest_bytes ps))) @ ''-'' @ show_nat (length ps)"

definition object_location :: "server \<Rightarrow> string \<Rightarrow> string \<Rightarrow> string" where
  "object_location sv bucket key = sv_public_url sv @ ''/'' @ bucket @ ''/'' @ uri_encode key False"

subsection \<open>Handlers\<close>

definition require_upload :: "db \<Rightarrow> bucket \<Rightarrow> string \<Rightarrow> api_error + multipart_upload" where
  "require_upload s b upload_id =
     (case get_multipart_upload s (bk_id b) upload_id of
        Inr u \<Rightarrow> Inr u
      | Inl ErrUploadNotFound \<Rightarrow> Inl err_no_such_upload
      | Inl _ \<Rightarrow> Inl err_internal_error)"

definition handle_create_multipart_upload ::
  "surroundings \<Rightarrow> request \<Rightarrow> string \<Rightarrow> string \<Rightarrow> site \<Rightarrow> response \<times> site" where
  "handle_create_multipart_upload su r name key =
     with_bucket r name (\<lambda>b w.
       case rbind (validate_object_key key) (\<lambda>_. user_metadata (rq_header r)) of
         Inl e \<Rightarrow> (write_error r (Api e), w)
       | Inr md \<Rightarrow>
       (case commit (create_multipart_upload (su_env su 0)
               \<lparr>mu_id = [], mu_upload_id = [], mu_bucket_id = bk_id b, mu_key = key,
                mu_content_type = content_type_of r, mu_metadata = md, mu_initiated_at = zero_time\<rparr>) w of
         (Inl _, w1) \<Rightarrow> (internal r, w1)
       | (Inr u, w1) \<Rightarrow>
           (write_xml 200 [] (Initiate_Document (bk_name b) key (mu_upload_id u)), w1)))"

definition handle_upload_part ::
  "server \<Rightarrow> surroundings \<Rightarrow> request \<Rightarrow> identity option \<Rightarrow> string \<Rightarrow> string \<Rightarrow> site \<Rightarrow> response \<times> site" where
  "handle_upload_part sv su r caller name upload_id =
     with_bucket r name (\<lambda>b w.
       case rbind (parse_part_number (query_get r ''partNumber'')) (\<lambda>n.
            rbind (require_upload (st_db w) b upload_id) (\<lambda>u.
            case caller of None \<Rightarrow> Inl err_access_denied | Some i \<Rightarrow> Inr (n, u, i))) of
         Inl e \<Rightarrow> (write_error r (Api e), w)
       | Inr (n, u, i) \<Rightarrow>
       (case upload_blob sv su r i w of
         (Inl e, w1) \<Rightarrow> (write_error r e, w1)
       | (Inr bl, w1) \<Rightarrow>
       (case commit (no_result (put_multipart_part (su_env su 0) (mu_id u)
               \<lparr>mp_part_number = n, mp_blob_digest = b_digest bl, mp_size = b_size bl,
                mp_etag = b_etag bl, mp_uploaded_at = zero_time\<rparr>)) w1 of
         (Inl _, w2) \<Rightarrow> (internal r, w2)
       | (Inr _, w2) \<Rightarrow> (reply 200 [(''ETag'', quote_etag (b_etag bl))], w2))))"

definition complete_request :: "server \<Rightarrow> surroundings \<Rightarrow> request \<Rightarrow> api_error + (int \<times> string) list" where
  "complete_request sv su r =
     (case read_limited su r max_complete_body_size of
        None \<Rightarrow> Inl err_incomplete_body
      | Some text \<Rightarrow>
      (case xml_complete (sv_xml sv) text of
        None \<Rightarrow> Inl err_malformed_xml
      | Some ps \<Rightarrow>
          if ps = [] then Inl (with_message err_invalid_part ''The completion request listed no parts.'')
          else Inr ps))"

definition parts_by_number :: "multipart_part list \<Rightarrow> int \<Rightarrow> multipart_part option" where
  "parts_by_number ps n = map_of (rev (map (\<lambda>p. (mp_part_number p, p)) ps)) n"

definition completed_object :: "hashes \<Rightarrow> bucket \<Rightarrow> multipart_upload \<Rightarrow> multipart_part list \<Rightarrow> blob \<Rightarrow> object" where
  "completed_object h b u selected assembled =
     \<lparr>o_id = [], o_bucket_id = bk_id b, o_key = mu_key u, o_blob_digest = b_digest assembled,
      o_size = b_size assembled, o_etag = composite_etag h selected, o_content_type = mu_content_type u,
      o_metadata = mu_metadata u, o_version_id = [], o_created_at = zero_time, o_updated_at = zero_time\<rparr>"

definition handle_complete_multipart_upload ::
  "server \<Rightarrow> surroundings \<Rightarrow> request \<Rightarrow> identity option \<Rightarrow> string \<Rightarrow> string \<Rightarrow> site \<Rightarrow> response \<times> site" where
  "handle_complete_multipart_upload sv su r caller name upload_id =
     with_bucket r name (\<lambda>b w.
       case rbind (require_upload (st_db w) b upload_id) (\<lambda>u.
            rbind (complete_request sv su r) (\<lambda>wanted.
            rbind (select_parts (parts_by_number (list_multipart_parts (st_db w) (mu_id u))) 0 wanted)
              (\<lambda>selected. Inr (u, selected)))) of
         Inl e \<Rightarrow> (write_error r (Api e), w)
       | Inr (u, selected) \<Rightarrow>
       (let h = vf_hashes (sv_verifier sv);
            (res, f) = store_concat h (sv_root sv) (su_faults su) (su_others su) (su_temp_name su)
              (\<lambda>bytes. su_chop su (bytes, None)) (map mp_blob_digest selected) (st_disk w);
            w1 = w\<lparr>st_disk := f\<rparr>
        in case res of
          Inl _ \<Rightarrow> (internal r, w1)
        | Inr assembled \<Rightarrow>
            if b_size assembled \<noteq> sum_list (map mp_size selected) then (internal r, w1)
            else let obj = completed_object h b u selected assembled in
              case commit (complete_multipart_upload (su_env su 0) (mu_id u) obj
                     (write_options_for su (st_db w1) caller b)) w1 of
                (Inl _, w2) \<Rightarrow> (internal r, w2)
              | (Inr row, w2) \<Rightarrow>
                  (write_xml 200 [(''ETag'', quote_etag (o_etag row))]
                    (Complete_Document (object_location sv (bk_name b) (mu_key u)) (bk_name b) (mu_key u)
                      (quote_etag (o_etag row))), w2)))"

definition handle_abort_multipart_upload ::
  "request \<Rightarrow> string \<Rightarrow> string \<Rightarrow> site \<Rightarrow> response \<times> site" where
  "handle_abort_multipart_upload r name upload_id =
     with_bucket r name (\<lambda>b w.
       case require_upload (st_db w) b upload_id of
         Inl e \<Rightarrow> (write_error r (Api e), w)
       | Inr u \<Rightarrow>
       (case commit (no_result (abort_multipart_upload (mu_id u))) w of
         (Inl _, w1) \<Rightarrow> (internal r, w1)
       | (Inr _, w1) \<Rightarrow> (reply 204 [], w1)))"

definition part_entry_of :: "multipart_part \<Rightarrow> part_entry" where
  "part_entry_of p =
     \<lparr>pe_part_number = mp_part_number p, pe_last_modified = format_xml_time (mp_uploaded_at p),
      pe_etag = quote_etag (mp_etag p), pe_size = mp_size p\<rparr>"

definition handle_list_parts :: "request \<Rightarrow> string \<Rightarrow> string \<Rightarrow> site \<Rightarrow> response \<times> site" where
  "handle_list_parts r name upload_id =
     with_bucket r name (\<lambda>b w.
       (case require_upload (st_db w) b upload_id of
          Inl e \<Rightarrow> write_error r (Api e)
        | Inr u \<Rightarrow> write_xml 200 [] (Parts_Document (bk_name b) (mu_key u) (mu_upload_id u)
            (map part_entry_of (list_multipart_parts (st_db w) (mu_id u)))), w))"

definition handle_list_multipart_uploads :: "request \<Rightarrow> bucket \<Rightarrow> site \<Rightarrow> response \<times> site" where
  "handle_list_multipart_uploads r b w =
     (let marker = query_get r ''key-marker''
      in (write_xml 200 [] (Uploads_Document (bk_name b) marker
           (map (\<lambda>u. (mu_key u, mu_upload_id u, format_xml_time (mu_initiated_at u)))
             (list_multipart_uploads (st_db w) (bk_id b) marker max_uploads))), w))"

subsection \<open>Selecting parts\<close>

lemma unquote_quote_etag: "\<not> has_prefix etag [CHR 0x22] \<Longrightarrow> unquote_etag (quote_etag etag) = etag"
  by (simp add: unquote_etag_def quote_etag_def)

text \<open>A selection is what was uploaded under the requested numbers, in ascending order.\<close>

lemma select_parts_Inr:
  assumes "select_parts uploaded previous wanted = Inr ps"
  shows "map uploaded (map fst wanted) = map Some ps"
    and "map (\<lambda>w. unquote_etag (snd w)) wanted = map mp_etag ps"
    and "sorted_wrt (<) (previous # map fst wanted)"
    and "list_all (\<lambda>p. min_part_size \<le> mp_size p) (butlast ps)"
proof -
  have "map uploaded (map fst wanted) = map Some ps \<and>
      map (\<lambda>w. unquote_etag (snd w)) wanted = map mp_etag ps \<and>
      sorted_wrt (<) (previous # map fst wanted) \<and> list_all (\<lambda>p. min_part_size \<le> mp_size p) (butlast ps)"
    using assms
  proof (induction uploaded previous wanted arbitrary: ps rule: select_parts.induct)
    case (2 uploaded previous n etag rest)
    from "2.prems" obtain p qs where p: "uploaded n = Some p" "unquote_etag etag = mp_etag p"
      "previous < n" "rest = [] \<or> min_part_size \<le> mp_size p"
      "select_parts uploaded n rest = Inr qs" "ps = p # qs"
      by (auto simp: result_iff not_le not_less split: if_splits option.splits)
    from p(3) have order: "\<not> n \<le> previous" by simp
    have ih: "map uploaded (map fst rest) = map Some qs \<and>
      map (\<lambda>w. unquote_etag (snd w)) rest = map mp_etag qs \<and>
      sorted_wrt (<) (n # map fst rest) \<and> list_all (\<lambda>p. min_part_size \<le> mp_size p) (butlast qs)"
      by (rule "2.IH" [OF order p(1)]) (use p in auto)
    moreover from this have "rest = [] \<longleftrightarrow> qs = []" by (metis length_0_conv length_map)
    moreover have "sorted_wrt (<) (previous # map fst ((n, etag) # rest))"
      using ih p(3) by (simp add: order.strict_trans)
    ultimately show ?case using p by auto
  qed simp
  then show "map uploaded (map fst wanted) = map Some ps"
    and "map (\<lambda>w. unquote_etag (snd w)) wanted = map mp_etag ps"
    and "sorted_wrt (<) (previous # map fst wanted)"
    and "list_all (\<lambda>p. min_part_size \<le> mp_size p) (butlast ps)" by blast+
qed

end
