(* ===== verification/Bucket_Handlers.thy ===== *)
theory Bucket_Handlers
  imports Listing_Handlers Multipart_Handlers
begin

text \<open>
  Operations on whole buckets (\<^verbatim>\<open>internal/s3api/buckets.go\<close>) and their versioning state
  (\<^verbatim>\<open>internal/s3api/versioning.go\<close>).
\<close>

definition max_create_bucket_body :: nat where "max_create_bucket_body = 4 * 2 ^ 10"
definition max_versioning_body :: nat where "max_versioning_body = 2 * 2 ^ 20"

subsection \<open>Buckets\<close>

definition handle_list_buckets :: "identity option \<Rightarrow> site \<Rightarrow> response \<times> site" where
  "handle_list_buckets caller w =
     (let visible = (\<lambda>b. case caller of None \<Rightarrow> True | Some i \<Rightarrow> grant_visible (id_grant i) (bk_name b))
      in (write_xml 200 [] (Buckets_Document (map (\<lambda>b. (bk_name b, format_xml_time (bk_created_at b)))
            (filter visible (list_buckets (st_db w))))), w))"

definition check_location_constraint :: "server \<Rightarrow> surroundings \<Rightarrow> request \<Rightarrow> api_error + unit" where
  "check_location_constraint sv su r =
     (if rq_body r = [] \<and> su_clean su then Inr ()
      else case read_limited su r max_create_bucket_body of
        None \<Rightarrow> Inl err_incomplete_body
      | Some text \<Rightarrow>
          if trim_space text = [] then Inr ()
          else case xml_location (sv_xml sv) text of
            None \<Rightarrow> Inl err_malformed_xml
          | Some region \<Rightarrow>
              if region = [] \<or> region = sv_region sv then Inr ()
              else Inl (with_message err_invalid_argument
                (''The specified location constraint '' @ quoted region @
                 '' is not valid. This server serves region '' @ quoted (sv_region sv) @ ''.'')))"

definition handle_create_bucket ::
  "server \<Rightarrow> surroundings \<Rightarrow> request \<Rightarrow> string \<Rightarrow> site \<Rightarrow> response \<times> site" where
  "handle_create_bucket sv su r name w =
     (case rbind (validate_bucket_name name) (\<lambda>_. check_location_constraint sv su r) of
        Inl e \<Rightarrow> (write_error r (Api e), w)
      | Inr _ \<Rightarrow>
      (case commit (create_bucket (su_env su 0) name None) w of
        (Inl ErrBucketExists, w1) \<Rightarrow> (write_error r (Api err_bucket_already_owned_by_you), w1)
      | (Inl _, w1) \<Rightarrow> (internal r, w1)
      | (Inr _, w1) \<Rightarrow> (reply 200 [(''Location'', ''/'' @ name)], w1)))"

definition handle_head_bucket :: "server \<Rightarrow> request \<Rightarrow> string \<Rightarrow> site \<Rightarrow> response \<times> site" where
  "handle_head_bucket sv r name =
     with_bucket r name (\<lambda>b w. (reply 200 [(''x-amz-bucket-region'', sv_region sv)], w))"

definition handle_delete_bucket :: "request \<Rightarrow> string \<Rightarrow> site \<Rightarrow> response \<times> site" where
  "handle_delete_bucket r name w =
     (case validate_bucket_name name of
        Inl e \<Rightarrow> (write_error r (Api e), w)
      | Inr _ \<Rightarrow>
      (case commit (no_result (delete_bucket name)) w of
        (Inl ErrBucketNotFound, w1) \<Rightarrow> (write_error r (Api err_no_such_bucket), w1)
      | (Inl ErrBucketNotEmpty, w1) \<Rightarrow> (write_error r (Api err_bucket_not_empty), w1)
      | (Inl _, w1) \<Rightarrow> (internal r, w1)
      | (Inr _, w1) \<Rightarrow> (reply 204 [], w1)))"

subsection \<open>Versioning state\<close>

definition handle_get_bucket_versioning :: "surroundings \<Rightarrow> bucket \<Rightarrow> site \<Rightarrow> response \<times> site" where
  "handle_get_bucket_versioning su b w =
     (let state = bs_versioning (get_bucket_settings (su_settings_fail su) (st_db w) (bk_id b))
      in (write_xml 200 [] (Versioning_Document
            (if state = VersioningEnabled then ''Enabled''
             else if state = VersioningSuspended then ''Suspended'' else [])), w))"

definition requested_state :: "server \<Rightarrow> surroundings \<Rightarrow> request \<Rightarrow> api_error + versioning_state" where
  "requested_state sv su r =
     (case read_limited su r max_versioning_body of
        None \<Rightarrow> Inl err_incomplete_body
      | Some text \<Rightarrow>
      (case xml_versioning (sv_xml sv) text of
        None \<Rightarrow> Inl err_malformed_xml
      | Some status \<Rightarrow>
          if status = ''Enabled'' then Inr VersioningEnabled
          else if status = ''Suspended'' then Inr VersioningSuspended
          else Inl (with_message err_malformed_xml
            (''The versioning status must be Enabled or Suspended, got '' @ quoted status @ ''.''))))"

definition handle_put_bucket_versioning ::
  "server \<Rightarrow> surroundings \<Rightarrow> request \<Rightarrow> string \<Rightarrow> site \<Rightarrow> response \<times> site" where
  "handle_put_bucket_versioning sv su r name =
     with_bucket r name (\<lambda>b w.
       case requested_state sv su r of
         Inl e \<Rightarrow> (write_error r (Api e), w)
       | Inr requested \<Rightarrow>
       (let current = get_bucket_settings (su_settings_fail su) (st_db w) (bk_id b)
        in case transition_to (bs_versioning current) requested of
          (_, Some message) \<Rightarrow>
            (write_error r (Api (with_message err_invalid_argument (message @ ''.''))), w)
        | (next_state, None) \<Rightarrow>
            (case commit (no_result (save_bucket_settings (su_env su 0)
                    (current\<lparr>bs_versioning := next_state\<rparr>))) w of
               (Inl _, w1) \<Rightarrow> (internal r, w1)
             | (Inr _, w1) \<Rightarrow> (reply 200 [], w1))))"

subsection \<open>GET of a bucket\<close>

definition bucket_location :: "server \<Rightarrow> string" where
  "bucket_location sv = (if sv_region sv = ''us-east-1'' then [] else sv_region sv)"

definition handle_get_bucket ::
  "server \<Rightarrow> surroundings \<Rightarrow> request \<Rightarrow> identity option \<Rightarrow> string \<Rightarrow> site \<Rightarrow> response \<times> site" where
  "handle_get_bucket sv su r caller name =
     with_bucket r name (\<lambda>b w.
       if query_has r ''versioning'' then handle_get_bucket_versioning su b w
       else if query_has r ''versions'' then handle_list_object_versions r caller b w
       else if query_has r ''location'' then (write_xml 200 [] (Location_Document (bucket_location sv)), w)
       else if query_has r ''uploads'' then handle_list_multipart_uploads r b w
       else handle_list_objects r caller b w)"

lemma get_bucket_frame: "snd (handle_get_bucket sv su r caller name w) = w"
  by (simp add: handle_get_bucket_def with_bucket_def handle_get_bucket_versioning_def
    handle_list_object_versions_def handle_list_multipart_uploads_def handle_list_objects_def Let_def
    split: sum.split)

end
