(* ===== verification/Copy_Delete.thy ===== *)
theory Copy_Delete
  imports Object_Handlers
begin

text \<open>
  Batch delete and server-side copy (\<^verbatim>\<open>internal/s3api/copy_delete.go\<close>).
\<close>

definition max_delete_keys :: nat where "max_delete_keys = 1000"
definition max_delete_body_size :: nat where "max_delete_body_size = 2 * 2 ^ 20"

subsection \<open>Batch delete\<close>

text \<open>
  One target: the check of the key's grant, then the delete of a version or of the current state,
  the \<open>n\<close>-th transaction of the request.
\<close>

definition may_delete :: "identity option \<Rightarrow> bucket \<Rightarrow> string \<Rightarrow> bool" where
  "may_delete caller b key \<longleftrightarrow>
     (case caller of None \<Rightarrow> True | Some i \<Rightarrow> grant_allows (id_grant i) (bk_name b) key PermissionDelete)"

definition delete_failure :: "string \<Rightarrow> string \<Rightarrow> api_error \<Rightarrow> delete_error" where
  "delete_failure key version_id e =
     \<lparr>dr_key = key, dr_version_id = version_id, dr_code = ae_code e, dr_message = ae_message e\<rparr>"

definition deleted :: "string \<Rightarrow> string \<Rightarrow> deletion \<Rightarrow> deleted_entry" where
  "deleted key version_id d =
     \<lparr>de_key = key, de_version_id = version_id, de_delete_marker = d_delete_marker d,
      de_marker_version_id = d_marker_version_id d\<rparr>"

definition delete_target ::
  "surroundings \<Rightarrow> write_options \<Rightarrow> identity option \<Rightarrow> bucket \<Rightarrow> nat \<Rightarrow> string \<times> string \<Rightarrow> site \<Rightarrow>
     (delete_error + deleted_entry) \<times> site" where
  "delete_target su opts caller b n target w =
     (let (key, version_id) = target
      in if \<not> may_delete caller b key then (Inl (delete_failure key [] err_access_denied), w)
      else if version_id \<noteq> [] then
        (case commit (delete_object_version (su_env su n) (bk_id b) key version_id) w of
           (Inl ErrVersionNotFound, w1) \<Rightarrow> (Inl (delete_failure key version_id err_no_such_version), w1)
         | (Inl _, w1) \<Rightarrow> (Inl (delete_failure key version_id err_internal_error), w1)
         | (Inr d, w1) \<Rightarrow> (Inr (deleted key version_id d), w1))
      else
        (case commit (delete_object (su_env su n) (bk_id b) key opts) w of
           (Inl _, w1) \<Rightarrow> (Inl (delete_failure key [] err_internal_error), w1)
         | (Inr d, w1) \<Rightarrow> (Inr (deleted key [] d), w1)))"

fun delete_targets ::
  "surroundings \<Rightarrow> write_options \<Rightarrow> identity option \<Rightarrow> bucket \<Rightarrow> bool \<Rightarrow> nat \<Rightarrow> (string \<times> string) list \<Rightarrow>
     site \<Rightarrow> (deleted_entry list \<times> delete_error list) \<times> site" where
  "delete_targets su opts caller b quiet n [] w = (([], []), w)"
| "delete_targets su opts caller b quiet n (target # rest) w =
     (let (outcome, w1) = delete_target su opts caller b n target w;
          ((ds, es), w2) = delete_targets su opts caller b quiet (Suc n) rest w1
      in (case outcome of
            Inl e \<Rightarrow> (ds, e # es)
          | Inr d \<Rightarrow> (if quiet then ds else d # ds, es), w2))"

definition delete_request :: "server \<Rightarrow> surroundings \<Rightarrow> request \<Rightarrow> api_error + bool \<times> (string \<times> string) list" where
  "delete_request sv su r =
     (case read_limited su r max_delete_body_size of
        None \<Rightarrow> Inl err_incomplete_body
      | Some text \<Rightarrow>
      (case xml_delete (sv_xml sv) text of
        None \<Rightarrow> Inl err_malformed_xml
      | Some (quiet, targets) \<Rightarrow>
          if targets = [] then Inl (with_message err_malformed_xml ''The delete request listed no keys.'')
          else if max_delete_keys < length targets
          then Inl (with_message err_malformed_xml (''A delete request may name at most '' @
            show_nat max_delete_keys @ '' keys, got '' @ show_nat (length targets) @ ''.''))
          else Inr (quiet, targets)))"

definition handle_delete_objects ::
  "server \<Rightarrow> surroundings \<Rightarrow> request \<Rightarrow> identity option \<Rightarrow> string \<Rightarrow> site \<Rightarrow> response \<times> site" where
  "handle_delete_objects sv su r caller name =
     with_bucket r name (\<lambda>b w.
       case delete_request sv su r of
         Inl e \<Rightarrow> (write_error r (Api e), w)
       | Inr (quiet, targets) \<Rightarrow>
           (let ((ds, es), w1) = delete_targets su (write_options_for su (st_db w) caller b) caller b quiet 0
                  targets w
            in (write_xml 200 [] (Delete_Document ds es), w1)))"

subsection \<open>Copy\<close>

definition copy_source_object ::
  "db \<Rightarrow> bucket \<Rightarrow> string \<Rightarrow> string \<Rightarrow> api_error + object" where
  "copy_source_object s b key version_id =
     (if version_id \<noteq> [] then
        (case get_object_version s (bk_id b) key version_id of
           Inr obj \<Rightarrow> Inr obj
         | Inl ErrIsDeleteMarker \<Rightarrow> Inl (with_message err_invalid_argument
             ''The source version is a delete marker and has no contents to copy.'')
         | Inl ErrVersionNotFound \<Rightarrow> Inl err_no_such_version
         | Inl ErrObjectNotFound \<Rightarrow> Inl err_no_such_version
         | Inl _ \<Rightarrow> Inl err_internal_error)
      else
        (case get_object s (bk_id b) key of
           Inr obj \<Rightarrow> Inr obj
         | Inl ErrObjectNotFound \<Rightarrow> Inl (with_message err_no_such_key
             (''The source key '' @ quoted key @ '' does not exist.''))
         | Inl _ \<Rightarrow> Inl err_internal_error))"

definition metadata_directive :: "request \<Rightarrow> string" where
  "metadata_directive r =
     (let d = to_upper (header_get (rq_header r) ''x-amz-metadata-directive'')
      in if d = [] then ''COPY'' else d)"

text \<open>Everything up to the write: the object to store and the version it was copied from.\<close>

definition copied_object ::
  "db \<Rightarrow> request \<Rightarrow> bucket \<Rightarrow> string \<Rightarrow> string \<Rightarrow> api_error + object \<times> string" where
  "copied_object s r destination key copy_source =
     rbind (validate_object_key key) (\<lambda>_.
     rbind (parse_copy_source copy_source) (\<lambda>(source_name, source_key, version_id).
     rbind (case get_bucket s source_name of
         Inr b \<Rightarrow> Inr b
       | Inl ErrBucketNotFound \<Rightarrow> Inl (with_message err_no_such_bucket
           (''The source bucket '' @ quoted source_name @ '' does not exist.''))
       | Inl _ \<Rightarrow> Inl err_internal_error) (\<lambda>source_bucket.
     rbind (copy_source_object s source_bucket source_key version_id) (\<lambda>source.
     let directive = metadata_directive r
     in if bk_id source_bucket = bk_id destination \<and> source_key = key \<and> directive = ''COPY'' \<and> version_id = []
        then Inl (with_message err_invalid_argument
          (''This copy request is illegal because it is trying to copy an object to itself '' @
           ''without changing the object's metadata.''))
        else rbind (if directive = ''REPLACE''
            then rbind (user_metadata (rq_header r)) (\<lambda>md. Inr (content_type_of r, md))
            else Inr (o_content_type source, o_metadata source)) (\<lambda>(ct, md).
          Inr (\<lparr>o_id = [], o_bucket_id = bk_id destination, o_key = key, o_blob_digest = o_blob_digest source,
                o_size = o_size source, o_etag = o_etag source, o_content_type = ct, o_metadata = md,
                o_version_id = [], o_created_at = zero_time, o_updated_at = zero_time\<rparr>, version_id))))))"

definition handle_copy_object ::
  "surroundings \<Rightarrow> request \<Rightarrow> identity option \<Rightarrow> string \<Rightarrow> string \<Rightarrow> string \<Rightarrow> site \<Rightarrow> response \<times> site" where
  "handle_copy_object su r caller name key copy_source =
     with_bucket r name (\<lambda>b w.
       case copied_object (st_db w) r b key copy_source of
         Inl e \<Rightarrow> (write_error r (Api e), w)
       | Inr (obj, version_id) \<Rightarrow>
       (case commit (put_object (su_env su 0) obj (write_options_for su (st_db w) caller b)) w of
         (Inl _, w1) \<Rightarrow> (internal r, w1)
       | (Inr row, w1) \<Rightarrow>
           (write_xml 200
             (version_headers (o_version_id row) @
              (if version_id \<noteq> [] then [(''x-amz-copy-source-version-id'', version_id)] else []))
             (Copy_Document (quote_etag (o_etag row)) (format_xml_time (o_updated_at row))), w1)))"

subsection \<open>Effects\<close>

lemma copied_object_Inr:
  assumes "copied_object s r b key source = Inr (obj, v)"
  obtains sn sk sb src where "parse_copy_source source = Inr (sn, sk, v)" "get_bucket s sn = Inr sb"
    "copy_source_object s sb sk v = Inr src" "o_blob_digest obj = o_blob_digest src"
    "o_size obj = o_size src" "o_etag obj = o_etag src" "o_key obj = key" "o_bucket_id obj = bk_id b"
    "metadata_directive r \<noteq> ''REPLACE'' \<Longrightarrow>
      o_content_type obj = o_content_type src \<and> o_metadata obj = o_metadata src"
    "key \<noteq> []"
  using assms
  by (auto simp: copied_object_def result_iff validate_object_key_iff Let_def
    split: if_splits sum.splits db_error.splits)

end
