(* ===== verification/Service.thy ===== *)
theory Service
  imports Bucket_Handlers Copy_Delete
begin

text \<open>
  The S3 listener as a whole: CORS, authentication, anonymous access, routing and the handlers in
  the order of \<^verbatim>\<open>Handler\<close>, \<^verbatim>\<open>Authenticate\<close> (\<^verbatim>\<open>middleware.go\<close>) and \<^verbatim>\<open>route\<close> (\<^verbatim>\<open>server.go\<close>).
\<close>

fun perform ::
  "server \<Rightarrow> surroundings \<Rightarrow> request \<Rightarrow> identity option \<Rightarrow> operation \<Rightarrow> site \<Rightarrow> response \<times> site" where
  "perform sv su r caller Op_List_Buckets w = handle_list_buckets caller w"
| "perform sv su r caller (Op_Delete_Objects b) w = handle_delete_objects sv su r caller b w"
| "perform sv su r caller (Op_Put_Bucket_Versioning b) w = handle_put_bucket_versioning sv su r b w"
| "perform sv su r caller (Op_Create_Bucket b) w = handle_create_bucket sv su r b w"
| "perform sv su r caller (Op_Get_Bucket b) w = handle_get_bucket sv su r caller b w"
| "perform sv su r caller (Op_Head_Bucket b) w = handle_head_bucket sv r b w"
| "perform sv su r caller (Op_Delete_Bucket b) w = handle_delete_bucket r b w"
| "perform sv su r caller (Op_Create_Multipart_Upload b k) w = handle_create_multipart_upload su r b k w"
| "perform sv su r caller (Op_Upload_Part b k u) w = handle_upload_part sv su r caller b u w"
| "perform sv su r caller (Op_Complete_Multipart_Upload b k u) w =
     handle_complete_multipart_upload sv su r caller b u w"
| "perform sv su r caller (Op_Abort_Multipart_Upload b k u) w = handle_abort_multipart_upload r b u w"
| "perform sv su r caller (Op_List_Parts b k u) w = handle_list_parts r b u w"
| "perform sv su r caller (Op_Copy_Object b k source) w = handle_copy_object su r caller b k source w"
| "perform sv su r caller (Op_Put_Object b k) w = handle_put_object sv su r caller b k w"
| "perform sv su r caller (Op_Get_Object b k) w = handle_get_object sv su r b k w"
| "perform sv su r caller (Op_Head_Object b k) w = handle_head_object sv r b k w"
| "perform sv su r caller (Op_Delete_Object b k) w = handle_delete_object su r caller b k w"

definition routed :: "server \<Rightarrow> surroundings \<Rightarrow> request \<Rightarrow> identity option \<Rightarrow> site \<Rightarrow> response \<times> site" where
  "routed sv su r caller w =
     (case route sv (grant_for caller) r of
        Inl e \<Rightarrow> (write_error r (Api e), w)
      | Inr op \<Rightarrow> perform sv su r caller op w)"

definition authenticate :: "server \<Rightarrow> surroundings \<Rightarrow> request \<Rightarrow> site \<Rightarrow> response \<times> site" where
  "authenticate sv su r w =
     (case verify (sv_verifier sv) r of
        Inr i \<Rightarrow> routed sv su r (Some i) w
      | Inl e \<Rightarrow>
          if allow_anonymous sv (st_db w) r then routed sv su r None w else (write_error r e, w))"

definition serve :: "server \<Rightarrow> surroundings \<Rightarrow> request \<Rightarrow> site \<Rightarrow> response \<times> site" where
  "serve sv su r w =
     (case apply_cors sv (su_settings_fail su) (st_db w) r of
        (hs, Some status) \<Rightarrow> (reply status hs, w)
      | (hs, None) \<Rightarrow> (let (resp, w') = authenticate sv su r w in (with_headers hs resp, w')))"

subsection \<open>Operations that only read\<close>

lemma perform_reads_only:
  assumes "reads_only op"
  shows "snd (perform sv su r caller op w) = w"
  using assms get_bucket_frame get_object_frame head_object_frame
  by (cases op)
    (simp_all add: handle_list_buckets_def handle_head_bucket_def handle_list_parts_def with_bucket_def
      Let_def split: sum.split)

lemma routed_reads_only:
  assumes "\<And>op. route sv (grant_for caller) r = Inr op \<Longrightarrow> reads_only op"
  shows "snd (routed sv su r caller w) = w"
  using assms perform_reads_only by (simp add: routed_def split: sum.split)

lemma serve_state:
  "snd (serve sv su r w) =
     (if snd (apply_cors sv (su_settings_fail su) (st_db w) r) = None then snd (authenticate sv su r w) else w)"
  by (simp add: serve_def case_prod_unfold Let_def split: option.split)

lemma serve_cases:
  assumes "snd (serve sv su r w) \<noteq> w"
  obtains i op where "verify (sv_verifier sv) r = Inr i" "route sv (Some (id_grant i)) r = Inr op"
    "\<not> reads_only op" "snd (serve sv su r w) = snd (perform sv su r (Some i) op w)"
proof -
  have state: "snd (serve sv su r w) = snd (authenticate sv su r w)" "snd (authenticate sv su r w) \<noteq> w"
    using assms by (auto simp: serve_state split: if_splits)
  show ?thesis
  proof (cases "verify (sv_verifier sv) r")
    case (Inl e)
    have "snd (routed sv su r None w) = w" if "allow_anonymous sv (st_db w) r"
      by (rule routed_reads_only)
        (use that in \<open>auto simp: allow_anonymous_def grant_for_def intro: anonymous_reads_only\<close>)
    with Inl state(2) have False by (auto simp: authenticate_def split: if_splits)
    then show ?thesis ..
  next
    case (Inr i)
    then have auth: "snd (authenticate sv su r w) = snd (routed sv su r (Some i) w)"
      by (simp add: authenticate_def)
    obtain op where op: "route sv (Some (id_grant i)) r = Inr op"
      using auth state(2) by (auto simp: routed_def grant_for_def split: sum.splits)
    then have "snd (routed sv su r (Some i) w) = snd (perform sv su r (Some i) op w)"
      by (simp add: routed_def grant_for_def)
    moreover have "\<not> reads_only op"
      using calculation auth state(2) perform_reads_only by metis
    ultimately show ?thesis using Inr op auth state(1) that by simp
  qed
qed

end
