(* ===== verification/Service_Refinement.thy ===== *)
theory Service_Refinement
  imports Service System
begin

text \<open>
  Every request is a sequence of the steps of the world of \<open>System\<close>: what holds of every reachable
  world holds of every state the listener goes through.
\<close>

subsection \<open>The world of a site\<close>

definition world_of :: "site \<Rightarrow> string list \<Rightarrow> world" where
  "world_of w pending = \<lparr>w_db = st_db w, w_disk = st_disk w, w_pending = pending\<rparr>"

abbreviation steps :: "server \<Rightarrow> bool \<Rightarrow> world \<Rightarrow> world \<Rightarrow> bool" where
  "steps sv guarded \<equiv> (world_step (vf_hashes (sv_verifier sv)) (sv_root sv) guarded)\<^sup>*\<^sup>*"

text \<open>The body reaches the copy loop as it is, and other writers only add blobs of their own.\<close>

definition faithful :: "server \<Rightarrow> surroundings \<Rightarrow> bool" where
  "faithful sv su \<longleftrightarrow> (\<forall>body. delivers (su_chop su body) body) \<and>
     well_behaved (vf_hashes (sv_verifier sv)) (sv_root sv) (su_others su)"

lemma world_of_simps [simp]:
  "w_db (world_of w P) = st_db w" "w_disk (world_of w P) = st_disk w" "w_pending (world_of w P) = P"
  by (simp_all add: world_of_def)

lemma one_step: "world_step h root guarded x y \<Longrightarrow> y = z \<Longrightarrow> (world_step h root guarded)\<^sup>*\<^sup>* x z"
  by auto

lemma commit_step:
  assumes "commit tx w = (res, w')" "settle tx = run t" "brings t \<subseteq> set P"
  shows "steps sv guarded (world_of w P) (world_of w' P)"
proof -
  have "w' = w\<lparr>st_db := run t (st_db w)\<rparr>"
    using commit_site [of tx w] assms(1,2) by simp
  then have "(world_of w P)\<lparr>w_db := run t (w_db (world_of w P))\<rparr> = world_of w' P"
    by (simp add: world_of_def)
  then show ?thesis
    by (rule one_step [OF world_step.commit, rotated]) (use assms(3) in simp)
qed

lemma finish_step: "steps sv guarded (world_of w (d # P)) (world_of w P)"
  by (rule one_step [OF world_step.finished [of _ _ _ _ d]]) (simp add: world_of_def)

subsection \<open>Storing bytes\<close>

text \<open>A copy that fails does so before the known digest matters.\<close>

lemma store_put_copy_fails:
  assumes "fst (copy_with_context src []) = Inl e"
  shows "store_put h root faults others t src known f = store_put h root faults others t src [] f"
proof (cases "copy_with_context src []")
  case (Pair copied written)
  with assms show ?thesis
    by (cases "call faults Create_Temp"; cases "call faults Chmod_Temp") (simp_all add: store_put_def Let_def)
qed

lemma store_step:
  assumes "store_put h (sv_root sv) faults others t src known (st_disk w) = (res, f)"
    and "h = vf_hashes (sv_verifier sv)" "well_behaved h (sv_root sv) others"
    and "source_error src = None \<Longrightarrow> trusted_digest h known (source_bytes src)"
  shows "case res of
      Inl _ \<Rightarrow> steps sv guarded (world_of w P) (world_of (w\<lparr>st_disk := f\<rparr>) P)
    | Inr b \<Rightarrow> steps sv guarded (world_of w P) (world_of (w\<lparr>st_disk := f\<rparr>) (b_digest b # P))"
proof -
  obtain known' where put: "store_put h (sv_root sv) faults others t src known' (st_disk w) = (res, f)"
    and trusted: "trusted_digest h known' (source_bytes src)"
  proof (cases "copy_with_context src []")
    case (Pair copied written)
    show ?thesis
    proof (cases copied)
      case (Inl e)
      have "trusted_digest h [] (source_bytes src)" by (simp add: trusted_digest_def)
      moreover have "store_put h (sv_root sv) faults others t src [] (st_disk w) = (res, f)"
        using store_put_copy_fails [of src e h "sv_root sv" faults others t known "st_disk w"] assms(1) Inl Pair
        by simp
      ultimately show ?thesis by (rule that [rotated])
    next
      case (Inr n)
      with copied_source_error Pair have "source_error src = None" by blast
      with assms(1,4) that show ?thesis by blast
    qed
  qed
  show ?thesis
  proof (cases res)
    case (Inl e)
    have "steps sv guarded (world_of w P) (world_of (w\<lparr>st_disk := f\<rparr>) P)"
      by (rule one_step [OF world_step.store_failed [where w = "world_of w P" and f' = f]])
        (use put Inl trusted assms(2,3) in \<open>simp_all add: world_of_def\<close>)
    with Inl show ?thesis by simp
  next
    case (Inr b)
    have "steps sv guarded (world_of w P) (world_of (w\<lparr>st_disk := f\<rparr>) (b_digest b # P))"
      by (rule one_step [OF world_step.stored [where w = "world_of w P" and f' = f and b = b]])
        (use put Inr trusted assms(2,3) in \<open>simp_all add: world_of_def\<close>)
    with Inr show ?thesis by simp
  qed
qed

lemma upload_blob_steps:
  assumes "upload_blob sv su r i w = (res, w')" "faithful sv su"
  shows "case res of
      Inl _ \<Rightarrow> steps sv guarded (world_of w P) (world_of w' P)
    | Inr b \<Rightarrow> steps sv guarded (world_of w P) (world_of w' (b_digest b # P))"
proof -
  let ?h = "vf_hashes (sv_verifier sv)"
  let ?body = "read_body ?h i (rq_body r, su_clean su)"
  obtain out f where put: "store_put ?h (sv_root sv) (su_faults su) (su_others su) (su_temp_name su)
      (su_chop su ?body) (trusted_content_sha256 i) (st_disk w) = (out, f)"
    by (rule prod.exhaust)
  have del: "delivers (su_chop su ?body) ?body" and wb: "well_behaved ?h (sv_root sv) (su_others su)"
    using assms(2) unfolding faithful_def by blast+
  have "trusted_digest ?h (trusted_content_sha256 i) (source_bytes (su_chop su ?body))"
    if "source_error (su_chop su ?body) = None"
    using trusted_after_read [of ?h i "(rq_body r, su_clean su)"] del that by (simp add: delivers_def)
  note step = store_step [OF put refl wb this, of guarded P]
  from assms(1) put have "w' = w\<lparr>st_disk := f\<rparr>"
    "res = (case out of Inl e \<Rightarrow> Inl (upload_failure (snd ?body) e) | Inr b \<Rightarrow> Inr b)"
    by (auto simp: upload_blob_def Let_def)
  with step show ?thesis by (cases out) simp_all
qed

text \<open>A digest that a row points at may be stored again without its bytes.\<close>

lemma source_step:
  assumes "d \<in> live (st_db w)"
  shows "steps sv guarded (world_of w P) (world_of w (d # P))"
  by (rule one_step [OF world_step.read_source [of d]]) (use assms in \<open>simp_all add: world_of_def\<close>)

lemma get_object_version_live:
  assumes "get_object_version s b k vid = Inr obj"
  shows "o_blob_digest obj \<in> live s"
  using assms
  by (auto simp: get_object_version_def Let_def result_iff read_current_def get_version_def
    split: option.splits if_splits intro: liveI)

lemma get_object_live: "get_object s b k = Inr obj \<Longrightarrow> o_blob_digest obj \<in> live s"
  by (auto simp: get_object_def split: option.splits intro: liveI)

lemma copy_source_live: "copy_source_object s b k v = Inr obj \<Longrightarrow> o_blob_digest obj \<in> live s"
  by (auto simp: copy_source_object_def get_object_version_live get_object_live
    split: if_splits sum.splits db_error.splits)

subsection \<open>Handlers\<close>

text \<open>A handler that runs the named transactions on metadata alone.\<close>

lemma commit_alone:
  assumes "commit tx w = (res, w')" "settle tx = run t" "brings t = {}"
  shows "steps sv guarded (world_of w P) (world_of w' P)"
  using commit_step [OF assms(1,2)] assms(3) by simp

text \<open>Bytes on disk first, then a transaction that brings in their digest.\<close>

lemma stored_then_committed:
  assumes "steps sv guarded (world_of w P) (world_of w1 (d # P))"
    and "commit tx w1 = (res, w2)" "settle tx = run t" "brings t \<subseteq> {d}"
  shows "steps sv guarded (world_of w P) (world_of w2 P)"
proof -
  have "steps sv guarded (world_of w1 (d # P)) (world_of w2 (d # P))"
    by (rule commit_step [OF assms(2,3)]) (use assms(4) in auto)
  with assms(1) finish_step show ?thesis by (meson rtranclp_trans)
qed

lemma put_object_steps:
  assumes "handle_put_object sv su r caller name key w = (resp, w')" "faithful sv su"
  shows "steps sv guarded (world_of w P) (world_of w' P)"
proof -
  note run = assms(1) [unfolded handle_put_object_def]
  from run show ?thesis
  proof (cases rule: with_bucket_cases)
    case (found b)
    show ?thesis
    proof (cases "put_object_checks r caller key")
      case (Inl e)
      with found show ?thesis by simp
    next
      case (Inr mi)
      obtain md i where mi: "mi = (md, i)" by (cases mi)
      note found' = found(2) [unfolded Inr mi sum.case prod.case]
      obtain res w1 where up: "upload_blob sv su r i w = (res, w1)" by (cases "upload_blob sv su r i w")
      note stored = upload_blob_steps [OF up assms(2), of guarded P]
      show ?thesis
      proof (cases res)
        case (Inl e)
        with found' up stored show ?thesis by auto
      next
        case (Inr bl)
        let ?obj = "uploaded_object b key r md bl" and ?opts = "write_options_for su (st_db w1) caller b"
        obtain res2 w2 where c: "commit (put_object (su_env su 0) ?obj ?opts) w1 = (res2, w2)"
          by (cases "commit (put_object (su_env su 0) ?obj ?opts) w1")
        have "w' = w2" using found' up Inr c by (auto split: sum.splits)
        moreover have "steps sv guarded (world_of w P) (world_of w2 P)"
          by (rule stored_then_committed [OF _ c, where t = "Put_Object (su_env su 0) ?obj ?opts"])
            (use stored Inr in \<open>simp_all add: uploaded_object_def fun_eq_iff\<close>)
        ultimately show ?thesis by simp
      qed
    qed
  qed simp
qed

lemma upload_part_steps:
  assumes "handle_upload_part sv su r caller name upload_id w = (resp, w')" "faithful sv su"
  shows "steps sv guarded (world_of w P) (world_of w' P)"
proof -
  note run = assms(1) [unfolded handle_upload_part_def]
  from run show ?thesis
  proof (cases rule: with_bucket_cases)
    case (found b)
    let ?checks = "rbind (parse_part_number (query_get r ''partNumber'')) (\<lambda>n.
      rbind (require_upload (st_db w) b upload_id) (\<lambda>u.
      case caller of None \<Rightarrow> Inl err_access_denied | Some i \<Rightarrow> Inr (n, u, i)))"
    show ?thesis
    proof (cases ?checks)
      case (Inl e)
      with found show ?thesis by simp
    next
      case (Inr nui)
      obtain n u i where nui: "nui = (n, u, i)" by (cases nui)
      note found' = found(2) [unfolded Inr nui sum.case prod.case]
      obtain res w1 where up: "upload_blob sv su r i w = (res, w1)" by (cases "upload_blob sv su r i w")
      note stored = upload_blob_steps [OF up assms(2), of guarded P]
      show ?thesis
      proof (cases res)
        case (Inl e)
        with found' up stored show ?thesis by auto
      next
        case (Inr bl)
        let ?part = "\<lparr>mp_part_number = n, mp_blob_digest = b_digest bl, mp_size = b_size bl,
          mp_etag = b_etag bl, mp_uploaded_at = zero_time\<rparr>"
        let ?tx = "no_result (put_multipart_part (su_env su 0) (mu_id u) ?part)"
        obtain res2 w2 where c: "commit ?tx w1 = (res2, w2)" by (cases "commit ?tx w1")
        have "w' = w2" using found' up Inr c by (auto split: sum.splits)
        moreover have "steps sv guarded (world_of w P) (world_of w2 P)"
          by (rule stored_then_committed [OF _ c, where t = "Put_Part (su_env su 0) (mu_id u) ?part"])
            (use stored Inr in \<open>simp_all add: fun_eq_iff\<close>)
        ultimately show ?thesis by simp
      qed
    qed
  qed simp
qed

lemma copy_object_steps:
  assumes "handle_copy_object su r caller name key source w = (resp, w')"
  shows "steps sv guarded (world_of w P) (world_of w' P)"
proof -
  note run = assms [unfolded handle_copy_object_def]
  from run show ?thesis
  proof (cases rule: with_bucket_cases)
    case (found b)
    show ?thesis
    proof (cases "copied_object (st_db w) r b key source")
      case (Inl e)
      with found show ?thesis by simp
    next
      case (Inr ov)
      obtain obj v where ov: "ov = (obj, v)" by (cases ov)
      note found' = found(2) [unfolded Inr ov sum.case prod.case]
      let ?opts = "write_options_for su (st_db w) caller b"
      obtain res w1 where c: "commit (put_object (su_env su 0) obj ?opts) w = (res, w1)"
        by (cases "commit (put_object (su_env su 0) obj ?opts) w")
      have "o_blob_digest obj \<in> live (st_db w)"
        using copied_object_Inr [OF Inr [unfolded ov]] copy_source_live by metis
      then have "steps sv guarded (world_of w P) (world_of w (o_blob_digest obj # P))" by (rule source_step)
      then have "steps sv guarded (world_of w P) (world_of w1 P)"
        by (rule stored_then_committed [OF _ c, where t = "Put_Object (su_env su 0) obj ?opts"])
          (simp_all add: fun_eq_iff)
      moreover have "w' = w1" using found' c by (auto split: sum.splits)
      ultimately show ?thesis by simp
    qed
  qed simp
qed

lemma complete_upload_steps:
  assumes "handle_complete_multipart_upload sv su r caller name upload_id w = (resp, w')" "faithful sv su"
  shows "steps sv guarded (world_of w P) (world_of w' P)"
proof -
  note run = assms(1) [unfolded handle_complete_multipart_upload_def]
  let ?h = "vf_hashes (sv_verifier sv)"
  from run show ?thesis
  proof (cases rule: with_bucket_cases)
    case (found b)
    let ?checks = "rbind (require_upload (st_db w) b upload_id) (\<lambda>u.
      rbind (complete_request sv su r) (\<lambda>wanted.
      rbind (select_parts (parts_by_number (list_multipart_parts (st_db w) (mu_id u))) 0 wanted)
        (\<lambda>selected. Inr (u, selected))))"
    show ?thesis
    proof (cases ?checks)
      case (Inl e)
      with found show ?thesis by simp
    next
      case (Inr us)
      obtain u ps where us: "us = (u, ps)" by (cases us)
      note found' = found(2) [unfolded Inr us sum.case prod.case]
      let ?chop = "\<lambda>bytes. su_chop su (bytes, None)"
      obtain res f where cat: "store_concat ?h (sv_root sv) (su_faults su) (su_others su) (su_temp_name su)
          ?chop (map mp_blob_digest ps) (st_disk w) = (res, f)"
        by (rule prod.exhaust)
      let ?w1 = "w\<lparr>st_disk := f\<rparr>"
      have wb: "well_behaved ?h (sv_root sv) (su_others su)" using assms(2) by (simp add: faithful_def)
      have put: "case res of Inl _ \<Rightarrow> steps sv guarded (world_of w P) (world_of ?w1 P)
          | Inr bl \<Rightarrow> steps sv guarded (world_of w P) (world_of ?w1 (b_digest bl # P))"
        if "store_put ?h (sv_root sv) (su_faults su) (su_others su) (su_temp_name su) src [] (st_disk w) = (res, f)"
        for src
        by (rule store_step [OF that refl wb]) (simp add: trusted_digest_def)
      have stored: "case res of Inl _ \<Rightarrow> steps sv guarded (world_of w P) (world_of ?w1 P)
          | Inr bl \<Rightarrow> steps sv guarded (world_of w P) (world_of ?w1 (b_digest bl # P))"
        using cat put by (auto simp: store_concat_def split: if_splits sum.splits)
      show ?thesis
      proof (cases "\<exists>bl. res = Inr bl \<and> b_size bl = sum_list (map mp_size ps)")
        case False
        have "w' = ?w1" using found' cat False by (auto simp: Let_def split: sum.splits if_splits)
        moreover have "steps sv guarded (world_of ?w1 (b_digest bl # P)) (world_of ?w1 P)" for bl
          by (rule finish_step)
        ultimately show ?thesis using stored by (auto split: sum.splits intro: rtranclp_trans)
      next
        case True
        then obtain bl where bl: "res = Inr bl" "b_size bl = sum_list (map mp_size ps)" by blast
        let ?obj = "completed_object ?h b u ps bl" and ?opts = "write_options_for su (st_db ?w1) caller b"
        let ?tx = "complete_multipart_upload (su_env su 0) (mu_id u) ?obj ?opts"
        obtain res2 w2 where c: "commit ?tx ?w1 = (res2, w2)" by (cases "commit ?tx ?w1")
        have "w' = w2" using found' cat bl c by (auto simp: Let_def split: sum.splits)
        moreover have "steps sv guarded (world_of w P) (world_of w2 P)"
          by (rule stored_then_committed [OF _ c,
                where t = "Complete_Upload (su_env su 0) (mu_id u) ?obj ?opts"])
            (use stored bl in \<open>simp_all add: completed_object_def fun_eq_iff\<close>)
        ultimately show ?thesis by simp
      qed
    qed
  qed simp
qed

subsection \<open>Handlers of metadata alone\<close>

text \<open>
  A handler that commits one transaction leaves what \<open>commit\<close> leaves, whatever it answers.
\<close>

lemma delete_object_steps:
  assumes "handle_delete_object su r caller name key w = (resp, w')"
  shows "steps sv guarded (world_of w P) (world_of w' P)"
proof -
  note run = assms [unfolded handle_delete_object_def]
  from run show ?thesis
  proof (cases rule: with_bucket_cases)
    case (found b)
    let ?v = "query_get r ''versionId''" and ?opts = "write_options_for su (st_db w) caller b"
    let ?vtx = "delete_object_version (su_env su 0) (bk_id b) key ?v"
    let ?otx = "delete_object (su_env su 0) (bk_id b) key ?opts"
    show ?thesis
    proof (cases "?v = []")
      case False
      obtain res w1 where c: "commit ?vtx w = (res, w1)" by (cases "commit ?vtx w")
      have "w' = w1" using found(2) False c by (auto simp: Let_def split: sum.splits db_error.splits)
      with commit_alone [OF c, where t = "Delete_Version (su_env su 0) (bk_id b) key ?v"] show ?thesis
        by (simp add: fun_eq_iff)
    next
      case True
      obtain res w1 where c: "commit ?otx w = (res, w1)" by (cases "commit ?otx w")
      have "w' = w1" using found(2) True c by (auto simp: Let_def split: sum.splits)
      with commit_alone [OF c, where t = "Delete_Object (su_env su 0) (bk_id b) key ?opts"] show ?thesis
        by (simp add: fun_eq_iff)
    qed
  qed simp
qed

lemma delete_target_steps:
  assumes "delete_target su opts caller b n target w = (out, w')"
  shows "steps sv guarded (world_of w P) (world_of w' P)"
proof -
  obtain key v where target: "target = (key, v)" by (cases target)
  let ?vtx = "delete_object_version (su_env su n) (bk_id b) key v"
  let ?otx = "delete_object (su_env su n) (bk_id b) key opts"
  obtain res1 w1 where c1: "commit ?vtx w = (res1, w1)" by (cases "commit ?vtx w")
  obtain res2 w2 where c2: "commit ?otx w = (res2, w2)" by (cases "commit ?otx w")
  have "w' = w \<or> w' = w1 \<or> w' = w2"
    using assms c1 c2
    by (auto simp: delete_target_def target Let_def split: if_splits sum.splits db_error.splits)
  moreover have "steps sv guarded (world_of w P) (world_of w1 P)"
    by (rule commit_alone [OF c1, where t = "Delete_Version (su_env su n) (bk_id b) key v"])
      (simp_all add: fun_eq_iff)
  moreover have "steps sv guarded (world_of w P) (world_of w2 P)"
    by (rule commit_alone [OF c2, where t = "Delete_Object (su_env su n) (bk_id b) key opts"])
      (simp_all add: fun_eq_iff)
  ultimately show ?thesis by auto
qed

lemma delete_targets_steps:
  "steps sv guarded (world_of w P) (world_of (snd (delete_targets su opts caller b quiet n targets w)) P)"
proof (induction targets arbitrary: n w)
  case (Cons target rest)
  obtain out w1 where t: "delete_target su opts caller b n target w = (out, w1)"
    by (cases "delete_target su opts caller b n target w")
  have "snd (delete_targets su opts caller b quiet n (target # rest) w) =
      snd (delete_targets su opts caller b quiet (Suc n) rest w1)"
    by (simp add: t Let_def case_prod_unfold)
  with delete_target_steps [OF t] Cons.IH show ?case by (metis rtranclp_trans)
qed simp

lemma delete_objects_steps:
  assumes "handle_delete_objects sv su r caller name w = (resp, w')"
  shows "steps sv guarded (world_of w P) (world_of w' P)"
proof -
  note run = assms [unfolded handle_delete_objects_def]
  from run show ?thesis
  proof (cases rule: with_bucket_cases)
    case (found b)
    show ?thesis
    proof (cases "delete_request sv su r")
      case (Inl e)
      with found show ?thesis by simp
    next
      case (Inr qt)
      obtain quiet targets where qt: "qt = (quiet, targets)" by (cases qt)
      have "w' = snd (delete_targets su (write_options_for su (st_db w) caller b) caller b quiet 0 targets w)"
        using found(2) Inr qt by (auto simp: Let_def case_prod_unfold)
      with delete_targets_steps show ?thesis by simp
    qed
  qed simp
qed

lemma create_bucket_steps:
  assumes "handle_create_bucket sv su r name w = (resp, w')"
  shows "steps sv guarded (world_of w P) (world_of w' P)"
proof -
  let ?tx = "create_bucket (su_env su 0) name None"
  obtain res w1 where c: "commit ?tx w = (res, w1)" by (cases "commit ?tx w")
  have "w' = w \<or> w' = w1"
    using assms c by (auto simp: handle_create_bucket_def split: sum.splits db_error.splits)
  moreover have "steps sv guarded (world_of w P) (world_of w1 P)"
    by (rule commit_alone [OF c, where t = "transaction.Create_Bucket (su_env su 0) name None"])
      (simp_all add: fun_eq_iff)
  ultimately show ?thesis by auto
qed

lemma delete_bucket_steps:
  assumes "handle_delete_bucket r name w = (resp, w')"
  shows "steps sv guarded (world_of w P) (world_of w' P)"
proof -
  let ?tx = "no_result (delete_bucket name)"
  obtain res w1 where c: "commit ?tx w = (res, w1)" by (cases "commit ?tx w")
  have "w' = w \<or> w' = w1"
    using assms c by (auto simp: handle_delete_bucket_def split: sum.splits db_error.splits)
  moreover have "steps sv guarded (world_of w P) (world_of w1 P)"
    by (rule commit_alone [OF c, where t = "transaction.Delete_Bucket name"]) (simp_all add: fun_eq_iff)
  ultimately show ?thesis by auto
qed

lemma put_bucket_versioning_steps:
  assumes "handle_put_bucket_versioning sv su r name w = (resp, w')"
  shows "steps sv guarded (world_of w P) (world_of w' P)"
proof -
  note run = assms [unfolded handle_put_bucket_versioning_def]
  from run show ?thesis
  proof (cases rule: with_bucket_cases)
    case (found b)
    show ?thesis
    proof (cases "requested_state sv su r")
      case (Inl e)
      with found show ?thesis by simp
    next
      case (Inr v)
      let ?cur = "get_bucket_settings (su_settings_fail su) (st_db w) (bk_id b)"
      obtain v' m where tr: "transition_to (bs_versioning ?cur) v = (v', m)"
        by (cases "transition_to (bs_versioning ?cur) v")
      let ?x = "?cur\<lparr>bs_versioning := v'\<rparr>"
      let ?tx = "no_result (save_bucket_settings (su_env su 0) ?x)"
      obtain res w1 where c: "commit ?tx w = (res, w1)" by (cases "commit ?tx w")
      have "w' = w \<or> w' = w1"
        using found(2) Inr tr c by (auto simp: Let_def split: sum.splits option.splits)
      moreover have "steps sv guarded (world_of w P) (world_of w1 P)"
        by (rule commit_alone [OF c, where t = "Save_Settings (su_env su 0) ?x"]) (simp_all add: fun_eq_iff)
      ultimately show ?thesis by auto
    qed
  qed simp
qed

lemma create_upload_steps:
  assumes "handle_create_multipart_upload su r name key w = (resp, w')"
  shows "steps sv guarded (world_of w P) (world_of w' P)"
proof -
  note run = assms [unfolded handle_create_multipart_upload_def]
  from run show ?thesis
  proof (cases rule: with_bucket_cases)
    case (found b)
    show ?thesis
    proof (cases "rbind (validate_object_key key) (\<lambda>_. user_metadata (rq_header r))")
      case (Inl e)
      with found show ?thesis by simp
    next
      case (Inr md)
      let ?u = "\<lparr>mu_id = [], mu_upload_id = [], mu_bucket_id = bk_id b, mu_key = key,
        mu_content_type = content_type_of r, mu_metadata = md, mu_initiated_at = zero_time\<rparr>"
      let ?tx = "create_multipart_upload (su_env su 0) ?u"
      obtain res w1 where c: "commit ?tx w = (res, w1)" by (cases "commit ?tx w")
      have "w' = w1" using found(2) Inr c by (auto split: sum.splits)
      with commit_alone [OF c, where t = "Create_Upload (su_env su 0) ?u"] show ?thesis
        by (simp add: fun_eq_iff)
    qed
  qed simp
qed

lemma abort_upload_steps:
  assumes "handle_abort_multipart_upload r name upload_id w = (resp, w')"
  shows "steps sv guarded (world_of w P) (world_of w' P)"
proof -
  note run = assms [unfolded handle_abort_multipart_upload_def]
  from run show ?thesis
  proof (cases rule: with_bucket_cases)
    case (found b)
    show ?thesis
    proof (cases "require_upload (st_db w) b upload_id")
      case (Inl e)
      with found show ?thesis by simp
    next
      case (Inr u)
      let ?tx = "no_result (abort_multipart_upload (mu_id u))"
      obtain res w1 where c: "commit ?tx w = (res, w1)" by (cases "commit ?tx w")
      have "w' = w1" using found(2) Inr c by (auto split: sum.splits)
      with commit_alone [OF c, where t = "Abort_Upload (mu_id u)"] show ?thesis by (simp add: fun_eq_iff)
    qed
  qed simp
qed

subsection \<open>Requests\<close>

lemma perform_steps:
  assumes "faithful sv su"
  shows "steps sv guarded (world_of w P) (world_of (snd (perform sv su r caller op w)) P)"
proof (cases "reads_only op")
  case True
  then show ?thesis by (simp add: perform_reads_only)
next
  case False
  note steps = put_object_steps [OF _ assms] upload_part_steps [OF _ assms] complete_upload_steps [OF _ assms]
    copy_object_steps delete_object_steps delete_objects_steps create_bucket_steps delete_bucket_steps
    put_bucket_versioning_steps create_upload_steps abort_upload_steps
  with False show ?thesis by (cases op) (simp_all, (rule steps, rule prod.collapse [symmetric])+)
qed

lemma serve_steps:
  assumes "faithful sv su"
  shows "steps sv guarded (world_of w P) (world_of (snd (serve sv su r w)) P)"
proof (cases "snd (serve sv su r w) = w")
  case False
  from serve_cases [OF this] show ?thesis using perform_steps [OF assms] by metis
qed simp

end
