(* ===== verification/Scope.thy ===== *)
theory Scope
  imports Service_Refinement
begin

text \<open>
  Which rows a request can change. A transaction is confined to the keys it is called on; a request
  reaches only the keys its grant allows.
\<close>

subsection \<open>Confined transactions\<close>

text \<open>The current row and the history of a key are as they were.\<close>

definition untouched :: "db \<Rightarrow> db \<Rightarrow> string \<Rightarrow> string \<Rightarrow> bool" where
  "untouched s s' b k \<longleftrightarrow> map_of (objects s') (b, k) = map_of (objects s) (b, k) \<and>
     (\<forall>v. map_of (versions s') (b, k, v) = map_of (versions s) (b, k, v))"

lemma untouched_refl [simp]: "untouched s s b k"
  by (simp add: untouched_def)

lemma untouched_trans: "untouched s s1 b k \<Longrightarrow> untouched s1 s2 b k \<Longrightarrow> untouched s s2 b k"
  by (simp add: untouched_def)

lemma untouched_same_tables:
  "objects s' = objects s \<Longrightarrow> versions s' = versions s \<Longrightarrow> untouched s s' b k"
  by (simp add: untouched_def)

definition sound_db :: "db \<Rightarrow> bool" where
  "sound_db s \<longleftrightarrow> wf_db s \<and> counts_safe s"

text \<open>\<open>here\<close> holds of the keys a transaction may change.\<close>

locale confined =
  fixes tx :: "db \<Rightarrow> db_error + 'r \<times> db" and here :: "string \<Rightarrow> string \<Rightarrow> bool"
  assumes stays: "tx s = Inr (x, s') \<Longrightarrow> sound_db s \<Longrightarrow> \<not> here b k \<Longrightarrow> untouched s s' b k"
begin

lemma settle_untouched: "sound_db s \<Longrightarrow> \<not> here b k \<Longrightarrow> untouched s (settle tx s) b k"
  using stays by (auto simp: settle_def split: sum.splits)

lemma commit_untouched:
  assumes "commit tx w = (res, w')" "sound_db (st_db w)" "\<not> here b k"
  shows "untouched (st_db w) (st_db w') b k"
  using settle_untouched [OF assms(2,3)] commit_site(1) [of tx w] assms(1) by simp

end

definition only :: "string \<Rightarrow> string \<Rightarrow> string \<Rightarrow> string \<Rightarrow> bool" where
  "only b k b' k' \<longleftrightarrow> b' = b \<and> k' = k"

lemma record_version_untouched:
  assumes "record_version e i j v s = Inr (r, s')" "wf_db s" "\<not> only (v_bucket_id v) (v_key v) b k"
  shows "untouched s s' b k"
  using record_version_row(1) [OF assms(1)] record_version_balanced(3) [OF assms(1,2)] assms(3)
  by (auto simp: untouched_def only_def map_add_def split: option.splits)

lemma supersede_untouched:
  assumes "supersede e (read_current s0 b0 k0) opts s = Inr (vid, s')" "wf_db s" "\<not> only b0 k0 b k"
  shows "untouched s s' b k"
  using assms(1)
proof (cases rule: supersede_InrE)
  case (preserved o1 r)
  then have "o_bucket_id o1 = b0" "o_key o1 = k0" by auto
  with record_version_untouched [OF preserved(3) assms(2)] assms(3) show ?thesis
    by (simp add: superseded_version_def)
qed simp

lemma put_object_untouched:
  assumes "put_object e obj opts s = Inr (row, s')" "sound_db s"
    and "\<not> only (o_bucket_id obj) (o_key obj) b k"
  shows "untouched s s' b k"
proof -
  have wf: "wf_db s" using assms(2) by (simp add: sound_db_def)
  let ?cur = "read_current s (o_bucket_id obj) (o_key obj)"
  obtain vid s2 s3 where
    sup: "supersede e ?cur opts (retain_blob e (o_blob_digest obj) (o_size obj) s) = Inr (vid, s2)" and
    up: "upsert_object e 1 (obj\<lparr>o_version_id := vid\<rparr>) s2 = Inr (row, s3)" and
    s': "s' = (case ?cur of None \<Rightarrow> s3 | Some p \<Rightarrow> released (o_blob_digest p) s3)"
    using assms(1) by (rule put_object_InrE)
  have "versions s' = versions s2" using up by (auto elim!: upsert_object_InrE simp: s' split: option.splits)
  moreover have "untouched (retain_blob e (o_blob_digest obj) (o_size obj) s) s2 b k"
    by (rule supersede_untouched [OF sup _ assms(3)]) (use wf in simp)
  ultimately show ?thesis
    using put_object_others [OF assms(1) wf] assms(3) by (simp add: untouched_def only_def)
qed

lemma delete_object_untouched:
  assumes "delete_object e b0 k0 opts s = Inr (res, s')" "sound_db s" "\<not> only b0 k0 b k"
  shows "untouched s s' b k"
proof -
  have wf: "wf_db s" "counts_safe s" using assms(2) by (simp_all add: sound_db_def)
  obtain marker s1 where
    s1: "if configured (wo_versioning opts) then write_marker e b0 k0 opts s = Inr (marker, s1)
     else marker = [] \<and> s1 = s" and
    s': "s' = (case map_of (objects s) (b0, k0) of None \<Rightarrow> s1
           | Some r \<Rightarrow> released (o_blob_digest r) (delete_object_row b0 k0 s1))"
    using assms(1) by (rule delete_object_InrE)
  have "untouched s s1 b k"
  proof (cases "configured (wo_versioning opts)")
    case True
    with s1 have "write_marker e b0 k0 opts s = Inr (marker, s1)" by simp
    then obtain vid t1 t2 mid m where
      sup: "supersede e (read_current s b0 k0) opts s = Inr (vid, t1)" and
      t2: "t2 = t1 \<or> t2 = replace_null_version b0 k0 t1" and
      rv: "record_version e 1 2 (delete_marker b0 k0 mid (wo_actor opts)) t2 = Inr (m, s1)"
      by (rule write_marker_InrE) blast
    note t1 = supersede_balanced [OF sup wf(1)]
    have safe: "counts_safe t1" using t1(2) wf(2) counts_safe_cong by blast
    note null = replace_null_version_balanced [OF t1(1) safe, of b0 k0]
    have "untouched t1 t2 b k" "wf_db t2"
      using t2 null t1(1) assms(3) by (auto simp: untouched_def only_def delete_conv')
    moreover have "\<not> only (v_bucket_id (delete_marker b0 k0 mid (wo_actor opts)))
        (v_key (delete_marker b0 k0 mid (wo_actor opts))) b k"
      using assms(3) by (simp add: delete_marker_def)
    ultimately show ?thesis
      using supersede_untouched [OF sup wf(1) assms(3)] record_version_untouched [OF rv] untouched_trans by metis
  qed (use s1 in simp)
  moreover have "untouched s1 s' b k"
    using assms(3) by (auto simp: s' untouched_def only_def delete_object_row_def delete_conv' split: option.splits)
  ultimately show ?thesis by (rule untouched_trans)
qed

lemma promote_untouched:
  assumes "promote_newest_version e b0 k0 s = Inr s'" "sound_db s" "\<not> only b0 k0 b k"
  shows "untouched s s' b k"
  using assms(1)
proof (cases rule: promote_newest_version_cases)
  case (promoted v d s1)
  have wf: "wf_db s" "counts_safe s" using assms(2) by (simp_all add: sound_db_def)
  from promote_newest_version_promoted(3,4) [OF promoted(1,3) wf promoted(4,5)] assms(3)
  show ?thesis by (auto simp: untouched_def only_def delete_conv' map_add_def split: option.splits)
qed simp_all

lemma delete_version_row_untouched:
  assumes "delete_version_row b0 k0 v s = Inr (r, s')" "sound_db s" "\<not> only b0 k0 b k"
  shows "untouched s s' b k" "sound_db s'"
proof -
  have "objects s' = objects s" "versions s' = AList.delete (b0, k0, v) (versions s)"
    using assms(1) by (auto simp: delete_version_row_def Let_def split: option.splits)
  with assms(3) show "untouched s s' b k" by (auto simp: untouched_def only_def delete_conv')
  show "sound_db s'"
    using delete_version_row_balanced [OF assms(1)] assms(2) counts_safe_cong by (metis sound_db_def)
qed

lemma delete_object_version_untouched:
  assumes "delete_object_version e b0 k0 vid s = Inr (res, s')" "sound_db s" "\<not> only b0 k0 b k"
  shows "untouched s s' b k"
  using assms(1)
proof (cases rule: delete_object_version_InrE)
  case (current r)
  let ?s1 = "released (o_blob_digest r) (delete_object_row b0 k0 s)"
  have "untouched s ?s1 b k" using assms(3) by (auto simp: untouched_def only_def delete_conv')
  moreover have "sound_db ?s1"
    using drop_current_balanced [OF current(1)] assms(2) counts_safe_cong by (metis sound_db_def)
  ultimately show ?thesis using promote_untouched [OF current(3) _ assms(3)] untouched_trans by blast
next
  case (noncurrent r v)
  from delete_version_row_untouched(1) [OF noncurrent(3) assms(2,3)] show ?thesis .
next
  case (deleted v s1)
  note row = delete_version_row_untouched [OF deleted(2) assms(2,3)]
  from promote_untouched [OF deleted(3) row(2) assms(3)] row(1) show ?thesis by (metis untouched_trans)
qed

interpretation put_confined: confined "put_object e obj opts" "only (o_bucket_id obj) (o_key obj)" for e obj opts
  by unfold_locales (rule put_object_untouched)

interpretation delete_confined: confined "delete_object e b0 k0 opts" "only b0 k0" for e b0 k0 opts
  by unfold_locales (rule delete_object_untouched)

interpretation delete_version_confined: confined "delete_object_version e b0 k0 vid" "only b0 k0" for e b0 k0 vid
  by unfold_locales (rule delete_object_version_untouched)

interpretation create_bucket_confined: confined "create_bucket e name creator" "\<lambda>_ _. False" for e name creator
  by unfold_locales (auto simp: create_bucket_def result_iff Let_def split: if_splits intro: untouched_same_tables)

interpretation save_settings_confined: confined "no_result (save_bucket_settings e x)" "\<lambda>_ _. False" for e x
  by unfold_locales (auto simp: save_bucket_settings_def result_iff intro: untouched_same_tables)

interpretation create_upload_confined: confined "create_multipart_upload e u" "\<lambda>_ _. False" for e u
  by unfold_locales
    (auto simp: create_multipart_upload_def insert_upload_def result_iff Let_def intro: untouched_same_tables)

subsection \<open>Confined requests\<close>

text \<open>The key \<open>k\<close> of the bucket \<open>n\<close> is out of reach: the grant allows no change of it.\<close>

definition out_of_reach :: "grant \<Rightarrow> string \<Rightarrow> string \<Rightarrow> bool" where
  "out_of_reach g n k \<longleftrightarrow> \<not> grant_allows g n k PermissionWrite \<and> \<not> grant_allows g n k PermissionDelete"

lemma bucket_ids:
  assumes "get_bucket s n = Inr b" "get_bucket s n' = Inr b'" "wf_db s" "bk_id b = bk_id b'"
  shows "n = n'"
proof -
  have "Some b = Some b'"
    using get_bucket_row(2) [OF assms(1,3)] get_bucket_row(2) [OF assms(2,3)] unfolding assms(4)
    by (rule trans [OF sym])
  then show ?thesis
    using get_bucket_row(1) [OF assms(1,3)] get_bucket_row(1) [OF assms(2,3)] by simp
qed

lemma elsewhere:
  assumes "out_of_reach g n k" "grant_allows g name key p" "p = PermissionWrite \<or> p = PermissionDelete"
    and "get_bucket s n = Inr c" "require_bucket s name = Inr b" "sound_db s"
  shows "\<not> only (bk_id b) key (bk_id c) k"
proof
  assume "only (bk_id b) key (bk_id c) k"
  then have "bk_id c = bk_id b" "k = key" by (simp_all add: only_def)
  moreover from this have "n = name"
    using bucket_ids [OF assms(4)] assms(5,6) by (simp add: require_bucket_Inr sound_db_def)
  ultimately show False using assms(1-3) by (auto simp: out_of_reach_def)
qed

lemma put_object_confined:
  assumes "grant_allows g name key PermissionWrite" "out_of_reach g n k" "sound_db (st_db w)"
    and "get_bucket (st_db w) n = Inr c"
  shows "untouched (st_db w) (st_db (snd (handle_put_object sv su r caller name key w))) (bk_id c) k"
proof -
  obtain resp w' where h: "handle_put_object sv su r caller name key w = (resp, w')" by (rule prod.exhaust)
  then show ?thesis
  proof (cases rule: put_object_outcome)
    case (stored b md i bl w1 row s)
    have "\<not> only (bk_id b) key (bk_id c) k"
      by (rule elsewhere [OF assms(2,1) _ assms(4) stored(1) assms(3)]) simp
    then show ?thesis
      using put_object_untouched [OF stored(5) assms(3)] stored(4) h by (simp add: uploaded_object_def)
  qed (use h in simp)
qed

lemma copy_object_confined:
  assumes "grant_allows g name key PermissionWrite" "out_of_reach g n k" "sound_db (st_db w)"
    and "get_bucket (st_db w) n = Inr c"
  shows "untouched (st_db w) (st_db (snd (handle_copy_object su r caller name key source w))) (bk_id c) k"
proof -
  obtain resp w' where h: "handle_copy_object su r caller name key source w = (resp, w')" by (rule prod.exhaust)
  from h [unfolded handle_copy_object_def] show ?thesis
  proof (cases rule: with_bucket_cases)
    case (found b)
    show ?thesis
    proof (cases "copied_object (st_db w) r b key source")
      case (Inl e)
      with found h show ?thesis by auto
    next
      case (Inr ov)
      obtain obj v where ov: "ov = (obj, v)" by (cases ov)
      let ?opts = "write_options_for su (st_db w) caller b"
      obtain res w1 where c: "commit (put_object (su_env su 0) obj ?opts) w = (res, w1)"
        by (cases "commit (put_object (su_env su 0) obj ?opts) w")
      have w': "w' = w1" using found(2) Inr ov c by (auto split: sum.splits)
      have "o_bucket_id obj = bk_id b" "o_key obj = key"
        using Inr ov by (auto elim!: copied_object_Inr)
      moreover have "\<not> only (bk_id b) key (bk_id c) k"
        by (rule elsewhere [OF assms(2,1) _ assms(4) found(1) assms(3)]) simp
      ultimately show ?thesis using put_confined.commit_untouched [OF c assms(3)] w' h by simp
    qed
  qed (use h in simp)
qed

lemma delete_object_confined:
  assumes "grant_allows g name key PermissionDelete" "out_of_reach g n k" "sound_db (st_db w)"
    and "get_bucket (st_db w) n = Inr c"
  shows "untouched (st_db w) (st_db (snd (handle_delete_object su r caller name key w))) (bk_id c) k"
proof -
  obtain resp w' where h: "handle_delete_object su r caller name key w = (resp, w')" by (rule prod.exhaust)
  from h [unfolded handle_delete_object_def] show ?thesis
  proof (cases rule: with_bucket_cases)
    case (found b)
    have here: "\<not> only (bk_id b) key (bk_id c) k"
      by (rule elsewhere [OF assms(2,1) _ assms(4) found(1) assms(3)]) simp
    let ?vtx = "delete_object_version (su_env su 0) (bk_id b) key (query_get r ''versionId'')"
    let ?otx = "delete_object (su_env su 0) (bk_id b) key (write_options_for su (st_db w) caller b)"
    obtain res1 w1 where c1: "commit ?vtx w = (res1, w1)" by (cases "commit ?vtx w")
    obtain res2 w2 where c2: "commit ?otx w = (res2, w2)" by (cases "commit ?otx w")
    have "w' = w1 \<or> w' = w2"
      using found(2) c1 c2 by (auto simp: Let_def split: if_splits sum.splits db_error.splits)
    with delete_version_confined.commit_untouched [OF c1 assms(3) here]
      delete_confined.commit_untouched [OF c2 assms(3) here] h
    show ?thesis by auto
  qed (use h in simp)
qed

lemma sound_db_run: "sound_db s \<Longrightarrow> sound_db (run t s)"
  using run_accounted by (simp add: sound_db_def)

lemma commit_sound:
  assumes "commit tx w = (res, w')" "settle tx = run t" "sound_db (st_db w)"
  shows "sound_db (st_db w')"
  using commit_site(1) [of tx w] assms sound_db_run by simp

lemma delete_target_confined:
  assumes "delete_target su opts (Some i) b m target w = (out, w')" "id_grant i = g" "out_of_reach g n k"
    and "sound_db (st_db w)" "get_bucket (st_db w) n = Inr c" "require_bucket s name = Inr b"
    and "get_bucket s n = Inr c" "sound_db s"
  shows "untouched (st_db w) (st_db w') (bk_id c) k \<and> sound_db (st_db w')"
proof -
  obtain key v where target: "target = (key, v)" by (cases target)
  show ?thesis
  proof (cases "grant_allows g (bk_name b) key PermissionDelete")
    case False
    with assms show ?thesis by (auto simp: delete_target_def target may_delete_def)
  next
    case True
    have "bk_name b = name"
      using assms(6,8) get_bucket_row(1) by (auto simp: require_bucket_Inr sound_db_def)
    with True have "grant_allows g name key PermissionDelete" by simp
    from elsewhere [OF assms(3) this _ assms(7,6,8)] have here: "\<not> only (bk_id b) key (bk_id c) k" by simp
    let ?vtx = "delete_object_version (su_env su m) (bk_id b) key v"
    let ?otx = "delete_object (su_env su m) (bk_id b) key opts"
    obtain res1 w1 where c1: "commit ?vtx w = (res1, w1)" by (cases "commit ?vtx w")
    obtain res2 w2 where c2: "commit ?otx w = (res2, w2)" by (cases "commit ?otx w")
    have "w' = w \<or> w' = w1 \<or> w' = w2"
      using assms(1) c1 c2
      by (auto simp: delete_target_def target Let_def split: if_splits sum.splits db_error.splits)
    moreover have "sound_db (st_db w1)"
      by (rule commit_sound [OF c1 _ assms(4), of "Delete_Version (su_env su m) (bk_id b) key v"])
        (simp add: fun_eq_iff)
    moreover have "sound_db (st_db w2)"
      by (rule commit_sound [OF c2 _ assms(4), of "transaction.Delete_Object (su_env su m) (bk_id b) key opts"])
        (simp add: fun_eq_iff)
    ultimately show ?thesis
      using delete_version_confined.commit_untouched [OF c1 assms(4) here]
        delete_confined.commit_untouched [OF c2 assms(4) here] assms(4) by auto
  qed
qed

text \<open>The deletes of a batch change no bucket row.\<close>

lemma delete_object_version_buckets:
  assumes "delete_object_version e b k vid s = Inr (res, s')" "sound_db s"
  shows "buckets s' = buckets s"
proof -
  have wf: "wf_db s" "counts_safe s" using assms(2) by (simp_all add: sound_db_def)
  have promote: "buckets s2 = buckets s1" if "promote_newest_version e b k s1 = Inr s2" for s1 s2
    using that
    by (cases rule: promote_newest_version_cases)
      (auto simp: result_iff delete_version_by_id_def)
  have row: "buckets s2 = buckets s" if "delete_version_row b k v s = Inr (x, s2)" for v x s2
    using that by (auto simp: delete_version_row_def Let_def split: option.splits)
  from assms(1) show ?thesis
    by (cases rule: delete_object_version_InrE) (use promote row in \<open>fastforce\<close>)+
qed

lemma delete_target_buckets:
  assumes "delete_target su opts caller b m target w = (out, w')" "sound_db (st_db w)"
  shows "buckets (st_db w') = buckets (st_db w)"
proof -
  obtain key v where target: "target = (key, v)" by (cases target)
  have "wf_db (st_db w)" "counts_safe (st_db w)" using assms(2) by (simp_all add: sound_db_def)
  with assms(1) show ?thesis
    by (auto simp: delete_target_def target Let_def commit_def delete_object_version_buckets [OF _ assms(2)]
      delete_object_buckets split: if_splits sum.splits db_error.splits)
qed

lemma get_bucket_cong: "buckets s' = buckets s \<Longrightarrow> get_bucket s' n = get_bucket s n"
  by (simp add: get_bucket_def)

lemma delete_targets_confined:
  assumes "id_grant i = g" "out_of_reach g n k" "require_bucket s name = Inr b" "get_bucket s n = Inr c" "sound_db s"
    and "sound_db (st_db w)" "get_bucket (st_db w) n = Inr c"
  shows "untouched (st_db w) (st_db (snd (delete_targets su opts (Some i) b quiet m targets w))) (bk_id c) k"
  using assms(6,7)
proof (induction targets arbitrary: m w)
  case (Cons target rest)
  obtain out w1 where t: "delete_target su opts (Some i) b m target w = (out, w1)"
    by (cases "delete_target su opts (Some i) b m target w")
  note first = delete_target_confined [OF t assms(1,2) Cons.prems assms(3-5)]
  have "get_bucket (st_db w1) n = Inr c"
    using get_bucket_cong [OF delete_target_buckets [OF t Cons.prems(1)]] Cons.prems(2) by simp
  with Cons.IH [of w1 "Suc m"] first have
    "untouched (st_db w1) (st_db (snd (delete_targets su opts (Some i) b quiet (Suc m) rest w1))) (bk_id c) k"
    by simp
  moreover have "snd (delete_targets su opts (Some i) b quiet m (target # rest) w) =
      snd (delete_targets su opts (Some i) b quiet (Suc m) rest w1)"
    by (simp add: t Let_def case_prod_unfold)
  ultimately show ?case using first untouched_trans by metis
qed simp

lemma delete_objects_confined:
  assumes "id_grant i = g" "out_of_reach g n k" "sound_db (st_db w)" "get_bucket (st_db w) n = Inr c"
  shows "untouched (st_db w) (st_db (snd (handle_delete_objects sv su r (Some i) name w))) (bk_id c) k"
proof -
  obtain resp w' where h: "handle_delete_objects sv su r (Some i) name w = (resp, w')" by (rule prod.exhaust)
  from h [unfolded handle_delete_objects_def] show ?thesis
  proof (cases rule: with_bucket_cases)
    case (found b)
    show ?thesis
    proof (cases "delete_request sv su r")
      case (Inl e)
      with found h show ?thesis by auto
    next
      case (Inr qt)
      obtain quiet targets where qt: "qt = (quiet, targets)" by (cases qt)
      have "w' = snd (delete_targets su (write_options_for su (st_db w) (Some i) b) (Some i) b quiet 0 targets w)"
        using found(2) Inr qt by (auto simp: Let_def case_prod_unfold)
      with delete_targets_confined [OF assms(1,2) found(1) assms(4,3,3,4)] h show ?thesis by simp
    qed
  qed (use h in simp)
qed

lemma map_of_filter_kept: "(\<And>x. p (key, x)) \<Longrightarrow> map_of (filter p t) key = map_of t key"
  by (induction t) auto

lemma delete_bucket_confined:
  assumes "allows_whole_bucket g name PermissionDelete" "out_of_reach g n k" "sound_db (st_db w)"
    and "get_bucket (st_db w) n = Inr c"
  shows "untouched (st_db w) (st_db (snd (handle_delete_bucket r name w))) (bk_id c) k"
proof -
  obtain resp w' where h: "handle_delete_bucket r name w = (resp, w')" by (rule prod.exhaust)
  have wf: "wf_db (st_db w)" using assms(3) by (simp add: sound_db_def)
  have "name \<noteq> n" using assms(1,2) whole_bucket_allows by (auto simp: out_of_reach_def)
  let ?tx = "no_result (delete_bucket name)"
  obtain res w1 where c: "commit ?tx w = (res, w1)" by (cases "commit ?tx w")
  have "untouched (st_db w) (st_db w1) (bk_id c) k"
    using c
  proof (cases rule: commit_cases)
    case (committed x s)
    then have "delete_bucket name (st_db w) = Inr s" by (simp add: result_iff)
    then show ?thesis
    proof (rule delete_bucket_InrE)
      fix b assume b: "get_bucket (st_db w) name = Inr b" "s = drop_bucket (bk_id b) (st_db w)"
      have "bk_id c \<noteq> bk_id b" using bucket_ids [OF assms(4) b(1) wf] \<open>name \<noteq> n\<close> by auto
      then have "map_of (versions s) (bk_id c, k, v) = map_of (versions (st_db w)) (bk_id c, k, v)" for v
        unfolding b(2) drop_bucket_simps by (intro map_of_filter_kept) simp
      with committed b(2) show ?thesis by (simp add: untouched_def)
    qed
  qed simp
  moreover have "w' = w \<or> w' = w1"
    using h c by (auto simp: handle_delete_bucket_def split: sum.splits db_error.splits)
  ultimately show ?thesis using h by auto
qed

lemma create_bucket_untouched:
  assumes "sound_db (st_db w)"
  shows "untouched (st_db w) (st_db (snd (handle_create_bucket sv su r name w))) b k"
proof -
  obtain res w1 where c: "commit (create_bucket (su_env su 0) name None) w = (res, w1)"
    by (rule prod.exhaust)
  have "snd (handle_create_bucket sv su r name w) \<in> {w, w1}"
    using c by (auto simp: handle_create_bucket_def split: sum.splits db_error.splits)
  with create_bucket_confined.commit_untouched [OF c assms] show ?thesis by auto
qed

lemma put_bucket_versioning_untouched:
  assumes "sound_db (st_db w)"
  shows "untouched (st_db w) (st_db (snd (handle_put_bucket_versioning sv su r name w))) b k"
proof -
  have "untouched (st_db w) s' b k"
    if "no_result (save_bucket_settings e x) (st_db w) = Inr (u, s')" for e x u s'
    by (rule save_settings_confined.stays [OF that assms]) simp
  then show ?thesis
    by (auto simp: handle_put_bucket_versioning_def with_bucket_def Let_def commit_def
      split: sum.splits prod.splits option.splits)
qed

lemma create_upload_untouched:
  assumes "sound_db (st_db w)"
  shows "untouched (st_db w) (st_db (snd (handle_create_multipart_upload su r name key w))) b k"
proof -
  have "untouched (st_db w) s' b k" if "create_multipart_upload e u (st_db w) = Inr (x, s')" for e u x s'
    by (rule create_upload_confined.stays [OF that assms]) simp
  then show ?thesis
    by (auto simp: handle_create_multipart_upload_def with_bucket_def commit_def
      split: sum.splits prod.splits)
qed

text \<open>
  The operations on an upload in progress find it by its id, not by the key the request was
  authorized for; every other operation stays within the grant.
\<close>

lemma perform_confined:
  assumes "route sv (Some (id_grant i)) r = Inr op" "query_get r ''uploadId'' = []"
    and "out_of_reach (id_grant i) n k" "sound_db (st_db w)" "get_bucket (st_db w) n = Inr c"
  shows "untouched (st_db w) (st_db (snd (perform sv su r (Some i) op w))) (bk_id c) k"
proof -
  let ?g = "id_grant i"
  have auth: "authorized (Some ?g) op" using assms(1) route_Inr by blast
  have plain: "\<not> (\<exists>b k u. op = Op_Upload_Part b k u \<or> op = Op_Complete_Multipart_Upload b k u \<or>
      op = Op_Abort_Multipart_Upload b k u)"
    using assms(1,2)
    by (auto simp: route_def route_service_def route_bucket_def route_object_def Let_def result_iff
      split: if_splits sum.splits)
  show ?thesis
  proof (cases "reads_only op")
    case True
    then show ?thesis by (simp add: perform_reads_only)
  next
    case False
    note confined = put_object_confined [OF _ assms(3-5)] copy_object_confined [OF _ assms(3-5)]
      delete_object_confined [OF _ assms(3-5)] delete_bucket_confined [OF _ assms(3-5)]
      delete_objects_confined [OF refl assms(3-5)]
      create_bucket_untouched [OF assms(4)] put_bucket_versioning_untouched [OF assms(4)]
      create_upload_untouched [OF assms(4)]
    from False plain auth show ?thesis
      by (cases op) (simp_all add: authorized_def allowed_def access_of_def confined)
  qed
qed

lemma serve_confined:
  assumes "verify (sv_verifier sv) r = Inr i" "out_of_reach (id_grant i) n k"
    and "query_get r ''uploadId'' = []" "sound_db (st_db w)" "get_bucket (st_db w) n = Inr c"
  shows "untouched (st_db w) (st_db (snd (serve sv su r w))) (bk_id c) k"
proof (cases "snd (serve sv su r w) = w")
  case False
  from serve_cases [OF this] obtain op where "route sv (Some (id_grant i)) r = Inr op"
    "snd (serve sv su r w) = snd (perform sv su r (Some i) op w)"
    using assms(1) by (metis sum.inject(2))
  with perform_confined [OF _ assms(3,2,4,5)] show ?thesis by simp
qed simp

end
