(* ===== verification/Round_Trip.thy ===== *)
theory Round_Trip
  imports Scope
begin

text \<open>
  A put answered with success, followed by a read of the same key: what the reader gets is the body
  the writer sent, with the metadata it sent.
\<close>

lemma hex_decode_encode: "hex_decode (hex_encode s) = Some s"
proof (induction s)
  case (Cons c s)
  have "(of_char c :: nat) div 16 < 16" "(of_char c :: nat) mod 16 < 16"
    using nat_of_char_less_256 [of c] by (simp_all add: less_mult_imp_div_less)
  with Cons.IH show ?case by (simp add: hex_encode_def hex_byte_def hex_digit_value(1))
qed (simp add: hex_encode_def)

lemma hex_encode_inj [simp]: "hex_encode x = hex_encode y \<longleftrightarrow> x = y"
  by (metis hex_decode_encode option.inject)

lemma put_object_buckets:
  assumes "put_object e obj opts s = Inr (row, s')" "wf_db s"
  shows "buckets s' = buckets s"
proof -
  obtain vid s2 s3 where
    sup: "supersede e (read_current s (o_bucket_id obj) (o_key obj)) opts
       (retain_blob e (o_blob_digest obj) (o_size obj) s) = Inr (vid, s2)" and
    up: "upsert_object e 1 (obj\<lparr>o_version_id := vid\<rparr>) s2 = Inr (row, s3)" and
    s': "buckets s' = buckets s3"
    using assms(1) by (elim put_object_InrE) (auto split: option.splits)
  have "buckets s2 = buckets s" using supersede_balanced(6) [OF sup] assms(2) by simp
  with up s' show ?thesis by (elim upsert_object_InrE) simp
qed

lemma require_bucket_cong: "buckets s' = buckets s \<Longrightarrow> require_bucket s' n = require_bucket s n"
  unfolding require_bucket_def by (simp only: get_bucket_cong [of s' s])

text \<open>A successful upload: the body arrived whole and is what it was declared to be.\<close>

lemma upload_blob_sound:
  assumes "upload_blob sv su r i w = (Inr b, w')" "faithful sv su"
    and "sound_store (vf_hashes (sv_verifier sv)) (sv_root sv) (st_disk w)"
    and "\<And>x. length (h_sha256 (vf_hashes (sv_verifier sv)) x) = 32"
  defines "h \<equiv> vf_hashes (sv_verifier sv)"
  defines "body \<equiv> read_body h i (rq_body r, su_clean su)"
  shows "snd body = None" "b_etag b = hex_encode (h_md5 h (fst body))" "b_size b = length (fst body)"
    "b_digest b = hex_encode (h_sha256 h (fst body))" "valid_digest (b_digest b)"
    "\<exists>c. map_of (st_disk w') (path_for (sv_root sv) (b_digest b)) = Some c \<and>
       hex_encode (h_sha256 h c) = b_digest b"
proof -
  let ?src = "su_chop su body"
  obtain f where w': "w' = w\<lparr>st_disk := f\<rparr>"
    and put: "store_put h (sv_root sv) (su_faults su) (su_others su) (su_temp_name su) ?src
       (trusted_content_sha256 i) (st_disk w) = (Inr b, f)"
    using assms(1) unfolding h_def body_def by (rule upload_blob_Inr)
  have del: "delivers ?src body" and wb: "well_behaved h (sv_root sv) (su_others su)"
    using assms(2) unfolding faithful_def h_def by blast+
  then have bytes: "source_bytes ?src = fst body" by (simp add: delivers_def)
  have trusted: "trusted_digest h (trusted_content_sha256 i) (source_bytes ?src)"
    unfolding body_def by (rule put_body_trusted(2) [OF put [unfolded body_def] del [unfolded body_def]])
  show "snd body = None" unfolding body_def by (rule put_body_trusted(1) [OF put [unfolded body_def] del [unfolded body_def]])
  note res = store_put_Inr [OF put trusted wb assms(3) [folded h_def] assms(4) [folded h_def]]
  show "valid_digest (b_digest b)" by (rule res(2))
  show "\<exists>c. map_of (st_disk w') (path_for (sv_root sv) (b_digest b)) = Some c \<and>
       hex_encode (h_sha256 h c) = b_digest b"
    using res(3) by (simp add: w')
  show "b_digest b = hex_encode (h_sha256 h (fst body))"
    unfolding res(1) bytes [symmetric] by (rule blob_of_trusted [OF trusted])
  show "b_etag b = hex_encode (h_md5 h (fst body))" "b_size b = length (fst body)"
    unfolding res(1) bytes [symmetric] by (simp_all add: blob_of_def)
qed

text \<open>What a put answered with success has stored, as a reader of the key finds it.\<close>

definition stores :: "server \<Rightarrow> request \<Rightarrow> string \<Rightarrow> site \<Rightarrow> object \<Rightarrow> bool" where
  "stores sv r bytes w obj \<longleftrightarrow>
     o_etag obj = hex_encode (h_md5 (vf_hashes (sv_verifier sv)) bytes) \<and> o_size obj = length bytes \<and>
     o_content_type obj = content_type_of r \<and> user_metadata (rq_header r) = Inr (o_metadata obj) \<and>
     (\<exists>c. map_of (st_disk w) (path_for (sv_root sv) (o_blob_digest obj)) = Some c \<and>
       valid_digest (o_blob_digest obj) \<and>
       h_sha256 (vf_hashes (sv_verifier sv)) c = h_sha256 (vf_hashes (sv_verifier sv)) bytes)"

lemma put_object_stores:
  assumes "handle_put_object sv su r caller name key w = (resp, w')" "rs_status resp < 400"
    and "faithful sv su" "sound_db (st_db w)"
    and "sound_store (vf_hashes (sv_verifier sv)) (sv_root sv) (st_disk w)"
    and "\<And>x. length (h_sha256 (vf_hashes (sv_verifier sv)) x) = 32"
  obtains i b obj where "caller = Some i" "validate_object_key key = Inr ()"
    "require_bucket (st_db w') name = Inr b" "get_object (st_db w') (bk_id b) key = Inr obj"
    "snd (read_body (vf_hashes (sv_verifier sv)) i (rq_body r, su_clean su)) = None"
    "stores sv r (fst (read_body (vf_hashes (sv_verifier sv)) i (rq_body r, su_clean su))) w' obj"
    "resp = reply 200 ((''ETag'', quote_etag (o_etag obj)) # version_headers (o_version_id obj))"
  using assms(1)
proof (cases rule: put_object_outcome)
  case (stored b md i bl w1 row s)
  note up = upload_blob_sound [OF stored(3) assms(3,5,6)]
  have checks: "caller = Some i" "validate_object_key key = Inr ()" "user_metadata (rq_header r) = Inr md"
    using stored(2) by (auto simp: put_object_checks_def result_iff split: option.splits)
  have w': "st_db w' = s" "st_disk w' = st_disk w1" using stored(4) by simp_all
  from put_object_reads_back [OF stored(5)]
  have row: "get_object s (bk_id b) key = Inr row" "contents row = contents (uploaded_object b key r md bl)"
    by (simp_all add: uploaded_object_def)
  have wf: "wf_db (st_db w)" using assms(4) by (simp add: sound_db_def)
  have bucket: "require_bucket (st_db w') name = Inr b"
    using require_bucket_cong [OF put_object_buckets [OF stored(5) wf]] stored(1) by (simp add: w')
  have "stores sv r (fst (read_body (vf_hashes (sv_verifier sv)) i (rq_body r, su_clean su))) w' row"
    using row(2) up(2-6) checks(3) hex_encode_inj
    by (auto simp: stores_def contents_def uploaded_object_def w')
  moreover have "o_etag row = b_etag bl" using row(2) by (simp add: contents_def uploaded_object_def)
  ultimately show ?thesis
    using that checks(1,2) bucket row(1) up(1) stored(6) by (simp add: w')
qed (use assms(2) in simp)

text \<open>No conditional header and no range: the read is answered with the whole object.\<close>

definition unconditional :: "request \<Rightarrow> bool" where
  "unconditional r \<longleftrightarrow> (\<forall>n \<in> {''If-Match'', ''If-Unmodified-Since'', ''If-None-Match'', ''If-Modified-Since'', ''Range''}.
     header_get (rq_header r) n = [])"

lemma answer_unconditional: "unconditional r \<Longrightarrow> answer_read sv r obj k = k obj"
  by (simp add: answer_read_def check_preconditions_def unconditional_def Let_def)

lemma lookup_current:
  assumes "validate_object_key key = Inr ()" "query_get r ''versionId'' = []"
    and "get_object s (bk_id b) key = Inr obj"
  shows "lookup_object r b key s = Inr obj"
  using assms by (simp add: lookup_object_def)

lemma read_stored:
  assumes "validate_object_key key = Inr ()" "require_bucket (st_db w) name = Inr b"
    and "get_object (st_db w) (bk_id b) key = Inr obj" "stores sv r bytes w obj"
    and "query_get r' ''versionId'' = []" "unconditional r'" "su_faults su Open_File = None"
  shows "\<exists>c. handle_get_object sv su r' name key w =
      (\<lparr>rs_status = 200, rs_headers = object_headers obj, rs_body = Content (o_updated_at obj) c\<rparr>, w) \<and>
      h_sha256 (vf_hashes (sv_verifier sv)) c = h_sha256 (vf_hashes (sv_verifier sv)) bytes"
    and "handle_head_object sv r' name key w =
      (reply 200 (object_headers obj @ [(''Content-Length'', show_nat (length bytes))]), w)"
proof -
  note found = lookup_current [OF assms(1,5,3)]
  show "handle_head_object sv r' name key w =
      (reply 200 (object_headers obj @ [(''Content-Length'', show_nat (length bytes))]), w)"
    using assms(2,4) found
    by (simp add: handle_head_object_def with_bucket_def answer_unconditional [OF assms(6)] stores_def)
  obtain c where c: "map_of (st_disk w) (path_for (sv_root sv) (o_blob_digest obj)) = Some c"
    "valid_digest (o_blob_digest obj)"
    "h_sha256 (vf_hashes (sv_verifier sv)) c = h_sha256 (vf_hashes (sv_verifier sv)) bytes"
    using assms(4) by (auto simp: stores_def)
  then have "store_open (sv_root sv) (su_faults su) (o_blob_digest obj) (st_disk w) = Inr c"
    using assms(7) by (simp add: store_open_def validate_digest_def call_def)
  with c(3) show "\<exists>c. handle_get_object sv su r' name key w =
      (\<lparr>rs_status = 200, rs_headers = object_headers obj, rs_body = Content (o_updated_at obj) c\<rparr>, w) \<and>
      h_sha256 (vf_hashes (sv_verifier sv)) c = h_sha256 (vf_hashes (sv_verifier sv)) bytes"
    using assms(2) found
    by (simp add: handle_get_object_def with_bucket_def answer_unconditional [OF assms(6)])
qed

end
