(* ===== verification/Presign.thy ===== *)
theory Presign
  imports Verify Names
begin

text \<open>
  Presigned URLs (\<^verbatim>\<open>Presign\<close> and \<^verbatim>\<open>parseEndpoint\<close> of \<^verbatim>\<open>presign.go\<close>) and why the verifier accepts
  them: the query the server signs is the canonical query of the URL without its signature.
\<close>

subsection \<open>Building the URL\<close>

definition parse_endpoint :: "string \<Rightarrow> string + string \<times> string" where
  "parse_endpoint public_url =
     (let (scheme, rest, found) = cut public_url ''://''
      in if \<not> found \<or> rest = []
         then Inl (''public URL '' @ quoted public_url @ '' must be absolute, such as https://s3.example.com'')
         else let host = fst (cut rest ''/'')
           in if host = [] then Inl (''public URL '' @ quoted public_url @ '' has no host'')
              else Inr (scheme, host))"

definition presign_values ::
  "string \<Rightarrow> scope \<Rightarrow> time \<Rightarrow> time \<Rightarrow> (string \<times> string) list \<Rightarrow> (string \<times> string) list" where
  "presign_values access_key sc now expiry extra =
     fold (\<lambda>(name, value). AList.update name value) extra
       [(param_algorithm, sig_algorithm),
        (param_credential, access_key @ ''/'' @ scope_string sc),
        (param_date, format_iso8601 now),
        (param_expires, show_int (expiry div second)),
        (param_signed_headers, ''host'')]"

definition encode_pair :: "string \<times> string \<Rightarrow> string" where
  "encode_pair p = uri_encode (fst p) True @ ''='' @ uri_encode (snd p) True"

definition presign_path :: "string \<Rightarrow> string \<Rightarrow> string" where
  "presign_path bucket key = ''/'' @ uri_encode bucket True @ ''/'' @ uri_encode key False"

definition presign_signature ::
  "hashes \<Rightarrow> string \<Rightarrow> string \<Rightarrow> string \<Rightarrow> string \<Rightarrow> string \<Rightarrow> scope \<Rightarrow> time \<Rightarrow> string" where
  "presign_signature h meth path raw_query host secret sc now =
     sign h (signing_key h secret sc) (string_to_sign h now sc
       (canonical_request meth path raw_query [] host [''host''] unsigned_payload))"

definition presign ::
  "hashes \<Rightarrow> string \<Rightarrow> string \<Rightarrow> string \<Rightarrow> string \<Rightarrow> (string \<times> string) list \<Rightarrow> string \<Rightarrow> string \<Rightarrow> string \<Rightarrow>
     time \<Rightarrow> time \<Rightarrow> string + string" where
  "presign h meth public_url bucket key extra access_key secret region now expiry =
     (if expiry \<le> 0 \<or> max_presign_expiry < expiry
      then Inl ''expiry must be between 1 second and 7 days''
      else rbind (parse_endpoint public_url) (\<lambda>(scheme, host).
      let sc = \<lparr>sc_date = format_date now, sc_region = region, sc_service = sig_service\<rparr>;
          path = presign_path bucket key;
          raw_query = join ''&'' (sort (map encode_pair (presign_values access_key sc now expiry extra)))
      in Inr (scheme @ ''://'' @ host @ path @ ''?'' @ raw_query @ ''&'' @ param_signature @ ''='' @
           presign_signature h meth path raw_query host secret sc now)))"

subsection \<open>The order of the parameters\<close>

text \<open>
  The URL sorts its pairs as whole strings, the canonical query by name. The two orders agree when
  no encoded name is a prefix of another.
\<close>

definition encoded :: "string \<times> string \<Rightarrow> string \<times> string" where
  "encoded p = (uri_encode (fst p) True, uri_encode (snd p) True)"

definition prefix_free :: "string list \<Rightarrow> bool" where
  "prefix_free ns \<longleftrightarrow> distinct ns \<and>
     (\<forall>m \<in> set ns. \<forall>n \<in> set ns. m \<noteq> n \<longrightarrow> \<not> has_prefix (uri_encode n True) (uri_encode m True))"

lemma less_append_differ:
  fixes n m :: "string"
  shows "n < m \<Longrightarrow> \<not> has_prefix m n \<Longrightarrow> n @ x < m @ y"
proof (induction n arbitrary: m)
  case (Cons c cs)
  then show ?case by (cases m) auto
qed simp

lemma le_append_same: "(x :: string) \<le> y \<Longrightarrow> n @ x \<le> n @ y"
  by (induction n) auto

lemma render_mono:
  assumes "p \<le> q" "fst p = fst q \<or> \<not> has_prefix (fst q) (fst p)"
  shows "render_param p \<le> render_param q"
proof (cases "fst p = fst q")
  case True
  with assms(1) have "snd p \<le> snd q" by (cases p; cases q) auto
  with True show ?thesis by (simp add: render_param_def le_append_same)
next
  case False
  with assms have "fst p < fst q" "\<not> has_prefix (fst q) (fst p)" by (cases p; cases q; auto)+
  then show ?thesis unfolding render_param_def by (rule less_imp_le [OF less_append_differ])
qed

lemma encode_pair_render: "encode_pair p = render_param (encoded p)"
  by (simp add: encode_pair_def render_param_def encoded_def)

lemma encoded_encoded [simp]: "encoded_param (encoded p)"
  by (auto simp: encoded_param_def encoded_def)

lemma uri_encode_inj: "uri_encode s b = uri_encode t b \<Longrightarrow> s = t"
  by (metis option.inject percent_decode_uri_encode)

lemma sort_encode_pair:
  assumes "prefix_free (map fst vs)"
  shows "sort (map encode_pair vs) = map render_param (sort (map encoded vs))"
proof (rule properties_for_sort)
  show "mset (map render_param (sort (map encoded vs))) = mset (map encode_pair vs)"
    by (simp add: multiset.map_comp comp_def flip: encode_pair_render)
  have "render_param p \<le> render_param q"
    if "p \<in> set (sort (map encoded vs))" "q \<in> set (sort (map encoded vs))" "p \<le> q" for p q
  proof (rule render_mono [OF that(3)])
    from that(1,2) obtain a c where a: "a \<in> set vs" "p = encoded a" and c: "c \<in> set vs" "q = encoded c"
      by auto
    show "fst p = fst q \<or> \<not> has_prefix (fst q) (fst p)"
    proof (cases "fst a = fst c")
      case False
      with assms a(1) c(1) have "\<not> has_prefix (uri_encode (fst c) True) (uri_encode (fst a) True)"
        unfolding prefix_free_def by auto
      with a c show ?thesis by (simp add: encoded_def)
    qed (simp add: a c encoded_def)
  qed
  with sorted_wrt_mono_rel [of "sort (map encoded vs)" "(\<le>)" "\<lambda>p q. render_param p \<le> render_param q"]
  show "sorted (map render_param (sort (map encoded vs)))"
    by (auto simp: sorted_map)
qed

subsection \<open>Reading the URL back\<close>

lemma unescape_escape:
  "url_unescape form (CHR ''%'' # cs) =
     (case cs of
        h # l # rest \<Rightarrow>
          (case (digit_value h, digit_value l, url_unescape form rest) of
             (Some a, Some b, Some s) \<Rightarrow> Some (char_of (16 * a + b) # s)
           | _ \<Rightarrow> None)
      | _ \<Rightarrow> None)"
  by simp

lemma unescape_no_plus:
  "CHR ''+'' \<notin> set t \<Longrightarrow> url_unescape True t = url_unescape False t"
proof (induction t rule: length_induct)
  case (1 t)
  show ?case
  proof (cases t)
    case (Cons c cs)
    have shorter: "url_unescape True u = url_unescape False u" if "length u \<le> length cs" "set u \<subseteq> set cs" for u
    proof -
      have "CHR ''+'' \<notin> set u" using 1(2) Cons that(2) by auto
      with 1(1) Cons that(1) show ?thesis by (simp add: less_Suc_eq_le)
    qed
    show ?thesis
    proof (cases "c = CHR ''%''")
      case True
      show ?thesis
      proof (cases cs rule: remdups_adj.cases)
        case (3 h l rest)
        then have "url_unescape True rest = url_unescape False rest" by (intro shorter) auto
        then show ?thesis unfolding Cons True unescape_escape 3 list.case by (rule arg_cong)
      qed (simp_all add: Cons True)
    next
      case False
      with shorter [of cs] 1(2) Cons show ?thesis by auto
    qed
  qed simp
qed

lemma unescape_query_encode: "url_unescape True (uri_encode s True) = Some s"
  using unescape_no_plus [OF uri_encode_no_separator(4)] by (simp add: unescape_uri_encode)

lemma query_pair_encoded: "query_pair (render_param (encoded p)) = Some p"
proof -
  have "CHR '';'' \<notin> set (render_param (encoded p))" "render_param (encoded p) \<noteq> []"
    by (simp_all add: render_param_def encoded_def uri_encode_no_separator)
  then show ?thesis
    unfolding query_pair_def
    by (simp add: render_param_def encoded_def unescape_query_encode flip: append_Cons)
qed

lemma map_filter_query_pair:
  "List.map_filter query_pair (map (\<lambda>p. render_param (encoded p)) vs) = vs"
  by (induction vs) (simp_all add: map_filter_simps query_pair_encoded)

lemma parse_query_encoded:
  assumes "vs \<noteq> []"
  shows "parse_query (join ''&'' (map (\<lambda>p. render_param (encoded p)) vs)) = vs"
proof -
  have "split_on CHR ''&'' (join ''&'' (map render_param (map encoded vs))) = map render_param (map encoded vs)"
    using assms by (intro split_render) auto
  then show ?thesis
    unfolding parse_query_def by (simp add: comp_def map_filter_query_pair)
qed

lemma canonical_query_without:
  assumes "\<forall>p \<in> set vs. \<not> equal_fold (fst p) e" "equal_fold n e" "e \<noteq> []"
  shows "canonical_query (join ''&'' (map (\<lambda>p. render_param (encoded p)) (vs @ [(n, v)]))) e =
    join ''&'' (map render_param (sort (map encoded vs)))"
proof -
  let ?ps = "map encoded (vs @ [(n, v)])"
  have "split_on CHR ''&'' (join ''&'' (map render_param ?ps)) = map render_param ?ps"
    by (intro split_render) auto
  moreover have "canonical_param e (render_param (encoded p)) =
      (if equal_fold (fst p) e then None else Some (encoded p))" for p
    using assms(3) by (simp add: canonical_param_def render_param_def encoded_def flip: append_Cons)
  then have "List.map_filter (canonical_param e) (map render_param ?ps) = map encoded vs"
    using assms(1,2) by (induction vs) (auto simp: map_filter_simps)
  moreover have "join ''&'' (map render_param ?ps) \<noteq> []"
    by (cases vs) (auto simp: render_param_def join_Cons)
  ultimately show ?thesis by (simp add: canonical_query_def comp_def)
qed

lemma map_of_perm:
  assumes "distinct (map fst xs)" "mset xs = mset ys"
  shows "map_of xs = map_of ys"
proof -
  from assms(2) have "set xs = set ys" "mset (map fst xs) = mset (map fst ys)"
    by (auto dest: mset_eq_setD)
  with assms(1) show ?thesis
    by (metis map_of_inject_set mset_eq_imp_distinct_iff)
qed

lemma sort_encoded: "map encoded (sort_key encoded vs) = sort (map encoded vs)"
  by (rule properties_for_sort [symmetric]) simp_all

text \<open>The query of a URL built from the parameters \<open>vs\<close> and the signature \<open>sig\<close>.\<close>

definition presign_raw_query :: "(string \<times> string) list \<Rightarrow> string" where
  "presign_raw_query vs = join ''&'' (sort (map encode_pair vs))"

definition presign_query :: "(string \<times> string) list \<Rightarrow> string \<Rightarrow> string" where
  "presign_query vs sig = presign_raw_query vs @ ''&'' @ param_signature @ ''='' @ sig"

lemma presign_raw_query_encoded:
  "prefix_free (map fst vs) \<Longrightarrow>
     presign_raw_query vs = join ''&'' (map (\<lambda>p. render_param (encoded p)) (sort_key encoded vs))"
  unfolding presign_raw_query_def sort_encode_pair sort_encoded [symmetric] by (simp add: comp_def)

lemma presign_query_encoded:
  assumes "prefix_free (map fst vs)" "vs \<noteq> []" "list_all is_unreserved sig"
  shows "presign_query vs sig =
    join ''&'' (map (\<lambda>p. render_param (encoded p)) (sort_key encoded vs @ [(param_signature, sig)]))"
proof -
  have "render_param (encoded (param_signature, sig)) = param_signature @ ''='' @ sig"
    using assms(3) by (simp add: render_param_def encoded_def uri_encode_plain param_signature_def is_unreserved_def)
  moreover have "sort_key encoded vs \<noteq> []"
    using assms(2) by (metis mset_sort mset_zero_iff)
  ultimately show ?thesis
    using presign_raw_query_encoded [OF assms(1)] by (simp add: presign_query_def join_snoc)
qed

lemma presign_query_values:
  assumes vs: "prefix_free (map fst vs)" "vs \<noteq> []" "list_all is_unreserved sig"
    and r: "rq_query r = presign_query vs sig" and fresh: "param_signature \<notin> fst ` set vs"
  shows "query_get r param_signature = sig"
    and "map_of vs name = Some v \<Longrightarrow> query_get r name = v"
proof -
  have q: "parse_query (rq_query r) = sort_key encoded vs @ [(param_signature, sig)]"
    unfolding r presign_query_encoded [OF vs] by (rule parse_query_encoded) simp
  have dist: "distinct (map fst vs)" using vs(1) by (simp add: prefix_free_def)
  then have m: "map_of (sort_key encoded vs) = map_of vs"
    by (intro map_of_perm [symmetric]) simp_all
  have "map_of vs param_signature = None" using fresh by (simp add: map_of_eq_None_iff)
  with m show "query_get r param_signature = sig"
    by (simp add: query_get_def q map_add_def)
  assume v: "map_of vs name = Some v"
  then have "name \<noteq> param_signature" using fresh by (force dest: map_of_SomeD)
  with v m show "query_get r name = v" by (simp add: query_get_def q map_add_def)
qed

lemma presign_query_canonical:
  assumes vs: "prefix_free (map fst vs)" "vs \<noteq> []" "list_all is_unreserved sig"
    and fresh: "\<forall>p \<in> set vs. \<not> equal_fold (fst p) param_signature"
  shows "canonical_query (presign_query vs sig) param_signature = presign_raw_query vs"
proof -
  have "canonical_query (presign_query vs sig) param_signature =
      join ''&'' (map render_param (sort (map encoded (sort_key encoded vs))))"
    unfolding presign_query_encoded [OF vs] using fresh
    by (intro canonical_query_without) (auto simp: equal_fold_def param_signature_def)
  also have "sort (map encoded (sort_key encoded vs)) = map encoded (sort_key encoded vs)"
    unfolding sort_encoded by (simp add: sorted_sort_id)
  finally show ?thesis using presign_raw_query_encoded [OF vs(1)] by (simp add: comp_def)
qed

lemma presign_path_uris:
  assumes "rq_path r = presign_path bucket key"
  shows "presign_path bucket key \<in> set (canonical_uris r)"
proof -
  have "url_unescape False ((''/'' @ uri_encode bucket True @ ''/'') @ uri_encode key False) =
      Some ((''/'' @ bucket @ ''/'') @ key)"
    by (simp add: url_unescape_append [OF unescape_uri_encode] unescape_uri_encode)
  then have path: "url_path r \<noteq> []"
    using assms by (simp add: url_path_def presign_path_def)
  have "valid_encoded_path (presign_path bucket key)"
    unfolding valid_encoded_path_def presign_path_def list_all_iff
    by (auto dest!: uri_encode_chars
      simp: is_unreserved_def should_escape_path_def unreserved_char_def is_letter_def is_digit_def)
  then have "escaped_path r = presign_path bucket key" using assms by (simp add: escaped_path_def)
  with path show ?thesis by (simp add: canonical_uris_def Let_def)
qed

subsection \<open>Acceptance\<close>

lemma hex_unreserved: "list_all is_unreserved (hex_encode s)"
proof -
  have "list_all is_unreserved hex_digits" by (simp add: hex_digits_def is_unreserved_def)
  with hex_encode_chars [of s] show ?thesis by (auto simp: list_all_iff)
qed

lemma signature_nonempty:
  "(\<And>s. length (h_sha256 h s) = 32) \<Longrightarrow> sign h k s \<noteq> []"
  by (metis hex_encode_eq_Nil hmac_sha256_def length_0_conv sign_def zero_neq_numeral)

lemma canonical_headers_host:
  "canonical_headers hs host [''host''] = canonical_headers [] host [''host'']"
  by (simp add: canonical_headers_def header_line_value_def)

lemma presigned_accepted:
  assumes vs: "prefix_free (map fst vs)" "\<forall>p \<in> set vs. \<not> equal_fold (fst p) param_signature"
    and vals: "map_of vs param_algorithm = Some sig_algorithm"
      "map_of vs param_credential = Some (access_key @ ''/'' @ scope_string sc)"
      "map_of vs param_date = Some (format_iso8601 t)"
      "map_of vs param_expires = Some (show_int secs)"
      "map_of vs param_signed_headers = Some ''host''"
    and r: "rq_method r = meth" "rq_path r = presign_path bucket key" "rq_query r = presign_query vs sig"
      "proxy_host (vf_proxies v) r = host" "header_get (rq_header r) ''X-Amz-Content-Sha256'' = []"
    and sig: "sig = presign_signature (vf_hashes v) meth (presign_path bucket key) (presign_raw_query vs)
      host (km_secret_key m) sc t"
    and sha: "\<And>s. length (h_sha256 (vf_hashes v) s) = 32"
    and key: "vf_lookup v access_key = Some m" "plain_field access_key" "plain_scope sc"
    and time: "formattable t" "0 < secs" "secs * second \<le> max_presign_expiry"
      "truncate_second t - max_clock_skew \<le> vf_now v" "vf_now v \<le> truncate_second t + secs * second"
  shows "verify v r = Inr (make_identity v access_key m unsigned_payload sc (truncate_second t) sig)"
proof -
  have ne: "vs \<noteq> []" using vals(1) by auto
  have unres: "list_all is_unreserved sig" unfolding sig presign_signature_def sign_def by (rule hex_unreserved)
  have fresh: "param_signature \<notin> fst ` set vs" using vs(2) by (auto simp: equal_fold_def)
  note q = presign_query_values [OF vs(1) ne unres r(3) fresh]
  note get = q(1) q(2) [OF vals(1)] q(2) [OF vals(2)] q(2) [OF vals(3)] q(2) [OF vals(4)] q(2) [OF vals(5)]
  have nonempty: "sig \<noteq> []"
    unfolding sig presign_signature_def by (rule signature_nonempty) (rule sha)
  have canon: "canonical_query (rq_query r) param_signature = presign_raw_query vs"
    unfolding r(3) by (rule presign_query_canonical [OF vs(1) ne unres vs(2)])
  have secs: "secs < 2 ^ 63" "secs * second < 2 ^ 63"
    using time(2,3) by (simp_all add: max_presign_expiry_def second_def)
  then have wrap: "wrap64 (secs * second) = secs * second"
    using time(2) by (simp add: wrap64_def second_def)
  have headers: "sorted_signed_headers [''host''] = [''host'']"
    by (simp add: sorted_signed_headers_def trim_space_def trim_left_def trim_right_def is_space_def
      to_lower_def lower_char_def)
  have "signature_at v r (km_secret_key m) (truncate_second t) sc (presign_raw_query vs) [''host'']
      unsigned_payload (presign_path bucket key) = sig"
    unfolding signature_at_def sig presign_signature_def string_to_sign_def canonical_request_def r(1,4)
      canonical_headers_host [of "rq_header r"] truncate_second_format ..
  then have "list_ex (\<lambda>uri. signatures_equal (signature_at v r (km_secret_key m) (truncate_second t) sc
      (presign_raw_query vs) [''host''] unsigned_payload uri) sig) (canonical_uris r)"
    using presign_path_uris [OF r(2)] by (auto simp: list_ex_iff signatures_equal_def)
  then have check: "check_signature v r access_key m (truncate_second t) sc (presign_raw_query vs) [''host'']
      unsigned_payload sig = Inr (make_identity v access_key m unsigned_payload sc (truncate_second t) sig)"
    by (simp add: check_signature_def)
  have body: "presigned_payload_hash r = unsigned_payload" by (simp add: presigned_payload_hash_def r(5))
  have pre: "is_presigned r" using nonempty by (simp add: is_presigned_def get(1))
  have "verify_presigned v r = check_signature v r access_key m (truncate_second t) sc
      (presign_raw_query vs) [''host''] unsigned_payload sig"
    unfolding verify_presigned_def get parse_format_iso8601 [OF time(1)] canon body
      parse_credential_scope [OF key(2,3)] atoi_show_int [OF less_imp_le [OF time(2)] secs(1)]
    using time(2-5) by (simp add: wrap headers key(1))
  with pre check show ?thesis by (simp add: verify_def)
qed

end
