(* ===== verification/Signing.thy ===== *)
theory Signing
  imports Presign
begin

text \<open>
  What the signature check accepts: the identity it hands on was proved by the secret of its key, and
  a request signed with that secret is let in.
\<close>

text \<open>\<open>proved v r i t query\<close>: the signature of \<open>i\<close> is the one of the request under the secret of its key.\<close>

definition proved :: "verifier \<Rightarrow> request \<Rightarrow> identity \<Rightarrow> time \<Rightarrow> string \<Rightarrow> string \<Rightarrow> bool" where
  "proved v r i t query payload_hash \<longleftrightarrow>
     id_payload_hash i = payload_hash \<and> id_timestamp i = format_iso8601 t \<and>
     (\<exists>m names uri. vf_lookup v (id_access_key_id i) = Some m \<and> id_grant i = km_grant m \<and>
        id_signing_key i = signing_key (vf_hashes v) (km_secret_key m) (id_scope i) \<and>
        ''host'' \<in> set names \<and> uri \<in> set (canonical_uris r) \<and>
        id_signature i = signature_at v r (km_secret_key m) t (id_scope i) query names payload_hash uri)"

lemma check_signature_proved:
  assumes "check_signature v r key m t sc query names ph sig = Inr i" "vf_lookup v key = Some m"
    and "''host'' \<in> set names"
  shows "proved v r i t query ph" "id_scope i = sc"
proof -
  from assms(1) obtain uri where uri: "uri \<in> set (canonical_uris r)"
    "signature_at v r (km_secret_key m) t sc query names ph uri = sig"
    and i: "i = make_identity v key m ph sc t sig"
    by (auto simp: check_signature_def list_ex_iff signatures_equal_def split: if_splits)
  show "id_scope i = sc" by (simp add: i make_identity_def)
  show "proved v r i t query ph"
    unfolding proved_def i make_identity_def using uri assms(2,3) by auto
qed

lemma verify_header_Inr:
  assumes "verify_header v r = Inr i"
  obtains t where "proved v r i t (canonical_query (rq_query r) []) (payload_hash_of r)"
    "request_time v r = Inr t" "\<bar>vf_now v - t\<bar> \<le> max_clock_skew" "format_date t = sc_date (id_scope i)"
proof -
  from assms obtain auth where auth: "parse_authorization (header_get (rq_header r) ''Authorization'') = Inr auth"
    by (auto simp: verify_header_def result_iff Let_def split: if_splits)
  from assms obtain t where t: "request_time v r = Inr t"
    by (auto simp: verify_header_def result_iff Let_def split: if_splits)
  note run = assms [unfolded verify_header_def auth t Let_def rbind_simps]
  from run have skew: "\<not> max_clock_skew < vf_now v - t" "\<not> vf_now v - t < - max_clock_skew"
    and date: "format_date t = sc_date (ah_scope auth)"
    and host: "''host'' \<in> set (sorted_signed_headers (ah_signed_headers auth))"
    by (simp_all split: if_splits)
  from run obtain m where m: "vf_lookup v (ah_access_key_id auth) = Some m"
    by (auto split: if_splits option.splits)
  from run have check: "check_signature v r (ah_access_key_id auth) m t (ah_scope auth)
      (canonical_query (rq_query r) []) (sorted_signed_headers (ah_signed_headers auth)) (payload_hash_of r)
      (ah_signature auth) = Inr i"
    by (simp add: m split: if_splits)
  show ?thesis
    by (rule that [OF check_signature_proved(1) [OF check m host] t])
      (use skew date check_signature_proved(2) [OF check m host] in \<open>auto simp: abs_le_iff\<close>)
qed

lemma verify_presigned_Inr:
  assumes "verify_presigned v r = Inr i"
  obtains t expiry where
    "proved v r i t (canonical_query (rq_query r) param_signature) (presigned_payload_hash r)"
    "parse_iso8601 (query_get r param_date) = Some t" "expiry \<le> max_presign_expiry"
    "t - max_clock_skew \<le> vf_now v" "vf_now v \<le> t + expiry"
proof -
  let ?names = "sorted_signed_headers (split_on CHR '';'' (query_get r param_signed_headers))"
  let ?secs = "case atoi (query_get r param_expires) of Some n \<Rightarrow> if n \<le> 0 then None else Some n | None \<Rightarrow> None"
  from assms obtain key sc where cred: "parse_credential (query_get r param_credential) = Inr (key, sc)"
    by (auto simp: verify_presigned_def result_iff split: if_splits)
  from assms obtain t where t: "parse_iso8601 (query_get r param_date) = Some t"
    by (cases "parse_iso8601 (query_get r param_date)") (auto simp: verify_presigned_def cred split: if_splits)
  from assms obtain secs where secs: "?secs = Some secs"
    by (cases ?secs) (simp_all add: verify_presigned_def cred t split: if_splits)
  note run = assms [unfolded verify_presigned_def cred t secs Let_def rbind_simps prod.case option.case]
  from run have window: "\<not> max_presign_expiry < wrap64 (secs * second)" "\<not> vf_now v < t - max_clock_skew"
      "\<not> t + wrap64 (secs * second) < vf_now v"
    and host: "''host'' \<in> set ?names"
    by (simp_all split: if_splits)
  from run obtain m where m: "vf_lookup v key = Some m" by (auto split: if_splits option.splits)
  from run have check: "check_signature v r key m t sc (canonical_query (rq_query r) param_signature) ?names
      (presigned_payload_hash r) (query_get r param_signature) = Inr i"
    by (simp add: m split: if_splits)
  show ?thesis
    by (rule that [OF check_signature_proved(1) [OF check m host] t])
      (use window in auto)
qed

text \<open>A request signed in its header is accepted.\<close>

lemma header_accepted:
  assumes auth: "header_get (rq_header r) ''Authorization'' = authorization_header a"
    and plain: "plain_field (ah_access_key_id a)" "plain_scope (ah_scope a)" "ah_signed_headers a = [''host'']"
    and query: "\<not> is_presigned r" "\<not> is_signature_v2 r"
    and time: "request_time v r = Inr t" "\<bar>vf_now v - t\<bar> \<le> max_clock_skew"
      "format_date t = sc_date (ah_scope a)"
    and key: "vf_lookup v (ah_access_key_id a) = Some m"
    and uri: "uri \<in> set (canonical_uris r)"
    and sig: "ah_signature a = signature_at v r (km_secret_key m) t (ah_scope a)
      (canonical_query (rq_query r) []) [''host''] (payload_hash_of r) uri"
    and sha: "\<And>s. length (h_sha256 (vf_hashes v) s) = 32"
  shows "verify v r = Inr (make_identity v (ah_access_key_id a) m (payload_hash_of r) (ah_scope a) t (ah_signature a))"
proof -
  have unres: "list_all is_unreserved (ah_signature a)"
    unfolding sig signature_at_def sign_def by (rule hex_unreserved)
  have nonempty: "ah_signature a \<noteq> []"
    unfolding sig signature_at_def by (rule signature_nonempty) (rule sha)
  have parsed: "parse_authorization (header_get (rq_header r) ''Authorization'') = Inr a"
    unfolding auth by (rule parse_authorization_header [OF plain(1,2)])
      (use plain(3) unres nonempty in \<open>auto simp: plain_field_def is_unreserved_def\<close>)
  have present: "header_get (rq_header r) ''Authorization'' \<noteq> []"
    by (simp add: auth authorization_header_def sig_algorithm_def)
  have headers: "sorted_signed_headers (ah_signed_headers a) = [''host'']"
    by (simp add: plain(3) sorted_signed_headers_def trim_space_def trim_left_def trim_right_def is_space_def
      to_lower_def lower_char_def)
  have "list_ex (\<lambda>u. signatures_equal (signature_at v r (km_secret_key m) t (ah_scope a)
      (canonical_query (rq_query r) []) [''host''] (payload_hash_of r) u) (ah_signature a)) (canonical_uris r)"
    using uri sig by (auto simp: list_ex_iff signatures_equal_def)
  then have check: "check_signature v r (ah_access_key_id a) m t (ah_scope a) (canonical_query (rq_query r) [])
      [''host''] (payload_hash_of r) (ah_signature a) =
    Inr (make_identity v (ah_access_key_id a) m (payload_hash_of r) (ah_scope a) t (ah_signature a))"
    by (simp add: check_signature_def)
  have "\<not> max_clock_skew < vf_now v - t" "\<not> vf_now v - t < - max_clock_skew" using time(2) by auto
  then show ?thesis
    using query by (simp add: verify_def verify_header_def present parsed time(1,3) headers key check)
qed

end
