(* ===== verification/Service_Samples.thy ===== *)
theory Service_Samples
  imports Round_Trip Samples Signing "HOL-Library.Code_Target_Nat"
begin

text \<open>
  A server, its keys and signed requests, for the instances of the theorems: one key that may do
  everything and one that may do what its rules allow.
\<close>

text \<open>Code equations without constructor patterns on numbers.\<close>

lemma get_digits_code [code]:
  "get_digits w acc s =
     (if w = 0 then Some (acc, s)
      else case s of
        [] \<Rightarrow> None
      | c # cs \<Rightarrow> if is_digit c then get_digits (w - 1) (10 * acc + (of_char c - 48)) cs else None)"
  by (cases w) (simp_all split: list.split)

lemma decimal_code [code]:
  "decimal w n = (if w = 0 then [] else decimal (w - 1) (n div 10) @ [digit_char n])"
  by (cases w) simp_all

text \<open>A hash of the right length; what it maps to is of no concern to the instances.\<close>

definition toy_hashes :: hashes where
  "toy_hashes = \<lparr>h_sha256 = (\<lambda>x. take 32 (rev x @ replicate 32 (CHR 0x00))),
     h_md5 = (\<lambda>x. take 16 (rev x @ replicate 16 (CHR 0x00)))\<rparr>"

lemma toy_hashes_length: "length (h_sha256 toy_hashes x) = 32"
  by (simp add: toy_hashes_def)

definition sample_clock :: time where
  "sample_clock = 1000000000 * second"

definition scoped_grant :: grant where
  "scoped_grant = \<lparr>g_unrestricted = False, g_rules =
     [\<lparr>gr_bucket = ''photos'', gr_prefix = ''mine/'', gr_permissions = [PermissionRead, PermissionWrite]\<rparr>]\<rparr>"

definition sample_keys :: "string \<Rightarrow> key_material option" where
  "sample_keys k =
     (if k = ''ROOT'' then Some \<lparr>km_secret_key = ''root secret'', km_grant = unrestricted_grant\<rparr>
      else if k = ''SCOPED'' then Some \<lparr>km_secret_key = ''scoped secret'', km_grant = scoped_grant\<rparr>
      else None)"

definition sample_verifier :: verifier where
  "sample_verifier = \<lparr>vf_hashes = toy_hashes, vf_lookup = sample_keys, vf_proxies = [],
     vf_obsolete_dates = (\<lambda>_. None), vf_now = sample_clock\<rparr>"

text \<open>A decoder for the request documents of the instances, one line for each.\<close>

definition sample_xml :: xml_decoder where
  "sample_xml = \<lparr>xml_delete = (\<lambda>s. Some (False, [(s, [])])), xml_complete = (\<lambda>s. Some [(1, s)]),
     xml_versioning = (\<lambda>s. Some s), xml_location = (\<lambda>s. Some s)\<rparr>"

definition sample_server :: server where
  "sample_server = \<lparr>sv_verifier = sample_verifier, sv_region = ''us-east-1'', sv_public_url = ''https://s3'',
     sv_s3_domain = [], sv_root = ''/data'', sv_xml = sample_xml\<rparr>"

definition sample_scope :: scope where
  "sample_scope = \<lparr>sc_date = format_date sample_clock, sc_region = ''us-east-1'', sc_service = ''s3''\<rparr>"

definition bare_request :: "string \<Rightarrow> string \<Rightarrow> string \<Rightarrow> string \<Rightarrow> request" where
  "bare_request meth path query body =
     \<lparr>rq_method = meth, rq_path = path, rq_query = query,
      rq_header = [(''X-Amz-Date'', [format_iso8601 sample_clock]),
        (''X-Amz-Content-Sha256'', [hex_encode (h_sha256 toy_hashes body)])],
      rq_host = ''s3'', rq_remote_addr = ''192.0.2.1:4000'', rq_tls = False, rq_body = body\<rparr>"

definition with_authorization :: "string \<Rightarrow> request \<Rightarrow> request" where
  "with_authorization a r = r\<lparr>rq_header := (''Authorization'', [a]) # rq_header r\<rparr>"

definition sample_signature :: "key_material \<Rightarrow> request \<Rightarrow> string" where
  "sample_signature m r = signature_at sample_verifier r (km_secret_key m) sample_clock sample_scope
     (canonical_query (rq_query r) []) [''host''] (payload_hash_of r) (hd (canonical_uris r))"

definition signed_by :: "string \<Rightarrow> key_material \<Rightarrow> request \<Rightarrow> request" where
  "signed_by key m r = with_authorization (authorization_header
     \<lparr>ah_access_key_id = key, ah_scope = sample_scope, ah_signed_headers = [''host''],
      ah_signature = sample_signature m r\<rparr>) r"

definition caller_of :: "string \<Rightarrow> grant \<Rightarrow> request \<Rightarrow> string \<Rightarrow> string \<Rightarrow> identity" where
  "caller_of key g r k sig = \<lparr>id_access_key_id = key, id_grant = g, id_payload_hash = payload_hash_of r,
     id_signing_key = k, id_scope = sample_scope, id_timestamp = format_iso8601 sample_clock, id_signature = sig\<rparr>"

lemma header_get_authorized:
  "header_get (rq_header (with_authorization a r)) ''Authorization'' = a"
  "header_get (rq_header (with_authorization a r)) ''X-Amz-Date'' = header_get (rq_header r) ''X-Amz-Date''"
  "header_get (rq_header (with_authorization a r)) ''X-Amz-Content-Sha256'' =
     header_get (rq_header r) ''X-Amz-Content-Sha256''"
  by (simp_all add: with_authorization_def header_get_def header_values_def canonical_header_key_def
    is_token_char_def is_letter_def is_digit_def upper_char_def lower_char_def)

lemma with_authorization_simps [simp]:
  "rq_method (with_authorization a r) = rq_method r" "rq_path (with_authorization a r) = rq_path r"
  "rq_query (with_authorization a r) = rq_query r" "rq_host (with_authorization a r) = rq_host r"
  "rq_remote_addr (with_authorization a r) = rq_remote_addr r" "rq_body (with_authorization a r) = rq_body r"
  by (simp_all add: with_authorization_def)

lemma bare_simps [simp]:
  "rq_method (bare_request meth path query body) = meth" "rq_path (bare_request meth path query body) = path"
  "rq_query (bare_request meth path query body) = query" "rq_body (bare_request meth path query body) = body"
  by (simp_all add: bare_request_def)

lemma payload_with_authorization [simp]: "payload_hash_of (with_authorization a r) = payload_hash_of r"
  by (simp add: payload_hash_of_def header_get_authorized)

lemma uris_with_authorization [simp]: "canonical_uris (with_authorization a r) = canonical_uris r"
  unfolding canonical_uris_def url_path_def escaped_path_def with_authorization_simps ..

lemma uris_nonempty: "canonical_uris r \<noteq> []"
  by (simp add: canonical_uris_def Let_def)

lemma untrusted_host: "proxy_host [] r = rq_host r"
proof -
  have "\<not> proxy_trusted [] r" by (simp add: proxy_trusted_def split: option.split)
  from untrusted_forwarding [OF this] show ?thesis by (simp add: proxy_host_def)
qed

lemma sample_clock_facts:
  "formattable sample_clock" "truncate_second sample_clock = sample_clock" "format_iso8601 sample_clock \<noteq> []"
proof -
  have "fst (civil_from_days (sample_clock div day)) = 2001" by code_simp
  then show "formattable sample_clock" by (simp add: formattable_def)
  show "truncate_second sample_clock = sample_clock" "format_iso8601 sample_clock \<noteq> []" by code_simp+
qed

lemma sample_time:
  "request_time sample_verifier (with_authorization a (bare_request meth path query body)) = Inr sample_clock"
proof -
  have "header_get (rq_header (bare_request meth path query body)) ''X-Amz-Date'' = format_iso8601 sample_clock"
    by (simp add: bare_request_def header_get_def header_values_def canonical_header_key_def
      is_token_char_def is_letter_def is_digit_def upper_char_def lower_char_def)
  with sample_clock_facts show ?thesis
    unfolding request_time_def header_get_authorized Let_def
    using parse_format_iso8601 [of sample_clock] by simp
qed

text \<open>A request signed by a known key is verified; what its signature is does not matter to the rest.\<close>

lemma sample_verified:
  assumes "sample_keys key = Some m" "plain_field key"
    and "\<not> is_presigned (bare_request meth path query body)" "\<not> is_signature_v2 (bare_request meth path query body)"
  defines "r \<equiv> bare_request meth path query body"
  shows "\<exists>k. verify sample_verifier (signed_by key m r) = Inr (caller_of key (km_grant m) r k (sample_signature m r))"
proof -
  let ?a = "\<lparr>ah_access_key_id = key, ah_scope = sample_scope, ah_signed_headers = [''host''],
      ah_signature = sample_signature m r\<rparr>"
  let ?r = "with_authorization (authorization_header ?a) r"
  have scope: "plain_scope sample_scope" by code_simp
  have query: "\<not> is_presigned ?r" "\<not> is_signature_v2 ?r"
    using assms(3,4) by (simp_all add: r_def is_presigned_def is_signature_v2_def query_get_def)
  have proxies: "vf_proxies sample_verifier = []" by (simp add: sample_verifier_def)
  have sig: "ah_signature ?a = signature_at sample_verifier ?r (km_secret_key m) sample_clock (ah_scope ?a)
      (canonical_query (rq_query ?r) []) [''host''] (payload_hash_of ?r) (hd (canonical_uris r))"
    using canonical_headers_host [of "rq_header r"] canonical_headers_host [of "rq_header ?r"]
    by (simp add: sample_signature_def signature_at_def canonical_request_def proxies untrusted_host)
  have uri: "hd (canonical_uris r) \<in> set (canonical_uris ?r)"
    using uris_nonempty by simp
  have key: "vf_lookup sample_verifier (ah_access_key_id ?a) = Some m"
    using assms(1) by (simp add: sample_verifier_def)
  have hash: "length (h_sha256 (vf_hashes sample_verifier) x) = 32" for x
    by (simp add: sample_verifier_def toy_hashes_length)
  have skew: "\<bar>vf_now sample_verifier - sample_clock\<bar> \<le> max_clock_skew"
    by (simp add: sample_verifier_def max_clock_skew_def second_def)
  have time: "request_time sample_verifier ?r = Inr sample_clock" unfolding r_def by (rule sample_time)
  have "verify sample_verifier ?r = Inr (make_identity sample_verifier (ah_access_key_id ?a) m
      (payload_hash_of ?r) (ah_scope ?a) sample_clock (ah_signature ?a))"
    by (rule header_accepted [OF header_get_authorized(1) _ _ _ query time skew _ key uri sig])
      (use assms(2) scope hash in \<open>simp_all add: sample_scope_def [abs_def]\<close>)
  then show ?thesis
    unfolding signed_by_def by (auto simp: make_identity_def caller_of_def)
qed

text \<open>No call fails, the body arrives in one piece and nobody else writes.\<close>

definition one_piece :: "string \<times> s3_error option \<Rightarrow> copy_step list" where
  "one_piece body = [\<lparr>cs_cancelled = False, cs_data = fst body,
     cs_end = (case snd body of None \<Rightarrow> At_EOF | Some e \<Rightarrow> Read_Fails (s3_error_text e)),
     cs_write_fails = None, cs_written = length (fst body)\<rparr>]"

definition calm :: "nat \<Rightarrow> surroundings" where
  "calm n = \<lparr>su_env = (\<lambda>i. sample_env (n + i)), su_faults = (\<lambda>_. None), su_others = (\<lambda>f. f),
     su_temp_name = ''upload-1'', su_chop = one_piece, su_clean = True, su_settings_fail = False\<rparr>"

lemma calm_faithful: "faithful sample_server (calm n)"
  by (simp add: faithful_def delivers_def calm_def one_piece_def well_behaved_def split: option.split)

definition sample_site :: site where
  "sample_site = \<lparr>st_disk = [], st_db = bucket_db\<rparr>"


end
