(* ===== verification/Runs.thy ===== *)
theory Runs
  imports Round_Trip
begin

text \<open>
  The life of a server: requests and passes of the sweeper in any order, from an empty data
  directory and an empty database.
\<close>

datatype event =
    Request surroundings request
  | Sweep io_faults env time nat

fun happen :: "server \<Rightarrow> event \<Rightarrow> site \<Rightarrow> site" where
  "happen sv (Request su r) w = snd (serve sv su r w)"
| "happen sv (Sweep faults e grace limit) w =
     (case sweep_unreferenced (remove_blob (sv_root sv) faults) e grace limit (st_db w, st_disk w) of
        (n, s, f) \<Rightarrow> \<lparr>st_disk = f, st_db = s\<rparr>)"

fun event_ok :: "server \<Rightarrow> event \<Rightarrow> bool" where
  "event_ok sv (Request su r) \<longleftrightarrow> faithful sv su"
| "event_ok sv (Sweep faults e grace limit) \<longleftrightarrow> True"

definition live_through :: "server \<Rightarrow> event list \<Rightarrow> site \<Rightarrow> site" where
  "live_through sv evs w = fold (happen sv) evs w"

definition empty_site :: site where
  "empty_site = \<lparr>st_disk = [], st_db = empty_db\<rparr>"

text \<open>Nothing is in flight between two events, so every sweep is a guarded step.\<close>

lemma happen_steps:
  assumes "event_ok sv ev"
  shows "steps sv True (world_of w []) (world_of (happen sv ev w) [])"
proof (cases ev)
  case (Request su r)
  with assms show ?thesis by (simp add: serve_steps)
next
  case (Sweep faults e grace limit)
  obtain n s f where s: "sweep_unreferenced (remove_blob (sv_root sv) faults) e grace limit
      (st_db w, st_disk w) = (n, s, f)" by (rule prod_cases3)
  show ?thesis
    by (rule one_step [OF world_step.swept [where w = "world_of w []" and s' = s and f' = f]])
      (use s in \<open>simp_all add: Sweep world_of_def\<close>)
qed

lemma life_steps:
  "List.list_all (event_ok sv) evs \<Longrightarrow> steps sv True (world_of w []) (world_of (live_through sv evs w) [])"
proof (induction evs arbitrary: w)
  case (Cons ev evs)
  then have "steps sv True (world_of w []) (world_of (happen sv ev w) [])" by (simp add: happen_steps)
  also from Cons have "steps sv True \<dots> (world_of (live_through sv evs (happen sv ev w)) [])" by simp
  finally show ?case by (simp add: live_through_def)
qed (simp add: live_through_def)

lemma reachable_steps:
  "(world_step h root guarded)\<^sup>*\<^sup>* x y \<Longrightarrow> reachable h root guarded x \<Longrightarrow> reachable h root guarded y"
  by (induction rule: rtranclp_induct) (auto intro: reachable.step)

lemma life_durable:
  assumes "List.list_all (event_ok sv) evs" "\<And>x. length (h_sha256 (vf_hashes (sv_verifier sv)) x) = 32"
  shows "durable (vf_hashes (sv_verifier sv)) (sv_root sv) (world_of (live_through sv evs empty_site) [])"
proof -
  have "world_of empty_site [] = initial_world" by (simp add: world_of_def initial_world_def empty_site_def)
  then have "reachable (vf_hashes (sv_verifier sv)) (sv_root sv) True (world_of (live_through sv evs empty_site) [])"
    using reachable_steps [OF life_steps [OF assms(1), of empty_site]] reachable.start by metis
  then show ?thesis using assms(2) by (rule reachable_durable)
qed

lemma durable_sound:
  assumes "durable h root (world_of w P)"
  shows "sound_db (st_db w)" "sound_store h root (st_disk w)"
  using assms by (simp_all add: durable_def sound_db_def accounted_db_def)

lemma step_accounted:
  assumes "world_step h root guarded x y" "accounted_db (w_db x)"
  shows "accounted_db (w_db y)"
  using assms(1)
proof (cases rule: world_step.cases)
  case (commit t)
  with assms(2) run_accounted [of "w_db x" t] show ?thesis by (simp add: accounted_db_def)
next
  case (swept faults e grace limit n s' f')
  with assms(2) sweep_frame(1,2) [OF swept(2)] show ?thesis by (simp add: accounted_db_def counts_safe_iff)
qed (use assms(2) in auto)

lemma steps_accounted:
  "(world_step h root guarded)\<^sup>*\<^sup>* x y \<Longrightarrow> accounted_db (w_db x) \<Longrightarrow> accounted_db (w_db y)"
  by (induction rule: rtranclp_induct) (auto intro: step_accounted)

lemma life_accounted:
  assumes "List.list_all (event_ok sv) evs" "accounted_db (st_db w)"
  shows "accounted_db (st_db (live_through sv evs w))"
  using steps_accounted [OF life_steps [OF assms(1), of w]] assms(2) by simp

end
