(* ===== verification/Service_Properties.thy ===== *)
theory Service_Properties
  imports Service_Samples Runs
begin

text \<open>
  What a client of the S3 listener can rely on: who may change what, and what comes back.
\<close>

subsection \<open>Instances\<close>

definition root_key :: key_material where
  "root_key = \<lparr>km_secret_key = ''root secret'', km_grant = unrestricted_grant\<rparr>"

definition scoped_key :: key_material where
  "scoped_key = \<lparr>km_secret_key = ''scoped secret'', km_grant = scoped_grant\<rparr>"

lemma sample_keys_known: "sample_keys ''ROOT'' = Some root_key" "sample_keys ''SCOPED'' = Some scoped_key"
  by (simp_all add: sample_keys_def root_key_def scoped_key_def)

lemma sample_key_names: "plain_field ''ROOT''" "plain_field ''SCOPED''"
  by code_simp+

definition put_hi :: request where
  "put_hi = bare_request ''PUT'' ''/photos/mine/a'' [] ''hi''"

definition get_a :: request where
  "get_a = bare_request ''GET'' ''/photos/mine/a'' [] []"

text \<open>What the listener does with a request of the instances that a known key has signed.\<close>

lemma sample_served:
  assumes "sample_keys key = Some m" "plain_field key"
    and "\<not> is_presigned (bare_request meth path query body)" "\<not> is_signature_v2 (bare_request meth path query body)"
    and "\<And>a. header_get (rq_header (with_authorization a (bare_request meth path query body))) ''Origin'' = []"
  defines "r \<equiv> bare_request meth path query body"
  shows "\<exists>a k s. signed_by key m r = with_authorization a r \<and>
    verify sample_verifier (signed_by key m r) = Inr (caller_of key (km_grant m) r k s) \<and>
    (\<forall>su w. serve sample_server su (signed_by key m r) w =
       routed sample_server su (with_authorization a r) (Some (caller_of key (km_grant m) r k s)) w)"
proof -
  obtain k where v: "verify sample_verifier (signed_by key m r) = Inr (caller_of key (km_grant m) r k (sample_signature m r))"
    using sample_verified [OF assms(1-4)] unfolding r_def by blast
  obtain a where a: "signed_by key m r = with_authorization a r" by (simp add: signed_by_def)
  have "header_get (rq_header (with_authorization a r)) ''Origin'' = []" using assms(5) by (simp add: r_def)
  then have "apply_cors sample_server fails db (with_authorization a r) = ([], None)" for fails db
    by (simp add: apply_cors_def)
  then have "serve sample_server su (signed_by key m r) w =
      routed sample_server su (with_authorization a r) (Some (caller_of key (km_grant m) r k (sample_signature m r))) w"
    for su w
    using v by (simp add: a serve_def authenticate_def sample_server_def with_headers_def split: prod.split)
  with v a show ?thesis by blast
qed

definition outcome :: "response \<times> site \<Rightarrow> (nat \<Rightarrow> site \<Rightarrow> bool) \<Rightarrow> bool" where
  "outcome out p = (case out of (resp, w) \<Rightarrow> p (rs_status resp) w)"

lemma put_hi_served:
  "outcome (routed sample_server (calm 2) (with_authorization a put_hi)
     (Some (caller_of ''ROOT'' unrestricted_grant put_hi k s)) sample_site)
     (\<lambda>status w. status = 200 \<and> committed (get_object (st_db w) ''b0'' ''mine/a''))"
  by code_simp

lemma put_hi_signed:
  "\<exists>a k s. signed_by ''ROOT'' root_key put_hi = with_authorization a put_hi \<and>
    verify sample_verifier (signed_by ''ROOT'' root_key put_hi) = Inr (caller_of ''ROOT'' unrestricted_grant put_hi k s) \<and>
    (\<forall>su w. serve sample_server su (signed_by ''ROOT'' root_key put_hi) w =
       routed sample_server su (with_authorization a put_hi) (Some (caller_of ''ROOT'' unrestricted_grant put_hi k s)) w)"
proof -
  have "\<not> is_presigned put_hi" "\<not> is_signature_v2 put_hi"
    "\<And>a. header_get (rq_header (with_authorization a put_hi)) ''Origin'' = []"
    by code_simp+
  from sample_served [OF sample_keys_known(1) sample_key_names(1) this [unfolded put_hi_def]]
  show ?thesis by (simp add: put_hi_def root_key_def)
qed

subsection \<open>Who may change what\<close>

text \<open>C2. Complete mediation of writes: a request that changes anything, a row or a file, carried a
  signature that was verified, asks for an operation that is not a read, and the grant of the
  verified key allows every bucket and key the operation names, with at least one permission
  beyond reading among them. In particular an unsigned request to a public bucket, a preflight and
  a request with a bad signature change nothing.\<close>

theorem changes_are_authorized:
  assumes "snd (serve sv su r w) \<noteq> w"
  shows "\<exists>i op. verify (sv_verifier sv) r = Inr i \<and> route sv None r = Inr op \<and> \<not> reads_only op \<and>
    (\<forall>(b, k, want) \<in> set (required op). allowed (id_grant i) b k want) \<and>
    (\<exists>(b, k, want) \<in> set (required op). ac_permission want \<noteq> PermissionRead)"
proof -
  from serve_cases [OF assms] obtain i op where i: "verify (sv_verifier sv) r = Inr i"
    and op: "route sv (Some (id_grant i)) r = Inr op" "\<not> reads_only op" by blast
  from op(1) have "route sv None r = Inr op" "authorized (Some (id_grant i)) op"
    using route_Inr [of sv "Some (id_grant i)" r op] by simp_all
  with i op(2) writing_needs_permission [OF op(2)] show ?thesis
    by (auto simp: authorized_def list_all_iff list_ex_iff)
qed

lemma changes_are_authorized_witness:
  "\<exists>i op. verify sample_verifier (signed_by ''ROOT'' root_key put_hi) = Inr i \<and>
     route sample_server None (signed_by ''ROOT'' root_key put_hi) = Inr op \<and> \<not> reads_only op"
proof -
  obtain a k s where r: "\<forall>su w. serve sample_server su (signed_by ''ROOT'' root_key put_hi) w =
      routed sample_server su (with_authorization a put_hi) (Some (caller_of ''ROOT'' unrestricted_grant put_hi k s)) w"
    using put_hi_signed by blast
  have "committed (get_object (st_db (snd (serve sample_server (calm 2) (signed_by ''ROOT'' root_key put_hi) sample_site))) ''b0'' ''mine/a'')"
    using put_hi_served [of a k s] by (simp add: r outcome_def case_prod_unfold)
  moreover have "\<not> committed (get_object (st_db sample_site) ''b0'' ''mine/a'')" by code_simp
  ultimately have "snd (serve sample_server (calm 2) (signed_by ''ROOT'' root_key put_hi) sample_site) \<noteq> sample_site"
    by auto
  from changes_are_authorized [OF this] show ?thesis by (auto simp: sample_server_def)
qed

text \<open>C24. Mediation is complete and no stricter than the table of permissions: a caller's request is
  dispatched to an operation exactly when the same request without a caller is dispatched to it
  and the caller's grant allows what the table \<open>required\<close> asks for that operation.\<close>

theorem dispatch_is_mediated:
  "route sv caller r = Inr op \<longleftrightarrow> route sv None r = Inr op \<and> authorized caller op"
  by (rule route_Inr)

text \<open>C5. A key changes nothing outside its scope: whatever a verified request does, the current
  object and every version of a key that the grant allows neither to write nor to delete are as
  they were. The one exception are requests that name an upload in progress.\<close>

theorem scope_is_respected:
  assumes "verify (sv_verifier sv) r = Inr i" "out_of_reach (id_grant i) n k"
    and "query_get r ''uploadId'' = []" "sound_db (st_db w)" "get_bucket (st_db w) n = Inr c"
  shows "let s = st_db (snd (serve sv su r w))
    in get_object s (bk_id c) k = get_object (st_db w) (bk_id c) k \<and>
      (\<forall>v. get_version s (bk_id c) k v = get_version (st_db w) (bk_id c) k v)"
  using serve_confined [OF assms] by (simp add: Let_def untouched_def get_object_def get_version_def)

text \<open>A key scoped to one prefix overwrites its object; the one next to it stays.\<close>

definition put_mine :: request where
  "put_mine = bare_request ''PUT'' ''/photos/mine/a'' [] ''mine''"

lemma scope_is_respected_witness:
  "get_object (st_db (snd (serve sample_server (calm 5) (signed_by ''SCOPED'' scoped_key put_mine)
      \<lparr>st_disk = [], st_db = object_db\<rparr>))) ''b0'' ''a'' = get_object object_db ''b0'' ''a''"
proof -
  have "\<not> is_presigned put_mine" "\<not> is_signature_v2 put_mine"
    "\<And>a. header_get (rq_header (with_authorization a put_mine)) ''Origin'' = []"
    by code_simp+
  from sample_served [OF sample_keys_known(2) sample_key_names(2) this [unfolded put_mine_def]]
  obtain i where v: "verify (sv_verifier sample_server) (signed_by ''SCOPED'' scoped_key put_mine) = Inr i"
    and g: "id_grant i = scoped_grant"
    by (auto simp: sample_server_def put_mine_def caller_of_def scoped_key_def)
  have reach: "out_of_reach (id_grant i) ''photos'' ''a''" unfolding g by code_simp
  have query: "query_get (signed_by ''SCOPED'' scoped_key put_mine) ''uploadId'' = []"
  proof -
    have "query_get put_mine ''uploadId'' = []" by code_simp
    then show ?thesis by (simp add: signed_by_def query_get_def)
  qed
  have sound: "sound_db object_db" using object_db_ok sample_safe(1) by (simp add: sound_db_def)
  have "get_bucket object_db ''photos'' = Inr \<lparr>bk_id = ''b0'', bk_name = ''photos'', bk_created_at = second,
      bk_created_by = None\<rparr>" by code_simp
  with scope_is_respected [OF v reach query, where w = "\<lparr>st_disk = [], st_db = object_db\<rparr>" and su = "calm 5"] sound
  show ?thesis by (auto simp: Let_def)
qed

subsection \<open>The listener and the system\<close>

text \<open>C7. The listener refines the system: any sequence of requests and sweeps, whatever the requests
  carry and whichever calls of the disk fail, is a run of the transition system of stored blobs,
  committed transactions and guarded sweeps, so every invariant of that system holds of the server.\<close>

theorem service_refines_system:
  assumes "List.list_all (event_ok sv) evs"
  shows "(world_step (vf_hashes (sv_verifier sv)) (sv_root sv) True)\<^sup>*\<^sup>*
    (world_of w []) (world_of (live_through sv evs w) [])"
  by (rule life_steps [OF assms])

lemma service_refines_system_witness:
  "(world_step toy_hashes ''/data'' True)\<^sup>*\<^sup>* (world_of sample_site [])
    (world_of (live_through sample_server [Request (calm 2) (signed_by ''ROOT'' root_key put_hi),
       Sweep (\<lambda>_. None) (sample_env 9) 0 100] sample_site) [])"
  using service_refines_system [of sample_server "[Request (calm 2) (signed_by ''ROOT'' root_key put_hi),
       Sweep (\<lambda>_. None) (sample_env 9) 0 100]" sample_site] calm_faithful
  by (simp add: sample_server_def sample_verifier_def)

text \<open>C22. The metadata stays well formed under the service: starting from rows that satisfy the
  constraints of the schema and counts that cover every reference, they still do after any requests
  and sweeps, whatever fails in them. The constraints are the primary keys, the unique names of
  buckets and ids of uploads and versions, the shape of bucket names, the length of keys, the part
  numbers, the versioning states, the markers without a blob and the foreign keys; those to blobs are
  stated by the counts.\<close>

theorem metadata_well_formed:
  assumes "List.list_all (event_ok sv) evs" "wf_db (st_db w)" "counts_safe (st_db w)"
  shows "wf_db (st_db (live_through sv evs w)) \<and> counts_safe (st_db (live_through sv evs w)) \<and>
    (\<forall>d. 0 < references (st_db (live_through sv evs w)) d \<longrightarrow> has_blob (st_db (live_through sv evs w)) d)"
  using life_accounted [OF assms(1)] assms(2,3) referenced_blob_row by (simp add: accounted_db_def)

lemma metadata_well_formed_witness:
  "wf_db (st_db (live_through sample_server [Request (calm 2) (signed_by ''ROOT'' root_key put_hi)] sample_site))"
  using metadata_well_formed [of sample_server "[Request (calm 2) (signed_by ''ROOT'' root_key put_hi)]" sample_site]
    calm_faithful bucket_db_ok sample_safe(1)
  by (simp add: sample_site_def)

end
