(* ===== verification/Exchange_Properties.thy ===== *)
theory Exchange_Properties
  imports Service_Properties
begin

text \<open>
  What goes in and what comes back: objects that can be read, bodies that arrive whole, and uploads
  in parts.
\<close>

subsection \<open>Reading\<close>

text \<open>C3. Whatever the server has gone through, requests and sweeps with any failures, every current
  object can be read: a plain GET of its key answers 200 with bytes whose SHA-256 is the digest
  the metadata records, under the entity tag, type and metadata of the row. The file it needs is
  there; only a failing open of that file could prevent the answer.\<close>

theorem every_object_is_readable:
  assumes "List.list_all (event_ok sv) evs" "\<And>x. length (h_sha256 (vf_hashes (sv_verifier sv)) x) = 32"
    and "require_bucket (st_db (live_through sv evs empty_site)) name = Inr b"
    and "get_object (st_db (live_through sv evs empty_site)) (bk_id b) key = Inr obj"
    and "validate_object_key key = Inr ()" "query_get r ''versionId'' = []" "unconditional r"
    and "su_faults su Open_File = None"
  shows "\<exists>bytes. handle_get_object sv su r name key (live_through sv evs empty_site) =
      (\<lparr>rs_status = 200, rs_headers = object_headers obj, rs_body = Content (o_updated_at obj) bytes\<rparr>,
       live_through sv evs empty_site) \<and>
    hex_encode (h_sha256 (vf_hashes (sv_verifier sv)) bytes) = o_blob_digest obj"
proof -
  let ?w = "live_through sv evs empty_site"
  have dur: "durable (vf_hashes (sv_verifier sv)) (sv_root sv) (world_of ?w [])"
    using assms(1,2) by (rule life_durable)
  have "o_blob_digest obj \<in> live (st_db ?w)"
    using assms(4) by (intro get_object_live)
  with dur obtain c where valid: "valid_digest (o_blob_digest obj)"
    and c: "map_of (st_disk ?w) (path_for (sv_root sv) (o_blob_digest obj)) = Some c"
    by (fastforce simp: durable_def blob_present_def)
  have "hex_encode (h_sha256 (vf_hashes (sv_verifier sv)) c) = o_blob_digest obj"
    using dur valid c by (simp add: durable_def sound_store_def)
  moreover have "store_open (sv_root sv) (su_faults su) (o_blob_digest obj) (st_disk ?w) = Inr c"
    using valid c assms(8) by (simp add: store_open_def validate_digest_def call_def)
  moreover note lookup_current [OF assms(5,6,4)]
  ultimately show ?thesis
    using assms(3) by (simp add: handle_get_object_def with_bucket_def answer_unconditional [OF assms(7)])
qed

text \<open>The life of the instance: a bucket is made and an object is put into it.\<close>

definition make_photos :: request where
  "make_photos = bare_request ''PUT'' ''/photos'' [] []"

definition first_day :: "event list" where
  "first_day = [Request (calm 1) (signed_by ''ROOT'' root_key make_photos),
     Request (calm 2) (signed_by ''ROOT'' root_key put_hi)]"

lemma make_photos_signed:
  "\<exists>a k s. \<forall>su w. serve sample_server su (signed_by ''ROOT'' root_key make_photos) w =
     routed sample_server su (with_authorization a make_photos) (Some (caller_of ''ROOT'' unrestricted_grant make_photos k s)) w"
proof -
  have "\<not> is_presigned make_photos" "\<not> is_signature_v2 make_photos"
    "\<And>a. header_get (rq_header (with_authorization a make_photos)) ''Origin'' = []"
    by code_simp+
  from sample_served [OF sample_keys_known(1) sample_key_names(1) this [unfolded make_photos_def]]
  show ?thesis by (auto simp: make_photos_def root_key_def)
qed

lemma photos_made:
  "snd (routed sample_server (calm 1) (with_authorization a make_photos)
     (Some (caller_of ''ROOT'' unrestricted_grant make_photos k s)) empty_site) = sample_site"
  by code_simp

lemma first_day_site:
  "\<exists>a k s. live_through sample_server first_day empty_site =
     snd (routed sample_server (calm 2) (with_authorization a put_hi)
       (Some (caller_of ''ROOT'' unrestricted_grant put_hi k s)) sample_site)"
proof -
  obtain a1 k1 s1 where one: "\<forall>su w. serve sample_server su (signed_by ''ROOT'' root_key make_photos) w =
      routed sample_server su (with_authorization a1 make_photos)
        (Some (caller_of ''ROOT'' unrestricted_grant make_photos k1 s1)) w"
    using make_photos_signed by blast
  obtain a k s where two: "\<forall>su w. serve sample_server su (signed_by ''ROOT'' root_key put_hi) w =
      routed sample_server su (with_authorization a put_hi) (Some (caller_of ''ROOT'' unrestricted_grant put_hi k s)) w"
    using put_hi_signed by blast
  from one two photos_made show ?thesis by (auto simp: live_through_def first_day_def)
qed

lemma first_day_ok: "List.list_all (event_ok sample_server) first_day"
  by (simp add: first_day_def calm_faithful)

lemma get_a_plain: "query_get get_a ''versionId'' = []" "unconditional get_a"
  "validate_object_key ''mine/a'' = Inr ()"
  by code_simp+

lemma every_object_is_readable_witness:
  "\<exists>resp. fst (handle_get_object sample_server (calm 3) get_a ''photos'' ''mine/a''
     (live_through sample_server first_day empty_site)) = resp \<and> rs_status resp = 200"
proof -
  obtain a k s where w: "live_through sample_server first_day empty_site =
     snd (routed sample_server (calm 2) (with_authorization a put_hi)
       (Some (caller_of ''ROOT'' unrestricted_grant put_hi k s)) sample_site)" (is "_ = snd ?out")
    using first_day_site by blast
  have "outcome ?out (\<lambda>_ w. require_bucket (st_db w) ''photos'' = Inr \<lparr>bk_id = ''b0'', bk_name = ''photos'',
      bk_created_at = second, bk_created_by = None\<rparr>)" by code_simp
  then have b: "require_bucket (st_db (live_through sample_server first_day empty_site)) ''photos'' =
      Inr \<lparr>bk_id = ''b0'', bk_name = ''photos'', bk_created_at = second, bk_created_by = None\<rparr>" (is "_ = Inr ?b")
    by (simp add: w outcome_def case_prod_unfold)
  obtain obj where obj: "get_object (st_db (live_through sample_server first_day empty_site)) (bk_id ?b) ''mine/a'' = Inr obj"
    using put_hi_served [of a k s] by (auto simp: w outcome_def case_prod_unfold elim: committedE)
  have hash: "length (h_sha256 (vf_hashes (sv_verifier sample_server)) x) = 32" for x
    by (simp add: sample_server_def sample_verifier_def toy_hashes_length)
  have calm: "su_faults (calm 3) Open_File = None" by (simp add: calm_def)
  from every_object_is_readable [OF first_day_ok hash b obj get_a_plain(3,1,2) calm] show ?thesis by auto
qed

text \<open>C4. What is put is what is got: after a PUT answered with success, a plain GET of the key
  answers 200 with bytes of the SHA-256 of the body that was sent, under the MD5 of that body as
  entity tag and with the content type and the user metadata of the PUT, and HEAD reports its
  length. The body was delivered whole and matched every digest and signature it declared.\<close>

theorem put_then_get:
  assumes "handle_put_object sv su r caller name key w = (resp, w')" "rs_status resp < 400"
    and "faithful sv su" "sound_db (st_db w)"
    and "sound_store (vf_hashes (sv_verifier sv)) (sv_root sv) (st_disk w)"
    and "\<And>x. length (h_sha256 (vf_hashes (sv_verifier sv)) x) = 32"
    and "query_get r' ''versionId'' = []" "unconditional r'" "su_faults su' Open_File = None"
  shows "\<exists>i body obj bytes. caller = Some i \<and>
    read_body (vf_hashes (sv_verifier sv)) i (rq_body r, su_clean su) = (body, None) \<and>
    handle_get_object sv su' r' name key w' =
      (\<lparr>rs_status = 200, rs_headers = object_headers obj, rs_body = Content (o_updated_at obj) bytes\<rparr>, w') \<and>
    handle_head_object sv r' name key w' =
      (reply 200 (object_headers obj @ [(''Content-Length'', show_nat (length body))]), w') \<and>
    h_sha256 (vf_hashes (sv_verifier sv)) bytes = h_sha256 (vf_hashes (sv_verifier sv)) body \<and>
    o_etag obj = hex_encode (h_md5 (vf_hashes (sv_verifier sv)) body) \<and>
    o_content_type obj = content_type_of r \<and> user_metadata (rq_header r) = Inr (o_metadata obj) \<and>
    rs_headers resp = (''ETag'', quote_etag (o_etag obj)) # version_headers (o_version_id obj)"
proof -
  from put_object_stores [OF assms(1-6)] obtain i b obj where
    i: "caller = Some i" and key: "validate_object_key key = Inr ()"
    and b: "require_bucket (st_db w') name = Inr b" "get_object (st_db w') (bk_id b) key = Inr obj"
    and body: "snd (read_body (vf_hashes (sv_verifier sv)) i (rq_body r, su_clean su)) = None"
    and st: "stores sv r (fst (read_body (vf_hashes (sv_verifier sv)) i (rq_body r, su_clean su))) w' obj"
    and resp: "resp = reply 200 ((''ETag'', quote_etag (o_etag obj)) # version_headers (o_version_id obj))" .
  note got = read_stored [OF key b st assms(7,8,9)]
  from got(1) obtain bytes where "handle_get_object sv su' r' name key w' =
      (\<lparr>rs_status = 200, rs_headers = object_headers obj, rs_body = Content (o_updated_at obj) bytes\<rparr>, w')"
    "h_sha256 (vf_hashes (sv_verifier sv)) bytes = h_sha256 (vf_hashes (sv_verifier sv))
      (fst (read_body (vf_hashes (sv_verifier sv)) i (rq_body r, su_clean su)))" by blast
  with i body st resp got(2) show ?thesis
    by (intro exI [of _ i] exI [of _ "fst (read_body (vf_hashes (sv_verifier sv)) i (rq_body r, su_clean su))"]
        exI [of _ obj] exI [of _ bytes]) (simp add: stores_def prod_eq_iff)
qed

lemma put_hi_handled:
  "outcome (handle_put_object sample_server (calm 2) put_hi (Some (caller_of ''ROOT'' unrestricted_grant put_hi k s))
     ''photos'' ''mine/a'' sample_site) (\<lambda>status w. status = 200)"
  by code_simp

lemma sample_site_sound:
  "sound_db (st_db sample_site)"
  "sound_store (vf_hashes (sv_verifier sample_server)) (sv_root sample_server) (st_disk sample_site)"
  using bucket_db_ok sample_safe(1) by (simp_all add: sound_db_def sample_site_def sound_store_def)

lemma sample_hash: "length (h_sha256 (vf_hashes (sv_verifier sample_server)) x) = 32"
  by (simp add: sample_server_def sample_verifier_def toy_hashes_length)

lemma put_then_get_witness:
  "\<exists>w obj bytes. fst (handle_get_object sample_server (calm 3) get_a ''photos'' ''mine/a'' w) =
      \<lparr>rs_status = 200, rs_headers = object_headers obj, rs_body = Content (o_updated_at obj) bytes\<rparr> \<and>
    o_etag obj = hex_encode (h_md5 toy_hashes ''hi'')"
proof -
  let ?i = "caller_of ''ROOT'' unrestricted_grant put_hi [] []"
  obtain resp w where put: "handle_put_object sample_server (calm 2) put_hi (Some ?i) ''photos'' ''mine/a'' sample_site = (resp, w)"
    by (rule prod.exhaust)
  then have ok: "rs_status resp < 400" using put_hi_handled [of "[]" "[]"] by (simp add: outcome_def)
  have calm: "su_faults (calm 3) Open_File = None" by (simp add: calm_def)
  have body: "fst (read_body toy_hashes ?i (rq_body put_hi, su_clean (calm 2))) = ''hi''" by code_simp
  have h: "vf_hashes (sv_verifier sample_server) = toy_hashes"
    by (simp add: sample_server_def sample_verifier_def)
  from put_then_get [OF put ok calm_faithful sample_site_sound sample_hash get_a_plain(1,2) calm]
  obtain obj bytes where got: "handle_get_object sample_server (calm 3) get_a ''photos'' ''mine/a'' w =
      (\<lparr>rs_status = 200, rs_headers = object_headers obj, rs_body = Content (o_updated_at obj) bytes\<rparr>, w)"
    and tag: "o_etag obj = hex_encode (h_md5 toy_hashes ''hi'')"
    using body unfolding h by auto
  show ?thesis by (rule exI [of _ w], rule exI [of _ obj], rule exI [of _ bytes]) (simp add: got tag)
qed

text \<open>C12. A corrupt upload is refused: a PUT whose body does not have the SHA-256 its signed request
  declares, in either case of hexadecimal, is answered with an error and leaves the metadata as
  it was, so the key still reads as before.\<close>

theorem corrupt_upload_is_refused:
  assumes "handle_put_object sv su r (Some i) name key w = (resp, w')"
    and "id_payload_hash i \<notin> {streaming_signed, streaming_signed_trailer, streaming_unsigned_trailer,
      unsigned_payload, []}"
    and "to_lower (id_payload_hash i) \<noteq> hex_encode (h_sha256 (vf_hashes (sv_verifier sv)) (rq_body r))"
    and "faithful sv su"
  shows "400 \<le> rs_status resp \<and> st_db w' = st_db w"
  using assms(1)
proof (cases rule: put_object_outcome)
  case (stored b md j bl w1 row s)
  let ?h = "vf_hashes (sv_verifier sv)"
  have j: "j = i" using stored(2) by (auto simp: put_object_checks_def result_iff)
  let ?body = "read_body ?h i (rq_body r, su_clean su)"
  obtain f where put: "store_put ?h (sv_root sv) (su_faults su) (su_others su) (su_temp_name su)
      (su_chop su ?body) (trusted_content_sha256 i) (st_disk w) = (Inr bl, f)"
    using stored(3) unfolding j by (rule upload_blob_Inr)
  have "delivers (su_chop su ?body) ?body" using assms(4) unfolding faithful_def by blast
  from put_body_trusted(1) [OF put this] have "snd ?body = None" .
  moreover have "snd ?body \<noteq> None"
    using assms(2,3) by (auto simp: read_body_def verifying_reader_def Let_def)
  ultimately show ?thesis by simp
qed simp

lemma corrupt_upload_is_refused_witness:
  "\<exists>resp w. handle_put_object sample_server (calm 2) (put_hi\<lparr>rq_body := ''ho''\<rparr>)
     (Some (caller_of ''ROOT'' unrestricted_grant put_hi [] [])) ''photos'' ''mine/a'' sample_site = (resp, w) \<and>
     400 \<le> rs_status resp \<and> st_db w = bucket_db"
proof -
  let ?i = "caller_of ''ROOT'' unrestricted_grant put_hi [] []"
  obtain resp w where put: "handle_put_object sample_server (calm 2) (put_hi\<lparr>rq_body := ''ho''\<rparr>) (Some ?i)
      ''photos'' ''mine/a'' sample_site = (resp, w)" by (rule prod.exhaust)
  have "id_payload_hash ?i \<notin> {streaming_signed, streaming_signed_trailer, streaming_unsigned_trailer,
      unsigned_payload, []}"
    "to_lower (id_payload_hash ?i) \<noteq>
      hex_encode (h_sha256 (vf_hashes (sv_verifier sample_server)) (rq_body (put_hi\<lparr>rq_body := ''ho''\<rparr>)))"
    by code_simp+
  from corrupt_upload_is_refused [OF put this calm_faithful] put show ?thesis by (simp add: sample_site_def)
qed

subsection \<open>Uploads in parts\<close>

text \<open>The life of the next property: somebody starts an upload of a key under \<^verbatim>\<open>yours/\<close>; a key scoped to
  \<^verbatim>\<open>mine/\<close> sends a part to it and completes it, both under a URL of its own.\<close>

definition begin_yours :: request where
  "begin_yours = bare_request ''POST'' ''/photos/yours/b'' ''uploads='' []"

definition part_of_mine :: request where
  "part_of_mine = bare_request ''PUT'' ''/photos/mine/a'' ''partNumber=1&uploadId=4330'' ''x''"

definition complete_mine :: request where
  "complete_mine = bare_request ''POST'' ''/photos/mine/a'' ''uploadId=4330'' (hex_encode (h_md5 toy_hashes ''x''))"

lemma live_through_append:
  "live_through sv (evs @ [ev]) w = happen sv ev (live_through sv evs w)"
  by (simp add: live_through_def)

lemma begin_yours_served:
  "\<exists>a k s. \<forall>su w. serve sample_server su (signed_by ''ROOT'' root_key begin_yours) w =
     routed sample_server su (with_authorization a begin_yours) (Some (caller_of ''ROOT'' unrestricted_grant begin_yours k s)) w"
proof -
  have "\<not> is_presigned begin_yours" "\<not> is_signature_v2 begin_yours"
    "\<And>a. header_get (rq_header (with_authorization a begin_yours)) ''Origin'' = []"
    by code_simp+
  from sample_served [OF sample_keys_known(1) sample_key_names(1) this [unfolded begin_yours_def]]
  show ?thesis by (auto simp: begin_yours_def root_key_def)
qed

lemma part_of_mine_served:
  "\<exists>a k s. \<forall>su w. serve sample_server su (signed_by ''SCOPED'' scoped_key part_of_mine) w =
     routed sample_server su (with_authorization a part_of_mine) (Some (caller_of ''SCOPED'' scoped_grant part_of_mine k s)) w"
proof -
  have "\<not> is_presigned part_of_mine" "\<not> is_signature_v2 part_of_mine"
    "\<And>a. header_get (rq_header (with_authorization a part_of_mine)) ''Origin'' = []"
    by code_simp+
  from sample_served [OF sample_keys_known(2) sample_key_names(2) this [unfolded part_of_mine_def]]
  show ?thesis by (auto simp: part_of_mine_def scoped_key_def)
qed

lemma complete_mine_served:
  "\<exists>a k s. verify (sv_verifier sample_server) (signed_by ''SCOPED'' scoped_key complete_mine) =
      Inr (caller_of ''SCOPED'' scoped_grant complete_mine k s) \<and>
    (\<forall>su w. serve sample_server su (signed_by ''SCOPED'' scoped_key complete_mine) w =
     routed sample_server su (with_authorization a complete_mine) (Some (caller_of ''SCOPED'' scoped_grant complete_mine k s)) w)"
proof -
  have "\<not> is_presigned complete_mine" "\<not> is_signature_v2 complete_mine"
    "\<And>a. header_get (rq_header (with_authorization a complete_mine)) ''Origin'' = []"
    by code_simp+
  from sample_served [OF sample_keys_known(2) sample_key_names(2) this [unfolded complete_mine_def]]
  show ?thesis by (auto simp: complete_mine_def scoped_key_def sample_server_def)
qed

lemma escaping_upload:
  "let w1 = snd (routed sample_server (calm 2) (with_authorization a1 begin_yours)
         (Some (caller_of ''ROOT'' unrestricted_grant begin_yours k1 s1)) sample_site);
       w2 = snd (routed sample_server (calm 3) (with_authorization a2 part_of_mine)
         (Some (caller_of ''SCOPED'' scoped_grant part_of_mine k2 s2)) w1);
       w3 = snd (routed sample_server (calm 4) (with_authorization a3 complete_mine)
         (Some (caller_of ''SCOPED'' scoped_grant complete_mine k3 s3)) w2)
   in \<not> committed (get_object (st_db w2) ''b0'' ''yours/b'') \<and> committed (get_object (st_db w3) ''b0'' ''yours/b'')"
  by code_simp

definition yours_begun :: "event list" where
  "yours_begun = [Request (calm 1) (signed_by ''ROOT'' root_key make_photos),
     Request (calm 2) (signed_by ''ROOT'' root_key begin_yours),
     Request (calm 3) (signed_by ''SCOPED'' scoped_key part_of_mine)]"

lemma yours_begun_site:
  "\<exists>a1 k1 s1 a2 k2 s2. live_through sample_server yours_begun empty_site =
     snd (routed sample_server (calm 3) (with_authorization a2 part_of_mine)
       (Some (caller_of ''SCOPED'' scoped_grant part_of_mine k2 s2))
       (snd (routed sample_server (calm 2) (with_authorization a1 begin_yours)
         (Some (caller_of ''ROOT'' unrestricted_grant begin_yours k1 s1)) sample_site)))"
proof -
  obtain a k s where one: "\<forall>su w. serve sample_server su (signed_by ''ROOT'' root_key make_photos) w =
      routed sample_server su (with_authorization a make_photos)
        (Some (caller_of ''ROOT'' unrestricted_grant make_photos k s)) w"
    using make_photos_signed by blast
  obtain a1 k1 s1 where two: "\<forall>su w. serve sample_server su (signed_by ''ROOT'' root_key begin_yours) w =
      routed sample_server su (with_authorization a1 begin_yours)
        (Some (caller_of ''ROOT'' unrestricted_grant begin_yours k1 s1)) w"
    using begin_yours_served by blast
  obtain a2 k2 s2 where three: "\<forall>su w. serve sample_server su (signed_by ''SCOPED'' scoped_key part_of_mine) w =
      routed sample_server su (with_authorization a2 part_of_mine)
        (Some (caller_of ''SCOPED'' scoped_grant part_of_mine k2 s2)) w"
    using part_of_mine_served by blast
  show ?thesis
    by (rule exI [of _ a1], rule exI [of _ k1], rule exI [of _ s1], rule exI [of _ a2], rule exI [of _ k2],
        rule exI [of _ s2])
      (simp add: live_through_def yours_begun_def one two three photos_made del: One_nat_def)
qed

text \<open>C26. The exception is a hole: an operation on an upload in progress is authorized for the key of
  its URL but carried out on the key of the upload. A key whose grant reaches nothing outside
  \<^verbatim>\<open>mine/\<close> writes an object under \<^verbatim>\<open>yours/\<close> by completing the upload of another client; all it
  needs is the upload's id, which the listing of uploads shows to it.\<close>

theorem upload_id_escapes_scope:
  "\<exists>evs r i obj. List.list_all (event_ok sample_server) evs \<and> verify (sv_verifier sample_server) r = Inr i \<and>
     out_of_reach (id_grant i) ''photos'' ''yours/b'' \<and>
     \<not> committed (get_object (st_db (live_through sample_server evs empty_site)) ''b0'' ''yours/b'') \<and>
     get_object (st_db (live_through sample_server (evs @ [Request (calm 4) r]) empty_site)) ''b0'' ''yours/b'' = Inr obj"
proof -
  obtain a1 k1 s1 a2 k2 s2 where before: "live_through sample_server yours_begun empty_site =
     snd (routed sample_server (calm 3) (with_authorization a2 part_of_mine)
       (Some (caller_of ''SCOPED'' scoped_grant part_of_mine k2 s2))
       (snd (routed sample_server (calm 2) (with_authorization a1 begin_yours)
         (Some (caller_of ''ROOT'' unrestricted_grant begin_yours k1 s1)) sample_site)))"
    using yours_begun_site by blast
  obtain a3 k3 s3 where v: "verify (sv_verifier sample_server) (signed_by ''SCOPED'' scoped_key complete_mine) =
      Inr (caller_of ''SCOPED'' scoped_grant complete_mine k3 s3)"
    and four: "\<forall>su w. serve sample_server su (signed_by ''SCOPED'' scoped_key complete_mine) w =
      routed sample_server su (with_authorization a3 complete_mine)
        (Some (caller_of ''SCOPED'' scoped_grant complete_mine k3 s3)) w"
    using complete_mine_served by blast
  note run = escaping_upload [of a1 k1 s1 a2 k2 s2 a3 k3 s3, unfolded Let_def]
  have "\<not> committed (get_object (st_db (live_through sample_server yours_begun empty_site)) ''b0'' ''yours/b'')"
    using run by (simp add: before)
  moreover obtain obj where "get_object (st_db (live_through sample_server
      (yours_begun @ [Request (calm 4) (signed_by ''SCOPED'' scoped_key complete_mine)]) empty_site)) ''b0'' ''yours/b'' = Inr obj"
    using run by (auto simp: live_through_append before four elim: committedE)
  moreover have "List.list_all (event_ok sample_server) yours_begun" by (simp add: yours_begun_def calm_faithful)
  moreover have "out_of_reach (id_grant (caller_of ''SCOPED'' scoped_grant complete_mine k3 s3)) ''photos'' ''yours/b''"
    by code_simp
  ultimately show ?thesis using v by blast
qed

end
