(* ===== verification/Assembly.thy ===== *)
theory Assembly
  imports Round_Trip
begin

text \<open>
  The completion of a multipart upload from the request to the rows and the file it leaves.
\<close>

text \<open>A refused selection is an error of the client.\<close>

lemma select_parts_status:
  "select_parts uploaded previous wanted = Inl e \<Longrightarrow> 400 \<le> ae_status e"
  by (induction uploaded previous wanted rule: select_parts.induct)
    (auto simp: rbind_def error_constants split: if_splits option.splits sum.splits)

lemma complete_outcome:
  assumes "handle_complete_multipart_upload sv su r caller name upload_id w = (resp, w')" "rs_status resp < 400"
  obtains b u wanted ps bl f row s where
    "require_bucket (st_db w) name = Inr b" "require_upload (st_db w) b upload_id = Inr u"
    "complete_request sv su r = Inr wanted"
    "select_parts (parts_by_number (list_multipart_parts (st_db w) (mu_id u))) 0 wanted = Inr ps"
    "store_concat (vf_hashes (sv_verifier sv)) (sv_root sv) (su_faults su) (su_others su) (su_temp_name su)
       (\<lambda>bytes. su_chop su (bytes, None)) (map mp_blob_digest ps) (st_disk w) = (Inr bl, f)"
    "b_size bl = sum_list (map mp_size ps)"
    "complete_multipart_upload (su_env su 0) (mu_id u) (completed_object (vf_hashes (sv_verifier sv)) b u ps bl)
       (write_options_for su (st_db w) caller b) (st_db w) = Inr (row, s)"
    "w' = \<lparr>st_disk = f, st_db = s\<rparr>"
    "rs_headers resp = [(''ETag'', quote_etag (o_etag row)), (''Content-Type'', ''application/xml'')]"
  using assms(1)
proof (cases rule: with_bucket_cases [OF assms(1) [unfolded handle_complete_multipart_upload_def]])
  case (1 e)
  with require_bucket_status assms(2) show ?thesis by fastforce
next
  case (2 b)
  let ?h = "vf_hashes (sv_verifier sv)"
  let ?checks = "rbind (require_upload (st_db w) b upload_id) (\<lambda>u.
            rbind (complete_request sv su r) (\<lambda>wanted.
            rbind (select_parts (parts_by_number (list_multipart_parts (st_db w) (mu_id u))) 0 wanted)
              (\<lambda>selected. Inr (u, selected))))"
  show ?thesis
  proof (cases ?checks)
    case (Inl e)
    have "400 \<le> ae_status e"
      using Inl
      by (auto simp: rbind_def require_upload_def complete_request_def error_constants
        dest!: select_parts_status split: sum.splits db_error.splits option.splits if_splits)
    with 2 Inl assms(2) show ?thesis by auto
  next
    case (Inr up)
    then obtain u ps wanted where up: "up = (u, ps)" and checks: "require_upload (st_db w) b upload_id = Inr u"
      "complete_request sv su r = Inr wanted"
      "select_parts (parts_by_number (list_multipart_parts (st_db w) (mu_id u))) 0 wanted = Inr ps"
      by (auto simp: result_iff)
    obtain res f where concat: "store_concat ?h (sv_root sv) (su_faults su) (su_others su) (su_temp_name su)
       (\<lambda>bytes. su_chop su (bytes, None)) (map mp_blob_digest ps) (st_disk w) = (res, f)" by (rule prod.exhaust)
    note run = 2(2) [unfolded Inr up sum.case prod.case Let_def concat]
    obtain bl where bl: "res = Inr bl" using run assms(2) by (cases res) auto
    have size: "b_size bl = sum_list (map mp_size ps)"
      using run assms(2) by (auto simp: bl split: if_splits)
    let ?tx = "complete_multipart_upload (su_env su 0) (mu_id u) (completed_object ?h b u ps bl)
        (write_options_for su (st_db w) caller b)"
    obtain res2 w2 where c: "commit ?tx (w\<lparr>st_disk := f\<rparr>) = (res2, w2)" by (rule prod.exhaust)
    note run' = run [unfolded bl sum.case size, simplified, unfolded c prod.case]
    from c show ?thesis
    proof (cases rule: commit_cases)
      case rolled_back
      then show ?thesis using run' assms(2) by auto
    next
      case (committed row s)
      then show ?thesis
        using run' that [OF 2(1) checks concat [unfolded bl] size] by (cases w) (auto simp: write_xml_def)
    qed
  qed
qed

text \<open>
  The object a completion leaves, as a reader of the key finds it: \<open>pieces\<close> are the bytes of the
  parts as they were on disk.
\<close>

definition assembles :: "hashes \<Rightarrow> string \<Rightarrow> multipart_upload \<Rightarrow> multipart_part list \<Rightarrow> string list \<Rightarrow> site \<Rightarrow> site \<Rightarrow> object \<Rightarrow> bool" where
  "assembles h root u ps pieces w w' obj \<longleftrightarrow>
     length pieces = length ps \<and>
     (\<forall>i < length ps. map_of (st_disk w) (path_for root (mp_blob_digest (ps ! i))) = Some (pieces ! i)) \<and>
     o_blob_digest obj = hex_encode (h_sha256 h (concat pieces)) \<and> o_size obj = length (concat pieces) \<and>
     o_etag obj = composite_etag h ps \<and> o_content_type obj = mu_content_type u \<and> o_metadata obj = mu_metadata u \<and>
     blob_present root (st_disk w') (o_blob_digest obj)"

lemma complete_assembles:
  assumes "handle_complete_multipart_upload sv su r caller name upload_id w = (resp, w')" "rs_status resp < 400"
    and "faithful sv su" "wf_db (st_db w)"
    and "sound_store (vf_hashes (sv_verifier sv)) (sv_root sv) (st_disk w)"
    and "\<And>x. length (h_sha256 (vf_hashes (sv_verifier sv)) x) = 32"
  obtains b u wanted ps pieces obj where
    "require_bucket (st_db w) name = Inr b" "require_upload (st_db w) b upload_id = Inr u"
    "complete_request sv su r = Inr wanted"
    "select_parts (parts_by_number (list_multipart_parts (st_db w) (mu_id u))) 0 wanted = Inr ps"
    "get_object (st_db w') (bk_id b) (mu_key u) = Inr obj"
    "assembles (vf_hashes (sv_verifier sv)) (sv_root sv) u ps pieces w w' obj"
    "map_of (uploads (st_db w')) (mu_id u) = None" "list_multipart_parts (st_db w') (mu_id u) = []"
  using assms(1,2)
proof (rule complete_outcome)
  fix b u wanted ps bl f row s
  let ?h = "vf_hashes (sv_verifier sv)"
  assume found: "require_bucket (st_db w) name = Inr b" "require_upload (st_db w) b upload_id = Inr u"
    "complete_request sv su r = Inr wanted"
    "select_parts (parts_by_number (list_multipart_parts (st_db w) (mu_id u))) 0 wanted = Inr ps"
    and concat: "store_concat ?h (sv_root sv) (su_faults su) (su_others su) (su_temp_name su)
       (\<lambda>bytes. su_chop su (bytes, None)) (map mp_blob_digest ps) (st_disk w) = (Inr bl, f)"
    and tx: "complete_multipart_upload (su_env su 0) (mu_id u) (completed_object ?h b u ps bl)
       (write_options_for su (st_db w) caller b) (st_db w) = Inr (row, s)"
    and w': "w' = \<lparr>st_disk = f, st_db = s\<rparr>"
  have chop: "source_bytes (su_chop su (x, None)) = x" for x
    using assms(3) by (auto simp: faithful_def delivers_def)
  have wb: "well_behaved ?h (sv_root sv) (su_others su)" using assms(3) by (simp add: faithful_def)
  obtain pieces where pieces: "length pieces = length ps"
    "\<forall>i < length ps. map_of (st_disk w) (path_for (sv_root sv) (mp_blob_digest (ps ! i))) = Some (pieces ! i)"
    "b_digest bl = hex_encode (h_sha256 ?h (List.concat pieces))" "b_size bl = length (List.concat pieces)"
    "blob_present (sv_root sv) f (b_digest bl)"
    using store_concat_Inr [OF concat chop wb assms(5,6)] by auto
  from tx obtain s1 where put: "put_object (su_env su 0) (completed_object ?h b u ps bl)
      (write_options_for su (st_db w) caller b) (st_db w) = Inr (row, s1)" and s: "s = release_upload (mu_id u) s1"
    by (auto simp: complete_multipart_upload_def result_iff)
  have "get_object s1 (bk_id b) (mu_key u) = Inr row" "contents row = contents (completed_object ?h b u ps bl)"
    using put_object_reads_back [OF put] by (simp_all add: completed_object_def)
  moreover have "get_object s (bk_id b) (mu_key u) = get_object s1 (bk_id b) (mu_key u)"
    by (simp add: s release_upload_def get_object_def)
  ultimately have "get_object (st_db w') (bk_id b) (mu_key u) = Inr row"
    "assembles ?h (sv_root sv) u ps pieces w w' row"
    using pieces by (simp_all add: w' assembles_def contents_def completed_object_def)
  then show thesis
    using that [OF found] release_upload_gone [of "mu_id u" s1] by (simp add: w' s)
qed

end
