(* ===== verification/Scoped_Listing.thy ===== *)
theory Scoped_Listing
  imports Listing_Handlers
begin

text \<open>
  A listing as a scoped key sees it: the keys it may read, in order, up to the cursor the page hands
  out.
\<close>

lemma rollup_no_delimiter: "rollup p [] xs = map Entry_Object xs"
  by (induction xs) (simp_all add: group_of_no_delimiter)

lemma entry_objects_map [simp]: "entry_objects (map Entry_Object xs) = xs"
  by (induction xs) simp_all

text \<open>What remains behind a page tells what the page holds.\<close>

lemma take_is_filter:
  assumes "distinct rows" "filter q L = drop m rows" "set rows \<subseteq> set L"
  shows "take m rows = filter (\<lambda>x. \<not> q x) rows"
proof -
  have held: "set (drop m rows) = {x \<in> set L. q x}" using arg_cong [OF assms(2), of set] by simp
  then have rest: "\<forall>x \<in> set (drop m rows). q x" by simp
  have "\<not> q x" if "x \<in> set (take m rows)" for x
  proof
    assume "q x"
    moreover have "x \<in> set L" using that assms(3) by (meson in_set_takeD subsetD)
    ultimately have "x \<in> set (drop m rows)" by (simp add: held)
    with that assms(1) show False by (metis append_take_drop_id disjoint_iff distinct_append)
  qed
  then have "filter (\<lambda>x. \<not> q x) (take m rows) = take m rows" by (simp add: filter_id_conv)
  moreover have "filter (\<lambda>x. \<not> q x) (drop m rows) = []" using rest by (simp add: filter_empty_conv)
  ultimately have "filter (\<lambda>x. \<not> q x) (take m rows @ drop m rows) = take m rows"
    unfolding filter_append by simp
  then show ?thesis by simp
qed

lemma key_sorted_distinct: "key_sorted xs \<Longrightarrow> distinct xs"
  by (induction xs) (auto simp: key_sorted_def)

lemma matching_rows_eq:
  assumes "CHR 0xFF \<notin> set (lo_prefix opts)"
  shows "matching_rows s b opts =
    filter (\<lambda>y. lo_start_after opts < o_key y) (prefix_rows s b (lo_prefix opts))"
  using in_range_iff [OF assms]
  by (simp add: matching_rows_def prefix_rows_def filter_sort conj_commute)

lemma plain_page:
  fixes s :: db and b :: string
  assumes "wf_db s" "lo_delimiter opts = []" "CHR 0xFF \<notin> set (lo_prefix opts)"
  defines "page \<equiv> page_objects s b opts" and "rows \<equiv> matching_rows s b opts"
  shows "lr_objects page = filter (\<lambda>x. lr_is_truncated page \<longrightarrow> o_key x \<le> lr_next_start_after page) rows"
    and "lr_common_prefixes page = []"
proof -
  have listable: "listable s b opts" using assms(2,3) by (simp add: listable_def group_of_no_delimiter)
  have es: "listing_entries s b o' = map Entry_Object (matching_rows s b o')" if "lo_delimiter o' = []" for o'
    using that by (simp add: listing_entries_def rollup_no_delimiter)
  note res = page_objects_page [OF assms(1) listable, folded page_def, unfolded es [OF assms(2)], folded rows_def]
  let ?m = "page_size (lo_max_keys opts)"
  have objs: "lr_objects page = take ?m rows" using res(1) by (simp add: take_map)
  have "entry_prefixes (map Entry_Object xs) = []" for xs by (induction xs) simp_all
  then show "lr_common_prefixes page = []" using res(2) by (simp add: take_map)
  have sorted: "key_sorted (prefix_rows s b (lo_prefix opts))" by (rule prefix_rows_sorted [OF assms(1)])
  have rows: "rows = filter (\<lambda>y. lo_start_after opts < o_key y) (prefix_rows s b (lo_prefix opts))"
    by (simp add: rows_def matching_rows_eq [OF assms(3)])
  have "distinct (prefix_rows s b (lo_prefix opts))"
    using sorted by (rule key_sorted_distinct)
  then have dist: "distinct rows" by (simp add: rows)
  show "lr_objects page = filter (\<lambda>x. lr_is_truncated page \<longrightarrow> o_key x \<le> lr_next_start_after page) rows"
  proof (cases "lr_is_truncated page")
    case True
    have "map Entry_Object (matching_rows s b (opts\<lparr>lo_start_after := lr_next_start_after page\<rparr>)) =
        map Entry_Object (drop ?m rows)"
      using res(4) [OF True] es [of "opts\<lparr>lo_start_after := lr_next_start_after page\<rparr>"] assms(2)
      by (simp add: drop_map)
    then have "matching_rows s b (opts\<lparr>lo_start_after := lr_next_start_after page\<rparr>) = drop ?m rows"
      by (simp add: inj_map_eq_map inj_def)
    then have "filter (\<lambda>y. lr_next_start_after page < o_key y) (prefix_rows s b (lo_prefix opts)) = drop ?m rows"
      using assms(3) by (simp add: matching_rows_eq)
    from take_is_filter [OF dist this] show ?thesis by (simp add: objs True not_less rows)
  next
    case False
    then show ?thesis using res(3) by (simp add: objs)
  qed
qed

end
