(* ===== verification/Version_Paging.thy ===== *)
theory Version_Paging
  imports Version_Listing
begin

text \<open>
  Paging through the versions of a bucket: each page starts behind the last version of the one
  before.
\<close>

definition version_ref :: "object_version_entry \<Rightarrow> string \<times> string" where
  "version_ref x = (vl_key x, vl_version_id x)"

lemma listing_order_key: "listing_order x \<le> listing_order y \<Longrightarrow> vl_key (snd x) \<le> vl_key (snd y)"
  by (auto simp: listing_order_def less_eq_prod_def less_imp_le)

lemma scan_rows_filter:
  assumes "sorted_wrt (\<lambda>x y. vl_key (snd x) \<le> vl_key (snd y)) L"
    and "\<forall>k. p = Some k \<longrightarrow> k < m" "\<forall>k. q = Some k \<longrightarrow> k < m"
  shows "scan_rows p (filter (\<lambda>x. m \<le> vl_key (snd x)) L) = filter (\<lambda>x. m \<le> vl_key x) (scan_rows q L)"
  using assms
proof (induction L arbitrary: q)
  case (Cons a L)
  obtain c x where a: "a = (c, x)" by fastforce
  show ?case
  proof (cases "m \<le> vl_key x")
    case True
    with Cons.prems(1) a have kept: "\<forall>y \<in> set L. m \<le> vl_key (snd y)" by auto
    have "vl_key y \<in> (vl_key \<circ> snd) ` set L" if "y \<in> set (scan_rows r L)" for r y
      using that by (induction r L rule: scan_rows.induct) auto
    with kept have "filter (\<lambda>x. m \<le> vl_key x) (scan_rows r L) = scan_rows r L" for r
      by (fastforce simp: filter_id_conv)
    moreover have "p \<noteq> Some (vl_key x)" "q \<noteq> Some (vl_key x)" using Cons.prems(2,3) True by auto
    moreover have "filter (\<lambda>x. m \<le> vl_key (snd x)) L = L" using kept by (simp add: filter_id_conv)
    ultimately show ?thesis using True a by simp
  next
    case False
    with Cons.IH [of "Some (vl_key x)"] Cons.prems a show ?thesis by simp
  qed
qed simp

lemma listed_versions_after:
  "listed_versions s b prefix after = filter (\<lambda>x. after \<le> vl_key x) (listed_versions s b prefix [])"
proof -
  let ?L = "sort_key listing_order (filter (\<lambda>x. in_range prefix (vl_key (snd x))) (history_rows s b))"
  have "sorted (map listing_order ?L)" by simp
  then have "sorted_wrt (\<lambda>x y. vl_key (snd x) \<le> vl_key (snd y)) ?L"
    unfolding sorted_map by (rule sorted_wrt_mono_rel [rotated]) (rule listing_order_key)
  then have "scan_rows None (filter (\<lambda>x. after \<le> vl_key (snd x)) ?L) =
      filter (\<lambda>x. after \<le> vl_key x) (scan_rows None ?L)"
    by (rule scan_rows_filter) simp_all
  then show ?thesis by (simp add: listed_versions_def filter_sort conj_commute)
qed

lemma listed_versions_sorted:
  "sorted_wrt (\<lambda>x y. vl_key x \<le> vl_key y) (listed_versions s b prefix after)"
proof -
  have keys: "map vl_key (scan_rows p L) = map (vl_key \<circ> snd) L" for p L
    by (induction p L rule: scan_rows.induct) simp_all
  let ?L = "sort_key listing_order
    (filter (\<lambda>x. in_range prefix (vl_key (snd x)) \<and> after \<le> vl_key (snd x)) (history_rows s b))"
  have "sorted (map listing_order ?L)" by simp
  then have "sorted (map (vl_key \<circ> snd) ?L)"
    unfolding sorted_map by (rule sorted_wrt_mono_rel [rotated]) (simp add: listing_order_key)
  then have "sorted (map vl_key (scan_rows None ?L))" by (simp only: keys)
  then show ?thesis by (simp add: listed_versions_def sorted_map)
qed

lemma scan_versions_skip:
  assumes "vs_skipping z" "\<forall>y \<in> set ys. version_ref y \<noteq> version_ref x"
    and "(vo_key_marker opts, vo_version_id_marker opts) = version_ref x"
  shows "scan_versions opts m (ys @ x # zs) z = scan_versions opts m zs (z\<lparr>vs_skipping := False\<rparr>)"
  using assms by (induction ys) (auto simp: version_ref_def)

lemma list_versions_resumed:
  fixes s :: db and b :: string
  defines "rows p \<equiv> listed_versions s b p []"
  assumes plain: "vo_delimiter opts = []" "bounds_ok (vo_prefix opts)" "text_ok (vo_key_marker opts)"
    and rows: "rows (vo_prefix opts) = ys @ x # zs" "length (rows (vo_prefix opts)) < 1000"
    and unique: "distinct (map version_ref (rows (vo_prefix opts)))"
    and marker: "(vo_key_marker opts, vo_version_id_marker opts) = version_ref x"
  shows "list_object_versions s b opts = Inr (version_page (page_size (vo_max_keys opts)) zs)"
proof -
  let ?n = "page_size (vo_max_keys opts)" and ?z = "start_scan opts"
  let ?ys = "filter (\<lambda>y. vo_key_marker opts \<le> vl_key y) ys"
  have n: "1 \<le> ?n" by (rule page_size_bounds)
  have "vl_version_id y \<noteq> []" if "y \<in> set (scan_rows r L)" for y r L
    using that by (induction r L rule: scan_rows.induct) auto
  then have "vl_version_id x \<noteq> []"
    using rows(1) unfolding rows_def listed_versions_def by (metis in_set_conv_decomp)
  then have skipping: "vs_skipping ?z" using marker by (simp add: start_scan_def version_ref_def)
  have mk: "vo_key_marker opts = vl_key x" using marker by (simp add: version_ref_def)
  have "sorted_wrt (\<lambda>x y. vl_key x \<le> vl_key y) (ys @ x # zs)"
    using listed_versions_sorted [of s b "vo_prefix opts" "[]"] rows(1) by (simp add: rows_def)
  then have "filter (\<lambda>y. vl_key x \<le> vl_key y) zs = zs" by (simp add: sorted_wrt_append filter_id_conv)
  then have listed: "listed_versions s b (vo_prefix opts) (vo_key_marker opts) = ?ys @ x # zs"
    using rows(1) by (subst listed_versions_after) (simp add: rows_def mk)
  have len: "length (?ys @ x # zs) < 1000" using rows length_filter_le [of "\<lambda>y. vo_key_marker opts \<le> vl_key y" ys] by (simp del: length_filter_le)
  then have fetch: "fetch_version_batch s b (vo_prefix opts) (vs_cursor ?z) version_batch_size = Inr (?ys @ x # zs)"
    using plain listed by (simp add: fetch_version_batch_eq start_scan_def version_batch_size_def)
  have "version_ref x \<notin> version_ref ` set ys" using unique unfolding rows(1) by simp
  then have others: "\<forall>y \<in> set ?ys. version_ref y \<noteq> version_ref x" by (metis filter_is_subset image_eqI subsetD)
  let ?z1 = "?z\<lparr>vs_skipping := False\<rparr>"
  have zero: "version_count (vs_page ?z1) = 0" "version_count (vs_page ?z1) \<le> ?n" "\<not> vs_skipping ?z1"
    by (simp_all add: start_scan_def version_count_def)
  have page: "vs_page ?z1 = version_page ?n []" by (simp add: start_scan_def version_page_def)
  have skipped: "scan_versions opts ?n (?ys @ x # zs) ?z = scan_versions opts ?n zs ?z1"
    by (rule scan_versions_skip [OF skipping others marker])
  note scan = scan_versions_plain [OF plain(1) zero(3,2), of zs, unfolded Let_def zero(1) minus_nat.diff_0]
  note step = version_loop.simps [of s b opts ?n ?z, unfolded fetch sum.case skipped]
  show ?thesis
  proof (cases "length zs \<le> ?n")
    case True
    then obtain z' where "scan_versions opts ?n zs ?z1 = Inr z'" "vs_page z' = version_page ?n zs"
      unfolding scan by (simp add: page version_page_def Let_def)
    then show ?thesis using step len by (simp add: list_object_versions_def version_batch_size_def)
  next
    case False
    then have "zs \<noteq> []" "take ?n zs \<noteq> []" using n by auto
    with False have "scan_versions opts ?n zs ?z1 = Inl (version_page ?n zs)"
      unfolding scan by (simp add: page version_page_def Let_def)
    then show ?thesis using step by (simp add: list_object_versions_def)
  qed
qed

end
