(* ===== verification/Surface_Properties.thy ===== *)
theory Surface_Properties
  imports Assembly Scoped_Listing Version_Paging Exchange_Properties
begin

text \<open>
  The properties of the calls that work on many rows at once: completing an upload, listing keys,
  which always ends, and listing versions.
\<close>

subsection \<open>Completing an upload\<close>

text \<open>C10. A completed upload is the concatenation of its parts: when the completion is answered with
  success, the parts it names were uploaded under strictly ascending numbers with the tags it
  names, all but the last have at least five mebibytes, and the key of the upload now reads as an
  object whose digest and length are those of the bytes of these parts in that order, with the
  composite tag of the parts and the type and metadata of the upload. The upload and its parts are
  gone.\<close>

theorem completion_joins_parts:
  assumes "handle_complete_multipart_upload sv su r caller name upload_id w = (resp, w')" "rs_status resp < 400"
    and "faithful sv su" "wf_db (st_db w)"
    and "sound_store (vf_hashes (sv_verifier sv)) (sv_root sv) (st_disk w)"
    and "\<And>x. length (h_sha256 (vf_hashes (sv_verifier sv)) x) = 32"
  shows "\<exists>b u wanted ps pieces obj. require_bucket (st_db w) name = Inr b \<and>
    require_upload (st_db w) b upload_id = Inr u \<and> complete_request sv su r = Inr wanted \<and>
    map (parts_by_number (list_multipart_parts (st_db w) (mu_id u))) (map fst wanted) = map Some ps \<and>
    map (\<lambda>x. unquote_etag (snd x)) wanted = map mp_etag ps \<and> sorted_wrt (<) (0 # map fst wanted) \<and>
    (\<forall>p \<in> set (butlast ps). 5 * 2 ^ 20 \<le> mp_size p) \<and>
    get_object (st_db w') (bk_id b) (mu_key u) = Inr obj \<and>
    assembles (vf_hashes (sv_verifier sv)) (sv_root sv) u ps pieces w w' obj \<and>
    map_of (uploads (st_db w')) (mu_id u) = None \<and> list_multipart_parts (st_db w') (mu_id u) = []"
proof -
  from assms obtain b u wanted ps pieces obj where
    c: "require_bucket (st_db w) name = Inr b" "require_upload (st_db w) b upload_id = Inr u"
    "complete_request sv su r = Inr wanted"
    and sel: "select_parts (parts_by_number (list_multipart_parts (st_db w) (mu_id u))) 0 wanted = Inr ps"
    and obj: "get_object (st_db w') (bk_id b) (mu_key u) = Inr obj"
      "assembles (vf_hashes (sv_verifier sv)) (sv_root sv) u ps pieces w w' obj"
      "map_of (uploads (st_db w')) (mu_id u) = None" "list_multipart_parts (st_db w') (mu_id u) = []"
    by (rule complete_assembles)
  note parts = select_parts_Inr [OF sel]
  have "\<forall>p \<in> set (butlast ps). 5 * 2 ^ 20 \<le> mp_size p"
    using parts(4) by (simp add: list_all_iff min_part_size_def)
  with c parts(1-3) obj show ?thesis
    by (intro exI [of _ b] exI [of _ u] exI [of _ wanted] exI [of _ ps] exI [of _ pieces] exI [of _ obj]) simp
qed

lemma mine_completed:
  "let w1 = snd (routed sample_server (calm 2) (with_authorization a1 begin_yours)
         (Some (caller_of ''ROOT'' unrestricted_grant begin_yours k1 s1)) sample_site);
       w2 = snd (routed sample_server (calm 3) (with_authorization a2 part_of_mine)
         (Some (caller_of ''SCOPED'' scoped_grant part_of_mine k2 s2)) w1)
   in outcome (handle_complete_multipart_upload sample_server (calm 4) complete_mine
        (Some (caller_of ''SCOPED'' scoped_grant complete_mine [] [])) ''photos'' ''4330'' w2)
        (\<lambda>status _. status = 200)"
  by code_simp

lemma completion_joins_parts_witness:
  "\<exists>w b u ps pieces obj. require_upload (st_db w) b ''4330'' = Inr u \<and>
     assembles (vf_hashes (sv_verifier sample_server)) (sv_root sample_server) u ps pieces w
       (snd (handle_complete_multipart_upload sample_server (calm 4) complete_mine
         (Some (caller_of ''SCOPED'' scoped_grant complete_mine [] [])) ''photos'' ''4330'' w)) obj"
proof -
  let ?w = "live_through sample_server yours_begun empty_site"
  let ?out = "handle_complete_multipart_upload sample_server (calm 4) complete_mine
         (Some (caller_of ''SCOPED'' scoped_grant complete_mine [] [])) ''photos'' ''4330'' ?w"
  have ok: "List.list_all (event_ok sample_server) yours_begun" by (simp add: yours_begun_def calm_faithful)
  note sound = durable_sound [OF life_durable [OF ok sample_hash]]
  obtain a1 k1 s1 a2 k2 s2 where "?w = snd (routed sample_server (calm 3) (with_authorization a2 part_of_mine)
         (Some (caller_of ''SCOPED'' scoped_grant part_of_mine k2 s2))
         (snd (routed sample_server (calm 2) (with_authorization a1 begin_yours)
         (Some (caller_of ''ROOT'' unrestricted_grant begin_yours k1 s1)) sample_site)))"
    using yours_begun_site by blast
  then have status: "rs_status (fst ?out) < 400"
    using mine_completed [of a1 k1 s1 a2 k2 s2] by (simp add: outcome_def case_prod_unfold Let_def)
  have wf: "wf_db (st_db ?w)" using sound(1) by (simp add: sound_db_def)
  from completion_joins_parts [OF prod.collapse [symmetric] status calm_faithful wf sound(2) sample_hash]
  obtain b u ps pieces obj where "require_upload (st_db ?w) b ''4330'' = Inr u"
    "assembles (vf_hashes (sv_verifier sample_server)) (sv_root sample_server) u ps pieces ?w (snd ?out) obj"
    by (elim exE conjE) blast
  then show ?thesis by blast
qed

subsection \<open>Listing keys\<close>

text \<open>C13. A listing without delimiter shows a key of restricted scope exactly what it may read. When the
  database takes the bounds of the listing as text, which the hypotheses of the second part spell out
  and which a starting point with a zero byte or a prefix cut in mid-rune does not satisfy, the answer
  is a page. A page holds, in key order, every object of the bucket after the starting point that has
  the requested prefix and that the grant lets the caller read one by one, up to the cursor when it is
  cut short; and the token of a version 2 listing resumes at that cursor. The only other answer is
  the internal error. Nothing is changed. With a delimiter the prefix is narrowed as well but groups
  are cut from the narrowed prefix, which is not covered here.\<close>

theorem scoped_listing_is_exact:
  fixes r :: request and i :: identity and b :: bucket and w :: site
  defines "limit \<equiv> listing_limit_for (Some (id_grant i)) (bk_name b)" and "requested \<equiv> query_get r ''prefix''"
  assumes "wf_db (st_db w)" "listing_request r limit = Inr opts" "lo_delimiter opts = []"
    and "CHR 0xFF \<notin> set (lo_prefix opts)"
  shows "(handle_list_objects r (Some i) b w = (internal r, w) \<or>
    (\<exists>doc upto. handle_list_objects r (Some i) b w = (write_xml 200 [] (Listing_Document doc), w) \<and>
      lb_contents doc = map (object_entry_of r)
        (filter (\<lambda>obj. lo_start_after opts < o_key obj \<and> has_prefix (o_key obj) requested \<and>
            grant_allows (id_grant i) (bk_name b) (o_key obj) PermissionRead \<and>
            (lb_is_truncated doc \<longrightarrow> o_key obj \<le> upto))
          (sort_key o_key (bucket_rows (st_db w) (bk_id b)))) \<and>
      lb_common_prefixes doc = [] \<and>
      (lb_is_truncated doc \<and> is_v2 r \<longrightarrow> decode_continuation_token (lb_next_continuation_token doc) = Inr upto))) \<and>
    (queries_ok (st_db w) (bk_id b) opts \<longrightarrow> (\<exists>doc. fst (handle_list_objects r (Some i) b w) =
      write_xml 200 [] (Listing_Document doc)))"
proof -
  let ?s = "st_db w" and ?b = "bk_id b"
  let ?page = "page_objects ?s ?b opts" and ?doc = "listing_document r (bk_name b) limit opts (page_objects ?s ?b opts)"
  let ?upto = "lr_next_start_after ?page" and ?more = "lr_is_truncated ?page"
  have answers: "handle_list_objects r (Some i) b w =
      (case list_objects ?s ?b opts of Inl _ \<Rightarrow> internal r | Inr _ \<Rightarrow> write_xml 200 [] (Listing_Document ?doc), w)"
    using assms(4) list_objects_Inr [of ?s ?b opts]
    by (auto simp: handle_list_objects_def grant_for_def limit_def split: sum.split)
  have narrowed: "lo_prefix opts = narrow limit requested"
    using assms(4) by (auto simp: listing_request_def requested_def rbind_def split: sum.splits)
  have seen: "allows_key limit k \<and> has_prefix k (lo_prefix opts) \<longleftrightarrow>
      has_prefix k requested \<and> grant_allows (id_grant i) (bk_name b) k PermissionRead" for k
    using narrow_keeps [of limit k requested] by (auto simp: narrowed limit_def allows_key_iff)
  note page = plain_page [OF assms(3,5,6), of ?b]
  have rows: "matching_rows ?s ?b opts = filter (\<lambda>obj. has_prefix (o_key obj) (lo_prefix opts) \<and>
      lo_start_after opts < o_key obj) (sort_key o_key (bucket_rows ?s ?b))"
    by (simp add: matching_rows_def filter_sort)
  have contents: "lb_contents ?doc = map (object_entry_of r)
      (filter (\<lambda>obj. lo_start_after opts < o_key obj \<and> has_prefix (o_key obj) requested \<and>
          grant_allows (id_grant i) (bk_name b) (o_key obj) PermissionRead \<and>
          (lb_is_truncated ?doc \<longrightarrow> o_key obj \<le> ?upto)) (sort_key o_key (bucket_rows ?s ?b)))"
    unfolding listing_document_keys page(1) rows filter_filter
    by (rule arg_cong [of _ _ "map _"], rule filter_cong [OF refl]) (use seen in blast)
  have token: "lb_is_truncated ?doc \<and> is_v2 r \<longrightarrow>
      decode_continuation_token (lb_next_continuation_token ?doc) = Inr ?upto"
    by (simp add: listing_document_def Let_def decode_encode_token)
  have prefixes: "lb_common_prefixes ?doc = []" by (simp add: listing_document_keys page(2))
  show ?thesis
  proof (intro conjI impI)
    show "handle_list_objects r (Some i) b w = (internal r, w) \<or>
      (\<exists>doc upto. handle_list_objects r (Some i) b w = (write_xml 200 [] (Listing_Document doc), w) \<and>
        lb_contents doc = map (object_entry_of r)
          (filter (\<lambda>obj. lo_start_after opts < o_key obj \<and> has_prefix (o_key obj) requested \<and>
              grant_allows (id_grant i) (bk_name b) (o_key obj) PermissionRead \<and>
              (lb_is_truncated doc \<longrightarrow> o_key obj \<le> upto))
            (sort_key o_key (bucket_rows ?s ?b))) \<and>
        lb_common_prefixes doc = [] \<and>
        (lb_is_truncated doc \<and> is_v2 r \<longrightarrow> decode_continuation_token (lb_next_continuation_token doc) = Inr upto))"
      using answers contents token prefixes by (cases "list_objects ?s ?b opts") (simp, fastforce)
    assume "queries_ok ?s ?b opts"
    from list_objects_returns(1) [OF this] answers
    show "\<exists>doc. fst (handle_list_objects r (Some i) b w) = write_xml 200 [] (Listing_Document doc)" by simp blast
  qed
qed

definition three_keys :: site where
  "three_keys = sample_site\<lparr>st_db := settle (put_object (sample_env 3) (sample_object ''mine/a'' ''d2'') (options VersioningEnabled))
     (settle (put_object (sample_env 4) (sample_object ''mine/b'' ''d2'') (options VersioningEnabled)) object_db)\<rparr>"

definition list_request :: request where
  "list_request = bare_request ''GET'' ''/photos'' ''list-type=2&max-keys=1&prefix=m'' []"

definition photos :: bucket where
  "photos = \<lparr>bk_id = ''b0'', bk_name = ''photos'', bk_created_at = 0, bk_created_by = None\<rparr>"

lemma three_keys_wf: "wf_db (st_db three_keys)"
proof -
  let ?s = "settle (put_object (sample_env 4) (sample_object ''mine/b'' ''d2'') (options VersioningEnabled)) object_db"
  have "wf_db ?s" "slack ?s = (\<lambda>_. 0)"
    using put_tx.settle_safe [OF object_db_ok(1) sample_safe(1) [OF object_db_ok(2)]] object_db_ok(2) by simp_all
  then show ?thesis
    using put_tx.settle_safe [of ?s] sample_safe(1) [of ?s] by (simp add: three_keys_def)
qed

lemma scoped_listing_is_exact_witness:
  "\<exists>doc. fst (handle_list_objects list_request (Some (caller_of ''SCOPED'' scoped_grant list_request [] [])) photos three_keys) =
     write_xml 200 [] (Listing_Document doc)"
proof -
  let ?i = "caller_of ''SCOPED'' scoped_grant list_request [] []"
  let ?opts = "\<lparr>lo_prefix = ''mine/'', lo_delimiter = [], lo_start_after = [], lo_max_keys = 1\<rparr>"
  have "listing_request list_request (listing_limit_for (Some (id_grant ?i)) (bk_name photos)) = Inr ?opts" by code_simp
  moreover have "queries_ok (st_db three_keys) (bk_id photos) ?opts" by code_simp
  ultimately show ?thesis
    using scoped_listing_is_exact [of three_keys list_request ?i photos ?opts] three_keys_wf by simp
qed

subsection \<open>Listing versions\<close>

text \<open>C23. Below a thousand versions the pages of a version listing tile it: asked to resume behind the
  \<open>i\<close>-th version, by its key and id, the listing answers with the versions from there on, as many as
  asked for, and marks its end with the key and id of the last one it shows.\<close>

theorem version_pages_tile:
  fixes s :: db and b :: string and opts :: version_list_options
  defines "rows \<equiv> listed_versions s b (vo_prefix opts) []" and "n \<equiv> page_size (vo_max_keys opts)"
  assumes "vo_delimiter opts = []" "bounds_ok (vo_prefix opts)" "text_ok (vo_key_marker opts)"
    and "length rows < 1000" "distinct (map version_ref rows)" "i \<le> length rows"
    and "(vo_key_marker opts, vo_version_id_marker opts) = (if i = 0 then ([], []) else version_ref (rows ! (i - 1)))"
  shows "\<exists>page. list_object_versions s b opts = Inr page \<and> vr_versions page = take n (drop i rows) \<and>
    vr_common_prefixes page = [] \<and> (vr_is_truncated page \<longleftrightarrow> i + n < length rows) \<and>
    (vr_is_truncated page \<longrightarrow>
      (vr_next_key_marker page, vr_next_version_id page) = version_ref (rows ! (i + n - 1)))"
proof -
  have n: "1 \<le> n" unfolding n_def by (rule page_size_bounds)
  have "list_object_versions s b opts = Inr (version_page n (drop i rows))"
  proof (cases i)
    case 0
    then have "plain_options opts" "vo_key_marker opts = []" using assms by (simp_all add: plain_options_def)
    with assms(6) 0 show ?thesis using list_object_versions_plain(1) [of opts s b] by (simp add: rows_def n_def)
  next
    case (Suc j)
    then have "rows = take j rows @ rows ! j # drop i rows" using assms(8) id_take_nth_drop [of j rows] by simp
    from list_versions_resumed [OF assms(3-5) this [unfolded rows_def]] assms(6,7,9) Suc
    show ?thesis by (simp add: rows_def n_def)
  qed
  moreover have "last (take n (drop i rows)) = rows ! (i + n - 1)" if "i + n < length rows"
    using that n by (subst last_conv_nth) auto
  ultimately show ?thesis using assms(8) by (auto simp: version_page_def version_ref_def Let_def)
qed

lemma version_pages_tile_witness:
  "\<exists>page. list_object_versions version_db ''b0'' \<lparr>vo_prefix = [], vo_delimiter = [], vo_max_keys = 1,
     vo_key_marker = [], vo_version_id_marker = []\<rparr> = Inr page \<and> vr_is_truncated page"
proof -
  let ?opts = "\<lparr>vo_prefix = [], vo_delimiter = [], vo_max_keys = 1, vo_key_marker = [], vo_version_id_marker = []\<rparr>"
  have "length (listed_versions version_db ''b0'' [] []) = 2"
    "distinct (map version_ref (listed_versions version_db ''b0'' [] []))" by code_simp+
  then show ?thesis
    using version_pages_tile [of ?opts version_db "''b0''" 0] by (auto simp: bounds_ok_def page_size_def default_max_keys_def max_max_keys_def)
qed

text \<open>C27. A version listing with the default page size fails once a thousand versions match: the scan
  goes on behind a cursor that ends in a zero byte, which the database rejects, and the client gets an
  internal error.\<close>

theorem version_listing_fails:
  assumes "query_get r ''delimiter'' = []" "query_get r ''version-id-marker'' = []" "query_get r ''max-keys'' = []"
    and "1000 \<le> length (listed_versions (st_db w) (bk_id b)
      (narrow (listing_limit_for (grant_for caller) (bk_name b)) (query_get r ''prefix'')) (query_get r ''key-marker''))"
  shows "handle_list_object_versions r caller b w = (internal r, w)"
proof -
  let ?p = "narrow (listing_limit_for (grant_for caller) (bk_name b)) (query_get r ''prefix'')"
  let ?opts = "\<lparr>vo_prefix = ?p, vo_delimiter = [], vo_max_keys = 1000,
    vo_key_marker = query_get r ''key-marker'', vo_version_id_marker = []\<rparr>"
  have "\<exists>e. list_object_versions (st_db w) (bk_id b) ?opts = Inl e"
  proof (cases "plain_options ?opts")
    case True
    then show ?thesis
      using list_object_versions_plain(2) [of ?opts "st_db w" "bk_id b"] assms(4)
      by (auto simp: page_size_def default_max_keys_def max_max_keys_def)
  next
    case False
    then show ?thesis using list_object_versions_refused [of ?opts] by (auto simp: plain_options_def)
  qed
  then obtain e where "list_object_versions (st_db w) (bk_id b) ?opts = Inl e" ..
  then show ?thesis
    using assms(1-3) by (simp add: handle_list_object_versions_def parse_max_keys_def Let_def)
qed

definition crowded :: site where
  "crowded = sample_site\<lparr>st_db := empty_db\<lparr>objects :=
     map (\<lambda>i. ((''b0'', replicate i (CHR ''a'')), sample_object (replicate i (CHR ''a'')) ''d'')) [0..<1000]\<rparr>\<rparr>"

lemma version_listing_fails_witness:
  "handle_list_object_versions (bare_request ''GET'' ''/photos'' ''versions'' []) None photos crowded =
     (internal (bare_request ''GET'' ''/photos'' ''versions'' []), crowded)"
proof -
  let ?r = "bare_request ''GET'' ''/photos'' ''versions'' []"
  have query: "query_get ?r ''delimiter'' = []" "query_get ?r ''version-id-marker'' = []" "query_get ?r ''max-keys'' = []"
    "query_get ?r ''key-marker'' = []"
    "narrow (listing_limit_for (grant_for None) (bk_name photos)) (query_get ?r ''prefix'') = []" by code_simp+
  have "length (scan_rows p L) = length L" for p L by (induction p L rule: scan_rows.induct) simp_all
  then have "length (listed_versions (st_db crowded) (bk_id photos) [] []) = 1000"
    by (simp add: listed_versions_def history_rows_def crowded_def photos_def in_range_def empty_db_def filter_map o_def)
  then show ?thesis by (intro version_listing_fails) (simp_all add: query)
qed

subsection \<open>A listing ends\<close>

text \<open>
  The loop of \<^verbatim>\<open>ListObjects\<close> with nothing said about its end: \<open>None\<close> if it runs forever.
\<close>

partial_function (option) list_scan ::
  "db \<Rightarrow> string \<Rightarrow> list_options \<Rightarrow> nat \<Rightarrow> nat \<Rightarrow> string \<Rightarrow> list_result \<Rightarrow> string list \<Rightarrow>
     (string + list_result) option" where
  "list_scan s b opts batch_size max_keys cursor r seen =
     (case fetch_key_batch s b (lo_prefix opts) cursor batch_size of
        Inl err \<Rightarrow> Some (Inl err)
      | Inr batch \<Rightarrow>
      if batch = [] then Some (Inr r)
      else case scan_batch (lo_prefix opts) (lo_delimiter opts) max_keys batch cursor r seen of
        Full r' \<Rightarrow> Some (Inr r')
      | Scanned cursor' r' seen' \<Rightarrow>
          if max_keys \<le> page_count r'
          then (case fetch_key_batch s b (lo_prefix opts) cursor' 1 of
              Inl err \<Rightarrow> Some (Inl err)
            | Inr ahead \<Rightarrow>
                Some (Inr (if ahead \<noteq> [] then r'\<lparr>lr_is_truncated := True, lr_next_start_after := cursor'\<rparr>
                     else r')))
          else if length batch < batch_size \<and> \<not> has_suffix cursor' highest_rune then Some (Inr r')
          else list_scan s b opts batch_size max_keys cursor' r' seen')"

lemma list_scan_loop:
  "list_scan s b opts batch_size max_keys cursor r seen = Some (list_loop s b opts batch_size max_keys cursor r seen)"
proof (induction s b opts batch_size max_keys cursor r seen rule: list_loop.induct)
  case (1 s b opts batch_size max_keys cursor r seen)
  show ?case
    unfolding list_scan.simps [of s b opts batch_size max_keys cursor r seen]
      list_loop.simps [of s b opts batch_size max_keys cursor r seen]
    using 1 by (auto split: scan.split sum.split)
qed

text \<open>C21. Every listing ends: whatever keys the bucket holds and whatever prefix, delimiter, cursor and
  page size are asked for, valid or not, the loop of \<^verbatim>\<open>ListObjects\<close> returns, with a page or with the error
  of a query, because each round opens a common prefix not seen before or moves the cursor past a
  row.\<close>

theorem listing_ends:
  "list_scan s b opts list_batch_size (page_size (lo_max_keys opts)) (lo_start_after opts) empty_page [] =
     Some (list_objects s b opts)"
  unfolding list_objects_def by (rule list_scan_loop)

end
