(* ===== verification/Protocol_Properties.thy ===== *)
theory Protocol_Properties
  imports Service_Samples Upload_Body
begin

text \<open>
  The properties of the wire protocol: who a verified caller is, presigned URLs and chunked bodies.
\<close>

subsection \<open>Callers\<close>

text \<open>C6. A verified caller holds the secret: the identity the handlers act on names a known key and
  carries that key's grant, and its signature is the one this secret gives for the method, the path,
  the query, the signed headers with the host among them and the declared payload hash of this very
  request, at a time the clock of the server still accepts: fifteen minutes around a signed header, at
  most seven days after the date of a presigned URL.\<close>

theorem verified_caller_holds_secret:
  assumes "verify v r = Inr i"
  shows "\<exists>t. proved v r i t (canonical_query (rq_query r) []) (payload_hash_of r) \<and>
        \<bar>vf_now v - t\<bar> \<le> max_clock_skew \<and> format_date t = sc_date (id_scope i) \<or>
      proved v r i t (canonical_query (rq_query r) param_signature) (presigned_payload_hash r) \<and>
        t - max_clock_skew \<le> vf_now v \<and> vf_now v \<le> t + max_presign_expiry"
proof (cases "is_presigned r")
  case True
  with assms have "verify_presigned v r = Inr i" by (simp add: verify_def)
  then show ?thesis by (rule verify_presigned_Inr) (auto intro: order_trans)
next
  case False
  with assms have "verify_header v r = Inr i" by (auto simp: verify_def split: if_splits)
  then show ?thesis by (rule verify_header_Inr) blast
qed

lemma verified_caller_holds_secret_witness:
  "\<exists>i t query hash. proved sample_verifier
     (signed_by ''SCOPED'' \<lparr>km_secret_key = ''scoped secret'', km_grant = scoped_grant\<rparr>
       (bare_request ''GET'' ''/photos/mine/a'' [] [])) i t query hash"
proof -
  let ?m = "\<lparr>km_secret_key = ''scoped secret'', km_grant = scoped_grant\<rparr>"
  let ?r = "bare_request ''GET'' ''/photos/mine/a'' [] []"
  have "sample_keys ''SCOPED'' = Some ?m" "plain_field ''SCOPED''" "\<not> is_presigned ?r" "\<not> is_signature_v2 ?r"
    by code_simp+
  from sample_verified [OF this] obtain k where
    "verify sample_verifier (signed_by ''SCOPED'' ?m ?r) =
       Inr (caller_of ''SCOPED'' (km_grant ?m) ?r k (sample_signature ?m ?r))" by blast
  from verified_caller_holds_secret [OF this] show ?thesis by blast
qed

subsection \<open>Presigned URLs\<close>

lemma presign_values_simps:
  assumes "k \<notin> fst ` set extra"
  shows "map_of (fold (\<lambda>(name, value). AList.update name value) extra xs) k = map_of xs k"
  using assms by (induction extra arbitrary: xs) (auto simp: update_conv')

lemma presign_values_names:
  "fst ` set (fold (\<lambda>(name, value). AList.update name value) extra xs) = fst ` set xs \<union> fst ` set extra"
  by (induction extra arbitrary: xs) (auto simp: dom_map_of_conv_image_fst [symmetric] update_conv' split: if_splits)

lemma split_at_question:
  assumes "CHR ''?'' \<notin> set p" "CHR ''?'' \<notin> set p'" "p @ ''?'' @ q = p' @ ''?'' @ q'"
  shows "p = p' \<and> q = q'"
  using assms by (induction p arbitrary: p') (auto simp: Cons_eq_append_conv)

lemma presign_path_no_question: "CHR ''?'' \<notin> set (presign_path bucket key)"
  unfolding presign_path_def
  by (auto dest!: uri_encode_chars simp: is_unreserved_def unreserved_char_def is_letter_def is_digit_def)

lemma presign_params_distinct:
  "distinct [param_algorithm, param_credential, param_date, param_expires, param_signed_headers]"
  by code_simp

lemma presign_params_fresh:
  "List.list_all (\<lambda>n. \<not> equal_fold n param_signature)
     [param_algorithm, param_credential, param_date, param_expires, param_signed_headers]"
  by code_simp

lemma presign_values_own:
  assumes "fst ` set extra \<inter> {param_algorithm, param_credential, param_date, param_expires, param_signed_headers} = {}"
  shows "map_of (presign_values access_key sc now expiry extra) param_algorithm = Some sig_algorithm"
    and "map_of (presign_values access_key sc now expiry extra) param_credential = Some (access_key @ ''/'' @ scope_string sc)"
    and "map_of (presign_values access_key sc now expiry extra) param_date = Some (format_iso8601 now)"
    and "map_of (presign_values access_key sc now expiry extra) param_expires = Some (show_int (expiry div second))"
    and "map_of (presign_values access_key sc now expiry extra) param_signed_headers = Some ''host''"
proof -
  have own: "map_of (presign_values access_key sc now expiry extra) k =
      map_of [(param_algorithm, sig_algorithm), (param_credential, access_key @ ''/'' @ scope_string sc),
        (param_date, format_iso8601 now), (param_expires, show_int (expiry div second)),
        (param_signed_headers, ''host'')] k" if "k \<notin> fst ` set extra" for k
    unfolding presign_values_def by (rule presign_values_simps [OF that])
  have absent: "param_algorithm \<notin> fst ` set extra" "param_credential \<notin> fst ` set extra"
    "param_date \<notin> fst ` set extra" "param_expires \<notin> fst ` set extra" "param_signed_headers \<notin> fst ` set extra"
    using assms by blast+
  have held: "map_of xs k = Some x" if "map fst xs = [param_algorithm, param_credential, param_date, param_expires, param_signed_headers]"
      "(k, x) \<in> set xs" for xs k and x :: string
    using presign_params_distinct that by (metis map_of_is_SomeI)
  show "map_of (presign_values access_key sc now expiry extra) param_algorithm = Some sig_algorithm"
    "map_of (presign_values access_key sc now expiry extra) param_credential = Some (access_key @ ''/'' @ scope_string sc)"
    "map_of (presign_values access_key sc now expiry extra) param_date = Some (format_iso8601 now)"
    "map_of (presign_values access_key sc now expiry extra) param_expires = Some (show_int (expiry div second))"
    "map_of (presign_values access_key sc now expiry extra) param_signed_headers = Some ''host''"
    unfolding own [OF absent(1)] own [OF absent(2)] own [OF absent(3)] own [OF absent(4)] own [OF absent(5)]
    by (rule held; simp only: list.map fst_conv list.set insert_iff simp_thms)+
qed

lemma presign_values_fresh:
  assumes "\<forall>n \<in> fst ` set extra. \<not> equal_fold n param_signature"
  shows "\<forall>p \<in> set (presign_values access_key sc now expiry extra). \<not> equal_fold (fst p) param_signature"
proof
  fix p assume "p \<in> set (presign_values access_key sc now expiry extra)"
  then have "fst p \<in> fst ` set (presign_values access_key sc now expiry extra)" by (rule imageI)
  then have "fst p \<in> {param_algorithm, param_credential, param_date, param_expires, param_signed_headers} \<union> fst ` set extra"
    unfolding presign_values_def presign_values_names by simp
  with assms presign_params_fresh show "\<not> equal_fold (fst p) param_signature" by auto
qed

text \<open>C17. A presigned URL works: what \<^verbatim>\<open>Presign\<close> builds is accepted by the verifier of the same server,
  as the caller whose key signed it, until the expiry it was given has passed. The names of extra
  query parameters must differ from those of the signature, and no name may extend another.\<close>

theorem presigned_url_accepted:
  fixes v :: verifier and now expiry :: time and access_key region :: string and extra :: "(string \<times> string) list"
  defines "sc \<equiv> \<lparr>sc_date = format_date now, sc_region = region, sc_service = sig_service\<rparr>"
  defines "vs \<equiv> presign_values access_key sc now expiry extra"
  assumes built: "presign (vf_hashes v) (rq_method r) public_url bucket key extra access_key (km_secret_key m) region
      now expiry = Inr (scheme @ ''://'' @ host @ rq_path r @ ''?'' @ rq_query r)"
    and parsed: "parse_endpoint public_url = Inr (scheme, host)" "CHR ''?'' \<notin> set (rq_path r)"
    and request: "proxy_host (vf_proxies v) r = host" "header_get (rq_header r) ''X-Amz-Content-Sha256'' = []"
    and names: "prefix_free (map fst vs)"
      "fst ` set extra \<inter> {param_algorithm, param_credential, param_date, param_expires, param_signed_headers} = {}"
      "\<forall>n \<in> fst ` set extra. \<not> equal_fold n param_signature"
    and known: "vf_lookup v access_key = Some m" "plain_field access_key" "plain_scope sc"
    and time: "formattable now" "second \<le> expiry" "truncate_second now - max_clock_skew \<le> vf_now v"
      "vf_now v \<le> truncate_second now + expiry div second * second"
    and sha: "\<And>s. length (h_sha256 (vf_hashes v) s) = 32"
  shows "\<exists>sig. verify v r = Inr (make_identity v access_key m unsigned_payload sc (truncate_second now) sig)"
proof -
  let ?sig = "presign_signature (vf_hashes v) (rq_method r) (presign_path bucket key) (presign_raw_query vs)
      host (km_secret_key m) sc now"
  have built: "\<not> max_presign_expiry < expiry" "presign_path bucket key @ ''?'' @ presign_query vs ?sig = rq_path r @ ''?'' @ rq_query r"
    using built parsed(1)
    by (simp_all add: presign_def Let_def vs_def sc_def presign_raw_query_def presign_query_def split: if_splits)
  note parts = split_at_question [OF presign_path_no_question parsed(2) built(2)]
  have r: "rq_path r = presign_path bucket key" "rq_query r = presign_query vs ?sig"
    by (rule parts [THEN conjunct1, symmetric], rule parts [THEN conjunct2, symmetric])
  have fresh: "\<forall>p \<in> set vs. \<not> equal_fold (fst p) param_signature"
    unfolding vs_def by (rule presign_values_fresh [OF names(3)])
  note five = presign_values_own [OF names(2), of access_key sc now expiry, folded vs_def]
  have pos: "0 < expiry div second" using time(2) by (simp add: second_def pos_imp_zdiv_pos_iff)
  have "expiry div second * second \<le> expiry" by (simp add: second_def)
  with built(1) have le: "expiry div second * second \<le> max_presign_expiry" by simp
  show ?thesis
    using presigned_accepted [OF names(1) fresh five refl r request refl sha known time(1) pos le time(3,4)] by blast
qed

lemma presigned_url_accepted_witness:
  "\<exists>r i. presign (vf_hashes sample_verifier) ''GET'' ''https://s3'' ''photos'' ''mine/a'' [] ''SCOPED'' ''scoped secret''
       ''us-east-1'' sample_clock (3600 * second) = Inr (''https'' @ ''://'' @ ''s3'' @ rq_path r @ ''?'' @ rq_query r) \<and>
     verify sample_verifier r = Inr i \<and> id_access_key_id i = ''SCOPED''"
proof -
  let ?vs = "presign_values ''SCOPED'' sample_scope sample_clock (3600 * second) []"
  let ?m = "\<lparr>km_secret_key = ''scoped secret'', km_grant = scoped_grant\<rparr>"
  let ?sig = "presign_signature (vf_hashes sample_verifier) ''GET'' (presign_path ''photos'' ''mine/a'')
      (presign_raw_query ?vs) ''s3'' ''scoped secret'' sample_scope sample_clock"
  let ?r = "(bare_request ''GET'' (presign_path ''photos'' ''mine/a'') (presign_query ?vs ?sig) [])\<lparr>rq_header := []\<rparr>"
  have scope: "sample_scope = \<lparr>sc_date = format_date sample_clock, sc_region = ''us-east-1'', sc_service = sig_service\<rparr>"
    by (simp add: sample_scope_def sig_service_def)
  have endpoint: "parse_endpoint ''https://s3'' = Inr (''https'', ''s3'')" by code_simp
  have path: "CHR ''?'' \<notin> set (rq_path ?r)" using presign_path_no_question by simp
  have built: "presign (vf_hashes sample_verifier) (rq_method ?r) ''https://s3'' ''photos'' ''mine/a'' [] ''SCOPED''
      (km_secret_key ?m) ''us-east-1'' sample_clock (3600 * second) =
      Inr (''https'' @ ''://'' @ ''s3'' @ rq_path ?r @ ''?'' @ rq_query ?r)"
    unfolding presign_def endpoint rbind_simps prod.case Let_def scope [symmetric]
    by (simp add: presign_query_def presign_raw_query_def max_presign_expiry_def second_def)
  have host: "proxy_host (vf_proxies sample_verifier) ?r = ''s3''"
    by (simp add: sample_verifier_def untrusted_host bare_request_def)
  have free: "prefix_free (map fst ?vs)" by code_simp
  have lookup: "vf_lookup sample_verifier ''SCOPED'' = Some ?m" "plain_field ''SCOPED''" "plain_scope sample_scope"
    by code_simp+
  have window: "second \<le> 3600 * second" "truncate_second sample_clock - max_clock_skew \<le> vf_now sample_verifier"
    "vf_now sample_verifier \<le> truncate_second sample_clock + 3600 * second div second * second" by code_simp+
  have "\<exists>sig. verify sample_verifier ?r = Inr (make_identity sample_verifier ''SCOPED'' ?m unsigned_payload
      sample_scope (truncate_second sample_clock) sig)"
    using presigned_url_accepted [OF built endpoint path host _ free [unfolded scope] _ _ lookup(1,2) lookup(3) [unfolded scope]
      sample_clock_facts(1) window] toy_hashes_length
    by (simp add: header_get_def header_values_def sample_verifier_def scope)
  with built show ?thesis by (intro exI [of _ ?r]) (auto simp: make_identity_def)
qed

subsection \<open>Chunked bodies\<close>

definition framing :: "hashes \<Rightarrow> identity \<Rightarrow> chunk_signer option \<times> string" where
  "framing h i =
     (if id_payload_hash i = streaming_unsigned_trailer then (None, []) else (Some (body_signer h i), id_signature i))"

abbreviation streamed :: "identity \<Rightarrow> bool" where
  "streamed i \<equiv> id_payload_hash i \<in> {streaming_signed, streaming_signed_trailer, streaming_unsigned_trailer}"

lemma read_body_streamed:
  assumes "streamed i" "framing h i = (signer, prev)"
  shows "read_body h i src = read_chunks signer prev src"
  using assms
  by (auto simp: read_body_def framing_def Let_def streaming_signed_def streaming_signed_trailer_def
    streaming_unsigned_trailer_def split: if_splits)

lemma framing_ok:
  assumes "framing h i = (signer, prev)" "\<And>s. length (h_sha256 h s) = 32"
  shows "signer_ok signer"
  using assms by (auto simp: framing_def signer_ok_def body_signer_def split: if_splits)

lemma encode_chunks_append:
  "encode_chunks signer prev (xs @ ys) = encode_chunks signer prev xs @ encode_chunks signer (last_signature signer prev xs) ys"
  by (induction xs arbitrary: prev) simp_all

text \<open>C18. A chunked upload arrives as it was sent: the body a client frames into chunks, each signed
  over the one before it or none signed, and closes with the empty chunk, is read as exactly the
  bytes of the chunks in order, without an error.\<close>

theorem chunked_upload_round_trip:
  assumes "streamed i" "framing h i = (signer, prev)" "sendable ds" "\<And>s. length (h_sha256 h s) = 32"
  shows "read_body h i (encode_chunks signer prev ds @ final_chunk signer (last_signature signer prev ds) @ crlf, True) =
    (concat ds, None)"
  unfolding read_body_streamed [OF assms(1,2)]
  using read_chunks_encode [OF framing_ok [OF assms(2,4)] assms(3)] read_final_chunk [OF framing_ok [OF assms(2,4)]]
  by simp

definition streaming_caller :: identity where
  "streaming_caller = (caller_of ''SCOPED'' scoped_grant (bare_request ''PUT'' ''/photos/mine/a'' [] []) ''key'' ''seed'')
     \<lparr>id_payload_hash := streaming_signed\<rparr>"

lemma streaming_framing: "framing toy_hashes streaming_caller = (Some (body_signer toy_hashes streaming_caller), ''seed'')"
  by (simp add: framing_def streaming_caller_def caller_of_def streaming_signed_def streaming_unsigned_trailer_def)

lemma streaming_streamed: "streamed streaming_caller" by (simp add: streaming_caller_def)

lemma hello_sendable: "sendable [''hello '', ''world'']" by (simp add: sendable_def)

lemma chunked_upload_round_trip_witness:
  "\<exists>wire. read_body toy_hashes streaming_caller (wire, True) = (''hello world'', None)"
  using chunked_upload_round_trip [OF streaming_streamed streaming_framing hello_sendable toy_hashes_length] by auto

text \<open>C28. A chunked upload that is cut off between two chunks is taken for complete: for every number of
  chunks the body sent has a proper prefix whose reading delivers just these chunks and reports no
  error.\<close>

theorem truncated_upload_accepted:
  assumes "streamed i" "framing h i = (signer, prev)" "sendable ds" "\<And>s. length (h_sha256 h s) = 32"
  shows "\<exists>sent lost. encode_chunks signer prev ds @ final_chunk signer (last_signature signer prev ds) @ crlf = sent @ lost \<and>
    lost \<noteq> [] \<and> read_body h i (sent, True) = (concat (take k ds), None)"
proof -
  let ?sent = "encode_chunks signer prev (take k ds)"
  have split: "encode_chunks signer prev ds =
      ?sent @ encode_chunks signer (last_signature signer prev (take k ds)) (drop k ds)"
    using encode_chunks_append [of signer prev "take k ds" "drop k ds"] by simp
  have "sendable (take k ds)" using assms(3) by (auto simp: sendable_def dest: in_set_takeD)
  then have "read_body h i (?sent, True) = (concat (take k ds), None)"
    unfolding read_body_streamed [OF assms(1,2)]
    using read_chunks_encode [OF framing_ok [OF assms(2,4)], of "take k ds" prev "[]"] by (simp add: read_nothing)
  with split show ?thesis
    by (intro exI [of _ ?sent] exI [of _ "encode_chunks signer (last_signature signer prev (take k ds)) (drop k ds) @
      final_chunk signer (last_signature signer prev ds) @ crlf"]) (simp add: crlf_def)
qed

lemma truncated_upload_accepted_witness:
  "\<exists>sent. read_body toy_hashes streaming_caller (sent, True) = (''hello '', None)"
  using truncated_upload_accepted [OF streaming_streamed streaming_framing hello_sendable toy_hashes_length, of 1] by auto

text \<open>C19. Every byte of a signed chunked body is covered: whatever the wire carries, what is delivered is
  the concatenation of blocks whose chained signatures, each under the signing key of the verified
  caller over the one before it and starting from the signature of the request, are all in the
  bytes received.\<close>

theorem signed_chunks_cover_body:
  assumes "read_body h i src = (out, e)" "id_payload_hash i \<in> {streaming_signed, streaming_signed_trailer}"
  shows "\<exists>ds sigs. out = concat ds \<and> signed_chain (body_signer h i) (id_signature i) ds sigs \<and>
    (\<forall>s \<in> set sigs. sublist s (fst src))"
proof -
  have "read_chunks (Some (body_signer h i)) (id_signature i) src = (out, e)"
    using assms by (auto simp: read_body_def)
  from read_chunks_signed [OF this] show ?thesis by blast
qed

lemma signed_chunks_cover_body_witness:
  "\<exists>wire ds sigs. ''hello world'' = concat ds \<and>
     signed_chain (body_signer toy_hashes streaming_caller) (id_signature streaming_caller) ds sigs \<and>
     (\<forall>s \<in> set sigs. sublist s wire)"
proof -
  let ?signer = "Some (body_signer toy_hashes streaming_caller)" and ?ds = "[''hello '', ''world'']"
  have "read_body toy_hashes streaming_caller (encode_chunks ?signer ''seed'' ?ds, True) = (''hello world'', None)"
    unfolding read_body_streamed [OF streaming_streamed streaming_framing]
    using read_chunks_encode [OF framing_ok [OF streaming_framing toy_hashes_length] hello_sendable, of "''seed''" "[]"]
    by (simp add: read_nothing)
  from signed_chunks_cover_body [OF this] show ?thesis
    by (intro exI [of _ "encode_chunks ?signer ''seed'' ?ds"]) (simp add: streaming_caller_def)
qed

end
