(* ===== verification/Grant_Document.thy ===== *)
theory Grant_Document
  imports Grants
begin

text \<open>
  The access scope of a key as the document the database holds (\<^verbatim>\<open>marshalGrant\<close> and \<^verbatim>\<open>unmarshalGrant\<close> of
  \<^verbatim>\<open>internal/db/grants.go\<close>). A document is a JSON value; a number matters only for not being what a field asks
  for. A field that occurs more than once, in whatever case, has the last of its values.
\<close>

datatype json =
    JNull
  | JBool bool
  | JNum string
  | JStr string
  | JArr "json list"
  | JObj "(string \<times> json) list"

definition json_field :: "string \<Rightarrow> (string \<times> json) list \<Rightarrow> json" where
  "json_field name fs = (case find (\<lambda>(k, _). equal_fold k name) (rev fs) of None \<Rightarrow> JNull | Some (_, v) \<Rightarrow> v)"

subsection \<open>Encoding\<close>

definition marshal_rule :: "grant_rule \<Rightarrow> json" where
  "marshal_rule r = JObj [(''bucket'', JStr (gr_bucket r)), (''prefix'', JStr (gr_prefix r)),
     (''permissions'', JArr (map (JStr \<circ> permission_text) (gr_permissions r)))]"

definition marshal_grant :: "grant \<Rightarrow> json" where
  "marshal_grant g = JObj ((''unrestricted'', JBool (g_unrestricted g)) #
     (if g_rules g = [] then [] else [(''rules'', JArr (map marshal_rule (g_rules g)))]))"

subsection \<open>Decoding\<close>

text \<open>JSON null leaves a field as it is, which for these is its zero value.\<close>

definition decode_bool :: "json \<Rightarrow> bool option" where
  "decode_bool v = (case v of JNull \<Rightarrow> Some False | JBool b \<Rightarrow> Some b | _ \<Rightarrow> None)"

definition decode_string :: "json \<Rightarrow> string option" where
  "decode_string v = (case v of JNull \<Rightarrow> Some [] | JStr s \<Rightarrow> Some s | _ \<Rightarrow> None)"

fun decode_all :: "('a \<Rightarrow> 'b option) \<Rightarrow> 'a list \<Rightarrow> 'b list option" where
  "decode_all f [] = Some []"
| "decode_all f (x # xs) = (case (f x, decode_all f xs) of (Some y, Some ys) \<Rightarrow> Some (y # ys) | _ \<Rightarrow> None)"

definition decode_list :: "(json \<Rightarrow> 'b option) \<Rightarrow> json \<Rightarrow> 'b list option" where
  "decode_list f v = (case v of JNull \<Rightarrow> Some [] | JArr vs \<Rightarrow> decode_all f vs | _ \<Rightarrow> None)"

definition permission_of :: "string \<Rightarrow> permission" where
  "permission_of s =
     (if s = ''read'' then PermissionRead else if s = ''write'' then PermissionWrite
      else if s = ''delete'' then PermissionDelete else OtherPermission s)"

definition decode_rule :: "json \<Rightarrow> grant_rule option" where
  "decode_rule v =
     (case v of
        JNull \<Rightarrow> Some \<lparr>gr_bucket = [], gr_prefix = [], gr_permissions = []\<rparr>
      | JObj fs \<Rightarrow>
          (case (decode_string (json_field ''bucket'' fs), decode_string (json_field ''prefix'' fs),
               decode_list decode_string (json_field ''permissions'' fs)) of
             (Some b, Some p, Some ps) \<Rightarrow>
               Some \<lparr>gr_bucket = b, gr_prefix = p, gr_permissions = map permission_of ps\<rparr>
           | _ \<Rightarrow> None)
      | _ \<Rightarrow> None)"

definition unmarshal_grant :: "json \<Rightarrow> string + grant" where
  "unmarshal_grant v =
     (case v of
        JNull \<Rightarrow> Inl ''access scope is null''
      | JObj fs \<Rightarrow>
          if map_of fs ''unrestricted'' = None
          then Inl ''access scope does not say whether the key is unrestricted''
          else (case (decode_bool (json_field ''unrestricted'' fs), decode_list decode_rule (json_field ''rules'' fs)) of
             (Some b, Some rs) \<Rightarrow> Inr \<lparr>g_unrestricted = b, g_rules = rs\<rparr>
           | _ \<Rightarrow> Inl ''decode access scope'')
      | _ \<Rightarrow> Inl ''decode access scope'')"

text \<open>The check of the column: an object whose \<open>unrestricted\<close> is a truth value.\<close>

definition scope_shape :: "json \<Rightarrow> bool" where
  "scope_shape v = (case v of JObj fs \<Rightarrow> (case map_of (rev fs) ''unrestricted'' of Some (JBool _) \<Rightarrow> True | _ \<Rightarrow> False) | _ \<Rightarrow> False)"

subsection \<open>What is stored is what is read\<close>

lemma decode_all_map: "(\<And>x. x \<in> set xs \<Longrightarrow> f (g x) = Some (h x)) \<Longrightarrow> decode_all f (map g xs) = Some (map h xs)"
  by (induction xs) auto

lemma decode_strings: "decode_all decode_string (map (JStr \<circ> f) ps) = Some (map f ps)"
  using decode_all_map [of ps decode_string "JStr \<circ> f" f] by (simp add: decode_string_def)

lemma known_permissions:
  "\<forall>p \<in> set ps. valid_permission p \<Longrightarrow> map (permission_of \<circ> permission_text) ps = ps"
  by (induction ps) (auto simp: valid_permission_def all_permissions_def permission_of_def)

lemma rule_fields:
  "json_field ''bucket'' [(''bucket'', a), (''prefix'', b), (''permissions'', c)] = a"
  "json_field ''prefix'' [(''bucket'', a), (''prefix'', b), (''permissions'', c)] = b"
  "json_field ''permissions'' [(''bucket'', a), (''prefix'', b), (''permissions'', c)] = c"
  "json_field ''unrestricted'' ((''unrestricted'', a) # (if q then [] else [(''rules'', c)])) = a"
  "json_field ''rules'' ((''unrestricted'', a) # (if q then [] else [(''rules'', c)])) = (if q then JNull else c)"
  by (simp_all add: json_field_def equal_fold_def to_lower_def lower_char_def)

lemma decode_marshal_rule:
  assumes "\<forall>p \<in> set (gr_permissions r). valid_permission p"
  shows "decode_rule (marshal_rule r) = Some r"
  by (simp add: decode_rule_def marshal_rule_def rule_fields decode_list_def decode_strings)
    (simp add: decode_string_def known_permissions [OF assms])

lemma validate_rules_permissions:
  "validate_rules n rs = Inr () \<Longrightarrow> \<forall>r \<in> set rs. \<forall>p \<in> set (gr_permissions r). valid_permission p"
  by (induction n rs rule: validate_rules.induct) (auto simp: find_None_iff split: if_splits option.splits)

lemma unmarshal_marshal_grant:
  assumes "validate_grant g = Inr ()"
  shows "unmarshal_grant (marshal_grant g) = Inr g"
proof -
  have "\<forall>r \<in> set (g_rules g). \<forall>p \<in> set (gr_permissions r). valid_permission p"
    using assms validate_rules_permissions by (auto simp: validate_grant_def split: if_splits)
  then have "decode_all decode_rule (map marshal_rule (g_rules g)) = Some (g_rules g)"
    using decode_all_map [of "g_rules g" decode_rule marshal_rule id] decode_marshal_rule by simp
  then show ?thesis
    by (simp add: unmarshal_grant_def marshal_grant_def rule_fields decode_bool_def decode_list_def)
qed

end
