(* ===== verification/Accounts.thy ===== *)
theory Accounts
  imports Schema Forwarded Base64 Grant_Document
begin

text \<open>
  Console identity: users and their passwords, sessions, sign-in attempts, the unused links and
  invitations, and the rows of the access keys (\<^verbatim>\<open>internal/db/users.go\<close>, \<^verbatim>\<open>passwords.go\<close>, \<^verbatim>\<open>auth.go\<close>, \<^verbatim>\<open>audit.go\<close>). Addresses are taken to
  be ASCII, where \<^verbatim>\<open>strings.ToLower\<close> and Postgres' \<^verbatim>\<open>lower\<close> agree. A statement describes what Postgres does
  with texts without zero bytes and with identifiers that are UUIDs; given another one it fails, which
  the console's model allows every statement to do.
\<close>

subsection \<open>Tables\<close>

record user =
  us_id :: string
  us_email :: string
  us_role :: string
  us_created_at :: time
  us_last_login_at :: "time option"
  us_password_hash :: "string option"
  us_password_set_at :: "time option"
  us_must_change :: bool

record session =
  ss_user_id :: string
  ss_token_hash :: string
  ss_created_at :: time
  ss_last_seen_at :: time
  ss_idle_expires_at :: time
  ss_absolute_expires_at :: time
  ss_user_agent :: string
  ss_ip :: "ip option"
  ss_revoked_at :: "time option"

record login_attempt =
  la_email :: string
  la_ip :: "ip option"
  la_at :: time
  la_successful :: bool

record magic_link =
  ml_email :: string
  ml_token_hash :: string
  ml_created_at :: time
  ml_expires_at :: time
  ml_consumed_at :: "time option"
  ml_request_ip :: "ip option"

record invite =
  iv_email :: string
  iv_token_hash :: string
  iv_role :: string
  iv_invited_by :: "string option"
  iv_created_at :: time
  iv_expires_at :: time
  iv_accepted_at :: "time option"
  iv_revoked_at :: "time option"

record audit_event =
  ae_id :: int
  ae_actor_id :: "string option"
  ae_actor_email :: string
  ae_action :: string
  ae_subject_type :: string
  ae_subject :: string
  ae_ip :: "ip option"
  ae_user_agent :: "string option"
  ae_created_at :: time

record credential_row =
  cd_access_key_id :: string
  cd_ciphertext :: string
  cd_nonce :: string
  cd_description :: string
  cd_owner :: "string option"
  cd_scope :: json
  cd_created_at :: time
  cd_last_used_at :: "time option"
  cd_revoked_at :: "time option"

record accounts =
  users :: "(string, user) table"
  sessions :: "(string, session) table"
  attempts :: "login_attempt list"
  magic_links :: "(string, magic_link) table"
  invites :: "(string, invite) table"
  credentials :: "(string, credential_row) table"
  audit_log :: "audit_event list"
  audit_seq :: int

definition no_accounts :: accounts where
  "no_accounts = \<lparr>users = [], sessions = [], attempts = [], magic_links = [], invites = [], credentials = [], audit_log = [], audit_seq = 1\<rparr>"

datatype account_error =
    ErrUserNotFound
  | ErrLastAdmin
  | ErrUnknownRole
  | ErrTokenInvalid
  | ErrSessionInvalid
  | ErrInviteInvalid
  | ErrPasswordIncorrect
  | ErrPasswordUnset
  | ErrPasswordTooShort
  | ErrPasswordTooLong
  | ErrCredentialNotFound
  | ErrCredentialRevoked
  | ErrUndecryptable
  | ErrScope string
  | ErrNoRandom
  | ErrQuery string

type_synonym 'r statement = "accounts \<Rightarrow> account_error + 'r \<times> accounts"

text \<open>Rows a condition selects are rewritten in place; how many there are is the command tag.\<close>

definition update_rows :: "('r \<Rightarrow> bool) \<Rightarrow> ('r \<Rightarrow> 'r) \<Rightarrow> ('k, 'r) table \<Rightarrow> ('k, 'r) table" where
  "update_rows p f t = map (\<lambda>(k, r). (k, if p r then f r else r)) t"

definition count_rows :: "('r \<Rightarrow> bool) \<Rightarrow> ('k, 'r) table \<Rightarrow> nat" where
  "count_rows p t = length (filter (p \<circ> snd) t)"

definition find_row :: "('r \<Rightarrow> bool) \<Rightarrow> ('k, 'r) table \<Rightarrow> ('k \<times> 'r) option" where
  "find_row p t = find (p \<circ> snd) t"

subsection \<open>Addresses\<close>

definition normalize_email :: "string \<Rightarrow> string" where
  "normalize_email email = to_lower (trim_space email)"

text \<open>\<^verbatim>\<open>netip.ParseAddr\<close>: what \<^verbatim>\<open>net.ParseIP\<close> takes, and an IPv6 address with a zone.\<close>

definition parse_addr :: "string \<Rightarrow> (ip \<times> string) option" where
  "parse_addr s =
     (let (address, zone, found) = cut s ''%''
      in if \<not> found then map_option (\<lambda>a. (a, [])) (parse_ip_raw s)
         else if zone = [] \<or> CHR '':'' \<notin> set address then None
         else map_option (\<lambda>a. (a, zone)) (parse_ip_raw address))"

text \<open>
  \<^verbatim>\<open>nullableIP\<close> and the cast to \<^verbatim>\<open>INET\<close> behind it: what does not parse becomes NULL, but Postgres knows no
  zones and fails the statement on one.
\<close>

definition nullable_ip :: "string \<Rightarrow> account_error + ip option" where
  "nullable_ip raw =
     (if raw = [] then Inr None
      else case parse_addr raw of
        None \<Rightarrow> Inr None
      | Some (a, zone) \<Rightarrow> if zone = [] then Inr (Some a) else Inl (ErrQuery ''invalid input syntax for type inet''))"

subsection \<open>Users\<close>

definition role_admin :: string where "role_admin = ''ADMIN''"
definition role_member :: string where "role_member = ''MEMBER''"

definition is_admin :: "user \<Rightarrow> bool" where
  "is_admin u \<longleftrightarrow> us_role u = role_admin"

definition admin_count :: "accounts \<Rightarrow> nat" where
  "admin_count s = count_rows is_admin (users s)"

definition get_user_by_email :: "accounts \<Rightarrow> string \<Rightarrow> account_error + user" where
  "get_user_by_email s email =
     (case find_row (\<lambda>u. us_email u = normalize_email email) (users s) of
        None \<Rightarrow> Inl ErrUserNotFound | Some (_, u) \<Rightarrow> Inr u)"

definition get_user_by_id :: "accounts \<Rightarrow> string \<Rightarrow> account_error + user" where
  "get_user_by_id s uid = (case map_of (users s) uid of None \<Rightarrow> Inl ErrUserNotFound | Some u \<Rightarrow> Inr u)"

text \<open>The checks of the table: a lower-case address with an at sign behind its first character, a known role.\<close>

definition user_checks :: "string \<Rightarrow> string \<Rightarrow> account_error + unit" where
  "user_checks email role =
     guard_or (email = to_lower email \<and> CHR ''@'' \<in> set (tl email) \<and> hd email \<noteq> CHR ''@'' \<and>
       role \<in> {role_admin, role_member}) (ErrQuery ''check constraint'')"

definition fresh_user :: "env \<Rightarrow> string \<Rightarrow> string \<Rightarrow> user" where
  "fresh_user e email role =
     \<lparr>us_id = e_uuid e 0, us_email = email, us_role = role, us_created_at = e_now e, us_last_login_at = None,
      us_password_hash = None, us_password_set_at = None, us_must_change = False\<rparr>"

text \<open>\<^verbatim>\<open>INSERT .. ON CONFLICT (email)\<close>: the row there is changed, or a new one is added.\<close>

definition upsert_user :: "env \<Rightarrow> string \<Rightarrow> string \<Rightarrow> (user \<Rightarrow> user) \<Rightarrow> user statement" where
  "upsert_user e email role change s =
     rbind (user_checks email role) (\<lambda>_.
     case find_row (\<lambda>u. us_email u = email) (users s) of
       Some (k, u) \<Rightarrow> Inr (change u, s\<lparr>users := AList.update k (change u) (users s)\<rparr>)
     | None \<Rightarrow>
         if map_of (users s) (e_uuid e 0) \<noteq> None then Inl (ErrQuery ''duplicate key'')
         else let u = fresh_user e email role in Inr (u, s\<lparr>users := users s @ [(us_id u, u)]\<rparr>))"

definition ensure_admin :: "env \<Rightarrow> string \<Rightarrow> user statement" where
  "ensure_admin e email = upsert_user e (normalize_email email) role_admin (us_role_update (\<lambda>_. role_admin))"

definition create_user :: "env \<Rightarrow> string \<Rightarrow> string \<Rightarrow> user statement" where
  "create_user e email role = upsert_user e (normalize_email email) role (\<lambda>u. u)"

definition list_users :: "accounts \<Rightarrow> user list" where
  "list_users s = sort_key us_created_at (map snd (users s))"

definition record_login :: "env \<Rightarrow> string \<Rightarrow> unit statement" where
  "record_login e uid s =
     Inr ((), s\<lparr>users := update_rows (\<lambda>u. us_id u = uid) (us_last_login_at_update (\<lambda>_. Some (e_now e))) (users s)\<rparr>)"

text \<open>
  One statement counts the admins and changes the row. \<open>seen\<close> is the snapshot it reads, \<open>s\<close> what it
  writes to: under READ COMMITTED another statement may have committed in between.
\<close>

definition role_change_allowed :: "accounts \<Rightarrow> string \<Rightarrow> user \<Rightarrow> bool" where
  "role_change_allowed seen role u \<longleftrightarrow> role = role_admin \<or> us_role u \<noteq> role_admin \<or> 1 < admin_count seen"

definition set_user_role_at :: "accounts \<Rightarrow> string \<Rightarrow> string \<Rightarrow> unit statement" where
  "set_user_role_at seen uid role s =
     (if role \<notin> {role_admin, role_member} then Inl ErrUnknownRole
      else case map_of (users s) uid of
        None \<Rightarrow> Inl ErrUserNotFound
      | Some u \<Rightarrow>
          if role_change_allowed seen role u
          then Inr ((), s\<lparr>users := AList.update uid (u\<lparr>us_role := role\<rparr>) (users s)\<rparr>)
          else Inl ErrLastAdmin)"

definition set_user_role :: "string \<Rightarrow> string \<Rightarrow> unit statement" where
  "set_user_role uid role s = set_user_role_at s uid role s"

text \<open>
  Sessions and access keys go with their user; an audit entry and an invitation only forget who it was.
\<close>

definition drop_user :: "string \<Rightarrow> accounts \<Rightarrow> accounts" where
  "drop_user uid s = s\<lparr>users := AList.delete uid (users s),
     sessions := filter (\<lambda>(_, x). ss_user_id x \<noteq> uid) (sessions s),
     credentials := filter (\<lambda>(_, c). cd_owner c \<noteq> Some uid) (credentials s),
     invites := update_rows (\<lambda>i. iv_invited_by i = Some uid) (iv_invited_by_update (\<lambda>_. None)) (invites s),
     audit_log := map (\<lambda>a. if ae_actor_id a = Some uid then a\<lparr>ae_actor_id := None\<rparr> else a) (audit_log s)\<rparr>"

definition delete_user_at :: "accounts \<Rightarrow> string \<Rightarrow> unit statement" where
  "delete_user_at seen uid s =
     (case map_of (users s) uid of
        None \<Rightarrow> Inl ErrUserNotFound
      | Some u \<Rightarrow>
          if us_role u \<noteq> role_admin \<or> 1 < admin_count seen then Inr ((), drop_user uid s)
          else Inl ErrLastAdmin)"

definition delete_user :: "string \<Rightarrow> unit statement" where
  "delete_user uid s = delete_user_at s uid s"

subsection \<open>Passwords\<close>

definition min_password_length :: nat where "min_password_length = 12"
definition max_password_length :: nat where "max_password_length = 72"

definition validate_password :: "string \<Rightarrow> account_error + unit" where
  "validate_password password =
     (if rune_count password < min_password_length then Inl ErrPasswordTooShort
      else if max_password_length < length password then Inl ErrPasswordTooLong
      else Inr ())"

text \<open>
  bcrypt. \<open>hs_generate\<close> also takes the random salt; \<open>hs_matches hash password\<close> is the comparison.
\<close>

record hasher =
  hs_generate :: "string \<Rightarrow> string \<Rightarrow> string"
  hs_matches :: "string \<Rightarrow> string \<Rightarrow> bool"

definition hash_password :: "hasher \<Rightarrow> env \<Rightarrow> string \<Rightarrow> account_error + string" where
  "hash_password h e password =
     rbind (validate_password password) (\<lambda>_.
     case e_rand e 0 of None \<Rightarrow> Inl ErrNoRandom | Some salt \<Rightarrow> Inr (hs_generate h salt password))"

definition with_password :: "env \<Rightarrow> string \<Rightarrow> bool \<Rightarrow> user \<Rightarrow> user" where
  "with_password e hash must_change u =
     u\<lparr>us_password_hash := Some hash, us_password_set_at := Some (e_now e), us_must_change := must_change\<rparr>"

text \<open>The two functions that set a password: the condition on the row is the identifier or the address.\<close>

definition set_password_where :: "hasher \<Rightarrow> env \<Rightarrow> (user \<Rightarrow> bool) \<Rightarrow> string \<Rightarrow> bool \<Rightarrow> unit statement" where
  "set_password_where h e p password must_change s =
     rbind (hash_password h e password) (\<lambda>hash.
     if count_rows p (users s) = 0 then Inl ErrUserNotFound
     else Inr ((), s\<lparr>users := update_rows p (with_password e hash must_change) (users s)\<rparr>))"

definition set_password :: "hasher \<Rightarrow> env \<Rightarrow> string \<Rightarrow> string \<Rightarrow> bool \<Rightarrow> unit statement" where
  "set_password h e uid = set_password_where h e (\<lambda>u. us_id u = uid)"

definition set_password_by_email :: "hasher \<Rightarrow> env \<Rightarrow> string \<Rightarrow> string \<Rightarrow> bool \<Rightarrow> unit statement" where
  "set_password_by_email h e email = set_password_where h e (\<lambda>u. us_email u = normalize_email email)"

definition verify_password :: "hasher \<Rightarrow> accounts \<Rightarrow> string \<Rightarrow> string \<Rightarrow> account_error + user" where
  "verify_password h s email password =
     (case get_user_by_email s email of
        Inl _ \<Rightarrow> Inl ErrPasswordIncorrect
      | Inr u \<Rightarrow>
          (case us_password_hash u of
             None \<Rightarrow> Inl ErrPasswordUnset
           | Some hash \<Rightarrow>
               if hash = [] then Inl ErrPasswordUnset
               else if hs_matches h hash password then Inr u else Inl ErrPasswordIncorrect))"

definition has_password :: "accounts \<Rightarrow> string \<Rightarrow> account_error + bool" where
  "has_password s email = rbind (get_user_by_email s email) (\<lambda>u. Inr (us_password_hash u \<noteq> None))"

definition clear_must_change_password :: "string \<Rightarrow> unit statement" where
  "clear_must_change_password uid s =
     Inr ((), s\<lparr>users := update_rows (\<lambda>u. us_id u = uid) (us_must_change_update (\<lambda>_. False)) (users s)\<rparr>)"

subsection \<open>Sign-in attempts\<close>

definition record_login_attempt :: "env \<Rightarrow> string \<Rightarrow> string \<Rightarrow> bool \<Rightarrow> unit statement" where
  "record_login_attempt e email ip successful s =
     rbind (nullable_ip ip) (\<lambda>a.
     Inr ((), s\<lparr>attempts := attempts s @ [\<lparr>la_email = normalize_email email, la_ip = a, la_at = e_now e,
       la_successful = successful\<rparr>]\<rparr>))"

definition recent_failures :: "env \<Rightarrow> time \<Rightarrow> accounts \<Rightarrow> login_attempt list" where
  "recent_failures e window s = filter (\<lambda>a. \<not> la_successful a \<and> e_now e - window < la_at a) (attempts s)"

definition count_recent_failures :: "env \<Rightarrow> string \<Rightarrow> string \<Rightarrow> time \<Rightarrow> accounts \<Rightarrow> account_error + nat \<times> nat" where
  "count_recent_failures e email ip window s =
     rbind (nullable_ip ip) (\<lambda>a. let failures = recent_failures e window s in
     Inr (length (filter (\<lambda>x. la_email x = normalize_email email) failures),
       length (filter (\<lambda>x. a \<noteq> None \<and> la_ip x = a) failures)))"

definition clear_login_failures :: "string \<Rightarrow> unit statement" where
  "clear_login_failures email s =
     Inr ((), s\<lparr>attempts := filter (\<lambda>a. la_email a \<noteq> normalize_email email \<or> la_successful a) (attempts s)\<rparr>)"

definition purge_login_attempts :: "env \<Rightarrow> time \<Rightarrow> unit statement" where
  "purge_login_attempts e retain s = Inr ((), s\<lparr>attempts := filter (\<lambda>a. e_now e - retain \<le> la_at a) (attempts s)\<rparr>)"

subsection \<open>Tokens and sessions\<close>

definition hash_token :: "hashes \<Rightarrow> string \<Rightarrow> string" where
  "hash_token h token = h_sha256 h token"

definition new_token :: "hashes \<Rightarrow> env \<Rightarrow> account_error + string \<times> string" where
  "new_token h e =
     (case e_rand e 0 of
        None \<Rightarrow> Inl ErrNoRandom
      | Some buf \<Rightarrow> (let token = base64_encode buf in Inr (token, hash_token h token)))"

definition create_session ::
  "env \<Rightarrow> string \<Rightarrow> string \<Rightarrow> time \<Rightarrow> time \<Rightarrow> string \<Rightarrow> string \<Rightarrow> session statement" where
  "create_session e uid hash idle absolute agent ip s =
     rbind (nullable_ip ip) (\<lambda>a.
     if map_of (users s) uid = None \<or> map_of (sessions s) (e_uuid e 0) \<noteq> None \<or>
        find_row (\<lambda>x. ss_token_hash x = hash) (sessions s) \<noteq> None
     then Inl (ErrQuery ''constraint'')
     else let x = \<lparr>ss_user_id = uid, ss_token_hash = hash, ss_created_at = e_now e, ss_last_seen_at = e_now e,
            ss_idle_expires_at = e_now e + idle, ss_absolute_expires_at = e_now e + absolute,
            ss_user_agent = take 512 agent, ss_ip = a, ss_revoked_at = None\<rparr>
       in Inr (x, s\<lparr>sessions := sessions s @ [(e_uuid e 0, x)]\<rparr>))"

text \<open>
  A session that admits its holder at \<open>now\<close>. Touching one joins it with its user, who exists by the
  foreign key.
\<close>

definition live_session :: "time \<Rightarrow> session \<Rightarrow> bool" where
  "live_session now x \<longleftrightarrow>
     ss_revoked_at x = None \<and> now < ss_idle_expires_at x \<and> now < ss_absolute_expires_at x"

definition renewed :: "time \<Rightarrow> time \<Rightarrow> session \<Rightarrow> session" where
  "renewed now idle x =
     x\<lparr>ss_last_seen_at := now, ss_idle_expires_at := min (now + idle) (ss_absolute_expires_at x)\<rparr>"

definition touch_session :: "env \<Rightarrow> string \<Rightarrow> time \<Rightarrow> user statement" where
  "touch_session e hash idle s =
     (let p = (\<lambda>x. ss_token_hash x = hash \<and> live_session (e_now e) x)
      in case find_row p (sessions s) of
           None \<Rightarrow> Inl ErrSessionInvalid
         | Some (_, x) \<Rightarrow>
             (case map_of (users s) (ss_user_id x) of
                None \<Rightarrow> Inl ErrSessionInvalid
              | Some u \<Rightarrow> Inr (u, s\<lparr>sessions := update_rows p (renewed (e_now e) idle) (sessions s)\<rparr>)))"

text \<open>The four ways to end sessions differ in the rows they select.\<close>

definition revoke_where :: "env \<Rightarrow> (session \<Rightarrow> bool) \<Rightarrow> accounts \<Rightarrow> accounts" where
  "revoke_where e p s = s\<lparr>sessions :=
     update_rows (\<lambda>x. p x \<and> ss_revoked_at x = None) (ss_revoked_at_update (\<lambda>_. Some (e_now e))) (sessions s)\<rparr>"

definition revoke_session :: "env \<Rightarrow> string \<Rightarrow> unit statement" where
  "revoke_session e hash s = Inr ((), revoke_where e (\<lambda>x. ss_token_hash x = hash) s)"

definition revoke_user_sessions :: "env \<Rightarrow> string \<Rightarrow> unit statement" where
  "revoke_user_sessions e uid s = Inr ((), revoke_where e (\<lambda>x. ss_user_id x = uid) s)"

definition revoke_session_by_id :: "env \<Rightarrow> string \<Rightarrow> string \<Rightarrow> unit statement" where
  "revoke_session_by_id e uid sid s =
     (case map_of (sessions s) sid of
        None \<Rightarrow> Inl ErrSessionInvalid
      | Some x \<Rightarrow>
          if ss_user_id x = uid \<and> ss_revoked_at x = None
          then Inr ((), s\<lparr>sessions := AList.update sid (x\<lparr>ss_revoked_at := Some (e_now e)\<rparr>) (sessions s)\<rparr>)
          else Inl ErrSessionInvalid)"

definition revoke_other_sessions :: "env \<Rightarrow> string \<Rightarrow> string \<Rightarrow> nat statement" where
  "revoke_other_sessions e uid hash s =
     (let p = (\<lambda>x. ss_user_id x = uid \<and> ss_token_hash x \<noteq> hash)
      in Inr (count_rows (\<lambda>x. p x \<and> ss_revoked_at x = None) (sessions s), revoke_where e p s))"

definition list_sessions :: "env \<Rightarrow> string \<Rightarrow> string \<Rightarrow> accounts \<Rightarrow> (string \<times> session \<times> bool) list" where
  "list_sessions e uid hash s =
     map (\<lambda>(sid, x). (sid, x, ss_token_hash x = hash))
       (sort_key (\<lambda>(sid, x). Desc (ss_last_seen_at x))
         (filter (\<lambda>(sid, x). ss_user_id x = uid \<and> live_session (e_now e) x) (sessions s)))"

subsection \<open>Links and invitations\<close>

text \<open>Kept for rolling back to a release that signs in by emailed link; nothing calls them any more.\<close>

definition create_magic_link :: "env \<Rightarrow> string \<Rightarrow> string \<Rightarrow> time \<Rightarrow> string \<Rightarrow> unit statement" where
  "create_magic_link e email hash ttl ip s =
     rbind (nullable_ip ip) (\<lambda>a.
     if find_row (\<lambda>m. ml_token_hash m = hash) (magic_links s) \<noteq> None \<or> map_of (magic_links s) (e_uuid e 0) \<noteq> None
     then Inl (ErrQuery ''duplicate key'')
     else Inr ((), s\<lparr>magic_links := magic_links s @ [(e_uuid e 0,
       \<lparr>ml_email = normalize_email email, ml_token_hash = hash, ml_created_at = e_now e,
        ml_expires_at = e_now e + ttl, ml_consumed_at = None, ml_request_ip = a\<rparr>)]\<rparr>))"

definition usable_link :: "time \<Rightarrow> string \<Rightarrow> magic_link \<Rightarrow> bool" where
  "usable_link now hash m \<longleftrightarrow> ml_token_hash m = hash \<and> ml_consumed_at m = None \<and> now < ml_expires_at m"

definition consume_magic_link :: "env \<Rightarrow> string \<Rightarrow> string statement" where
  "consume_magic_link e hash s =
     (case find_row (usable_link (e_now e) hash) (magic_links s) of
        None \<Rightarrow> Inl ErrTokenInvalid
      | Some (_, m) \<Rightarrow> Inr (ml_email m, s\<lparr>magic_links :=
          update_rows (usable_link (e_now e) hash) (ml_consumed_at_update (\<lambda>_. Some (e_now e))) (magic_links s)\<rparr>))"

definition count_recent_magic_links :: "env \<Rightarrow> string \<Rightarrow> time \<Rightarrow> accounts \<Rightarrow> nat" where
  "count_recent_magic_links e email window s =
     count_rows (\<lambda>m. ml_email m = normalize_email email \<and> e_now e - window < ml_created_at m) (magic_links s)"

definition pending_invite :: "invite \<Rightarrow> bool" where
  "pending_invite i \<longleftrightarrow> iv_accepted_at i = None \<and> iv_revoked_at i = None"

definition create_invite ::
  "env \<Rightarrow> string \<Rightarrow> string \<Rightarrow> string option \<Rightarrow> string \<Rightarrow> time \<Rightarrow> accounts \<Rightarrow> (account_error + invite) \<times> accounts" where
  "create_invite e email role invited_by hash ttl s =
     (let address = normalize_email email;
          s1 = s\<lparr>invites := update_rows (\<lambda>i. iv_email i = address \<and> pending_invite i)
            (iv_revoked_at_update (\<lambda>_. Some (e_now e))) (invites s)\<rparr>;
          i = \<lparr>iv_email = address, iv_token_hash = hash, iv_role = role, iv_invited_by = invited_by,
            iv_created_at = e_now e, iv_expires_at = e_now e + ttl, iv_accepted_at = None, iv_revoked_at = None\<rparr>
      in if role \<notin> {role_admin, role_member} \<or> address \<noteq> to_lower address \<or>
            find_row (\<lambda>j. iv_token_hash j = hash) (invites s) \<noteq> None \<or> map_of (invites s) (e_uuid e 0) \<noteq> None \<or>
            (\<exists>u \<in> set_option invited_by. map_of (users s) u = None)
         then (Inl (ErrQuery ''constraint''), s1)
         else (Inr i, s1\<lparr>invites := invites s1 @ [(e_uuid e 0, i)]\<rparr>))"

definition open_invite :: "time \<Rightarrow> invite \<Rightarrow> bool" where
  "open_invite now i \<longleftrightarrow> pending_invite i \<and> now < iv_expires_at i"

definition accept_invite :: "env \<Rightarrow> string \<Rightarrow> (string \<times> string) statement" where
  "accept_invite e hash s =
     (let p = (\<lambda>i. iv_token_hash i = hash \<and> open_invite (e_now e) i)
      in case find_row p (invites s) of
           None \<Rightarrow> Inl ErrInviteInvalid
         | Some (_, i) \<Rightarrow> Inr ((iv_email i, iv_role i), s\<lparr>invites :=
             update_rows p (iv_accepted_at_update (\<lambda>_. Some (e_now e))) (invites s)\<rparr>))"

definition has_pending_invite :: "env \<Rightarrow> string \<Rightarrow> accounts \<Rightarrow> bool" where
  "has_pending_invite e email s \<longleftrightarrow>
     find_row (\<lambda>i. iv_email i = normalize_email email \<and> open_invite (e_now e) i) (invites s) \<noteq> None"

definition list_pending_invites :: "env \<Rightarrow> accounts \<Rightarrow> (string \<times> invite) list" where
  "list_pending_invites e s =
     sort_key (\<lambda>(_, i). Desc (iv_created_at i)) (filter (\<lambda>(_, i). open_invite (e_now e) i) (invites s))"

definition revoke_invite :: "env \<Rightarrow> string \<Rightarrow> unit statement" where
  "revoke_invite e iid s =
     (case map_of (invites s) iid of
        None \<Rightarrow> Inl ErrInviteInvalid
      | Some i \<Rightarrow>
          if pending_invite i
          then Inr ((), s\<lparr>invites := AList.update iid (i\<lparr>iv_revoked_at := Some (e_now e)\<rparr>) (invites s)\<rparr>)
          else Inl ErrInviteInvalid)"

definition purge_expired_auth_tokens :: "env \<Rightarrow> time \<Rightarrow> accounts \<Rightarrow> accounts" where
  "purge_expired_auth_tokens e retain s =
     s\<lparr>magic_links := filter (\<lambda>(_, m). e_now e - retain \<le> ml_expires_at m) (magic_links s),
       sessions := filter (\<lambda>(_, x). e_now e - retain \<le> ss_absolute_expires_at x) (sessions s)\<rparr>"

subsection \<open>The audit log\<close>

definition record_audit :: "env \<Rightarrow> audit_event \<Rightarrow> string option \<Rightarrow> string \<Rightarrow> unit statement" where
  "record_audit e event actor_id ip s =
     rbind (nullable_ip ip) (\<lambda>a.
     if \<exists>u \<in> set_option actor_id. map_of (users s) u = None then Inl (ErrQuery ''foreign key'')
     else Inr ((), s\<lparr>audit_log := audit_log s @
       [event\<lparr>ae_id := audit_seq s, ae_actor_id := actor_id, ae_ip := a, ae_created_at := e_now e\<rparr>],
       audit_seq := audit_seq s + 1\<rparr>))"

record audit_filter =
  af_actor :: string
  af_action :: string
  af_before :: int
  af_limit :: int

definition list_audit_events :: "accounts \<Rightarrow> audit_filter \<Rightarrow> audit_event list" where
  "list_audit_events s f =
     (let limit = (if af_limit f \<le> 0 \<or> 200 < af_limit f then 50 else af_limit f)
      in take (nat limit) (sort_key (\<lambda>a. Desc (ae_id a)) (filter (\<lambda>a.
           (af_actor f = [] \<or> ae_actor_email a = af_actor f) \<and> (af_action f = [] \<or> ae_action a = af_action f) \<and>
           (af_before f = 0 \<or> ae_id a < af_before f)) (audit_log s))))"

definition distinct_audit_actors :: "accounts \<Rightarrow> string list" where
  "distinct_audit_actors s = remdups (sort (map ae_actor_email (audit_log s)))"

definition purge_audit_events :: "env \<Rightarrow> time \<Rightarrow> nat statement" where
  "purge_audit_events e retain s =
     (let kept = filter (\<lambda>a. e_now e - retain \<le> ae_created_at a) (audit_log s)
      in Inr (length (audit_log s) - length kept, s\<lparr>audit_log := kept\<rparr>))"

subsection \<open>Constraints\<close>

text \<open>What the keys, the foreign keys and the checks of these tables say.\<close>

definition user_row_ok :: "user \<Rightarrow> bool" where
  "user_row_ok u \<longleftrightarrow> us_email u = to_lower (us_email u) \<and> us_role u \<in> {role_admin, role_member}"

definition wf_users :: "(string, user) table \<Rightarrow> bool" where
  "wf_users t \<longleftrightarrow> keyed t \<and> distinct (map (us_email \<circ> snd) t) \<and>
     (\<forall>(k, u) \<in> set t. us_id u = k \<and> user_row_ok u)"

definition wf_credentials :: "(string, credential_row) table \<Rightarrow> (string, user) table \<Rightarrow> bool" where
  "wf_credentials t us \<longleftrightarrow> keyed t \<and> distinct (map (cd_access_key_id \<circ> snd) t) \<and>
     (\<forall>(k, c) \<in> set t. scope_shape (cd_scope c) \<and> (\<forall>u \<in> set_option (cd_owner c). map_of us u \<noteq> None))"

definition wf_accounts :: "accounts \<Rightarrow> bool" where
  "wf_accounts s \<longleftrightarrow> wf_users (users s) \<and> keyed (sessions s) \<and> distinct (map (ss_token_hash \<circ> snd) (sessions s)) \<and>
     (\<forall>(k, x) \<in> set (sessions s). map_of (users s) (ss_user_id x) \<noteq> None) \<and>
     wf_credentials (credentials s) (users s)"

lemma wf_credentials_users:
  assumes "wf_credentials t us" "\<And>k. map_of us k \<noteq> None \<Longrightarrow> map_of us' k \<noteq> None"
  shows "wf_credentials t us'"
  using assms unfolding wf_credentials_def by fast

lemma map_fst_update_rows [simp]: "map fst (update_rows p f t) = map fst t"
  by (simp add: update_rows_def comp_def case_prod_unfold)

lemma map_snd_update_rows:
  "(\<And>r. g (f r) = g r) \<Longrightarrow> map (g \<circ> snd) (update_rows p f t) = map (g \<circ> snd) t"
  by (simp add: update_rows_def comp_def case_prod_unfold)

lemma set_update_rows:
  "set (update_rows p f t) = (\<lambda>(k, r). (k, if p r then f r else r)) ` set t"
  by (simp add: update_rows_def)

lemma map_of_update_rows:
  "map_of (update_rows p f t) k = map_option (\<lambda>r. if p r then f r else r) (map_of t k)"
  by (induction t) (auto simp: update_rows_def)

lemma find_row_Some: "find_row p t = Some (k, r) \<Longrightarrow> (k, r) \<in> set t \<and> p r"
  by (auto simp: find_row_def find_Some_iff in_set_conv_nth) (metis comp_apply snd_conv)

lemma find_row_None: "find_row p t = None \<longleftrightarrow> (\<forall>(k, r) \<in> set t. \<not> p r)"
  by (auto simp: find_row_def find_None_iff)

lemma count_rows_0: "count_rows p t = 0 \<longleftrightarrow> (\<forall>(k, r) \<in> set t. \<not> p r)"
  by (auto simp: count_rows_def filter_empty_conv)

lemma wf_users_update_rows:
  assumes "wf_users t" "\<And>u. us_id (f u) = us_id u" "\<And>u. us_email (f u) = us_email u"
    and "\<And>u. user_row_ok u \<Longrightarrow> user_row_ok (f u)"
  shows "wf_users (update_rows p f t)"
  using assms unfolding wf_users_def set_update_rows
  by (fastforce simp: map_snd_update_rows)

text \<open>A statement that commits keeps the constraints.\<close>

locale keeps_accounts =
  fixes stmt :: "'r statement"
  assumes keeps: "wf_accounts s \<Longrightarrow> stmt s = Inr (x, s') \<Longrightarrow> wf_accounts s'"
begin

lemma settle_wf: "wf_accounts s \<Longrightarrow> wf_accounts (case stmt s of Inl _ \<Rightarrow> s | Inr (_, s') \<Rightarrow> s')"
  by (auto simp: keeps split: sum.split)

end

lemma wf_accounts_users:
  assumes "wf_accounts s" "wf_users t" "\<And>k. map_of (users s) k \<noteq> None \<Longrightarrow> map_of t k \<noteq> None"
  shows "wf_accounts (s\<lparr>users := t\<rparr>)"
  using assms wf_credentials_users [of "credentials s" "users s" t] by (fastforce simp: wf_accounts_def)

lemma wf_accounts_sessions:
  assumes "wf_accounts s" "keyed t" "distinct (map (ss_token_hash \<circ> snd) t)"
    and "\<forall>(k, x) \<in> set t. map_of (users s) (ss_user_id x) \<noteq> None"
  shows "wf_accounts (s\<lparr>sessions := t\<rparr>)"
  using assms by (simp add: wf_accounts_def)

lemma wf_update_sessions:
  assumes "wf_accounts s" "\<And>x. ss_token_hash (f x) = ss_token_hash x" "\<And>x. ss_user_id (f x) = ss_user_id x"
  shows "wf_accounts (s\<lparr>sessions := update_rows p f (sessions s)\<rparr>)"
  using assms by (intro wf_accounts_sessions) (auto simp: wf_accounts_def map_snd_update_rows set_update_rows)

lemma wf_update_users:
  assumes "wf_accounts s" "\<And>u. us_id (f u) = us_id u" "\<And>u. us_email (f u) = us_email u"
    and "\<And>u. user_row_ok u \<Longrightarrow> user_row_ok (f u)"
  shows "wf_accounts (s\<lparr>users := update_rows p f (users s)\<rparr>)"
  using assms by (intro wf_accounts_users wf_users_update_rows) (auto simp: wf_accounts_def map_of_update_rows)

lemma wf_accounts_other [simp]:
  "wf_accounts (s\<lparr>attempts := a\<rparr>) = wf_accounts s" "wf_accounts (s\<lparr>magic_links := b\<rparr>) = wf_accounts s"
  "wf_accounts (s\<lparr>invites := c\<rparr>) = wf_accounts s"
  "wf_accounts (s\<lparr>audit_log := d, audit_seq := n\<rparr>) = wf_accounts s" "wf_accounts (s\<lparr>audit_log := d\<rparr>) = wf_accounts s"
  by (simp_all add: wf_accounts_def)

text \<open>An update of one row by its key is an update of the rows that satisfy a condition.\<close>

lemma update_row_by_key:
  assumes "keyed t" "map_of t k = Some r"
  shows "map_of (AList.update k r' t) = (map_of t)(k \<mapsto> r')" "keyed (AList.update k r' t)"
  using assms by (simp_all add: update_conv')

lemma wf_users_update_key:
  assumes "wf_users t" "map_of t k = Some u" "us_id u' = us_id u" "us_email u' = us_email u" "user_row_ok u'"
  shows "wf_users (AList.update k u' t)"
  using assms
proof (induction t)
  case (Cons r t)
  obtain j v where r: "r = (j, v)" by (cases r)
  have t: "wf_users t" using Cons.prems(1) by (simp add: wf_users_def)
  show ?case
  proof (cases "j = k")
    case True
    with Cons.prems r show ?thesis by (auto simp: wf_users_def)
  next
    case False
    then have k: "map_of t k = Some u" using Cons.prems(2) r by simp
    have IH: "wf_users (AList.update k u' t)" by (rule Cons.IH [OF t k Cons.prems(3-5)])
    have u: "(k, u) \<in> set t" using k by (rule map_of_SomeD)
    have "us_email ` snd ` set (AList.update k u' t) \<subseteq> us_email ` snd ` set t"
      using set_update_subset [of k u' t] u Cons.prems(4) by force
    moreover have "fst ` set (AList.update k u' t) = fst ` set t"
      using u by (force simp: dom_update)
    ultimately show ?thesis
      using IH Cons.prems(1) r False by (auto simp: wf_users_def image_iff subset_iff)
  qed
qed (simp add: wf_users_def)

lemma upsert_user_keeps:
  assumes "wf_accounts s" "upsert_user e email role change s = Inr (x, s')"
    and "\<And>u. us_id (change u) = us_id u" "\<And>u. us_email (change u) = us_email u"
    and "\<And>u. user_row_ok u \<Longrightarrow> role \<in> {role_admin, role_member} \<Longrightarrow> user_row_ok (change u)"
  shows "wf_accounts s'"
proof -
  let ?p = "\<lambda>u. us_email u = email"
  have wf: "wf_users (users s)" using assms(1) by (simp add: wf_accounts_def)
  have checks: "email = to_lower email" "role \<in> {role_admin, role_member}"
    using assms(2) by (auto simp: upsert_user_def user_checks_def result_iff)
  show ?thesis
  proof (cases "find_row ?p (users s)")
    case None
    then have new: "map_of (users s) (e_uuid e 0) = None" "s' = s\<lparr>users := users s @ [(e_uuid e 0, fresh_user e email role)]\<rparr>"
      using assms(2) by (auto simp: upsert_user_def user_checks_def result_iff fresh_user_def Let_def split: if_splits)
    have "us_email (fresh_user e email role) \<notin> us_email ` snd ` set (users s)"
      using None by (force simp: find_row_None fresh_user_def)
    moreover have "user_row_ok (fresh_user e email role)" using checks by (simp add: user_row_ok_def fresh_user_def)
    ultimately have "wf_users (users s @ [(e_uuid e 0, fresh_user e email role)])"
      using wf new(1) by (simp add: wf_users_def image_comp) (simp add: fresh_user_def map_of_eq_None_iff)
    then show ?thesis unfolding new(2) by (rule wf_accounts_users [OF assms(1)]) (simp add: map_of_append_row [OF new(1)])
  next
    case (Some ku)
    obtain k u where ku: "ku = (k, u)" by (cases ku)
    have row: "(k, u) \<in> set (users s)" using Some ku find_row_Some by fastforce
    have "keyed (users s)" using wf by (simp add: wf_users_def)
    then have m: "map_of (users s) k = Some u" using row by (rule map_of_is_SomeI)
    have s': "s' = s\<lparr>users := AList.update k (change u) (users s)\<rparr>"
      using assms(2) Some ku by (auto simp: upsert_user_def user_checks_def result_iff)
    have "user_row_ok u" using wf row unfolding wf_users_def by blast
    then have "user_row_ok (change u)" using assms(5) checks(2) by blast
    then have "wf_users (AList.update k (change u) (users s))"
      by (rule wf_users_update_key [OF wf m assms(3,4)])
    then show ?thesis unfolding s' by (rule wf_accounts_users [OF assms(1)]) (simp add: update_conv')
  qed
qed

interpretation create_user_stmt: keeps_accounts "create_user e email role" for e email role
  by unfold_locales (auto simp: create_user_def intro: upsert_user_keeps)

interpretation ensure_admin_stmt: keeps_accounts "ensure_admin e email" for e email
  by unfold_locales (auto simp: ensure_admin_def user_row_ok_def intro: upsert_user_keeps)

interpretation record_login_stmt: keeps_accounts "record_login e uid" for e uid
  by unfold_locales (auto simp: record_login_def user_row_ok_def intro!: wf_update_users)

lemma set_user_role_at_keeps:
  assumes "wf_accounts s" "set_user_role_at seen uid role s = Inr (x, s')"
  shows "wf_accounts s'"
proof -
  from assms(2) obtain u where u: "map_of (users s) uid = Some u" "role \<in> {role_admin, role_member}"
    and s': "s' = s\<lparr>users := AList.update uid (u\<lparr>us_role := role\<rparr>) (users s)\<rparr>"
    by (auto simp: set_user_role_at_def split: if_splits option.splits)
  have wf: "wf_users (users s)" using assms(1) by (simp add: wf_accounts_def)
  have "user_row_ok u" using wf map_of_SomeD [OF u(1)] unfolding wf_users_def by blast
  then have "user_row_ok (u\<lparr>us_role := role\<rparr>)" using u(2) by (simp add: user_row_ok_def)
  then have "wf_users (AList.update uid (u\<lparr>us_role := role\<rparr>) (users s))"
    by (intro wf_users_update_key [OF wf u(1)]) simp_all
  then show ?thesis unfolding s' by (rule wf_accounts_users [OF assms(1)]) (simp add: update_conv')
qed

interpretation set_user_role_stmt: keeps_accounts "set_user_role uid role" for uid role
  by unfold_locales (auto simp: set_user_role_def intro: set_user_role_at_keeps)

lemma wf_users_delete: "wf_users t \<Longrightarrow> wf_users (AList.delete k t)"
  unfolding wf_users_def AList.delete_eq by (auto simp: distinct_map intro: inj_on_subset)

lemma wf_credentials_delete:
  "wf_credentials t us \<Longrightarrow> wf_credentials (filter (\<lambda>(_, c). cd_owner c \<noteq> Some uid) t) (AList.delete uid us)"
  unfolding wf_credentials_def by (auto simp: delete_conv' distinct_map intro: inj_on_subset)

lemma drop_user_keeps: "wf_accounts s \<Longrightarrow> wf_accounts (drop_user uid s)"
  unfolding wf_accounts_def drop_user_def
  by (auto simp: wf_users_delete wf_credentials_delete delete_conv' distinct_map inj_on_def)

interpretation delete_user_stmt: keeps_accounts "delete_user uid" for uid
  by unfold_locales (auto simp: delete_user_def delete_user_at_def drop_user_keeps split: option.splits if_splits)

interpretation set_password_stmt: keeps_accounts "set_password_where h e p password must_change" for h e p password must_change
  by unfold_locales (auto simp: set_password_where_def result_iff with_password_def user_row_ok_def
    split: if_splits intro!: wf_update_users)

interpretation create_session_stmt: keeps_accounts "create_session e uid hash idle absolute agent ip"
  for e uid hash idle absolute agent ip
  by unfold_locales (force simp: create_session_def result_iff Let_def wf_accounts_def find_row_None image_iff
    split: if_splits)

interpretation touch_session_stmt: keeps_accounts "touch_session e hash idle" for e hash idle
  by unfold_locales (auto simp: touch_session_def Let_def renewed_def split: option.splits intro!: wf_update_sessions)

lemma revoke_where_keeps: "wf_accounts s \<Longrightarrow> wf_accounts (revoke_where e p s)"
  by (simp add: revoke_where_def wf_update_sessions)

interpretation revoke_session_stmt: keeps_accounts "revoke_session e hash" for e hash
  by unfold_locales (auto simp: revoke_session_def revoke_where_keeps)

interpretation revoke_user_sessions_stmt: keeps_accounts "revoke_user_sessions e uid" for e uid
  by unfold_locales (auto simp: revoke_user_sessions_def revoke_where_keeps)

interpretation revoke_other_sessions_stmt: keeps_accounts "revoke_other_sessions e uid hash" for e uid hash
  by unfold_locales (auto simp: revoke_other_sessions_def Let_def revoke_where_keeps)

lemma map_snd_update_key:
  "map_of t k = Some r \<Longrightarrow> g r' = g r \<Longrightarrow> map (g \<circ> snd) (AList.update k r' t) = map (g \<circ> snd) t"
  by (induction t) auto

interpretation revoke_session_by_id_stmt: keeps_accounts "revoke_session_by_id e uid sid" for e uid sid
proof
  fix s x s'
  assume wf: "wf_accounts s" and run: "revoke_session_by_id e uid sid s = Inr (x, s')"
  then obtain r where r: "map_of (sessions s) sid = Some r"
    and s': "s' = s\<lparr>sessions := AList.update sid (r\<lparr>ss_revoked_at := Some (e_now e)\<rparr>) (sessions s)\<rparr>"
    by (auto simp: revoke_session_by_id_def split: option.splits if_splits)
  have "map_of (users s) (ss_user_id y) \<noteq> None"
    if "(k, y) \<in> set (AList.update sid (r\<lparr>ss_revoked_at := Some (e_now e)\<rparr>) (sessions s))" for k y
    using that wf r by (auto simp: wf_accounts_def elim!: in_set_update_cases dest!: map_of_SomeD)
  with wf r show "wf_accounts s'"
    unfolding s' by (intro wf_accounts_sessions) (auto simp: wf_accounts_def map_snd_update_key)
qed

end
