(* ===== verification/Credentials.thy ===== *)
theory Credentials
  imports Accounts Verify
begin

text \<open>
  Access keys: how they are made and encrypted (\<^verbatim>\<open>internal/secrets\<close>), stored, looked up, narrowed and
  revoked (\<^verbatim>\<open>internal/db/credentials.go\<close>), and the lookup the S3 listener runs on them (\<^verbatim>\<open>cmd/s3d/main.go\<close>).
  AES-256-GCM under the configured key is a parameter.
\<close>

subsection \<open>Random keys\<close>

definition access_key_id_body_length :: nat where "access_key_id_body_length = 16"
definition secret_key_length :: nat where "secret_key_length = 40"

definition access_key_alphabet :: string where
  "access_key_alphabet = ''ABCDEFGHIJKLMNOPQRSTUVWXYZ234567''"

definition secret_key_alphabet :: string where
  "secret_key_alphabet = ''ABCDEFGHIJKLMNOPQRSTUVWXYZabcdefghijklmnopqrstuvwxyz0123456789+/''"

text \<open>One buffer of random bytes: those below the limit are taken, until there are enough.\<close>

definition byte_limit :: "string \<Rightarrow> nat" where
  "byte_limit alphabet = 256 - 256 mod length alphabet"

definition taken_bytes :: "string \<Rightarrow> string \<Rightarrow> string" where
  "taken_bytes alphabet buf =
     map (\<lambda>b. alphabet ! (of_char b mod length alphabet)) (filter (\<lambda>b. of_char b < byte_limit alphabet) buf)"

text \<open>\<open>draws k\<close> is the \<open>k\<close>-th read of the random source; \<open>None\<close> as a result would be a loop without end.\<close>

partial_function (option) random_string ::
  "nat \<Rightarrow> string \<Rightarrow> (nat \<Rightarrow> string option) \<Rightarrow> nat \<Rightarrow> string \<Rightarrow> (account_error + string) option" where
  "random_string n alphabet draws k out =
     (if n \<le> length out then Some (Inr out)
      else case draws k of
        None \<Rightarrow> Some (Inl ErrNoRandom)
      | Some buf \<Rightarrow> random_string n alphabet draws (Suc k) (take n (out @ taken_bytes alphabet buf)))"

declare random_string.simps [code]

lemma random_string_once:
  assumes "256 mod length alphabet = 0" "draws k = Some buf" "length buf = n"
  shows "random_string n alphabet draws k [] = Some (Inr (taken_bytes alphabet buf))"
proof -
  have all: "filter (\<lambda>b. of_char b < byte_limit alphabet) buf = buf"
    using assms(1) nat_of_char_less_256 by (simp add: byte_limit_def filter_id_conv)
  then have len: "length (taken_bytes alphabet buf) = n" using assms(3) by (simp add: taken_bytes_def)
  show ?thesis
  proof (cases "n = 0")
    case True
    with len show ?thesis by (subst random_string.simps) simp
  next
    case False
    then have "random_string n alphabet draws k [] = random_string n alphabet draws (Suc k) (taken_bytes alphabet buf)"
      using assms(2) len by (subst random_string.simps) simp
    also have "\<dots> = Some (Inr (taken_bytes alphabet buf))" using len by (subst random_string.simps) simp
    finally show ?thesis .
  qed
qed

text \<open>
  Both alphabets divide 256, so one read is enough; a random source hands out as many bytes as it is
  asked for.
\<close>

definition drawn :: "nat \<Rightarrow> string \<Rightarrow> string option \<Rightarrow> account_error + string" where
  "drawn n alphabet buf =
     (case random_string n alphabet (\<lambda>_. buf) 0 [] of None \<Rightarrow> Inl ErrNoRandom | Some r \<Rightarrow> r)"

definition generate_access_key_id :: "env \<Rightarrow> account_error + string" where
  "generate_access_key_id e =
     rbind (drawn access_key_id_body_length access_key_alphabet (e_rand e 0)) (\<lambda>body. Inr (''AKIA'' @ body))"

definition generate_secret_key :: "env \<Rightarrow> account_error + string" where
  "generate_secret_key e = drawn secret_key_length secret_key_alphabet (e_rand e 1)"

subsection \<open>Encryption\<close>

text \<open>\<open>ad_seal nonce plaintext data\<close> and \<open>ad_open nonce ciphertext data\<close>; the data is the access key id.\<close>

record aead =
  ad_nonce_size :: nat
  ad_seal :: "string \<Rightarrow> string \<Rightarrow> string \<Rightarrow> string"
  ad_open :: "string \<Rightarrow> string \<Rightarrow> string \<Rightarrow> string option"

definition authentic :: "aead \<Rightarrow> bool" where
  "authentic c \<longleftrightarrow> (\<forall>n p a. length n = ad_nonce_size c \<longrightarrow> ad_open c n (ad_seal c n p a) a = Some p)"

definition encrypt_secret :: "aead \<Rightarrow> env \<Rightarrow> string \<Rightarrow> string \<Rightarrow> account_error + string \<times> string" where
  "encrypt_secret c e plaintext access_key_id =
     (case e_rand e 2 of None \<Rightarrow> Inl ErrNoRandom | Some nonce \<Rightarrow> Inr (ad_seal c nonce plaintext access_key_id, nonce))"

definition decrypt_secret :: "aead \<Rightarrow> string \<Rightarrow> string \<Rightarrow> string \<Rightarrow> account_error + string" where
  "decrypt_secret c ciphertext nonce access_key_id =
     (if length nonce \<noteq> ad_nonce_size c then Inl ErrUndecryptable
      else case ad_open c nonce ciphertext access_key_id of None \<Rightarrow> Inl ErrUndecryptable | Some p \<Rightarrow> Inr p)"

subsection \<open>Rows\<close>

definition checked_scope :: "grant \<Rightarrow> account_error + unit" where
  "checked_scope g = (case validate_grant g of Inl m \<Rightarrow> Inl (ErrScope m) | Inr _ \<Rightarrow> Inr ())"

definition create_credential ::
  "aead \<Rightarrow> env \<Rightarrow> string \<Rightarrow> string option \<Rightarrow> grant \<Rightarrow> (string \<times> credential_row) statement" where
  "create_credential c e description owner scope s =
     rbind (checked_scope scope) (\<lambda>_.
     rbind (generate_access_key_id e) (\<lambda>key.
     rbind (generate_secret_key e) (\<lambda>secret.
     rbind (encrypt_secret c e secret key) (\<lambda>(ciphertext, nonce).
     if find_row (\<lambda>r. cd_access_key_id r = key) (credentials s) \<noteq> None \<or> map_of (credentials s) (e_uuid e 0) \<noteq> None \<or>
        (\<exists>u \<in> set_option owner. map_of (users s) u = None)
     then Inl (ErrQuery ''constraint'')
     else let r = \<lparr>cd_access_key_id = key, cd_ciphertext = ciphertext, cd_nonce = nonce,
            cd_description = description, cd_owner = owner, cd_scope = marshal_grant scope,
            cd_created_at = e_now e, cd_last_used_at = None, cd_revoked_at = None\<rparr>
       in Inr ((secret, r), s\<lparr>credentials := credentials s @ [(e_uuid e 0, r)]\<rparr>)))))"

definition lookup_credential :: "aead \<Rightarrow> accounts \<Rightarrow> string \<Rightarrow> account_error + string \<times> grant" where
  "lookup_credential c s key =
     (case find_row (\<lambda>r. cd_access_key_id r = key) (credentials s) of
        None \<Rightarrow> Inl ErrCredentialNotFound
      | Some (_, r) \<Rightarrow>
          if cd_revoked_at r \<noteq> None then Inl ErrCredentialRevoked
          else (case unmarshal_grant (cd_scope r) of
            Inl m \<Rightarrow> Inl (ErrScope m)
          | Inr g \<Rightarrow> rbind (decrypt_secret c (cd_ciphertext r) (cd_nonce r) (cd_access_key_id r)) (\<lambda>secret.
              Inr (secret, g))))"

definition touch_interval :: time where "touch_interval = 60 * second"

definition touch_credential :: "env \<Rightarrow> string \<Rightarrow> unit statement" where
  "touch_credential e key s =
     Inr ((), s\<lparr>credentials := update_rows (\<lambda>r. cd_access_key_id r = key \<and>
       (case cd_last_used_at r of None \<Rightarrow> True | Some t \<Rightarrow> t < e_now e - touch_interval))
       (cd_last_used_at_update (\<lambda>_. Some (e_now e))) (credentials s)\<rparr>)"

text \<open>A document that does not decode fails the whole listing.\<close>

definition list_credentials :: "accounts \<Rightarrow> account_error + (credential_row \<times> grant) list" where
  "list_credentials s =
     (case decode_all (\<lambda>r. case unmarshal_grant (cd_scope r) of Inl _ \<Rightarrow> None | Inr g \<Rightarrow> Some (r, g))
         (sort_key (\<lambda>r. Desc (cd_created_at r)) (map snd (credentials s))) of
        None \<Rightarrow> Inl (ErrScope ''decode access scope'') | Some xs \<Rightarrow> Inr xs)"

definition active_key :: "string \<Rightarrow> credential_row \<Rightarrow> bool" where
  "active_key key r \<longleftrightarrow> cd_access_key_id r = key \<and> cd_revoked_at r = None"

definition change_active_key :: "string \<Rightarrow> (credential_row \<Rightarrow> credential_row) \<Rightarrow> unit statement" where
  "change_active_key key f s =
     (if count_rows (active_key key) (credentials s) = 0 then Inl ErrCredentialNotFound
      else Inr ((), s\<lparr>credentials := update_rows (active_key key) f (credentials s)\<rparr>))"

definition revoke_credential :: "env \<Rightarrow> string \<Rightarrow> unit statement" where
  "revoke_credential e key = change_active_key key (cd_revoked_at_update (\<lambda>_. Some (e_now e)))"

definition set_credential_scope :: "string \<Rightarrow> grant \<Rightarrow> unit statement" where
  "set_credential_scope key scope s =
     rbind (checked_scope scope) (\<lambda>_. change_active_key key (cd_scope_update (\<lambda>_. marshal_grant scope)) s)"

subsection \<open>The lookup of the S3 listener\<close>

text \<open>
  \<^verbatim>\<open>Verifier.Lookup\<close> as \<^verbatim>\<open>main.go\<close> sets it: any error, a lost connection too, is the answer that there is
  no such key; the use is recorded on the way.
\<close>

definition key_lookup :: "aead \<Rightarrow> accounts \<Rightarrow> string \<Rightarrow> key_material option" where
  "key_lookup c s key =
     (case lookup_credential c s key of
        Inl _ \<Rightarrow> None
      | Inr (secret, g) \<Rightarrow> Some \<lparr>km_secret_key = secret, km_grant = g\<rparr>)"

subsection \<open>What is looked up is what was made\<close>

lemma wf_credentials_update:
  assumes "wf_credentials t us" "\<And>r. cd_access_key_id (f r) = cd_access_key_id r" "\<And>r. cd_owner (f r) = cd_owner r"
    and "\<And>r. scope_shape (cd_scope r) \<Longrightarrow> scope_shape (cd_scope (f r))"
  shows "wf_credentials (update_rows p f t) us"
proof -
  have "distinct (map (cd_access_key_id \<circ> snd) (update_rows p f t))"
    using assms(1,2) by (simp add: wf_credentials_def map_snd_update_rows)
  with assms(1) show ?thesis
    unfolding wf_credentials_def set_update_rows by (auto simp: assms(3,4) split: if_splits)
qed

lemma scope_shape_marshal [simp]: "scope_shape (marshal_grant g)"
  by (simp add: scope_shape_def marshal_grant_def)

lemma wf_accounts_credentials:
  "wf_accounts s \<Longrightarrow> wf_credentials t (users s) \<Longrightarrow> wf_accounts (s\<lparr>credentials := t\<rparr>)"
  by (simp add: wf_accounts_def)

lemma wf_accounts_credentialsD: "wf_accounts s \<Longrightarrow> wf_credentials (credentials s) (users s)"
  by (simp add: wf_accounts_def)

lemma wf_update_credentials:
  assumes "wf_accounts s" "\<And>r. cd_access_key_id (f r) = cd_access_key_id r" "\<And>r. cd_owner (f r) = cd_owner r"
    and "\<And>r. scope_shape (cd_scope r) \<Longrightarrow> scope_shape (cd_scope (f r))"
  shows "wf_accounts (s\<lparr>credentials := update_rows p f (credentials s)\<rparr>)"
  by (rule wf_accounts_credentials [OF assms(1)])
    (rule wf_credentials_update [OF wf_accounts_credentialsD [OF assms(1)] assms(2-4)])

interpretation revoke_credential_stmt: keeps_accounts "revoke_credential e key" for e key
  by unfold_locales (auto simp: revoke_credential_def change_active_key_def split: if_splits
    intro!: wf_update_credentials)

interpretation set_credential_scope_stmt: keeps_accounts "set_credential_scope key scope" for key scope
  by unfold_locales (auto simp: set_credential_scope_def change_active_key_def result_iff split: if_splits
    intro!: wf_update_credentials)

interpretation touch_credential_stmt: keeps_accounts "touch_credential e key" for e key
  by unfold_locales (auto simp: touch_credential_def
    intro!: wf_update_credentials)

lemma create_credential_row:
  assumes "create_credential c e description owner scope s = Inr ((secret, r), s')"
  shows "s' = s\<lparr>credentials := credentials s @ [(e_uuid e 0, r)]\<rparr>" "map_of (credentials s) (e_uuid e 0) = None"
    and "find_row (\<lambda>x. cd_access_key_id x = cd_access_key_id r) (credentials s) = None"
    and "\<forall>u \<in> set_option owner. map_of (users s) u \<noteq> None"
    and "cd_owner r = owner" "cd_scope r = marshal_grant scope" "cd_revoked_at r = None" "validate_grant scope = Inr ()"
    and "generate_secret_key e = Inr secret"
    and "encrypt_secret c e secret (cd_access_key_id r) = Inr (cd_ciphertext r, cd_nonce r)"
  using assms
  by (auto simp: create_credential_def checked_scope_def result_iff Let_def simp del: not_None_eq not_Some_eq
    split: if_splits prod.splits sum.splits)

lemma wf_credentials_append:
  assumes "wf_credentials t us" "map_of t k = None" "find_row (\<lambda>x. cd_access_key_id x = cd_access_key_id r) t = None"
    and "\<forall>u \<in> set_option (cd_owner r). map_of us u \<noteq> None" "scope_shape (cd_scope r)"
  shows "wf_credentials (t @ [(k, r)]) us"
proof -
  have "cd_access_key_id r \<notin> set (map (cd_access_key_id \<circ> snd) t)"
    using assms(3) by (force simp: find_row_None)
  with assms(1,2,4,5) show ?thesis by (simp add: wf_credentials_def map_of_eq_None_iff [symmetric])
qed

interpretation create_credential_stmt: keeps_accounts "create_credential c e description owner scope"
  for c e description owner scope
proof
  fix s x s'
  assume wf: "wf_accounts s" and run: "create_credential c e description owner scope s = Inr (x, s')"
  obtain secret r where x: "x = (secret, r)" by (cases x)
  note row = create_credential_row [OF run [unfolded x]]
  show "wf_accounts s'"
    unfolding row(1) using row(2-6)
    by (intro wf_accounts_credentials [OF wf] wf_credentials_append wf_accounts_credentialsD [OF wf]) simp_all
qed

text \<open>A key that was just made is found with its secret and its scope.\<close>

lemma lookup_created:
  assumes "create_credential c e description owner scope s = Inr ((secret, r), s')" "authentic c"
    and "length (cd_nonce r) = ad_nonce_size c"
  shows "lookup_credential c s' (cd_access_key_id r) = Inr (secret, scope)"
proof -
  note row = create_credential_row [OF assms(1)]
  have "find_row (\<lambda>x. cd_access_key_id x = cd_access_key_id r) (credentials s @ [(e_uuid e 0, r)]) = Some (e_uuid e 0, r)"
    using row(3) by (simp add: find_row_def find_append)
  moreover have "cd_ciphertext r = ad_seal c (cd_nonce r) secret (cd_access_key_id r)"
    using row(10) by (auto simp: encrypt_secret_def split: option.splits)
  ultimately show ?thesis
    using assms(2,3) row(1,6-8)
    by (simp add: lookup_credential_def unmarshal_marshal_grant decrypt_secret_def authentic_def)
qed

lemma find_row_unique:
  assumes "distinct (map (f \<circ> snd) t)" "(k, r) \<in> set t"
  shows "find_row (\<lambda>x. f x = f r) t = Some (k, r)"
  using assms by (induction t) (force simp: find_row_def)+

text \<open>A revoked key is never found again, and a narrowed one with the scope it was given.\<close>

lemma lookup_changed:
  assumes "wf_accounts s" "change_active_key key f s = Inr ((), s')" "\<And>r. cd_access_key_id (f r) = cd_access_key_id r"
  obtains k r where "(k, r) \<in> set (credentials s)" "active_key key r"
    "find_row (\<lambda>x. cd_access_key_id x = key) (credentials s') = Some (k, f r)"
proof -
  let ?t = "credentials s" and ?t' = "update_rows (active_key key) f (credentials s)"
  from assms(2) have s': "s' = s\<lparr>credentials := ?t'\<rparr>" and "count_rows (active_key key) ?t \<noteq> 0"
    by (auto simp: change_active_key_def split: if_splits)
  then obtain k r where r: "(k, r) \<in> set ?t" "active_key key r" by (auto simp: count_rows_0)
  have "distinct (map (cd_access_key_id \<circ> snd) ?t')"
    using assms(1,3) by (simp add: map_snd_update_rows wf_accounts_def wf_credentials_def)
  moreover have "(k, f r) \<in> set ?t'" using r by (force simp: set_update_rows)
  ultimately have "find_row (\<lambda>x. cd_access_key_id x = cd_access_key_id (f r)) ?t' = Some (k, f r)"
    by (rule find_row_unique)
  with r assms(3) that show ?thesis by (simp add: s' active_key_def)
qed

lemma lookup_revoked:
  assumes "wf_accounts s" "revoke_credential e key s = Inr ((), s')"
  shows "key_lookup c s' key = None"
  using assms(2) unfolding revoke_credential_def
  by (rule lookup_changed [OF assms(1)]) (auto simp: key_lookup_def lookup_credential_def)

end
