(* ===== verification/Console_Auth.thy ===== *)
theory Console_Auth
  imports Credentials
begin

text \<open>
  Signing in to the console and the check in front of every other request (\<^verbatim>\<open>internal/console/auth.go\<close>).
  The decoder of JSON bodies is a parameter; each statement of a handler has its own clock and may fail.
\<close>

subsection \<open>Servers, surroundings and answers\<close>

record scope_rule_payload =
  sp_bucket :: string
  sp_prefix :: string
  sp_permissions :: "string list"

record scope_payload =
  sc_unrestricted :: bool
  sc_rules :: "scope_rule_payload list"

record json_decoder =
  js_login :: "string \<Rightarrow> (string \<times> string) option"
  js_change_password :: "string \<Rightarrow> (string \<times> string) option"
  js_set_password :: "string \<Rightarrow> string option"
  js_create_user :: "string \<Rightarrow> (string \<times> string \<times> string) option"
  js_role :: "string \<Rightarrow> string option"
  js_credential :: "string \<Rightarrow> (string \<times> scope_payload option) option"
  js_scope :: "string \<Rightarrow> scope_payload option option"

record console =
  cv_hashes :: hashes
  cv_hasher :: hasher
  cv_cipher :: aead
  cv_json :: json_decoder
  cv_proxies :: "network list"
  cv_public_url :: string
  cv_public_s3_url :: string
  cv_region :: string
  cv_admin_email :: string
  cv_email_configured :: bool

text \<open>
  \<open>cn_env n\<close> is what the \<open>n\<close>-th statement of a request sees, \<open>cn_down n\<close> that the database fails it, for a
  lost connection or because it refuses an argument (a zero byte in a text, an identifier that is no
  UUID), and \<open>cn_clock\<close> the clock of the server itself.
\<close>

record weather =
  cn_clock :: time
  cn_env :: "nat \<Rightarrow> env"
  cn_down :: "nat \<Rightarrow> bool"

definition exec :: "weather \<Rightarrow> nat \<Rightarrow> (env \<Rightarrow> 'r statement) \<Rightarrow> accounts \<Rightarrow> (account_error + 'r) \<times> accounts" where
  "exec cx n op s =
     (if cn_down cx n then (Inl (ErrQuery ''connection''), s)
      else case op (cn_env cx n) s of Inl e \<Rightarrow> (Inl e, s) | Inr (x, s') \<Rightarrow> (Inr x, s'))"

definition query :: "weather \<Rightarrow> nat \<Rightarrow> (env \<Rightarrow> account_error + 'r) \<Rightarrow> account_error + 'r" where
  "query cx n f = (if cn_down cx n then Inl (ErrQuery ''connection'') else f (cn_env cx n))"

record cookie =
  ck_value :: string
  ck_secure :: bool
  ck_expires :: "time option"

record user_info =
  ui_id :: string
  ui_email :: string
  ui_role :: string
  ui_is_admin :: bool
  ui_created_at :: time
  ui_last_login_at :: "time option"
  ui_must_change :: bool

record credential_info =
  ci_access_key_id :: string
  ci_description :: string
  ci_created_at :: time
  ci_last_used_at :: "time option"
  ci_revoked_at :: "time option"
  ci_scope :: grant
  ci_summary :: string

datatype console_body =
    Failure string
  | Coded_Failure string string
  | Message string
  | User_Body user_info
  | Users_Body "user_info list"
  | New_User user_info string string
  | New_Password string string string
  | Sessions_Body "(string \<times> string \<times> session \<times> bool) list"
  | Revoked_Count nat string
  | Credentials_Body "credential_info list"
  | New_Credential credential_info string string string string
  | Scope_Body grant string string
  | Audit_Body "audit_event list" "string list" "int option"
  | Setup_Body bool string bool bool bool string string

record console_response =
  cr_status :: nat
  cr_cookies :: "cookie list"
  cr_body :: console_body

definition write_json :: "nat \<Rightarrow> console_body \<Rightarrow> console_response" where
  "write_json status body = \<lparr>cr_status = status, cr_cookies = [], cr_body = body\<rparr>"

definition console_error :: "nat \<Rightarrow> string \<Rightarrow> console_response" where
  "console_error status message = write_json status (Failure message)"

definition internal_failure :: console_response where
  "internal_failure = console_error 500 ''Something went wrong. Please try again.''"

definition user_response :: "user \<Rightarrow> user_info" where
  "user_response u = \<lparr>ui_id = us_id u, ui_email = us_email u, ui_role = us_role u, ui_is_admin = is_admin u,
     ui_created_at = us_created_at u, ui_last_login_at = us_last_login_at u, ui_must_change = us_must_change u\<rparr>"

subsection \<open>Requests\<close>

definition session_idle_ttl :: time where "session_idle_ttl = 12 * 3600 * second"
definition session_absolute_ttl :: time where "session_absolute_ttl = 30 * day"
definition session_cookie_name :: string where "session_cookie_name = ''s3d_session''"
definition login_failure_window :: time where "login_failure_window = 15 * 60 * second"
definition login_failure_limit_per_email :: nat where "login_failure_limit_per_email = 10"
definition login_failure_limit_per_ip :: nat where "login_failure_limit_per_ip = 50"
definition max_auth_body_size :: nat where "max_auth_body_size = 4 * 2 ^ 10"

text \<open>\<^verbatim>\<open>Request.Cookie\<close>: the first cookie of the name whose value is well formed.\<close>

definition blank :: "char \<Rightarrow> bool" where
  "blank c \<longleftrightarrow> c \<in> {CHR '' '', CHR 0x09, CHR 0x0A, CHR 0x0D}"

definition trim_string :: "string \<Rightarrow> string" where
  "trim_string s = trim_right blank (trim_left blank s)"

definition cookie_value :: "string \<Rightarrow> string option" where
  "cookie_value raw =
     (let v = (if 1 < length raw \<and> hd raw = CHR 0x22 \<and> last raw = CHR 0x22 then butlast (tl raw) else raw)
      in if list_all (\<lambda>c. CHR 0x20 \<le> c \<and> c < CHR 0x7F \<and> c \<noteq> CHR 0x22 \<and> c \<noteq> CHR '';'' \<and> c \<noteq> CHR 0x5C) v
         then Some v else None)"

definition cookie_part :: "string \<Rightarrow> string \<Rightarrow> string option" where
  "cookie_part name part =
     (let (n, v, _) = cut (trim_string part) ''=''; n' = trim_string n
      in if n' = name \<and> n' \<noteq> [] \<and> list_all is_token_char n' then cookie_value v else None)"

definition request_cookie :: "request \<Rightarrow> string \<Rightarrow> string option" where
  "request_cookie r name =
     (case List.map_filter (cookie_part name) (concat (map (split_on CHR '';'') (header_values (rq_header r) ''Cookie''))) of
        [] \<Rightarrow> None | v # _ \<Rightarrow> Some v)"

definition user_agent :: "request \<Rightarrow> string" where
  "user_agent r = header_get (rq_header r) ''User-Agent''"

definition is_state_changing :: "request \<Rightarrow> bool" where
  "is_state_changing r \<longleftrightarrow> rq_method r \<notin> {''GET'', ''HEAD'', ''OPTIONS''}"

definition origin_allowed :: "console \<Rightarrow> request \<Rightarrow> bool" where
  "origin_allowed sv r =
     (let origin = header_get (rq_header r) ''Origin''
      in origin = [] \<or> origin = cv_public_url sv \<or>
         origin = proxy_scheme (cv_proxies sv) r @ ''://'' @ proxy_host (cv_proxies sv) r)"

definition is_password_change_request :: "request \<Rightarrow> bool" where
  "is_password_change_request r \<longleftrightarrow>
     url_path r \<in> {''/api/account/password'', ''/api/auth/logout'', ''/api/auth/me''}"

text \<open>\<^verbatim>\<open>decodeJSON\<close> reads at most \<^verbatim>\<open>maxAuthBodySize\<close> bytes.\<close>

definition decode_json :: "(string \<Rightarrow> 'a option) \<Rightarrow> request \<Rightarrow> 'a option" where
  "decode_json decoder r = decoder (take max_auth_body_size (rq_body r))"

definition looks_like_email :: "string \<Rightarrow> bool" where
  "looks_like_email email =
     (let (local_part, domain, found) = cut email ''@''
      in found \<and> local_part \<noteq> [] \<and> domain \<noteq> [] \<and> CHR '' '' \<notin> set email \<and> CHR 0x09 \<notin> set email \<and>
         CHR ''.'' \<in> set domain \<and> \<not> has_prefix domain ''.'' \<and> \<not> has_suffix domain ''.'')"

subsection \<open>Signing in and out\<close>

definition audit_entry :: "user \<Rightarrow> string \<Rightarrow> string \<Rightarrow> string \<Rightarrow> request \<Rightarrow> audit_event" where
  "audit_entry u action subject_type subject r =
     \<lparr>ae_id = 0, ae_actor_id = None, ae_actor_email = us_email u, ae_action = action,
      ae_subject_type = subject_type, ae_subject = subject, ae_ip = None, ae_user_agent = Some (user_agent r),
      ae_created_at = 0\<rparr>"

text \<open>A failure to audit, as one to record an attempt, is only logged.\<close>

definition audit_for ::
  "console \<Rightarrow> weather \<Rightarrow> nat \<Rightarrow> request \<Rightarrow> user \<Rightarrow> string \<Rightarrow> string \<Rightarrow> string \<Rightarrow> accounts \<Rightarrow> accounts" where
  "audit_for sv cx n r u action subject_type subject s =
     snd (exec cx n (\<lambda>e. record_audit e (audit_entry u action subject_type subject r) (Some (us_id u))
       (client_ip (cv_proxies sv) r)) s)"

definition record_attempt :: "weather \<Rightarrow> nat \<Rightarrow> string \<Rightarrow> string \<Rightarrow> bool \<Rightarrow> accounts \<Rightarrow> accounts" where
  "record_attempt cx n email ip successful s = snd (exec cx n (\<lambda>e. record_login_attempt e email ip successful) s)"

definition session_cookie :: "console \<Rightarrow> request \<Rightarrow> string \<Rightarrow> time option \<Rightarrow> cookie" where
  "session_cookie sv r token expires =
     \<lparr>ck_value = token, ck_secure = (proxy_scheme (cv_proxies sv) r = ''https''), ck_expires = expires\<rparr>"

text \<open>A token whose hash goes into the table and which itself goes into the cookie.\<close>

definition start_session ::
  "console \<Rightarrow> weather \<Rightarrow> nat \<Rightarrow> request \<Rightarrow> user \<Rightarrow> accounts \<Rightarrow> (account_error + cookie) \<times> accounts" where
  "start_session sv cx n r u s =
     (case new_token (cv_hashes sv) (cn_env cx n) of
        Inl e \<Rightarrow> (Inl e, s)
      | Inr (token, hash) \<Rightarrow>
          (case exec cx n (\<lambda>e. create_session e (us_id u) hash session_idle_ttl session_absolute_ttl
                (user_agent r) (client_ip (cv_proxies sv) r)) s of
             (Inl e, s') \<Rightarrow> (Inl e, s')
           | (Inr _, s') \<Rightarrow>
               (Inr (session_cookie sv r token (Some (cn_clock cx + session_absolute_ttl))), s')))"

definition sign_in_failed :: string where
  "sign_in_failed = ''That email address or password is not correct.''"

text \<open>What is left of a sign-in whose password was right.\<close>

definition complete_sign_in ::
  "console \<Rightarrow> weather \<Rightarrow> request \<Rightarrow> string \<Rightarrow> user \<Rightarrow> accounts \<Rightarrow> console_response \<times> accounts" where
  "complete_sign_in sv cx r email u s =
     (let ip = client_ip (cv_proxies sv) r;
          s1 = record_attempt cx 2 email ip True s;
          s2 = snd (exec cx 3 (\<lambda>e. clear_login_failures email) s1)
      in case start_session sv cx 4 r u s2 of
           (Inl _, s3) \<Rightarrow> (internal_failure, s3)
         | (Inr c, s3) \<Rightarrow>
             (let s4 = snd (exec cx 5 (\<lambda>e. record_login e (us_id u)) s3)
              in ((write_json 200 (User_Body (user_response u)))\<lparr>cr_cookies := [c]\<rparr>,
                  audit_for sv cx 6 r u ''auth.sign_in'' ''user'' (us_email u) s4)))"

definition throttled :: "nat \<times> nat \<Rightarrow> bool" where
  "throttled failures \<longleftrightarrow>
     login_failure_limit_per_email \<le> fst failures \<or> login_failure_limit_per_ip \<le> snd failures"

definition handle_login :: "console \<Rightarrow> weather \<Rightarrow> request \<Rightarrow> accounts \<Rightarrow> console_response \<times> accounts" where
  "handle_login sv cx r s =
     (if \<not> origin_allowed sv r then (console_error 403 ''This request did not come from the console.'', s)
      else case decode_json (js_login (cv_json sv)) r of
        None \<Rightarrow> (console_error 400 ''Send a JSON body with an email address and a password.'', s)
      | Some (address, password) \<Rightarrow>
      (let email = normalize_email address; ip = client_ip (cv_proxies sv) r
       in case query cx 0 (\<lambda>e. count_recent_failures e email ip login_failure_window s) of
            Inl _ \<Rightarrow> (internal_failure, s)
          | Inr failures \<Rightarrow>
              if throttled failures
              then (console_error 429 ''Too many sign-in attempts. Please wait a few minutes and try again.'',
                record_attempt cx 1 email ip False s)
              else case query cx 1 (\<lambda>e. verify_password (cv_hasher sv) s email password) of
                Inr u \<Rightarrow> complete_sign_in sv cx r email u s
              | Inl err \<Rightarrow>
                  (if err \<in> {ErrPasswordUnset, ErrPasswordIncorrect} then console_error 401 sign_in_failed
                   else internal_failure, record_attempt cx 2 email ip False s)))"

definition handle_logout :: "console \<Rightarrow> weather \<Rightarrow> request \<Rightarrow> accounts \<Rightarrow> console_response \<times> accounts" where
  "handle_logout sv cx r s =
     ((write_json 200 (Message ''Signed out.''))\<lparr>cr_cookies := [session_cookie sv r [] None]\<rparr>,
      case request_cookie r session_cookie_name of
        None \<Rightarrow> s
      | Some token \<Rightarrow>
          (let hash = hash_token (cv_hashes sv) token;
               s1 = (case exec cx 0 (\<lambda>e. touch_session e hash session_idle_ttl) s of
                   (Inl _, s') \<Rightarrow> s'
                 | (Inr u, s') \<Rightarrow> audit_for sv cx 1 r u ''auth.sign_out'' ''user'' (us_email u) s')
           in snd (exec cx 2 (\<lambda>e. revoke_session e hash) s1)))"

subsection \<open>Who is asking\<close>

definition password_change_required :: console_response where
  "password_change_required = write_json 403
     (Coded_Failure ''Choose a new password before continuing.'' ''password_change_required'')"

text \<open>\<^verbatim>\<open>requireSession\<close> up to the call of the handler: the user it is called with.\<close>

definition require_session :: "console \<Rightarrow> weather \<Rightarrow> request \<Rightarrow> accounts \<Rightarrow> (console_response + user) \<times> accounts" where
  "require_session sv cx r s =
     (case request_cookie r session_cookie_name of
        None \<Rightarrow> (Inl (console_error 401 ''Not signed in.''), s)
      | Some token \<Rightarrow>
          if token = [] then (Inl (console_error 401 ''Not signed in.''), s)
          else case exec cx 0 (\<lambda>e. touch_session e (hash_token (cv_hashes sv) token) session_idle_ttl) s of
            (Inl err, s') \<Rightarrow>
              (Inl (if err = ErrSessionInvalid
                then console_error 401 ''Your session has expired. Please sign in again.'' else internal_failure), s')
          | (Inr u, s') \<Rightarrow>
              if us_must_change u \<and> \<not> is_password_change_request r then (Inl password_change_required, s')
              else if is_state_changing r \<and> \<not> origin_allowed sv r
              then (Inl (console_error 403 ''This request did not come from the console.''), s')
              else (Inr u, s'))"

definition require_admin :: "console \<Rightarrow> weather \<Rightarrow> request \<Rightarrow> accounts \<Rightarrow> (console_response + user) \<times> accounts" where
  "require_admin sv cx r s =
     (case require_session sv cx r s of
        (Inl resp, s') \<Rightarrow> (Inl resp, s')
      | (Inr u, s') \<Rightarrow>
          if is_admin u then (Inr u, s')
          else (Inl (console_error 403 ''This action requires an administrator.''), s'))"

definition optional_session :: "console \<Rightarrow> weather \<Rightarrow> request \<Rightarrow> accounts \<Rightarrow> user option \<times> accounts" where
  "optional_session sv cx r s =
     (case request_cookie r session_cookie_name of
        None \<Rightarrow> (None, s)
      | Some token \<Rightarrow>
          if token = [] then (None, s)
          else case exec cx 0 (\<lambda>e. touch_session e (hash_token (cv_hashes sv) token) session_idle_ttl) s of
            (Inl _, s') \<Rightarrow> (None, s') | (Inr u, s') \<Rightarrow> (Some u, s'))"

definition handle_me :: "user \<Rightarrow> console_response" where
  "handle_me u = write_json 200 (User_Body (user_response u))"

end
