(* ===== verification/Console_Accounts.thy ===== *)
theory Console_Accounts
  imports Console_Auth
begin

text \<open>
  Managing one's own sessions and password, and the accounts of others
  (\<^verbatim>\<open>internal/console/account.go\<close>, \<^verbatim>\<open>passwords.go\<close>, \<^verbatim>\<open>users.go\<close>). Statement 0 of a request was the check of its
  session.
\<close>

subsection \<open>Sessions\<close>

text \<open>The browser and the platform a user agent names, the first that it contains.\<close>

definition first_named :: "(string \<times> string) list \<Rightarrow> string \<Rightarrow> string option" where
  "first_named names agent = map_option snd (find (\<lambda>(part, _). contains agent part) names)"

definition browsers :: "(string \<times> string) list" where
  "browsers = [(''Edg/'', ''Edge''), (''OPR/'', ''Opera''), (''Firefox/'', ''Firefox''), (''Chrome/'', ''Chrome''),
     (''Safari/'', ''Safari'')]"

definition platforms :: "(string \<times> string) list" where
  "platforms = [(''iPhone'', ''iPhone''), (''iPad'', ''iPad''), (''Android'', ''Android''), (''Mac OS X'', ''macOS''),
     (''Macintosh'', ''macOS''), (''Windows'', ''Windows''), (''Linux'', ''Linux'')]"

definition describe_user_agent :: "string \<Rightarrow> string" where
  "describe_user_agent agent =
     (if agent = [] then ''Unknown device''
      else let browser = (case first_named browsers agent of None \<Rightarrow> ''Browser'' | Some b \<Rightarrow> b)
        in case first_named platforms agent of None \<Rightarrow> browser | Some p \<Rightarrow> browser @ '' on '' @ p)"

definition handle_list_sessions :: "console \<Rightarrow> weather \<Rightarrow> user \<Rightarrow> request \<Rightarrow> accounts \<Rightarrow> console_response" where
  "handle_list_sessions sv cx u r s =
     (case request_cookie r session_cookie_name of
        None \<Rightarrow> console_error 401 ''Not signed in.''
      | Some token \<Rightarrow>
          (case query cx 1 (\<lambda>e. Inr (list_sessions e (us_id u) (hash_token (cv_hashes sv) token) s)) of
             Inl _ \<Rightarrow> internal_failure
           | Inr xs \<Rightarrow> write_json 200
               (Sessions_Body (map (\<lambda>(sid, x, current). (sid, describe_user_agent (ss_user_agent x), x, current)) xs))))"

definition handle_revoke_session ::
  "console \<Rightarrow> weather \<Rightarrow> user \<Rightarrow> request \<Rightarrow> string \<Rightarrow> accounts \<Rightarrow> console_response \<times> accounts" where
  "handle_revoke_session sv cx u r sid s =
     (case exec cx 1 (\<lambda>e. revoke_session_by_id e (us_id u) sid) s of
        (Inr _, s') \<Rightarrow>
          (write_json 200 (Message ''Signed that device out. It stops working on its next request.''),
           audit_for sv cx 2 r u ''session.revoke'' ''session'' sid s')
      | (Inl err, s') \<Rightarrow>
          (if err = ErrSessionInvalid then console_error 404 ''That session has already ended.''
           else internal_failure, s'))"

definition handle_revoke_other_sessions ::
  "console \<Rightarrow> weather \<Rightarrow> user \<Rightarrow> request \<Rightarrow> accounts \<Rightarrow> console_response \<times> accounts" where
  "handle_revoke_other_sessions sv cx u r s =
     (case request_cookie r session_cookie_name of
        None \<Rightarrow> (console_error 401 ''Not signed in.'', s)
      | Some token \<Rightarrow>
          (case exec cx 1 (\<lambda>e. revoke_other_sessions e (us_id u) (hash_token (cv_hashes sv) token)) s of
             (Inl _, s') \<Rightarrow> (internal_failure, s')
           | (Inr n, s') \<Rightarrow>
               (write_json 200 (Revoked_Count n ''Signed out everywhere else. This device stays signed in.''),
                audit_for sv cx 2 r u ''session.revoke'' ''session'' ''all-others'' s')))"

subsection \<open>Passwords\<close>

definition password_rule_message :: "account_error \<Rightarrow> string" where
  "password_rule_message err =
     (if err = ErrPasswordTooShort
      then ''Use at least '' @ show_nat min_password_length @ '' characters. Length is the only rule; a passphrase is fine.''
      else if err = ErrPasswordTooLong
      then ''That is over the '' @ show_nat max_password_length @ ''-byte limit. Anything longer would be silently truncated.''
      else ''That password cannot be used.'')"

definition generate_password :: "env \<Rightarrow> account_error + string" where
  "generate_password e = (case e_rand e 1 of None \<Rightarrow> Inl ErrNoRandom | Some raw \<Rightarrow> Inr (base64_encode raw))"

text \<open>The password given, if it may be stored, or a generated one.\<close>

definition starting_password :: "env \<Rightarrow> string \<Rightarrow> console_response + string" where
  "starting_password e password =
     (if password = []
      then (case generate_password e of Inl _ \<Rightarrow> Inl internal_failure | Inr p \<Rightarrow> Inr p)
      else case validate_password password of
        Inl err \<Rightarrow> Inl (console_error 400 (password_rule_message err))
      | Inr _ \<Rightarrow> Inr password)"

definition handle_change_password ::
  "console \<Rightarrow> weather \<Rightarrow> user \<Rightarrow> request \<Rightarrow> accounts \<Rightarrow> console_response \<times> accounts" where
  "handle_change_password sv cx u r s =
     (case decode_json (js_change_password (cv_json sv)) r of
        None \<Rightarrow> (console_error 400 ''Send a JSON body with the current and new passwords.'', s)
      | Some (current, replacement) \<Rightarrow>
      (case query cx 1 (\<lambda>e. verify_password (cv_hasher sv) s (us_email u) current) of
         Inl err \<Rightarrow>
           (if err \<in> {ErrPasswordIncorrect, ErrPasswordUnset}
            then console_error 401 ''Your current password is not correct.'' else internal_failure, s)
       | Inr _ \<Rightarrow>
           if replacement = current
           then (console_error 400 ''The new password must be different from the current one.'', s)
           else (case validate_password replacement of
             Inl err \<Rightarrow> (console_error 400 (password_rule_message err), s)
           | Inr _ \<Rightarrow>
               (case exec cx 2 (\<lambda>e. set_password (cv_hasher sv) e (us_id u) replacement False) s of
                  (Inl _, s1) \<Rightarrow> (internal_failure, s1)
                | (Inr _, s1) \<Rightarrow>
                    (let s2 = (case request_cookie r session_cookie_name of
                         None \<Rightarrow> s1
                       | Some token \<Rightarrow> snd (exec cx 3
                           (\<lambda>e. revoke_other_sessions e (us_id u) (hash_token (cv_hashes sv) token)) s1))
                     in (write_json 200 (Message ''Password changed. Any other sessions have been signed out.''),
                         audit_for sv cx 4 r u ''user.password_change'' ''user'' (us_email u) s2))))))"

text \<open>
  A body that was sent has a positive length; one of undeclared length, which the code takes for none, is
  not modelled.
\<close>

definition handle_reset_password ::
  "console \<Rightarrow> weather \<Rightarrow> user \<Rightarrow> request \<Rightarrow> string \<Rightarrow> accounts \<Rightarrow> console_response \<times> accounts" where
  "handle_reset_password sv cx actor r uid s =
     (case query cx 1 (\<lambda>e. get_user_by_id s uid) of
        Inl err \<Rightarrow> (if err = ErrUserNotFound then console_error 404 ''No such user.'' else internal_failure, s)
      | Inr target \<Rightarrow>
      (case (if rq_body r = [] then Some [] else decode_json (js_set_password (cv_json sv)) r) of
         None \<Rightarrow> (console_error 400 ''Send a JSON body with a password, or no body at all.'', s)
       | Some chosen \<Rightarrow>
      (case starting_password (cn_env cx 2) chosen of
         Inl resp \<Rightarrow> (resp, s)
       | Inr password \<Rightarrow>
      (case exec cx 2 (\<lambda>e. set_password (cv_hasher sv) e (us_id target) password True) s of
         (Inl _, s1) \<Rightarrow> (internal_failure, s1)
       | (Inr _, s1) \<Rightarrow>
           (let s2 = snd (exec cx 3 (\<lambda>e. revoke_user_sessions e (us_id target)) s1)
            in (write_json 200 (New_Password (us_email target) password
                  ''Give this to the user. It is not shown again, and they must change it when they sign in.''),
                audit_for sv cx 4 r actor ''user.password_reset'' ''user'' (us_email target) s2))))))"

subsection \<open>Users\<close>

definition handle_list_users :: "weather \<Rightarrow> accounts \<Rightarrow> console_response" where
  "handle_list_users cx s =
     (case query cx 1 (\<lambda>e. Inr (list_users s)) of
        Inl _ \<Rightarrow> internal_failure
      | Inr us \<Rightarrow> write_json 200 (Users_Body (map (\<lambda>u. user_response (u\<lparr>us_must_change := False\<rparr>)) us)))"

definition handle_create_user ::
  "console \<Rightarrow> weather \<Rightarrow> user \<Rightarrow> request \<Rightarrow> accounts \<Rightarrow> console_response \<times> accounts" where
  "handle_create_user sv cx actor r s =
     (case decode_json (js_create_user (cv_json sv)) r of
        None \<Rightarrow> (console_error 400 ''Send a JSON body with an email address.'', s)
      | Some (address, asked, chosen) \<Rightarrow>
      (let email = normalize_email address; role = (if asked = [] then role_member else asked)
       in if \<not> looks_like_email email then (console_error 400 ''That does not look like an email address.'', s)
          else if role \<notin> {role_admin, role_member} then (console_error 400 ''Role must be ADMIN or MEMBER.'', s)
          else case query cx 1 (\<lambda>e. get_user_by_email s email) of
            Inr _ \<Rightarrow> (console_error 409 ''That address already has an account.'', s)
          | Inl err \<Rightarrow>
              if err \<noteq> ErrUserNotFound then (internal_failure, s)
              else (case starting_password (cn_env cx 3) chosen of
                Inl resp \<Rightarrow> (resp, s)
              | Inr password \<Rightarrow>
              (case exec cx 2 (\<lambda>e. create_user e email role) s of
                 (Inl _, s1) \<Rightarrow> (internal_failure, s1)
               | (Inr u, s1) \<Rightarrow>
              (case exec cx 3 (\<lambda>e. set_password (cv_hasher sv) e (us_id u) password True) s1 of
                 (Inl _, s2) \<Rightarrow> (internal_failure, s2)
               | (Inr _, s2) \<Rightarrow>
                   (write_json 201 (New_User (user_response (u\<lparr>us_must_change := False\<rparr>)) password
                      ''Give this to the user. It is not shown again, and they must change it when they sign in.''),
                    audit_for sv cx 4 r actor ''user.create'' ''user'' email s2))))))"

definition handle_delete_user ::
  "console \<Rightarrow> weather \<Rightarrow> user \<Rightarrow> request \<Rightarrow> string \<Rightarrow> accounts \<Rightarrow> console_response \<times> accounts" where
  "handle_delete_user sv cx actor r uid s =
     (if uid = us_id actor then (console_error 400 ''You cannot remove your own account.'', s)
      else case exec cx 1 (\<lambda>e. revoke_user_sessions e uid) s of
        (Inl _, s1) \<Rightarrow> (internal_failure, s1)
      | (Inr _, s1) \<Rightarrow>
      (case exec cx 2 (\<lambda>e. delete_user uid) s1 of
         (Inr _, s2) \<Rightarrow> (write_json 200 (Message ''Member removed.''), audit_for sv cx 3 r actor ''user.remove'' ''user'' uid s2)
       | (Inl err, s2) \<Rightarrow>
           (if err = ErrUserNotFound then console_error 404 ''That member no longer exists.''
            else if err = ErrLastAdmin
            then console_error 409 ''That is the only administrator. Promote someone else first.''
            else internal_failure, s2)))"

definition handle_set_role ::
  "console \<Rightarrow> weather \<Rightarrow> user \<Rightarrow> request \<Rightarrow> string \<Rightarrow> accounts \<Rightarrow> console_response \<times> accounts" where
  "handle_set_role sv cx actor r uid s =
     (case decode_json (js_role (cv_json sv)) r of
        None \<Rightarrow> (console_error 400 ''Send a JSON body with a role.'', s)
      | Some role \<Rightarrow>
          if role \<notin> {role_admin, role_member} then (console_error 400 ''Role must be ADMIN or MEMBER.'', s)
          else case exec cx 1 (\<lambda>e. set_user_role uid role) s of
            (Inr _, s1) \<Rightarrow> (write_json 200 (Message ''Role updated.''), audit_for sv cx 2 r actor ''user.role'' ''user'' uid s1)
          | (Inl err, s1) \<Rightarrow>
              (if err = ErrUserNotFound then console_error 404 ''That member no longer exists.''
               else if err = ErrLastAdmin
               then console_error 409 ''That is the only administrator. Promote someone else before demoting them.''
               else internal_failure, s1))"

end
