(* ===== verification/Console_Credentials.thy ===== *)
theory Console_Credentials
  imports Console_Accounts
begin

text \<open>
  Access keys in the console (\<^verbatim>\<open>internal/console/credentials.go\<close>), the audit log (\<^verbatim>\<open>audit.go\<close>) and the
  state of the installation (\<^verbatim>\<open>handleSetupState\<close> of \<^verbatim>\<open>account.go\<close>). The connection snippets, which are fixed
  texts around the key, are left out of the answer.
\<close>

subsection \<open>Access keys\<close>

text \<open>\<^verbatim>\<open>scopePayload.grant\<close>: no scope and an unrestricted one are the unrestricted grant.\<close>

definition payload_rule :: "scope_rule_payload \<Rightarrow> grant_rule" where
  "payload_rule r = \<lparr>gr_bucket = sp_bucket r, gr_prefix = sp_prefix r,
     gr_permissions = map permission_of (sp_permissions r)\<rparr>"

definition payload_grant :: "scope_payload option \<Rightarrow> grant" where
  "payload_grant p =
     (case p of
        None \<Rightarrow> unrestricted_grant
      | Some sc \<Rightarrow>
          if sc_unrestricted sc then unrestricted_grant
          else \<lparr>g_unrestricted = False, g_rules = map payload_rule (sc_rules sc)\<rparr>)"

definition credential_response :: "credential_row \<times> grant \<Rightarrow> credential_info" where
  "credential_response = (\<lambda>(r, g).
     \<lparr>ci_access_key_id = cd_access_key_id r, ci_description = cd_description r, ci_created_at = cd_created_at r,
      ci_last_used_at = cd_last_used_at r, ci_revoked_at = cd_revoked_at r, ci_scope = g,
      ci_summary = describe_grant g\<rparr>)"

definition handle_list_credentials :: "weather \<Rightarrow> accounts \<Rightarrow> console_response" where
  "handle_list_credentials cx s =
     (case query cx 1 (\<lambda>e. list_credentials s) of
        Inl _ \<Rightarrow> internal_failure
      | Inr rows \<Rightarrow> write_json 200 (Credentials_Body (map credential_response rows)))"

definition scope_rejected :: "string \<Rightarrow> console_response" where
  "scope_rejected reason = console_error 400 (''That access scope is not valid: '' @ reason @ ''.'')"

definition shown_once :: string where
  "shown_once = ''This secret is shown once and cannot be recovered. Store it now.''"

definition handle_create_credential ::
  "console \<Rightarrow> weather \<Rightarrow> user \<Rightarrow> request \<Rightarrow> accounts \<Rightarrow> console_response \<times> accounts" where
  "handle_create_credential sv cx owner r s =
     (case decode_json (js_credential (cv_json sv)) r of
        None \<Rightarrow> (console_error 400 ''Send a JSON body with a description.'', s)
      | Some (description, payload) \<Rightarrow>
      (let scope = payload_grant payload
       in case validate_grant scope of
            Inl reason \<Rightarrow> (scope_rejected reason, s)
          | Inr _ \<Rightarrow>
              (case exec cx 1 (\<lambda>e. create_credential (cv_cipher sv) e description (Some (us_id owner)) scope) s of
                 (Inl _, s1) \<Rightarrow> (internal_failure, s1)
               | (Inr (secret, row), s1) \<Rightarrow>
                   (write_json 201 (New_Credential (credential_response (row, scope)) secret (cv_public_s3_url sv)
                      (cv_region sv) shown_once),
                    audit_for sv cx 2 r owner ''credential.create'' ''credential'' (cd_access_key_id row) s1))))"

definition handle_revoke_credential ::
  "console \<Rightarrow> weather \<Rightarrow> user \<Rightarrow> request \<Rightarrow> string \<Rightarrow> accounts \<Rightarrow> console_response \<times> accounts" where
  "handle_revoke_credential sv cx actor r key s =
     (case exec cx 1 (\<lambda>e. revoke_credential e key) s of
        (Inr _, s1) \<Rightarrow>
          (write_json 200 (Message ''Revoked. It stops working on the next request.''),
           audit_for sv cx 2 r actor ''credential.revoke'' ''credential'' key s1)
      | (Inl err, s1) \<Rightarrow>
          (if err = ErrCredentialNotFound then console_error 404 ''No such credential, or it is already revoked.''
           else internal_failure, s1))"

text \<open>A body without a scope is refused, so the payload is never the absent one.\<close>

definition handle_set_credential_scope ::
  "console \<Rightarrow> weather \<Rightarrow> user \<Rightarrow> request \<Rightarrow> string \<Rightarrow> accounts \<Rightarrow> console_response \<times> accounts" where
  "handle_set_credential_scope sv cx actor r key s =
     (case decode_json (js_scope (cv_json sv)) r of
        Some (Some payload) \<Rightarrow>
          (let scope = payload_grant (Some payload)
           in case validate_grant scope of
                Inl reason \<Rightarrow> (scope_rejected reason, s)
              | Inr _ \<Rightarrow>
                  (case exec cx 1 (\<lambda>e. set_credential_scope key scope) s of
                     (Inr _, s1) \<Rightarrow>
                       (write_json 200 (Scope_Body scope (describe_grant scope)
                          ''Updated. It takes effect on the next request.''),
                        audit_for sv cx 2 r actor ''credential.scope'' ''credential'' key s1)
                   | (Inl err, s1) \<Rightarrow>
                       (if err = ErrCredentialNotFound then console_error 404 ''No such credential, or it is revoked.''
                        else internal_failure, s1)))
      | _ \<Rightarrow> (console_error 400 ''Send a JSON body with a scope.'', s))"

subsection \<open>The audit log\<close>

text \<open>\<^verbatim>\<open>intParam\<close> and \<^verbatim>\<open>int64Param\<close> read what \<^verbatim>\<open>strconv\<close> takes for a 64-bit number.\<close>

definition int_param :: "string \<Rightarrow> int \<Rightarrow> int" where
  "int_param raw fallback =
     (if raw = [] then fallback
      else case parse_int 10 raw of None \<Rightarrow> fallback | Some v \<Rightarrow> if v \<le> 0 then fallback else v)"

definition int64_param :: "string \<Rightarrow> int" where
  "int64_param raw =
     (if raw = [] then 0 else case parse_int 10 raw of None \<Rightarrow> 0 | Some v \<Rightarrow> if v < 0 then 0 else v)"

definition audit_query :: "request \<Rightarrow> audit_filter" where
  "audit_query r = \<lparr>af_actor = query_get r ''actor'', af_action = query_get r ''action'',
     af_before = int64_param (query_get r ''before''), af_limit = int_param (query_get r ''limit'') 50\<rparr>"

definition next_before :: "audit_filter \<Rightarrow> audit_event list \<Rightarrow> int option" where
  "next_before f events =
     (if int (length events) = af_limit f \<and> events \<noteq> [] then Some (ae_id (last events)) else None)"

definition handle_audit_log :: "weather \<Rightarrow> request \<Rightarrow> accounts \<Rightarrow> console_response" where
  "handle_audit_log cx r s =
     (let f = audit_query r
      in case query cx 1 (\<lambda>e. Inr (list_audit_events s f)) of
           Inl _ \<Rightarrow> internal_failure
         | Inr events \<Rightarrow>
             (case query cx 2 (\<lambda>e. Inr (distinct_audit_actors s)) of
                Inl _ \<Rightarrow> internal_failure
              | Inr actors \<Rightarrow> write_json 200 (Audit_Body events actors (next_before f events))))"

subsection \<open>The state of the installation\<close>

text \<open>A failure to count the keys leaves none counted; one to find the administrator is no failure.\<close>

definition handle_setup_state :: "console \<Rightarrow> weather \<Rightarrow> accounts \<Rightarrow> console_response" where
  "handle_setup_state sv cx s =
     (case query cx 0 (\<lambda>e. Inr (find_row (\<lambda>u. us_last_login_at u \<noteq> None) (users s) \<noteq> None)) of
        Inl _ \<Rightarrow> internal_failure
      | Inr ever_signed_in \<Rightarrow>
      (let active = (case query cx 1 (\<lambda>e. Inr (count_rows (\<lambda>c. cd_revoked_at c = None) (credentials s))) of
             Inl _ \<Rightarrow> 0 | Inr n \<Rightarrow> n);
           admin = query cx 2 (\<lambda>e. has_password s (cv_admin_email sv))
       in if (case admin of Inl err \<Rightarrow> err \<noteq> ErrUserNotFound | Inr _ \<Rightarrow> False) then internal_failure
          else write_json 200 (Setup_Body ever_signed_in (cv_admin_email sv) (admin = Inr True)
            (cv_email_configured sv) (0 < active) (cv_public_url sv) (cv_public_s3_url sv))))"

end
