(* ===== verification/Console_Routes.thy ===== *)
theory Console_Routes
  imports Console_Credentials
begin

text \<open>
  The routes of the console (\<^verbatim>\<open>Server.Handler\<close> of \<^verbatim>\<open>internal/console/server.go\<close>) as \<^verbatim>\<open>http.ServeMux\<close> matches
  them, what stands in front of each, and a request served from the route to the answer.
\<close>

subsection \<open>Operations and guards\<close>

text \<open>Operations whose state is not that of the accounts are named by their handler.\<close>

datatype console_op =
    Op_Login
  | Op_Logout
  | Op_Me
  | Op_List_Users
  | Op_Create_User
  | Op_Reset_Password
  | Op_Delete_User
  | Op_Set_Role
  | Op_List_Credentials
  | Op_Create_Credential
  | Op_Revoke_Credential
  | Op_Set_Credential_Scope
  | Op_Change_Password
  | Op_List_Sessions
  | Op_Revoke_Session
  | Op_Revoke_Other_Sessions
  | Op_Audit_Log
  | Op_Setup_State
  | Elsewhere string

datatype entrance = Open_Entrance | Optional_Session | Session_Needed | Admin_Needed

type_synonym console_route = "string \<times> string \<times> entrance \<times> console_op"

definition auth_routes :: "console_route list" where
  "auth_routes =
     [(''POST'', ''/api/auth/login'', Open_Entrance, Op_Login),
      (''POST'', ''/api/auth/logout'', Open_Entrance, Op_Logout),
      (''GET'', ''/api/auth/me'', Session_Needed, Op_Me),
      (''GET'', ''/api/users'', Admin_Needed, Op_List_Users),
      (''POST'', ''/api/users'', Admin_Needed, Op_Create_User),
      (''POST'', ''/api/users/{id}/password'', Admin_Needed, Op_Reset_Password),
      (''DELETE'', ''/api/users/{id}'', Admin_Needed, Op_Delete_User),
      (''PUT'', ''/api/users/{id}/role'', Admin_Needed, Op_Set_Role),
      (''GET'', ''/api/credentials'', Admin_Needed, Op_List_Credentials),
      (''POST'', ''/api/credentials'', Admin_Needed, Op_Create_Credential),
      (''DELETE'', ''/api/credentials/{accessKeyId}'', Admin_Needed, Op_Revoke_Credential),
      (''PUT'', ''/api/credentials/{accessKeyId}/scope'', Admin_Needed, Op_Set_Credential_Scope),
      (''POST'', ''/api/account/password'', Session_Needed, Op_Change_Password),
      (''GET'', ''/api/account/sessions'', Session_Needed, Op_List_Sessions),
      (''DELETE'', ''/api/account/sessions/{id}'', Session_Needed, Op_Revoke_Session),
      (''POST'', ''/api/account/sessions/revoke-others'', Session_Needed, Op_Revoke_Other_Sessions),
      (''GET'', ''/api/audit'', Admin_Needed, Op_Audit_Log),
      (''GET'', ''/api/setup'', Open_Entrance, Op_Setup_State)]"

text \<open>The flag says that the server has a registry of metrics.\<close>

definition other_routes :: "bool \<Rightarrow> console_route list" where
  "other_routes has_registry =
     (if has_registry then [(''GET'', ''/metrics'', Optional_Session, Elsewhere ''Metrics'')] else []) @
     [(''GET'', ''/healthz'', Open_Entrance, Elsewhere ''Healthz''),
      (''GET'', ''/readyz'', Open_Entrance, Elsewhere ''Readyz''),
      (''GET'', ''/api/version'', Open_Entrance, Elsewhere ''Version''),
      (''GET'', ''/api/buckets'', Session_Needed, Elsewhere ''ListBuckets''),
      (''POST'', ''/api/buckets'', Session_Needed, Elsewhere ''CreateBucket''),
      (''DELETE'', ''/api/buckets/{bucket}'', Session_Needed, Elsewhere ''DeleteBucket''),
      (''GET'', ''/api/buckets/{bucket}/objects'', Session_Needed, Elsewhere ''ListObjects''),
      (''POST'', ''/api/buckets/{bucket}/objects'', Session_Needed, Elsewhere ''UploadObject''),
      (''POST'', ''/api/buckets/{bucket}/objects/delete'', Session_Needed, Elsewhere ''DeleteObjects''),
      (''GET'', ''/api/buckets/{bucket}/object'', Session_Needed, Elsewhere ''DownloadObject''),
      (''POST'', ''/api/buckets/{bucket}/share'', Session_Needed, Elsewhere ''ShareObject''),
      (''GET'', ''/api/dashboard'', Session_Needed, Elsewhere ''Dashboard''),
      (''GET'', ''/api/traffic'', Session_Needed, Elsewhere ''Traffic''),
      (''GET'', ''/api/search'', Session_Needed, Elsewhere ''Search''),
      (''GET'', ''/api/buckets/{bucket}/settings'', Session_Needed, Elsewhere ''GetBucketSettings''),
      (''PUT'', ''/api/buckets/{bucket}/settings'', Admin_Needed, Elsewhere ''SaveBucketSettings''),
      (''GET'', ''/api/buckets/{bucket}/versions'', Session_Needed, Elsewhere ''ListVersions''),
      (''POST'', ''/api/buckets/{bucket}/versions/restore'', Session_Needed, Elsewhere ''RestoreVersion''),
      (''POST'', ''/api/buckets/{bucket}/versions/purge'', Session_Needed, Elsewhere ''PurgeVersions''),
      (''POST'', ''/api/buckets/{bucket}/folders'', Session_Needed, Elsewhere ''CreateFolder''),
      (''GET'', ''/api/system'', Session_Needed, Elsewhere ''System''),
      (''GET'', ''/api/settings/alert-email'', Admin_Needed, Elsewhere ''GetAlertEmailSettings''),
      (''PUT'', ''/api/settings/alert-email'', Admin_Needed, Elsewhere ''SaveAlertEmailSettings''),
      (''POST'', ''/api/settings/alert-email/test'', Admin_Needed, Elsewhere ''TestAlertEmail''),
      (''GET'', ''/api/logs'', Session_Needed, Elsewhere ''ListLogs''),
      (''GET'', ''/api/logs/summary'', Session_Needed, Elsewhere ''LogSummary''),
      (''GET'', ''/api/logs/events'', Session_Needed, Elsewhere ''ServerEvents''),
      (''GET'', ''/api/logs/stream'', Session_Needed, Elsewhere ''LogStream''),
      (''GET'', ''/api/performance/live'', Session_Needed, Elsewhere ''PerformanceLive''),
      (''GET'', ''/api/performance'', Session_Needed, Elsewhere ''Performance''),
      (''GET'', ''/api/logs/settings'', Admin_Needed, Elsewhere ''LogSettings''),
      (''PUT'', ''/api/logs/settings'', Admin_Needed, Elsewhere ''UpdateLogSettings''),
      (''GET'', ''/api/alerts'', Session_Needed, Elsewhere ''ListAlerts''),
      (''POST'', ''/api/alerts/{id}/acknowledge'', Session_Needed, Elsewhere ''AcknowledgeAlert''),
      (''POST'', ''/api/alerts/{id}/resolve'', Session_Needed, Elsewhere ''ResolveAlert''),
      (''GET'', ''/api/alerts/rules'', Admin_Needed, Elsewhere ''ListAlertRules''),
      (''PUT'', ''/api/alerts/rules/{id}'', Admin_Needed, Elsewhere ''UpdateAlertRule'')]"

subsection \<open>Matching\<close>

text \<open>
  Two routes of one method never match one path, so their order does not matter. A segment of the path
  is unescaped before it is compared, and a wildcard takes one that is neither
  empty nor a slash.
\<close>

definition path_segments :: "string \<Rightarrow> string list" where
  "path_segments path = tl (split_on CHR ''/'' path)"

definition clean_path :: "string \<Rightarrow> bool" where
  "clean_path path \<longleftrightarrow> has_prefix path ''/'' \<and>
     list_all (\<lambda>s. s \<notin> {[], ''.'', ''..''}) (butlast (path_segments path)) \<and> last (path_segments path) \<notin> {''.'', ''..''}"

definition segment_text :: "string \<Rightarrow> string" where
  "segment_text seg = (case url_unescape False seg of None \<Rightarrow> seg | Some t \<Rightarrow> t)"

fun match_segments :: "string list \<Rightarrow> string list \<Rightarrow> string list option" where
  "match_segments [] [] = Some []"
| "match_segments (p # ps) (s # ss) =
     (if has_prefix p ''{''
      then (if segment_text s \<in> {[], ''/''} then None else map_option ((#) (segment_text s)) (match_segments ps ss))
      else if segment_text s = p then match_segments ps ss else None)"
| "match_segments _ _ = None"

definition method_fits :: "string \<Rightarrow> request \<Rightarrow> bool" where
  "method_fits method r \<longleftrightarrow> rq_method r = method \<or> method = ''GET'' \<and> rq_method r = ''HEAD''"

definition route_match :: "request \<Rightarrow> console_route \<Rightarrow> (entrance \<times> console_op \<times> string list) option" where
  "route_match r = (\<lambda>(method, pattern, ent, op).
     if method_fits method r
     then map_option (\<lambda>values. (ent, op, values))
       (match_segments (path_segments pattern) (path_segments (escaped_path r)))
     else None)"

definition find_route :: "bool \<Rightarrow> request \<Rightarrow> (entrance \<times> console_op \<times> string list) option" where
  "find_route has_registry r =
     (case List.map_filter (route_match r) (auth_routes @ other_routes has_registry) of [] \<Rightarrow> None | m # _ \<Rightarrow> Some m)"

subsection \<open>Serving\<close>

text \<open>
  What the operations of other parts answer, and the audit entries they write, are a parameter; so is
  what is served for a path without a route, and for one that has to be redirected to its clean form.
\<close>

record console_rest =
  ro_has_registry :: bool
  ro_outside :: "string \<Rightarrow> user option \<Rightarrow> request \<Rightarrow> string list \<Rightarrow> console_response \<times> audit_event list"
  ro_app :: "request \<Rightarrow> console_response"
  ro_redirect :: "request \<Rightarrow> console_response"

definition append_audit :: "audit_event list \<Rightarrow> accounts \<Rightarrow> accounts" where
  "append_audit entries s =
     s\<lparr>audit_log := audit_log s @ entries, audit_seq := audit_seq s + int (length entries)\<rparr>"

definition first_value :: "string list \<Rightarrow> string" where
  "first_value values = (case values of [] \<Rightarrow> [] | v # _ \<Rightarrow> v)"

definition run_outside ::
  "console_rest \<Rightarrow> string \<Rightarrow> user option \<Rightarrow> request \<Rightarrow> string list \<Rightarrow> accounts \<Rightarrow> console_response \<times> accounts" where
  "run_outside ro name u r values s =
     (let (resp, entries) = ro_outside ro name u r values in (resp, append_audit entries s))"

text \<open>An operation in the name of the user that was let in; \<open>arg\<close> is the wildcard of its path.\<close>

definition run_for ::
  "console \<Rightarrow> weather \<Rightarrow> console_op \<Rightarrow> user \<Rightarrow> request \<Rightarrow> string \<Rightarrow> accounts \<Rightarrow> console_response \<times> accounts" where
  "run_for sv cx op u r arg s =
     (case op of
        Op_Me \<Rightarrow> (handle_me u, s)
      | Op_List_Users \<Rightarrow> (handle_list_users cx s, s)
      | Op_Create_User \<Rightarrow> handle_create_user sv cx u r s
      | Op_Reset_Password \<Rightarrow> handle_reset_password sv cx u r arg s
      | Op_Delete_User \<Rightarrow> handle_delete_user sv cx u r arg s
      | Op_Set_Role \<Rightarrow> handle_set_role sv cx u r arg s
      | Op_List_Credentials \<Rightarrow> (handle_list_credentials cx s, s)
      | Op_Create_Credential \<Rightarrow> handle_create_credential sv cx u r s
      | Op_Revoke_Credential \<Rightarrow> handle_revoke_credential sv cx u r arg s
      | Op_Set_Credential_Scope \<Rightarrow> handle_set_credential_scope sv cx u r arg s
      | Op_Change_Password \<Rightarrow> handle_change_password sv cx u r s
      | Op_List_Sessions \<Rightarrow> (handle_list_sessions sv cx u r s, s)
      | Op_Revoke_Session \<Rightarrow> handle_revoke_session sv cx u r arg s
      | Op_Revoke_Other_Sessions \<Rightarrow> handle_revoke_other_sessions sv cx u r s
      | Op_Audit_Log \<Rightarrow> (handle_audit_log cx r s, s)
      | _ \<Rightarrow> (internal_failure, s))"

definition run_op ::
  "console \<Rightarrow> console_rest \<Rightarrow> weather \<Rightarrow> console_op \<Rightarrow> user option \<Rightarrow> request \<Rightarrow> string list \<Rightarrow> accounts \<Rightarrow>
     console_response \<times> accounts" where
  "run_op sv ro cx op who r values s =
     (case op of
        Op_Login \<Rightarrow> handle_login sv cx r s
      | Op_Logout \<Rightarrow> handle_logout sv cx r s
      | Op_Setup_State \<Rightarrow> (handle_setup_state sv cx s, s)
      | Elsewhere name \<Rightarrow> run_outside ro name who r values s
      | _ \<Rightarrow> (case who of None \<Rightarrow> (internal_failure, s) | Some u \<Rightarrow> run_for sv cx op u r (first_value values) s))"

definition enter :: "console \<Rightarrow> weather \<Rightarrow> entrance \<Rightarrow> request \<Rightarrow> accounts \<Rightarrow> (console_response + user option) \<times> accounts" where
  "enter sv cx ent r s =
     (case ent of
        Open_Entrance \<Rightarrow> (Inr None, s)
      | Optional_Session \<Rightarrow> (let (who, s') = optional_session sv cx r s in (Inr who, s'))
      | Session_Needed \<Rightarrow> (let (res, s') = require_session sv cx r s in (map_sum id Some res, s'))
      | Admin_Needed \<Rightarrow> (let (res, s') = require_admin sv cx r s in (map_sum id Some res, s')))"

definition console_serve ::
  "console \<Rightarrow> console_rest \<Rightarrow> weather \<Rightarrow> request \<Rightarrow> accounts \<Rightarrow> console_response \<times> accounts" where
  "console_serve sv ro cx r s =
     (if rq_method r \<noteq> ''CONNECT'' \<and> \<not> clean_path (escaped_path r) then (ro_redirect ro r, s)
      else case find_route (ro_has_registry ro) r of
        None \<Rightarrow> (ro_app ro r, s)
      | Some (ent, op, values) \<Rightarrow>
          (case enter sv cx ent r s of
             (Inl resp, s') \<Rightarrow> (resp, s')
           | (Inr who, s') \<Rightarrow> run_op sv ro cx op who r values s'))"

end
