(* ===== verification/Console_Steps.thy ===== *)
theory Console_Steps
  imports Console_Routes
begin

text \<open>
  The console as a step relation on the accounts: which statements a request runs, and in whose name.
  Every request is a run of such steps; what holds of each step holds of every request.
\<close>

subsection \<open>Steps\<close>

text \<open>
  \<open>who\<close> is the user that was let in, if any. A statement that fails leaves the tables as they are, so
  each rule ends in the state behind \<open>exec\<close>.
\<close>

inductive account_step :: "console \<Rightarrow> weather \<Rightarrow> user option \<Rightarrow> accounts \<Rightarrow> accounts \<Rightarrow> bool"
  for sv :: console and cx :: weather and who :: "user option" where
  Attempted: "account_step sv cx who s (snd (exec cx n (\<lambda>e. record_login_attempt e email ip ok) s))"
| Cleared: "account_step sv cx who s (snd (exec cx n (\<lambda>e. clear_login_failures email) s))"
| Started: "new_token (cv_hashes sv) (cn_env cx n) = Inr (token, hash) \<Longrightarrow>
    account_step sv cx who s (snd (exec cx n (\<lambda>e. create_session e uid hash idle absolute agent ip) s))"
| Logged_In: "account_step sv cx who s (snd (exec cx n (\<lambda>e. record_login e uid) s))"
| Audited: "account_step sv cx who s (snd (exec cx n (\<lambda>e. record_audit e entry actor ip) s))"
| Touched: "account_step sv cx who s (snd (exec cx n (\<lambda>e. touch_session e hash idle) s))"
| Signed_Out: "account_step sv cx who s (snd (exec cx n (\<lambda>e. revoke_session e hash) s))"
| Appended: "account_step sv cx who s (append_audit entries s)"
| Revoked_One: "who = Some u \<Longrightarrow>
    account_step sv cx who s (snd (exec cx n (\<lambda>e. revoke_session_by_id e (us_id u) sid) s))"
| Revoked_Others: "who = Some u \<Longrightarrow>
    account_step sv cx who s (snd (exec cx n (\<lambda>e. revoke_other_sessions e (us_id u) hash) s))"
| Changed_Own: "who = Some u \<Longrightarrow> verify_password (cv_hasher sv) s (us_email u) current = Inr v \<Longrightarrow>
    account_step sv cx who s (snd (exec cx n (\<lambda>e. set_password (cv_hasher sv) e (us_id u) password must_change) s))"
| Created: "who = Some u \<Longrightarrow> is_admin u \<Longrightarrow>
    account_step sv cx who s (snd (exec cx n (\<lambda>e. create_user e email role) s))"
| Reset: "who = Some u \<Longrightarrow> is_admin u \<Longrightarrow>
    account_step sv cx who s (snd (exec cx n (\<lambda>e. set_password (cv_hasher sv) e uid password must_change) s))"
| Ejected: "who = Some u \<Longrightarrow> is_admin u \<Longrightarrow>
    account_step sv cx who s (snd (exec cx n (\<lambda>e. revoke_user_sessions e uid) s))"
| Removed: "who = Some u \<Longrightarrow> is_admin u \<Longrightarrow>
    account_step sv cx who s (snd (exec cx n (\<lambda>e. delete_user uid) s))"
| Promoted: "who = Some u \<Longrightarrow> is_admin u \<Longrightarrow>
    account_step sv cx who s (snd (exec cx n (\<lambda>e. set_user_role uid role) s))"
| Key_Created: "who = Some u \<Longrightarrow> is_admin u \<Longrightarrow>
    account_step sv cx who s (snd (exec cx n (\<lambda>e. create_credential c e description owner scope) s))"
| Key_Revoked: "who = Some u \<Longrightarrow> is_admin u \<Longrightarrow>
    account_step sv cx who s (snd (exec cx n (\<lambda>e. revoke_credential e key) s))"
| Key_Narrowed: "who = Some u \<Longrightarrow> is_admin u \<Longrightarrow>
    account_step sv cx who s (snd (exec cx n (\<lambda>e. set_credential_scope key scope) s))"

abbreviation account_run :: "console \<Rightarrow> weather \<Rightarrow> user option \<Rightarrow> accounts \<Rightarrow> accounts \<Rightarrow> bool" where
  "account_run sv cx who \<equiv> (account_step sv cx who)\<^sup>*\<^sup>*"

lemma exec_cases:
  obtains "exec cx n op s = (Inl (ErrQuery ''connection''), s)" "cn_down cx n"
  | err where "exec cx n op s = (Inl err, s)" "op (cn_env cx n) s = Inl err"
  | x s' where "exec cx n op s = (Inr x, s')" "op (cn_env cx n) s = Inr (x, s')"
  by (cases "cn_down cx n"; cases "op (cn_env cx n) s") (auto simp: exec_def)

lemma exec_keeps:
  assumes "P s" "\<And>x s'. op (cn_env cx n) s = Inr (x, s') \<Longrightarrow> P s'"
  shows "P (snd (exec cx n op s))"
  using assms by (rule_tac exec_cases [of cx n op s]) auto

lemma exec_Inl: "exec cx n op s = (Inl err, s') \<Longrightarrow> s' = s"
  by (rule exec_cases [of cx n op s]) auto

lemma exec_Inr: "exec cx n op s = (Inr x, s') \<Longrightarrow> op (cn_env cx n) s = Inr (x, s')"
  by (rule exec_cases [of cx n op s]) auto

lemma exec_snd: "exec cx n op s = (res, s') \<Longrightarrow> s' = snd (exec cx n op s)"
  by simp

subsection \<open>Every request is a run\<close>

lemma run_refl: "account_run sv cx who s s"
  by simp

lemma run_step: "account_run sv cx who s t \<Longrightarrow> account_step sv cx who t t' \<Longrightarrow> account_run sv cx who s t'"
  by simp

lemma step_run: "account_step sv cx who s t \<Longrightarrow> account_run sv cx who s t"
  by simp

lemma audit_for_step: "account_step sv cx who s (audit_for sv cx n r u action kind subject s)"
  unfolding audit_for_def by (rule Audited)

lemma run_audit:
  "account_run sv cx who s t \<Longrightarrow> account_run sv cx who s (audit_for sv cx n r u action kind subject t)"
  by (rule run_step [OF _ audit_for_step])

lemma record_attempt_step: "account_step sv cx who s (record_attempt cx n email ip ok s)"
  unfolding record_attempt_def by (rule Attempted)

lemma start_session_run: "account_run sv cx who s (snd (start_session sv cx n r u s))"
proof (cases "new_token (cv_hashes sv) (cn_env cx n)")
  case (Inr th)
  obtain token hash where th: "th = (token, hash)" by (cases th)
  let ?x = "exec cx n (\<lambda>e. create_session e (us_id u) hash session_idle_ttl session_absolute_ttl
    (user_agent r) (client_ip (cv_proxies sv) r)) s"
  have "snd (start_session sv cx n r u s) = snd ?x"
    using Inr th by (simp add: start_session_def split: prod.split sum.split)
  then show ?thesis using Started [of sv cx n token hash who s "us_id u"] Inr th by auto
qed (simp add: start_session_def)

lemma complete_sign_in_run: "account_run sv cx who s (snd (complete_sign_in sv cx r email u s))"
proof -
  define ip where "ip = client_ip (cv_proxies sv) r"
  define s1 where "s1 = record_attempt cx 2 email ip True s"
  define s2 where "s2 = snd (exec cx 3 (\<lambda>e. clear_login_failures email) s1)"
  define s3 where "s3 = snd (start_session sv cx 4 r u s2)"
  define s4 where "s4 = snd (exec cx 5 (\<lambda>e. record_login e (us_id u)) s3)"
  have "account_run sv cx who s s2"
    unfolding s2_def s1_def by (rule run_step [OF step_run [OF record_attempt_step]], rule Cleared)
  moreover have "account_run sv cx who s2 s3" unfolding s3_def by (rule start_session_run)
  ultimately have run3: "account_run sv cx who s s3" by simp
  have run4: "account_run sv cx who s (audit_for sv cx 6 r u ''auth.sign_in'' ''user'' (us_email u) s4)"
    unfolding s4_def by (rule run_step [OF run_step [OF run3] audit_for_step], rule Logged_In)
  obtain res where res: "start_session sv cx 4 r u s2 = (res, s3)"
    unfolding s3_def by (cases "start_session sv cx 4 r u s2") simp
  have "snd (complete_sign_in sv cx r email u s) =
      (case res of Inl _ \<Rightarrow> s3 | Inr _ \<Rightarrow> audit_for sv cx 6 r u ''auth.sign_in'' ''user'' (us_email u) s4)"
    using res by (cases res) (simp_all add: complete_sign_in_def Let_def s4_def s2_def s1_def ip_def)
  then show ?thesis using run3 run4 by (cases res) simp_all
qed

lemma handle_login_run: "account_run sv cx None s (snd (handle_login sv cx r s))"
proof -
  have "snd (handle_login sv cx r s) = s \<or>
      (\<exists>n email ip ok. snd (handle_login sv cx r s) = record_attempt cx n email ip ok s) \<or>
      (\<exists>email u. snd (handle_login sv cx r s) = snd (complete_sign_in sv cx r email u s))"
    unfolding handle_login_def Let_def by (force split: option.split sum.split prod.split)
  then show ?thesis
    using complete_sign_in_run record_attempt_step by (metis r_into_rtranclp rtranclp.rtrancl_refl)
qed

lemma exec_run_case:
  assumes "account_run sv cx who s0 s" "account_step sv cx who s (snd (exec cx n op s))"
    and "\<And>x s1. account_run sv cx who s0 s1 \<Longrightarrow> account_run sv cx who s0 (snd (good x s1))"
    and "\<And>err s1. account_run sv cx who s0 s1 \<Longrightarrow> account_run sv cx who s0 (snd (bad err s1))"
  shows "account_run sv cx who s0
    (snd (case exec cx n op s of (Inl err, s1) \<Rightarrow> bad err s1 | (Inr x, s1) \<Rightarrow> good x s1))"
proof -
  obtain res s1 where res: "exec cx n op s = (res, s1)" by (cases "exec cx n op s")
  have "account_run sv cx who s0 s1" using run_step [OF assms(1,2)] res by simp
  then show ?thesis using assms(3,4) res by (cases res) simp_all
qed

lemma handle_revoke_session_run:
  "account_run sv cx (Some u) s (snd (handle_revoke_session sv cx u r sid s))"
  unfolding handle_revoke_session_def
  by (rule exec_run_case [OF run_refl]) (auto intro: Revoked_One run_audit)

lemma handle_revoke_other_sessions_run:
  "account_run sv cx (Some u) s (snd (handle_revoke_other_sessions sv cx u r s))"
proof (cases "request_cookie r session_cookie_name")
  case (Some token)
  show ?thesis
    unfolding handle_revoke_other_sessions_def Some option.case
    by (rule exec_run_case [OF run_refl]) (auto intro: Revoked_Others run_audit)
qed (simp add: handle_revoke_other_sessions_def)

lemma handle_delete_user_run:
  assumes "is_admin u"
  shows "account_run sv cx (Some u) s (snd (handle_delete_user sv cx u r uid s))"
  unfolding handle_delete_user_def if_distrib [of snd]
  by (auto intro!: exec_run_case run_refl Ejected Removed assms run_audit)

lemma handle_set_role_run:
  assumes "is_admin u"
  shows "account_run sv cx (Some u) s (snd (handle_set_role sv cx u r uid s))"
  unfolding handle_set_role_def if_distrib [of snd]
  by (auto intro!: exec_run_case run_refl Promoted assms run_audit split: option.split)

lemma handle_change_password_run:
  "account_run sv cx (Some u) s (snd (handle_change_password sv cx u r s))"
proof -
  have others: "account_run sv cx (Some u) s (snd (exec cx 3 (\<lambda>e. revoke_other_sessions e (us_id u) hash) s1))"
    if "account_run sv cx (Some u) s s1" for s1 hash
    by (rule run_step [OF that Revoked_Others]) simp
  have own: "account_step sv cx (Some u) s (snd (exec cx 2 (\<lambda>e. set_password (cv_hasher sv) e (us_id u) p False) s))"
    if "query cx 1 (\<lambda>e. verify_password (cv_hasher sv) s (us_email u) current) = Inr v" for p current v
    using that Changed_Own [of "Some u" u sv s current v cx] by (auto simp: query_def split: if_splits)
  show ?thesis
    unfolding handle_change_password_def Let_def
    by (auto intro!: exec_run_case run_refl own run_audit others split: option.split sum.split)
qed

lemma handle_reset_password_run:
  assumes "is_admin u"
  shows "account_run sv cx (Some u) s (snd (handle_reset_password sv cx u r uid s))"
proof -
  have eject: "account_run sv cx (Some u) s (snd (exec cx 3 (\<lambda>e. revoke_user_sessions e v) s1))"
    if "account_run sv cx (Some u) s s1" for s1 v
    by (rule run_step [OF that Ejected [OF _ assms]]) simp
  show ?thesis
    unfolding handle_reset_password_def Let_def
    by (auto intro!: exec_run_case run_refl Reset assms run_audit eject split: option.split sum.split)
qed

lemma handle_create_user_run:
  assumes "is_admin u"
  shows "account_run sv cx (Some u) s (snd (handle_create_user sv cx u r s))"
  unfolding handle_create_user_def Let_def
  by (auto intro!: exec_run_case run_refl Reset Created assms run_audit split: option.split sum.split)

lemma handle_create_credential_run:
  assumes "is_admin u"
  shows "account_run sv cx (Some u) s (snd (handle_create_credential sv cx u r s))"
proof -
  have created: "account_run sv cx (Some u) s s1"
    if "exec cx (Suc 0) (\<lambda>e. create_credential (cv_cipher sv) e description (Some (us_id u)) scope) s = (res, s1)"
    for res s1 description scope
    unfolding exec_snd [OF that] by (rule step_run, rule Key_Created [OF _ assms]) simp
  show ?thesis
    unfolding handle_create_credential_def Let_def
    by (auto intro!: run_refl run_audit split: option.split sum.split prod.split dest: created)
qed

lemma handle_revoke_credential_run:
  assumes "is_admin u"
  shows "account_run sv cx (Some u) s (snd (handle_revoke_credential sv cx u r key s))"
  unfolding handle_revoke_credential_def if_distrib [of snd]
  by (auto intro!: exec_run_case run_refl Key_Revoked assms run_audit)

lemma handle_set_credential_scope_run:
  assumes "is_admin u"
  shows "account_run sv cx (Some u) s (snd (handle_set_credential_scope sv cx u r key s))"
  unfolding handle_set_credential_scope_def Let_def
  by (auto intro!: exec_run_case run_refl Key_Narrowed assms run_audit split: option.split sum.split)

subsection \<open>Who was let in\<close>

text \<open>
  The session of the request, as the first statement found it: its token is the cookie, it is neither
  revoked nor past either of its limits, and the user is its own.
\<close>

definition admitted :: "console \<Rightarrow> weather \<Rightarrow> request \<Rightarrow> accounts \<Rightarrow> user \<Rightarrow> bool" where
  "admitted sv cx r s u \<longleftrightarrow>
     (\<exists>token k x. request_cookie r session_cookie_name = Some token \<and> token \<noteq> [] \<and> (k, x) \<in> set (sessions s) \<and>
        ss_token_hash x = hash_token (cv_hashes sv) token \<and> live_session (e_now (cn_env cx 0)) x \<and>
        map_of (users s) (ss_user_id x) = Some u)"

lemma touch_session_Inr:
  assumes "touch_session e hash idle s = Inr (u, s')"
  obtains k x where "(k, x) \<in> set (sessions s)" "ss_token_hash x = hash" "live_session (e_now e) x"
    "map_of (users s) (ss_user_id x) = Some u"
proof -
  let ?p = "\<lambda>x. ss_token_hash x = hash \<and> live_session (e_now e) x"
  obtain k x where row: "find_row ?p (sessions s) = Some (k, x)" "map_of (users s) (ss_user_id x) = Some u"
    using assms by (auto simp: touch_session_def Let_def split: option.splits)
  with find_row_Some [OF row(1)] show ?thesis by (intro that [of k x]) auto
qed

lemma require_session_Inr:
  assumes "require_session sv cx r s = (Inr u, s')"
  shows "admitted sv cx r s u" "us_must_change u \<longrightarrow> is_password_change_request r"
    and "is_state_changing r \<longrightarrow> origin_allowed sv r" "account_run sv cx who s s'"
proof -
  obtain token where token: "request_cookie r session_cookie_name = Some token" "token \<noteq> []"
    using assms by (auto simp: require_session_def split: option.splits if_splits)
  let ?op = "\<lambda>e. touch_session e (hash_token (cv_hashes sv) token) session_idle_ttl"
  have run: "exec cx 0 ?op s = (Inr u, s')" and rest: "us_must_change u \<longrightarrow> is_password_change_request r"
    "is_state_changing r \<longrightarrow> origin_allowed sv r"
    using assms token by (auto simp: require_session_def split: prod.splits sum.splits if_splits)
  show "admitted sv cx r s u"
    using exec_Inr [OF run] by (rule touch_session_Inr) (use token in \<open>auto simp: admitted_def\<close>)
  show "account_run sv cx who s s'"
    unfolding exec_snd [OF run] by (rule step_run, rule Touched)
qed (use assms in \<open>auto simp: require_session_def split: option.splits prod.splits sum.splits if_splits\<close>)

lemma require_session_Inl:
  assumes "require_session sv cx r s = (Inl resp, s')"
  shows "account_run sv cx who s s'"
proof (cases "request_cookie r session_cookie_name")
  case (Some token)
  have touched: "account_run sv cx who s
      (snd (exec cx 0 (\<lambda>e. touch_session e (hash_token (cv_hashes sv) token) session_idle_ttl) s))"
    by (rule step_run, rule Touched)
  have "s' = s \<or> s' = snd (exec cx 0 (\<lambda>e. touch_session e (hash_token (cv_hashes sv) token) session_idle_ttl) s)"
    using assms Some by (auto simp: require_session_def split: if_splits sum.splits prod.splits)
  with touched show ?thesis by auto
qed (use assms in \<open>simp add: require_session_def\<close>)

lemma require_admin_Inr:
  assumes "require_admin sv cx r s = (Inr u, s')"
  shows "require_session sv cx r s = (Inr u, s')" "is_admin u"
  using assms by (auto simp: require_admin_def split: prod.splits sum.splits if_splits)

lemma require_admin_Inl:
  assumes "require_admin sv cx r s = (Inl resp, s')"
  shows "account_run sv cx who s s'"
proof -
  obtain res where res: "require_session sv cx r s = (res, s')"
    using assms by (auto simp: require_admin_def split: prod.splits sum.splits if_splits)
  then show ?thesis
    using require_session_Inl [of sv cx r s _ s' who] require_session_Inr(4) [of sv cx r s _ s' who] by (cases res) auto
qed

lemma optional_session_run:
  assumes "optional_session sv cx r s = (w, s')"
  shows "account_run sv cx who s s'"
proof (cases "request_cookie r session_cookie_name")
  case (Some token)
  have touched: "account_run sv cx who s
      (snd (exec cx 0 (\<lambda>e. touch_session e (hash_token (cv_hashes sv) token) session_idle_ttl) s))"
    by (rule step_run, rule Touched)
  have "s' = s \<or> s' = snd (exec cx 0 (\<lambda>e. touch_session e (hash_token (cv_hashes sv) token) session_idle_ttl) s)"
    using assms Some by (auto simp: optional_session_def split: if_splits sum.splits prod.splits)
  with touched show ?thesis by auto
qed (use assms in \<open>simp add: optional_session_def\<close>)

subsection \<open>Requests\<close>

text \<open>The operations that need an administrator are behind the entrance that asks for one.\<close>

definition admin_op :: "console_op \<Rightarrow> bool" where
  "admin_op op \<longleftrightarrow> op \<in> {Op_List_Users, Op_Create_User, Op_Reset_Password, Op_Delete_User, Op_Set_Role,
     Op_List_Credentials, Op_Create_Credential, Op_Revoke_Credential, Op_Set_Credential_Scope, Op_Audit_Log}"

definition entrance_of :: "console_op \<Rightarrow> entrance" where
  "entrance_of op =
     (if admin_op op then Admin_Needed
      else if op \<in> {Op_Login, Op_Logout, Op_Setup_State} then Open_Entrance else Session_Needed)"

lemma auth_routes_entrance: "(m, p, ent, op) \<in> set auth_routes \<Longrightarrow> ent = entrance_of op"
  by (auto simp: auth_routes_def entrance_of_def admin_op_def)

lemma other_routes_elsewhere: "(m, p, ent, op) \<in> set (other_routes b) \<Longrightarrow> \<exists>name. op = Elsewhere name"
  by (auto simp: other_routes_def split: if_splits)

lemma find_route_entrance:
  assumes "find_route b r = Some (ent, op, values)"
  shows "ent = entrance_of op \<or> (\<exists>name. op = Elsewhere name)"
proof -
  from assms have "(ent, op, values) \<in> set (List.map_filter (route_match r) (auth_routes @ other_routes b))"
    by (auto simp: find_route_def split: list.splits)
  then obtain m p where "(m, p, ent, op) \<in> set (auth_routes @ other_routes b)"
    by (auto simp: List.map_filter_def route_match_def split: if_splits) blast+
  then show ?thesis
    using auth_routes_entrance [of m p ent op] other_routes_elsewhere [of m p ent op b] by auto
qed

lemma run_for_run:
  assumes "admin_op op \<longrightarrow> is_admin u"
  shows "account_run sv cx (Some u) s (snd (run_for sv cx op u r arg s))"
proof (cases op)
qed (use assms in \<open>simp_all add: run_for_def admin_op_def handle_create_user_run handle_reset_password_run
  handle_delete_user_run handle_set_role_run handle_create_credential_run handle_revoke_credential_run
  handle_set_credential_scope_run handle_change_password_run handle_revoke_session_run
  handle_revoke_other_sessions_run\<close>)

lemma handle_logout_run: "account_run sv cx who s (snd (handle_logout sv cx r s))"
proof (cases "request_cookie r session_cookie_name")
  case (Some token)
  define op where "op = (\<lambda>e. touch_session e (hash_token (cv_hashes sv) token) session_idle_ttl)"
  obtain res s1 where res: "exec cx 0 op s = (res, s1)" by (cases "exec cx 0 op s")
  have s1: "account_run sv cx who s s1"
    unfolding exec_snd [OF res] op_def by (rule step_run, rule Touched)
  define s2 where "s2 = (case res of Inl _ \<Rightarrow> s1
    | Inr u \<Rightarrow> audit_for sv cx 1 r u ''auth.sign_out'' ''user'' (us_email u) s1)"
  have "account_run sv cx who s s2" unfolding s2_def using s1 by (cases res) (simp_all add: run_audit)
  then have "account_run sv cx who s (snd (exec cx 2 (\<lambda>e. revoke_session e (hash_token (cv_hashes sv) token)) s2))"
    by (rule run_step, intro Signed_Out)
  moreover have "snd (handle_logout sv cx r s) =
      snd (exec cx 2 (\<lambda>e. revoke_session e (hash_token (cv_hashes sv) token)) s2)"
    using res Some unfolding handle_logout_def op_def s2_def by (cases res) (simp_all add: Let_def)
  ultimately show ?thesis by (simp only:)
qed (simp add: handle_logout_def)

lemma run_op_open: "entrance_of op = Open_Entrance \<Longrightarrow> account_run sv cx None s (snd (run_op sv ro cx op None r values s))"
  by (cases op) (simp_all add: entrance_of_def admin_op_def run_op_def handle_login_run handle_logout_run)

lemma run_op_elsewhere: "account_run sv cx who s (snd (run_op sv ro cx (Elsewhere name) w r values s))"
  by (auto simp: run_op_def run_outside_def split: prod.split intro: step_run Appended)

lemma run_op_for:
  assumes "entrance_of op \<noteq> Open_Entrance" "\<nexists>name. op = Elsewhere name"
  shows "run_op sv ro cx op (Some u) r values s = run_for sv cx op u r (first_value values) s"
  using assms by (cases op) (simp_all add: run_op_def entrance_of_def admin_op_def split: if_splits)

definition cleared :: "console \<Rightarrow> weather \<Rightarrow> request \<Rightarrow> accounts \<Rightarrow> user \<Rightarrow> bool" where
  "cleared sv cx r s u \<longleftrightarrow> admitted sv cx r s u \<and> (us_must_change u \<longrightarrow> is_password_change_request r) \<and>
     (is_state_changing r \<longrightarrow> origin_allowed sv r)"

lemma enter_Inr:
  assumes "enter sv cx ent r s = (Inr who, s')" "account_run sv cx w s' t"
  shows "account_run sv cx w s t"
    and "ent \<in> {Session_Needed, Admin_Needed} \<Longrightarrow> \<exists>u. who = Some u \<and> cleared sv cx r s u \<and> (ent = Admin_Needed \<longrightarrow> is_admin u)"
    and "ent = Open_Entrance \<Longrightarrow> who = None"
proof -
  have "account_run sv cx w s s'"
  proof (cases ent)
    case Optional_Session
    then show ?thesis using assms(1) optional_session_run by (auto simp: enter_def split: prod.splits)
  next
    case Session_Needed
    then obtain u where "require_session sv cx r s = (Inr u, s')"
      using assms(1) by (cases "require_session sv cx r s"; cases "fst (require_session sv cx r s)") (auto simp: enter_def)
    then show ?thesis by (rule require_session_Inr(4))
  next
    case Admin_Needed
    then obtain u where "require_admin sv cx r s = (Inr u, s')"
      using assms(1) by (cases "require_admin sv cx r s"; cases "fst (require_admin sv cx r s)") (auto simp: enter_def)
    then show ?thesis using require_admin_Inr(1) require_session_Inr(4) by blast
  qed (use assms(1) in \<open>simp add: enter_def\<close>)
  with assms(2) show "account_run sv cx w s t" by simp
  show "\<exists>u. who = Some u \<and> cleared sv cx r s u \<and> (ent = Admin_Needed \<longrightarrow> is_admin u)"
    if ent: "ent \<in> {Session_Needed, Admin_Needed}"
  proof -
    from assms(1) ent obtain u where u: "who = Some u" "require_session sv cx r s = (Inr u, s')" "ent = Admin_Needed \<longrightarrow> is_admin u"
      by (cases "require_session sv cx r s"; cases "fst (require_session sv cx r s)")
        (auto simp: enter_def require_admin_def split: if_splits)
    with require_session_Inr(1-3) [OF u(2)] show ?thesis by (auto simp: cleared_def)
  qed
  show "ent = Open_Entrance \<Longrightarrow> who = None" using assms(1) by (simp add: enter_def)
qed

lemma enter_Inl: "enter sv cx ent r s = (Inl resp, s') \<Longrightarrow> account_run sv cx w s s'"
  using require_session_Inl [of sv cx r s _ s' w] require_admin_Inl [of sv cx r s _ s' w]
  by (cases ent; cases "require_session sv cx r s"; cases "fst (require_session sv cx r s)";
      cases "require_admin sv cx r s"; cases "fst (require_admin sv cx r s)")
    (auto simp: enter_def split: prod.splits)

lemma console_serve_run:
  assumes "console_serve sv ro cx r s = (resp, s')"
  obtains who where "account_run sv cx who s s'" "\<And>u. who = Some u \<Longrightarrow> cleared sv cx r s u"
proof (cases "find_route (ro_has_registry ro) r")
  case None
  then have "s' = s" using assms by (auto simp: console_serve_def split: if_splits)
  then show ?thesis using that [of None] by simp
next
  case (Some route)
  obtain ent op vals where route: "route = (ent, op, vals)" by (cases route)
  obtain res t where t: "enter sv cx ent r s = (res, t)" by (cases "enter sv cx ent r s")
  show ?thesis
  proof (cases "rq_method r \<noteq> ''CONNECT'' \<and> \<not> clean_path (escaped_path r)")
    case True
    then have "s' = s" using assms by (simp add: console_serve_def)
    then show ?thesis using that [of None] by simp
  next
    case clean: False
    show ?thesis
    proof (cases res)
      case (Inl answer)
      then have "s' = t" using assms Some route t clean by (auto simp: console_serve_def)
      then show ?thesis using that [of None] enter_Inl t Inl by auto
    next
      case (Inr who)
      then have s': "s' = snd (run_op sv ro cx op who r vals t)"
        using assms Some route t clean by (auto simp: console_serve_def)
      note entered = enter_Inr [OF t [unfolded Inr]]
      show ?thesis
      proof (cases "\<exists>name. op = Elsewhere name")
        case True
        then have "account_run sv cx None t s'" unfolding s' using run_op_elsewhere by blast
        then show ?thesis using that [of None] entered(1) by blast
      next
        case False
        then have ent: "ent = entrance_of op" using find_route_entrance [OF Some [unfolded route]] by blast
        show ?thesis
        proof (cases "ent = Open_Entrance")
          case True
          then have "account_run sv cx None t s'" unfolding s' using entered(3) ent run_op_open by metis
          then show ?thesis using that [of None] entered(1) by blast
        next
          case not_open: False
          then have "ent \<in> {Session_Needed, Admin_Needed}" unfolding ent by (auto simp: entrance_of_def split: if_splits)
          then obtain u where u: "who = Some u" "cleared sv cx r s u" "ent = Admin_Needed \<longrightarrow> is_admin u"
            using entered(2) [OF run_refl] by blast
          have "admin_op op \<longrightarrow> is_admin u" using u(3) unfolding ent by (simp add: entrance_of_def)
          then have "account_run sv cx (Some u) t s'"
            unfolding s' u(1) using run_op_for [OF not_open [unfolded ent] False] run_for_run by simp
          then show ?thesis using that [of "Some u"] entered(1) u(2) by blast
        qed
      qed
    qed
  qed
qed

end
