(* ===== verification/Console_Invariants.thy ===== *)
theory Console_Invariants
  imports Console_Steps
begin

text \<open>
  What the steps of the console keep: the constraints of the tables, an administrator, the keys and the
  roles unless an administrator asked, and that a session which has ended stays so.
\<close>

subsection \<open>What a statement leaves alone\<close>

definition role_part :: "accounts \<Rightarrow> (string \<times> string \<times> string) list" where
  "role_part s = map (\<lambda>(k, u). (k, us_email u, us_role u)) (users s)"

lemma update_rows_role_part:
  "(\<And>u. us_email (f u) = us_email u) \<Longrightarrow> (\<And>u. us_role (f u) = us_role u) \<Longrightarrow>
     map (\<lambda>(k, u). (k, us_email u, us_role u)) (update_rows p f t) = map (\<lambda>(k, u). (k, us_email u, us_role u)) t"
  by (simp add: update_rows_def case_prod_unfold)

lemmas statement_defs =
  record_login_attempt_def clear_login_failures_def create_session_def record_login_def record_audit_def
  touch_session_def revoke_session_def revoke_session_by_id_def revoke_other_sessions_def
  revoke_user_sessions_def revoke_where_def append_audit_def

lemma same_users_statements:
  "record_login_attempt e email ip ok s = Inr (x1, s') \<Longrightarrow> users s' = users s \<and> credentials s' = credentials s"
  "clear_login_failures email s = Inr (x1, s') \<Longrightarrow> users s' = users s \<and> credentials s' = credentials s"
  "create_session e uid hash idle absolute agent ip s = Inr (x2, s') \<Longrightarrow> users s' = users s \<and> credentials s' = credentials s"
  "record_audit e entry actor ip s = Inr (x1, s') \<Longrightarrow> users s' = users s \<and> credentials s' = credentials s"
  "touch_session e hash idle s = Inr (x3, s') \<Longrightarrow> users s' = users s \<and> credentials s' = credentials s"
  "revoke_session e hash s = Inr (x1, s') \<Longrightarrow> users s' = users s \<and> credentials s' = credentials s"
  "revoke_session_by_id e uid sid s = Inr (x1, s') \<Longrightarrow> users s' = users s \<and> credentials s' = credentials s"
  "revoke_other_sessions e uid hash s = Inr (x4, s') \<Longrightarrow> users s' = users s \<and> credentials s' = credentials s"
  "revoke_user_sessions e uid s = Inr (x1, s') \<Longrightarrow> users s' = users s \<and> credentials s' = credentials s"
  by (auto simp: statement_defs result_iff Let_def split: if_splits option.splits)

subsection \<open>Keys and roles\<close>

definition managed :: "accounts \<Rightarrow> (string, credential_row) table \<times> (string \<times> string \<times> string) list" where
  "managed s = (credentials s, role_part s)"

lemma managed_same: "users s' = users s \<and> credentials s' = credentials s \<Longrightarrow> managed s' = managed s"
  by (simp add: managed_def role_part_def)

lemma managed_login: "record_login e uid s = Inr (x, s') \<Longrightarrow> managed s' = managed s"
  by (auto simp: record_login_def managed_def role_part_def update_rows_role_part)

lemma managed_set_password: "set_password h e uid password must_change s = Inr (x, s') \<Longrightarrow> managed s' = managed s"
  by (auto simp: set_password_def set_password_where_def managed_def role_part_def result_iff with_password_def
    update_rows_role_part split: if_splits)

lemma exec_same:
  "(\<And>x s'. op (cn_env cx n) s = Inr (x, s') \<Longrightarrow> f s' = f s) \<Longrightarrow> f (snd (exec cx n op s)) = f s"
  by (rule exec_keeps) auto

lemma exec_managed:
  "(\<And>x s'. op (cn_env cx n) s = Inr (x, s') \<Longrightarrow> users s' = users s \<and> credentials s' = credentials s) \<Longrightarrow>
     managed (snd (exec cx n op s)) = managed s"
  by (rule exec_same, rule managed_same)

subsection \<open>Constraints\<close>

lemma record_login_attempt_keeps: "wf_accounts s \<Longrightarrow> record_login_attempt e email ip ok s = Inr (x, s') \<Longrightarrow> wf_accounts s'"
  by (auto simp: record_login_attempt_def result_iff)

lemma record_audit_keeps: "wf_accounts s \<Longrightarrow> record_audit e entry actor ip s = Inr (x, s') \<Longrightarrow> wf_accounts s'"
  by (auto simp: record_audit_def result_iff split: if_splits)

lemma clear_login_failures_keeps: "wf_accounts s \<Longrightarrow> clear_login_failures email s = Inr (x, s') \<Longrightarrow> wf_accounts s'"
  by (auto simp: clear_login_failures_def)

lemma set_password_keeps:
  "wf_accounts s \<Longrightarrow> set_password h e uid password must_change s = Inr (x, s') \<Longrightarrow> wf_accounts s'"
  unfolding set_password_def by (rule set_password_stmt.keeps)

lemma exec_wf:
  "wf_accounts s \<Longrightarrow> (\<And>x s'. op (cn_env cx n) s = Inr (x, s') \<Longrightarrow> wf_accounts s') \<Longrightarrow> wf_accounts (snd (exec cx n op s))"
  by (rule exec_keeps)

lemma step_wf:
  assumes "account_step sv cx who s s'" "wf_accounts s"
  shows "wf_accounts s'"
  using assms(1)
proof cases
  case (Appended entries)
  with assms(2) show ?thesis by (simp add: append_audit_def)
qed (use assms(2) in \<open>simp_all only:\<close>, (rule exec_wf, assumption, rule
  record_login_attempt_keeps clear_login_failures_keeps create_session_stmt.keeps record_login_stmt.keeps
  record_audit_keeps touch_session_stmt.keeps revoke_session_stmt.keeps revoke_session_by_id_stmt.keeps
  revoke_other_sessions_stmt.keeps set_password_keeps create_user_stmt.keeps revoke_user_sessions_stmt.keeps
  delete_user_stmt.keeps set_user_role_stmt.keeps create_credential_stmt.keeps revoke_credential_stmt.keeps
  set_credential_scope_stmt.keeps, assumption+)+)

lemma run_wf: "account_run sv cx who s s' \<Longrightarrow> wf_accounts s \<Longrightarrow> wf_accounts s'"
  by (induction rule: rtranclp_induct) (simp_all add: step_wf)

subsection \<open>An administrator\<close>

definition has_admin :: "accounts \<Rightarrow> bool" where
  "has_admin s \<longleftrightarrow> admin_count s \<noteq> 0"

lemma has_admin_row: "has_admin s \<longleftrightarrow> (\<exists>(k, u) \<in> set (users s). is_admin u)"
  by (auto simp: has_admin_def admin_count_def count_rows_0)

lemma has_admin_of: "wf_accounts s \<Longrightarrow> has_admin s \<longleftrightarrow> (\<exists>k u. map_of (users s) k = Some u \<and> is_admin u)"
  unfolding has_admin_row by (fastforce simp: wf_accounts_def wf_users_def dest: map_of_SomeD)

lemma has_admin_managed: "managed s' = managed s \<Longrightarrow> has_admin s' = has_admin s"
proof -
  have "admin_count s = length (filter (\<lambda>(k, e, r). r = role_admin) (role_part s))" for s
    by (simp add: admin_count_def count_rows_def role_part_def is_admin_def filter_map comp_def case_prod_unfold)
  then show "managed s' = managed s \<Longrightarrow> has_admin s' = has_admin s"
    by (simp add: has_admin_def managed_def)
qed

text \<open>Of two administrators one is left when the row of the other goes or changes.\<close>

lemma second_admin:
  assumes "wf_accounts s" "1 < admin_count s"
  obtains k v where "k \<noteq> uid" "map_of (users s) k = Some v" "is_admin v"
proof -
  let ?admins = "filter (is_admin \<circ> snd) (users s)"
  have keyed: "keyed (users s)" using assms(1) by (simp add: wf_accounts_def wf_users_def)
  then have "distinct (map fst ?admins)" by (auto simp: distinct_map inj_on_def)
  moreover have "1 < length (map fst ?admins)" using assms(2) by (simp add: admin_count_def count_rows_def)
  ultimately have "\<not> set (map fst ?admins) \<subseteq> {uid}"
    using card_mono [of "{uid}" "set (map fst ?admins)"] distinct_card [of "map fst ?admins"] by fastforce
  then obtain k where k: "k \<in> set (map fst ?admins)" "k \<noteq> uid" by blast
  then obtain v where "(k, v) \<in> set (users s)" "is_admin v" by auto
  with k(2) show ?thesis using that [of k v] map_of_is_SomeI [OF keyed] by blast
qed

lemma has_admin_delete:
  assumes "wf_accounts s" "has_admin s" "delete_user uid s = Inr (x, s')"
  shows "has_admin s'"
proof -
  obtain u where u: "map_of (users s) uid = Some u" and s': "s' = drop_user uid s"
    and allowed: "us_role u \<noteq> role_admin \<or> 1 < admin_count s"
    using assms(3) by (auto simp: delete_user_def delete_user_at_def split: option.splits if_splits)
  have "\<exists>k v. k \<noteq> uid \<and> map_of (users s) k = Some v \<and> is_admin v"
  proof (cases "is_admin u")
    case True
    then have "1 < admin_count s" using allowed by (simp add: is_admin_def)
    then show ?thesis by (rule second_admin [OF assms(1), of uid]) blast
  next
    case False
    obtain k v where kv: "map_of (users s) k = Some v" "is_admin v" using assms(2) has_admin_of [OF assms(1)] by blast
    then have "k \<noteq> uid" using False u by auto
    with kv show ?thesis by blast
  qed
  then obtain k v where "k \<noteq> uid" "map_of (users s) k = Some v" "is_admin v" by blast
  then have "map_of (users s') k = Some v \<and> is_admin v" by (simp add: s' drop_user_def delete_conv')
  then show ?thesis unfolding s' has_admin_of [OF drop_user_keeps [OF assms(1)]] by blast
qed

lemma has_admin_role:
  assumes "wf_accounts s" "has_admin s" "set_user_role uid role s = Inr (x, s')"
  shows "has_admin s'"
proof -
  obtain u where u: "map_of (users s) uid = Some u"
    and s': "s' = s\<lparr>users := AList.update uid (u\<lparr>us_role := role\<rparr>) (users s)\<rparr>"
    and allowed: "role = role_admin \<or> us_role u \<noteq> role_admin \<or> 1 < admin_count s"
    using assms(3)
    by (auto simp: set_user_role_def set_user_role_at_def role_change_allowed_def split: option.splits if_splits)
  have wf: "wf_accounts s'" using assms(1,3) by (rule set_user_role_stmt.keeps)
  have "\<exists>k v. map_of (users s') k = Some v \<and> is_admin v"
  proof (cases "is_admin u \<and> role \<noteq> role_admin")
    case True
    then have "1 < admin_count s" using allowed by (simp add: is_admin_def)
    then obtain k v where "k \<noteq> uid" "map_of (users s) k = Some v" "is_admin v"
      by (rule second_admin [OF assms(1), of uid])
    then show ?thesis by (auto simp: s' update_conv')
  next
    case False
    obtain k v where kv: "map_of (users s) k = Some v" "is_admin v" using assms(2) has_admin_of [OF assms(1)] by blast
    then show ?thesis
      using False u by (cases "k = uid") (auto simp: s' update_conv' is_admin_def intro: exI [of _ k])
  qed
  then show ?thesis unfolding has_admin_of [OF wf] .
qed

lemma has_admin_create:
  assumes "wf_accounts s" "has_admin s" "create_user e email role s = Inr (x, s')"
  shows "has_admin s'"
proof -
  obtain k v where kv: "map_of (users s) k = Some v" "is_admin v" using assms(2) has_admin_of [OF assms(1)] by blast
  have keyed: "keyed (users s)" using assms(1) by (simp add: wf_accounts_def wf_users_def)
  have "map_of (users s') k = Some v"
  proof (cases "find_row (\<lambda>u. us_email u = normalize_email email) (users s)")
    case None
    then show ?thesis
      using assms(3) kv(1) by (auto simp: create_user_def upsert_user_def user_checks_def result_iff Let_def
        map_add_dom_app_simps split: if_splits)
  next
    case (Some ju)
    obtain j u where ju: "ju = (j, u)" by (cases ju)
    have "map_of (users s) j = Some u"
      using find_row_Some [OF Some [unfolded ju]] keyed by (auto intro: map_of_is_SomeI)
    then show ?thesis
      using assms(3) kv(1) Some ju by (auto simp: create_user_def upsert_user_def user_checks_def result_iff update_conv')
  qed
  with kv(2) show ?thesis unfolding has_admin_of [OF create_user_stmt.keeps [OF assms(1,3)]] by blast
qed

lemma exec_admin:
  "wf_accounts s \<Longrightarrow> has_admin s \<Longrightarrow>
     (\<And>x s'. wf_accounts s \<Longrightarrow> has_admin s \<Longrightarrow> op (cn_env cx n) s = Inr (x, s') \<Longrightarrow> has_admin s') \<Longrightarrow>
     has_admin (snd (exec cx n op s))"
  by (rule exec_keeps) blast+

lemma has_admin_users: "users s' = users s \<Longrightarrow> has_admin s' = has_admin s"
  by (simp add: has_admin_def admin_count_def)

lemma same_users_credentials:
  "create_credential c e description owner scope s = Inr (x1, s') \<Longrightarrow> users s' = users s"
  "revoke_credential e key s = Inr (x2, s') \<Longrightarrow> users s' = users s"
  "set_credential_scope key scope s = Inr (x2, s') \<Longrightarrow> users s' = users s"
  by (auto simp: create_credential_def revoke_credential_def set_credential_scope_def change_active_key_def
    result_iff Let_def split: if_splits prod.splits)

text \<open>
  A step changes no key and no role, or it is in the name of an administrator; and one of those keeps
  an administrator.
\<close>

lemma step_kinds:
  assumes "account_step sv cx who s s'"
  shows "managed s' = managed s \<or>
    (\<exists>u. who = Some u \<and> is_admin u) \<and> (wf_accounts s \<longrightarrow> has_admin s \<longrightarrow> has_admin s')" (is "_ \<or> ?admin")
  using assms
proof cases
  case (Appended entries)
  then show ?thesis by (simp add: managed_def role_part_def append_audit_def)
next
  case (Logged_In n uid)
  show ?thesis unfolding Logged_In by (rule disjI1, rule exec_same, rule managed_login)
next
  case (Changed_Own u current v n password must_change)
  show ?thesis unfolding Changed_Own(1) by (rule disjI1, rule exec_same, rule managed_set_password)
next
  case (Attempted n email ip ok)
  show ?thesis unfolding Attempted by (rule disjI1, rule exec_managed, rule same_users_statements(1))
next
  case (Cleared n email)
  show ?thesis unfolding Cleared by (rule disjI1, rule exec_managed, rule same_users_statements(2))
next
  case (Started n token hash uid idle absolute agent ip)
  show ?thesis unfolding Started(1) by (rule disjI1, rule exec_managed, rule same_users_statements(3))
next
  case (Audited n entry actor ip)
  show ?thesis unfolding Audited by (rule disjI1, rule exec_managed, rule same_users_statements(4))
next
  case (Touched n hash idle)
  show ?thesis unfolding Touched by (rule disjI1, rule exec_managed, rule same_users_statements(5))
next
  case (Signed_Out n hash)
  show ?thesis unfolding Signed_Out by (rule disjI1, rule exec_managed, rule same_users_statements(6))
next
  case (Revoked_One u n sid)
  show ?thesis unfolding Revoked_One(1) by (rule disjI1, rule exec_managed, rule same_users_statements(7))
next
  case (Revoked_Others u n hash)
  show ?thesis unfolding Revoked_Others(1) by (rule disjI1, rule exec_managed, rule same_users_statements(8))
next
  case (Ejected u n uid)
  show ?thesis unfolding Ejected(1) by (rule disjI1, rule exec_managed, rule same_users_statements(9))
next
  case (Reset u n uid password must_change)
  show ?thesis unfolding Reset(1) by (rule disjI1, rule exec_same, rule managed_set_password)
next
  case (Created u n email role)
  have "wf_accounts s \<longrightarrow> has_admin s \<longrightarrow> has_admin s'"
    unfolding Created(1) by (intro impI, rule exec_admin, assumption+) (rule has_admin_create)
  with Created show ?thesis by blast
next
  case (Removed u n uid)
  have "wf_accounts s \<longrightarrow> has_admin s \<longrightarrow> has_admin s'"
    unfolding Removed(1) by (intro impI, rule exec_admin, assumption+) (rule has_admin_delete)
  with Removed show ?thesis by blast
next
  case (Promoted u n uid role)
  have "wf_accounts s \<longrightarrow> has_admin s \<longrightarrow> has_admin s'"
    unfolding Promoted(1) by (intro impI, rule exec_admin, assumption+) (rule has_admin_role)
  with Promoted show ?thesis by blast
next
  case (Key_Created u n c description owner scope)
  have "has_admin s' = has_admin s"
    unfolding Key_Created(1) by (rule exec_same, rule has_admin_users, rule same_users_credentials(1))
  with Key_Created show ?thesis by blast
next
  case (Key_Revoked u n key)
  have "has_admin s' = has_admin s"
    unfolding Key_Revoked(1) by (rule exec_same, rule has_admin_users, rule same_users_credentials(2))
  with Key_Revoked show ?thesis by blast
next
  case (Key_Narrowed u n key scope)
  have "has_admin s' = has_admin s"
    unfolding Key_Narrowed(1) by (rule exec_same, rule has_admin_users, rule same_users_credentials(3))
  with Key_Narrowed show ?thesis by blast
qed

lemma run_managed:
  assumes "account_run sv cx who s s'" "\<And>u. who = Some u \<Longrightarrow> \<not> is_admin u"
  shows "managed s' = managed s"
  using assms(1)
proof (induction rule: rtranclp_induct)
  case (step y z)
  then show ?case using step_kinds [OF step(2)] assms(2) by auto
qed simp

lemma run_admin:
  assumes "account_run sv cx who s s'" "wf_accounts s" "has_admin s"
  shows "wf_accounts s' \<and> has_admin s'"
  using assms(1)
proof (induction rule: rtranclp_induct)
  case (step y z)
  then show ?case using step_kinds [OF step(2)] step_wf [OF step(2)] has_admin_managed by blast
qed (use assms in simp)

subsection \<open>Sessions that have ended\<close>

text \<open>No row with the hash of the token can admit anyone from \<open>now\<close> on.\<close>

definition ended_row :: "time \<Rightarrow> string \<Rightarrow> session \<Rightarrow> bool" where
  "ended_row now hash x \<longleftrightarrow> ss_token_hash x = hash \<longrightarrow> ss_revoked_at x \<noteq> None \<or> ss_absolute_expires_at x \<le> now"

definition ended :: "time \<Rightarrow> string \<Rightarrow> accounts \<Rightarrow> bool" where
  "ended now hash s \<longleftrightarrow> (\<forall>(k, x) \<in> set (sessions s). ended_row now hash x)"

lemma ended_update_rows:
  assumes "ended now hash s" "\<And>x. ended_row now hash x \<Longrightarrow> ended_row now hash (f x)"
  shows "ended now hash (s\<lparr>sessions := update_rows p f (sessions s)\<rparr>)"
  using assms by (fastforce simp: ended_def set_update_rows)

lemma ended_same: "sessions s' = sessions s \<Longrightarrow> ended now hash s \<Longrightarrow> ended now hash s'"
  by (simp add: ended_def)

lemma ended_revoke_where: "ended now hash s \<Longrightarrow> ended now hash (revoke_where e p s)"
  unfolding revoke_where_def by (rule ended_update_rows) (auto simp: ended_row_def)

lemma ended_touch:
  assumes "ended now hash s" "touch_session e other idle s = Inr (x, s')"
  shows "ended now hash s'"
proof -
  have "s' = s\<lparr>sessions := update_rows (\<lambda>x. ss_token_hash x = other \<and> live_session (e_now e) x)
      (renewed (e_now e) idle) (sessions s)\<rparr>"
    using assms(2) by (auto simp: touch_session_def Let_def split: option.splits)
  then show ?thesis using ended_update_rows [OF assms(1)] by (simp add: renewed_def ended_row_def)
qed

lemma ended_create:
  assumes "ended now hash s" "create_session e uid other idle absolute agent ip s = Inr (x, s')" "other \<noteq> hash"
  shows "ended now hash s'"
  using assms by (auto simp: create_session_def result_iff Let_def ended_def ended_row_def split: if_splits)

lemma ended_by_id:
  assumes "ended now hash s" "revoke_session_by_id e uid sid s = Inr (x, s')"
  shows "ended now hash s'"
proof -
  obtain r where s': "s' = s\<lparr>sessions := AList.update sid (r\<lparr>ss_revoked_at := Some (e_now e)\<rparr>) (sessions s)\<rparr>"
    using assms(2) by (auto simp: revoke_session_by_id_def split: option.splits if_splits)
  show ?thesis
    using assms(1) unfolding s' ended_def by (auto simp: ended_row_def elim!: in_set_update_cases)
qed

lemma ended_delete: "ended now hash s \<Longrightarrow> delete_user uid s = Inr (x, s') \<Longrightarrow> ended now hash s'"
  by (auto simp: delete_user_def delete_user_at_def drop_user_def ended_def split: option.splits if_splits)

lemma same_sessions:
  "record_login_attempt e email ip ok s = Inr (x1, s') \<Longrightarrow> sessions s' = sessions s"
  "clear_login_failures email s = Inr (x1, s') \<Longrightarrow> sessions s' = sessions s"
  "record_login e uid s = Inr (x1, s') \<Longrightarrow> sessions s' = sessions s"
  "record_audit e entry actor ip s = Inr (x1, s') \<Longrightarrow> sessions s' = sessions s"
  "set_password h e uid password must_change s = Inr (x1, s') \<Longrightarrow> sessions s' = sessions s"
  "create_user e email role s = Inr (x2, s') \<Longrightarrow> sessions s' = sessions s"
  "set_user_role uid role s = Inr (x1, s') \<Longrightarrow> sessions s' = sessions s"
  "create_credential c e description owner scope s = Inr (x3, s') \<Longrightarrow> sessions s' = sessions s"
  "revoke_credential e key s = Inr (x1, s') \<Longrightarrow> sessions s' = sessions s"
  "set_credential_scope key scope s = Inr (x1, s') \<Longrightarrow> sessions s' = sessions s"
  by (auto simp: statement_defs set_password_def set_password_where_def create_user_def upsert_user_def
    set_user_role_def set_user_role_at_def create_credential_def revoke_credential_def set_credential_scope_def
    change_active_key_def result_iff Let_def split: if_splits option.splits prod.splits)

lemma exec_sessions:
  "ended now hash s \<Longrightarrow> (\<And>x s'. op (cn_env cx n) s = Inr (x, s') \<Longrightarrow> sessions s' = sessions s) \<Longrightarrow>
     ended now hash (snd (exec cx n op s))"
  by (rule exec_keeps) (auto intro: ended_same)

text \<open>Drawing the token anew is the one way to make it good again.\<close>

definition never_drawn :: "console \<Rightarrow> weather \<Rightarrow> string \<Rightarrow> bool" where
  "never_drawn sv cx hash \<longleftrightarrow> (\<forall>n token. new_token (cv_hashes sv) (cn_env cx n) \<noteq> Inr (token, hash))"

lemma exec_ended:
  "ended now hash s \<Longrightarrow>
     (\<And>x s'. ended now hash s \<Longrightarrow> op (cn_env cx n) s = Inr (x, s') \<Longrightarrow> ended now hash s') \<Longrightarrow>
     ended now hash (snd (exec cx n op s))"
  by (rule exec_keeps) blast+

lemma ended_revocations:
  "ended now hash s \<Longrightarrow> revoke_session e other s = Inr (x1, s') \<Longrightarrow> ended now hash s'"
  "ended now hash s \<Longrightarrow> revoke_other_sessions e uid other s = Inr (x2, s') \<Longrightarrow> ended now hash s'"
  "ended now hash s \<Longrightarrow> revoke_user_sessions e uid s = Inr (x1, s') \<Longrightarrow> ended now hash s'"
  by (auto simp: revoke_session_def revoke_other_sessions_def revoke_user_sessions_def Let_def intro: ended_revoke_where)

lemma step_ended:
  assumes "account_step sv cx who s s'" "ended now hash s" "never_drawn sv cx hash"
  shows "ended now hash s'"
  using assms(1)
proof cases
  case (Appended entries)
  then show ?thesis using assms(2) by (simp add: append_audit_def ended_def)
next
  case (Started n token other uid idle absolute agent ip)
  then have "other \<noteq> hash" using assms(3) by (auto simp: never_drawn_def)
  then show ?thesis unfolding Started(1) using ended_create by (intro exec_ended assms(2)) blast
next
  case (Touched n other idle)
  show ?thesis unfolding Touched by (rule exec_ended [OF assms(2)], rule ended_touch)
next
  case (Signed_Out n other)
  show ?thesis unfolding Signed_Out by (rule exec_ended [OF assms(2)], rule ended_revocations(1))
next
  case (Revoked_One u n sid)
  show ?thesis unfolding Revoked_One(1) by (rule exec_ended [OF assms(2)], rule ended_by_id)
next
  case (Revoked_Others u n other)
  show ?thesis unfolding Revoked_Others(1) by (rule exec_ended [OF assms(2)], rule ended_revocations(2))
next
  case (Ejected u n uid)
  show ?thesis unfolding Ejected(1) by (rule exec_ended [OF assms(2)], rule ended_revocations(3))
next
  case (Removed u n uid)
  show ?thesis unfolding Removed(1) by (rule exec_ended [OF assms(2)], rule ended_delete)
next
  case (Attempted n email ip ok)
  show ?thesis unfolding Attempted by (rule exec_sessions [OF assms(2)], rule same_sessions(1))
next
  case (Cleared n email)
  show ?thesis unfolding Cleared by (rule exec_sessions [OF assms(2)], rule same_sessions(2))
next
  case (Logged_In n uid)
  show ?thesis unfolding Logged_In by (rule exec_sessions [OF assms(2)], rule same_sessions(3))
next
  case (Audited n entry actor ip)
  show ?thesis unfolding Audited by (rule exec_sessions [OF assms(2)], rule same_sessions(4))
next
  case (Changed_Own u current v n password must_change)
  show ?thesis unfolding Changed_Own(1) by (rule exec_sessions [OF assms(2)], rule same_sessions(5))
next
  case (Created u n email role)
  show ?thesis unfolding Created(1) by (rule exec_sessions [OF assms(2)], rule same_sessions(6))
next
  case (Reset u n uid password must_change)
  show ?thesis unfolding Reset(1) by (rule exec_sessions [OF assms(2)], rule same_sessions(5))
next
  case (Promoted u n uid role)
  show ?thesis unfolding Promoted(1) by (rule exec_sessions [OF assms(2)], rule same_sessions(7))
next
  case (Key_Created u n c description owner scope)
  show ?thesis unfolding Key_Created(1) by (rule exec_sessions [OF assms(2)], rule same_sessions(8))
next
  case (Key_Revoked u n key)
  show ?thesis unfolding Key_Revoked(1) by (rule exec_sessions [OF assms(2)], rule same_sessions(9))
next
  case (Key_Narrowed u n key scope)
  show ?thesis unfolding Key_Narrowed(1) by (rule exec_sessions [OF assms(2)], rule same_sessions(10))
qed

lemma run_ended:
  "account_run sv cx who s s' \<Longrightarrow> ended now hash s \<Longrightarrow> never_drawn sv cx hash \<Longrightarrow> ended now hash s'"
  by (induction rule: rtranclp_induct) (auto intro: step_ended)

text \<open>An ended session admits nobody.\<close>

lemma ended_refused:
  assumes "ended now (hash_token (cv_hashes sv) token) s" "now \<le> e_now (cn_env cx 0)"
    and "request_cookie r session_cookie_name = Some token"
  shows "\<not> admitted sv cx r s u"
  using assms by (fastforce simp: admitted_def ended_def ended_row_def live_session_def)

subsection \<open>Passwords\<close>

definition password_of :: "string \<Rightarrow> accounts \<Rightarrow> string option option" where
  "password_of k s = map_option us_password_hash (map_of (users s) k)"

lemma exec_password:
  "(\<And>x s'. op (cn_env cx n) s = Inr (x, s') \<Longrightarrow> users s' = users s \<and> credentials s' = credentials s) \<Longrightarrow>
     password_of k (snd (exec cx n op s)) = password_of k s"
  by (rule exec_same) (simp add: password_of_def)

lemma password_login: "record_login e uid s = Inr (x, s') \<Longrightarrow> password_of k s' = password_of k s"
  by (cases "map_of (users s) k") (auto simp: record_login_def password_of_def map_of_update_rows)

lemma password_set_other:
  assumes "wf_accounts s" "k \<noteq> uid" "set_password h e uid password must_change s = Inr (x, s')"
  shows "password_of k s' = password_of k s"
proof -
  have "us_id u = k" if "map_of (users s) k = Some u" for u
    using assms(1) map_of_SomeD [OF that] by (auto simp: wf_accounts_def wf_users_def)
  then show ?thesis
    using assms(2,3) by (cases "map_of (users s) k") (auto simp: set_password_def set_password_where_def result_iff
      password_of_def map_of_update_rows split: if_splits)
qed

lemma step_password:
  assumes "account_step sv cx who s s'" "wf_accounts s"
    and "\<And>u. who = Some u \<Longrightarrow> \<not> is_admin u \<and> us_id u \<noteq> k"
  shows "password_of k s' = password_of k s"
  using assms(1)
proof cases
  case (Appended entries)
  then show ?thesis by (simp add: append_audit_def password_of_def)
next
  case (Logged_In n uid)
  show ?thesis unfolding Logged_In by (rule exec_same, rule password_login)
next
  case (Changed_Own u current v n password must_change)
  then have "k \<noteq> us_id u" using assms(3) by blast
  then show ?thesis unfolding Changed_Own(1) by (intro exec_same password_set_other [OF assms(2)])
next
  case (Attempted n email ip ok)
  show ?thesis unfolding Attempted by (rule exec_password, rule same_users_statements(1))
next
  case (Cleared n email)
  show ?thesis unfolding Cleared by (rule exec_password, rule same_users_statements(2))
next
  case (Started n token hash uid idle absolute agent ip)
  show ?thesis unfolding Started(1) by (rule exec_password, rule same_users_statements(3))
next
  case (Audited n entry actor ip)
  show ?thesis unfolding Audited by (rule exec_password, rule same_users_statements(4))
next
  case (Touched n hash idle)
  show ?thesis unfolding Touched by (rule exec_password, rule same_users_statements(5))
next
  case (Signed_Out n hash)
  show ?thesis unfolding Signed_Out by (rule exec_password, rule same_users_statements(6))
next
  case (Revoked_One u n sid)
  show ?thesis unfolding Revoked_One(1) by (rule exec_password, rule same_users_statements(7))
next
  case (Revoked_Others u n hash)
  show ?thesis unfolding Revoked_Others(1) by (rule exec_password, rule same_users_statements(8))
qed (use assms(3) in simp_all)

lemma run_password:
  assumes "account_run sv cx who s s'" "wf_accounts s"
    and "\<And>u. who = Some u \<Longrightarrow> \<not> is_admin u \<and> us_id u \<noteq> k"
  shows "password_of k s' = password_of k s \<and> wf_accounts s'"
  using assms(1)
proof (induction rule: rtranclp_induct)
  case (step y z)
  then show ?case using step_password [OF step(2) _ assms(3)] step_wf [OF step(2)] by auto
qed (use assms(2) in simp)

subsection \<open>Revoked keys\<close>

definition key_dead :: "string \<Rightarrow> accounts \<Rightarrow> bool" where
  "key_dead key s \<longleftrightarrow> (\<forall>(k, r) \<in> set (credentials s). cd_access_key_id r = key \<longrightarrow> cd_revoked_at r \<noteq> None)"

definition key_never_drawn :: "weather \<Rightarrow> string \<Rightarrow> bool" where
  "key_never_drawn cx key \<longleftrightarrow> (\<forall>n. generate_access_key_id (cn_env cx n) \<noteq> Inr key)"

lemma key_dead_lookup:
  assumes "key_dead key s"
  shows "key_lookup c s key = None"
proof (cases "find_row (\<lambda>r. cd_access_key_id r = key) (credentials s)")
  case (Some kr)
  obtain k r where kr: "kr = (k, r)" by (cases kr)
  have "cd_revoked_at r \<noteq> None"
    using find_row_Some [OF Some [unfolded kr]] assms unfolding key_dead_def by blast
  then show ?thesis using Some kr by (simp add: key_lookup_def lookup_credential_def)
qed (simp add: key_lookup_def lookup_credential_def)

lemma key_dead_same: "credentials s' = credentials s \<Longrightarrow> key_dead key s \<Longrightarrow> key_dead key s'"
  by (simp add: key_dead_def)

lemma key_dead_change:
  assumes "key_dead key s" "change_active_key other f s = Inr (x, s')" "\<And>r. cd_access_key_id (f r) = cd_access_key_id r"
    and "\<And>r. cd_revoked_at r \<noteq> None \<Longrightarrow> cd_revoked_at (f r) \<noteq> None"
  shows "key_dead key s'"
proof -
  have s': "s' = s\<lparr>credentials := update_rows (active_key other) f (credentials s)\<rparr>"
    using assms(2) by (auto simp: change_active_key_def split: if_splits)
  show ?thesis
    unfolding key_dead_def s' using assms(1,3,4) by (fastforce simp: set_update_rows key_dead_def)
qed

lemma key_dead_revoke: "key_dead key s \<Longrightarrow> revoke_credential e other s = Inr (x, s') \<Longrightarrow> key_dead key s'"
  unfolding revoke_credential_def by (erule (1) key_dead_change) auto

lemma key_dead_narrow: "key_dead key s \<Longrightarrow> set_credential_scope other scope s = Inr (x, s') \<Longrightarrow> key_dead key s'"
  unfolding set_credential_scope_def result_iff by (elim exE conjE, erule (1) key_dead_change) auto

lemma key_dead_delete: "key_dead key s \<Longrightarrow> delete_user uid s = Inr (x, s') \<Longrightarrow> key_dead key s'"
  by (auto simp: delete_user_def delete_user_at_def drop_user_def key_dead_def split: option.splits if_splits)

lemma key_dead_create:
  assumes "key_dead key s" "create_credential c e description owner scope s = Inr (x, s')"
    and "generate_access_key_id e \<noteq> Inr key"
  shows "key_dead key s'"
proof -
  obtain secret r where x: "x = (secret, r)" by (cases x)
  have "generate_access_key_id e = Inr (cd_access_key_id r)"
    using assms(2) x by (auto simp: create_credential_def result_iff Let_def split: if_splits prod.splits)
  with assms(1,3) show ?thesis using create_credential_row(1) [OF assms(2) [unfolded x]] by (auto simp: key_dead_def)
qed

lemma exec_dead:
  "key_dead key s \<Longrightarrow> (\<And>x s'. op (cn_env cx n) s = Inr (x, s') \<Longrightarrow> key_dead key s \<Longrightarrow> key_dead key s') \<Longrightarrow>
     key_dead key (snd (exec cx n op s))"
  by (rule exec_keeps) blast+

lemma exec_dead_same:
  "key_dead key s \<Longrightarrow> (\<And>x s'. op (cn_env cx n) s = Inr (x, s') \<Longrightarrow> users s' = users s \<and> credentials s' = credentials s) \<Longrightarrow>
     key_dead key (snd (exec cx n op s))"
  by (rule exec_dead) (auto intro: key_dead_same)

lemma exec_dead_credentials:
  "key_dead key s \<Longrightarrow> (\<And>x s'. op (cn_env cx n) s = Inr (x, s') \<Longrightarrow> credentials s' = credentials s) \<Longrightarrow>
     key_dead key (snd (exec cx n op s))"
  by (rule exec_dead) (auto intro: key_dead_same)

lemma same_credentials:
  "record_login e uid s = Inr (x1, s') \<Longrightarrow> credentials s' = credentials s"
  "set_password h e uid password must_change s = Inr (x1, s') \<Longrightarrow> credentials s' = credentials s"
  "create_user e email role s = Inr (x2, s') \<Longrightarrow> credentials s' = credentials s"
  "set_user_role uid role s = Inr (x1, s') \<Longrightarrow> credentials s' = credentials s"
  by (auto simp: record_login_def set_password_def set_password_where_def create_user_def upsert_user_def
    set_user_role_def set_user_role_at_def result_iff Let_def split: if_splits option.splits prod.splits)

lemma step_dead:
  assumes "account_step sv cx who s s'" "key_dead key s" "key_never_drawn cx key"
  shows "key_dead key s'"
  using assms(1)
proof cases
  case (Appended entries)
  then show ?thesis using assms(2) by (simp add: append_audit_def key_dead_def)
next
  case (Removed u n uid)
  show ?thesis unfolding Removed(1) by (rule exec_dead [OF assms(2)]) (rule key_dead_delete)
next
  case (Key_Created u n c description owner scope)
  show ?thesis
    unfolding Key_Created(1) using assms(3) key_dead_create
    by (intro exec_dead assms(2)) (simp add: key_never_drawn_def)
next
  case (Key_Revoked u n other)
  show ?thesis unfolding Key_Revoked(1) by (rule exec_dead [OF assms(2)]) (rule key_dead_revoke)
next
  case (Key_Narrowed u n other scope)
  show ?thesis unfolding Key_Narrowed(1) by (rule exec_dead [OF assms(2)]) (rule key_dead_narrow)
next
  case (Attempted n email ip ok)
  show ?thesis unfolding Attempted by (rule exec_dead_same [OF assms(2)], rule same_users_statements(1))
next
  case (Cleared n email)
  show ?thesis unfolding Cleared by (rule exec_dead_same [OF assms(2)], rule same_users_statements(2))
next
  case (Started n token hash uid idle absolute agent ip)
  show ?thesis unfolding Started(1) by (rule exec_dead_same [OF assms(2)], rule same_users_statements(3))
next
  case (Audited n entry actor ip)
  show ?thesis unfolding Audited by (rule exec_dead_same [OF assms(2)], rule same_users_statements(4))
next
  case (Touched n hash idle)
  show ?thesis unfolding Touched by (rule exec_dead_same [OF assms(2)], rule same_users_statements(5))
next
  case (Signed_Out n hash)
  show ?thesis unfolding Signed_Out by (rule exec_dead_same [OF assms(2)], rule same_users_statements(6))
next
  case (Revoked_One u n sid)
  show ?thesis unfolding Revoked_One(1) by (rule exec_dead_same [OF assms(2)], rule same_users_statements(7))
next
  case (Revoked_Others u n hash)
  show ?thesis unfolding Revoked_Others(1) by (rule exec_dead_same [OF assms(2)], rule same_users_statements(8))
next
  case (Ejected u n uid)
  show ?thesis unfolding Ejected(1) by (rule exec_dead_same [OF assms(2)], rule same_users_statements(9))
next
  case (Logged_In n uid)
  show ?thesis unfolding Logged_In by (rule exec_dead_credentials [OF assms(2)], rule same_credentials(1))
next
  case (Changed_Own u current v n password must_change)
  show ?thesis unfolding Changed_Own(1) by (rule exec_dead_credentials [OF assms(2)], rule same_credentials(2))
next
  case (Reset u n uid password must_change)
  show ?thesis unfolding Reset(1) by (rule exec_dead_credentials [OF assms(2)], rule same_credentials(2))
next
  case (Created u n email role)
  show ?thesis unfolding Created(1) by (rule exec_dead_credentials [OF assms(2)], rule same_credentials(3))
next
  case (Promoted u n uid role)
  show ?thesis unfolding Promoted(1) by (rule exec_dead_credentials [OF assms(2)], rule same_credentials(4))
qed

lemma run_dead:
  "account_run sv cx who s s' \<Longrightarrow> key_dead key s \<Longrightarrow> key_never_drawn cx key \<Longrightarrow> key_dead key s'"
  by (induction rule: rtranclp_induct) (auto intro: step_dead)

end
