(* ===== verification/Request_Logs.thy ===== *)
theory Request_Logs
  imports Complex_Main Buckets Accounts Verify
begin

text \<open>
  The request log and the server events: what is kept of them (\<^verbatim>\<open>internal/logs/sink.go\<close>,
  \<^verbatim>\<open>handler.go\<close>), the tables they end in and the questions asked of those (\<^verbatim>\<open>internal/db/logs.go\<close> and the
  reports of \<^verbatim>\<open>internal/db/alerts.go\<close>). A \<^verbatim>\<open>float64\<close> is the rational it stands for.
\<close>

subsection \<open>Entries\<close>

text \<open>\<open>rl_at\<close> and \<open>ev_at\<close> are \<open>None\<close> for the zero time.\<close>

record request_log =
  rl_at :: "time option"
  rl_request_id :: string
  rl_node :: string
  rl_surface :: string
  rl_method :: string
  rl_bucket :: string
  rl_key :: string
  rl_path :: string
  rl_operation :: string
  rl_status :: int
  rl_error_code :: string
  rl_reason :: string
  rl_bytes_in :: int
  rl_bytes_out :: int
  rl_duration_ms :: int
  rl_access_key_id :: string
  rl_actor :: string
  rl_client_ip :: string
  rl_user_agent :: string
  rl_sampled :: bool

record server_event =
  ev_at :: "time option"
  ev_node :: string
  ev_level :: string
  ev_message :: string
  ev_attributes :: "(string \<times> string) list"

subsection \<open>The sink\<close>

record policy =
  pl_sample_rate :: rat
  pl_slow_threshold :: time

record sink =
  sk_requests :: "request_log list"
  sk_events :: "server_event list"
  sk_policy :: policy
  sk_node :: string
  sk_dropped :: nat
  sk_dropped_total :: nat

definition millisecond :: time where "millisecond = 1000000"
definition max_buffer :: nat where "max_buffer = 20000"

definition default_policy :: policy where
  "default_policy = \<lparr>pl_sample_rate = 1 / 100, pl_slow_threshold = 3 * second\<rparr>"

definition new_sink :: "string \<Rightarrow> policy \<Rightarrow> sink" where
  "new_sink node p =
     \<lparr>sk_requests = [], sk_events = [], sk_policy = p\<lparr>pl_sample_rate := min 1 (max 0 (pl_sample_rate p))\<rparr>,
      sk_node = node, sk_dropped = 0, sk_dropped_total = 0\<rparr>"

definition set_policy :: "policy \<Rightarrow> sink \<Rightarrow> sink" where
  "set_policy p sk = sk\<lparr>sk_policy := p\<rparr>"

definition slow_request :: "policy \<Rightarrow> request_log \<Rightarrow> bool" where
  "slow_request p x \<longleftrightarrow> 0 < pl_slow_threshold p \<and> pl_slow_threshold p \<le> wrap64 (rl_duration_ms x * millisecond)"

definition failed_request :: "request_log \<Rightarrow> bool" where
  "failed_request x \<longleftrightarrow> 400 \<le> rl_status x"

text \<open>What is kept of an entry; \<open>draw\<close> is the random number, at least 0 and below 1.\<close>

definition kept_entry :: "policy \<Rightarrow> rat \<Rightarrow> request_log \<Rightarrow> request_log option" where
  "kept_entry p draw x =
     (if failed_request x \<or> slow_request p x then Some (x\<lparr>rl_sampled := False\<rparr>)
      else if draw < pl_sample_rate p then Some (x\<lparr>rl_sampled := True\<rparr>)
      else None)"

definition drop_entry :: "sink \<Rightarrow> sink" where
  "drop_entry sk = sk\<lparr>sk_dropped := sk_dropped sk + 1, sk_dropped_total := sk_dropped_total sk + 1\<rparr>"

definition record_request :: "rat \<Rightarrow> request_log \<Rightarrow> sink \<Rightarrow> sink" where
  "record_request draw x sk =
     (case kept_entry (sk_policy sk) draw x of
        None \<Rightarrow> sk
      | Some y \<Rightarrow>
          if max_buffer \<le> length (sk_requests sk) then drop_entry sk
          else sk\<lparr>sk_requests := sk_requests sk @ [y\<lparr>rl_node := sk_node sk\<rparr>]\<rparr>)"

definition record_event :: "server_event \<Rightarrow> sink \<Rightarrow> sink" where
  "record_event ev sk =
     (if max_buffer \<le> length (sk_events sk) then drop_entry sk
      else sk\<lparr>sk_events := sk_events sk @ [ev\<lparr>ev_node := sk_node sk\<rparr>]\<rparr>)"

definition drain :: "sink \<Rightarrow> (request_log list \<times> server_event list \<times> nat) \<times> sink" where
  "drain sk = ((sk_requests sk, sk_events sk, sk_dropped sk), sk\<lparr>sk_requests := [], sk_events := [], sk_dropped := 0\<rparr>)"

subsection \<open>The logger\<close>

text \<open>A record as \<^verbatim>\<open>slog\<close> hands it on; the levels are its numbers, 4 for a warning, 8 for an error.\<close>

record log_record =
  lg_level :: int
  lg_time :: "time option"
  lg_message :: string
  lg_attrs :: "(string \<times> string) list"

definition skip_key :: string where "skip_key = ''__request_scoped''"

definition with_attrs :: "bool \<Rightarrow> (string \<times> string) list \<Rightarrow> bool" where
  "with_attrs skipped attrs \<longleftrightarrow> skipped \<or> skip_key \<in> fst ` set attrs"

definition event_of :: "time \<Rightarrow> log_record \<Rightarrow> server_event" where
  "event_of now r =
     \<lparr>ev_at = Some (case lg_time r of None \<Rightarrow> now | Some t \<Rightarrow> t), ev_node = [],
      ev_level = (if 8 \<le> lg_level r then ''ERROR'' else ''WARN''), ev_message = lg_message r,
      ev_attributes = fold (\<lambda>(k, v). AList.update k v) (lg_attrs r) []\<rparr>"

definition handle_record :: "bool \<Rightarrow> time \<Rightarrow> log_record \<Rightarrow> sink \<Rightarrow> sink" where
  "handle_record skipped now r sk =
     (if lg_level r < 4 \<or> skipped \<or> skip_key \<in> fst ` set (lg_attrs r) then sk
      else record_event (event_of now r) sk)"

subsection \<open>The tables\<close>

text \<open>A row holds its entry as it was cut to the columns, and the address as Postgres parsed it.\<close>

record log_row =
  lw_id :: int
  lw_at :: time
  lw_ip :: "ip option"
  lw_entry :: request_log

record event_row =
  er_id :: int
  er_at :: time
  er_event :: server_event

record log_db =
  ld_requests :: "log_row list"
  ld_events :: "event_row list"
  ld_next_request :: int
  ld_next_event :: int

definition empty_log_db :: log_db where
  "empty_log_db = \<lparr>ld_requests = [], ld_events = [], ld_next_request = 1, ld_next_event = 1\<rparr>"

definition truncate_text :: "string \<Rightarrow> nat \<Rightarrow> string" where
  "truncate_text s n = (if length s \<le> n then s else take n s)"

definition surface_or_default :: "string \<Rightarrow> string" where
  "surface_or_default s = (if s = ''console'' then ''console'' else ''s3'')"

definition stored_entry :: "request_log \<Rightarrow> request_log" where
  "stored_entry x = x\<lparr>rl_surface := surface_or_default (rl_surface x), rl_key := truncate_text (rl_key x) 1024,
     rl_path := truncate_text (rl_path x) 2048, rl_reason := truncate_text (rl_reason x) 2048,
     rl_user_agent := truncate_text (rl_user_agent x) 512\<rparr>"

definition entry_ok :: "request_log \<Rightarrow> bool" where
  "entry_ok x \<longleftrightarrow>
     list_all text_ok [rl_request_id x, rl_node x, rl_method x, rl_bucket x, rl_key x, rl_path x, rl_operation x,
       rl_error_code x, rl_reason x, rl_access_key_id x, rl_actor x, rl_user_agent x] \<and>
     - (2 ^ 15) \<le> rl_status x \<and> rl_status x < 2 ^ 15 \<and> - (2 ^ 31) \<le> rl_duration_ms x \<and> rl_duration_ms x < 2 ^ 31"

text \<open>The copy protocol encodes an address without its zone.\<close>

definition copied_ip :: "string \<Rightarrow> ip option" where
  "copied_ip raw = (if raw = [] then None else map_option fst (parse_addr raw))"

definition log_row_of :: "time \<Rightarrow> int \<Rightarrow> request_log \<Rightarrow> log_row" where
  "log_row_of now n x =
     \<lparr>lw_id = n, lw_at = (case rl_at x of None \<Rightarrow> now | Some t \<Rightarrow> t), lw_ip = copied_ip (rl_client_ip x),
      lw_entry = stored_entry x\<rparr>"

text \<open>One copy: a row that a column refuses fails them all.\<close>

definition insert_request_logs :: "time \<Rightarrow> request_log list \<Rightarrow> log_db \<Rightarrow> account_error + log_db" where
  "insert_request_logs now xs d =
     (if list_all (entry_ok \<circ> stored_entry) xs
      then Inr (d\<lparr>ld_requests := ld_requests d @ map (\<lambda>(i, x). log_row_of now (ld_next_request d + int i) x) (enumerate 0 xs),
        ld_next_request := ld_next_request d + int (length xs)\<rparr>)
      else Inl (ErrQuery ''invalid byte sequence''))"

definition stored_event :: "server_event \<Rightarrow> server_event" where
  "stored_event ev = ev\<lparr>ev_message := truncate_text (ev_message ev) 2048\<rparr>"

text \<open>The attributes are JSON, where only the character NUL is refused.\<close>

definition storable_event :: "server_event \<Rightarrow> bool" where
  "storable_event ev \<longleftrightarrow> text_ok (ev_node ev) \<and> text_ok (ev_message ev) \<and> ev_level ev \<in> {''WARN'', ''ERROR''} \<and>
     list_all (\<lambda>(k, v). CHR 0x00 \<notin> set k \<and> CHR 0x00 \<notin> set v) (ev_attributes ev)"

definition insert_server_events :: "time \<Rightarrow> server_event list \<Rightarrow> log_db \<Rightarrow> account_error + log_db" where
  "insert_server_events now evs d =
     (if list_all (storable_event \<circ> stored_event) evs
      then Inr (d\<lparr>ld_events := ld_events d @ map (\<lambda>(i, ev). \<lparr>er_id = ld_next_event d + int i,
          er_at = (case ev_at ev of None \<Rightarrow> now | Some t \<Rightarrow> t), er_event = stored_event ev\<rparr>) (enumerate 0 evs),
        ld_next_event := ld_next_event d + int (length evs)\<rparr>)
      else Inl (ErrQuery ''invalid byte sequence''))"

text \<open>\<open>down\<close> says which of the two copies loses its connection. What fails is gone.\<close>

definition flush_sink :: "(nat \<Rightarrow> bool) \<Rightarrow> time \<Rightarrow> sink \<times> log_db \<Rightarrow> sink \<times> log_db" where
  "flush_sink down now = (\<lambda>(sk, d).
     let ((requests, events, dropped), sk') = drain sk;
         d1 = (if requests = [] \<or> down 0 then d
               else case insert_request_logs now requests d of Inl _ \<Rightarrow> d | Inr d' \<Rightarrow> d');
         d2 = (if events = [] \<or> down 1 then d1
               else case insert_server_events now events d1 of Inl _ \<Rightarrow> d1 | Inr d' \<Rightarrow> d')
     in (sk', d2))"

subsection \<open>Queries\<close>

record log_filter =
  lf_since :: "time option"
  lf_until :: "time option"
  lf_surface :: string
  lf_status_from :: int
  lf_status_to :: int
  lf_only_errors :: bool
  lf_error_code :: string
  lf_bucket :: string
  lf_key_prefix :: string
  lf_method :: string
  lf_operation :: string
  lf_access_key_id :: string
  lf_search :: string
  lf_min_duration_ms :: int
  lf_before :: int
  lf_limit :: int

definition all_logs :: log_filter where
  "all_logs = \<lparr>lf_since = None, lf_until = None, lf_surface = [], lf_status_from = 0, lf_status_to = 0,
     lf_only_errors = False, lf_error_code = [], lf_bucket = [], lf_key_prefix = [], lf_method = [], lf_operation = [],
     lf_access_key_id = [], lf_search = [], lf_min_duration_ms = 0, lf_before = 0, lf_limit = 0\<rparr>"

text \<open>\<^verbatim>\<open>ILIKE\<close>, on ASCII text.\<close>

definition ilike :: "string \<Rightarrow> string \<Rightarrow> bool" where
  "ilike p t \<longleftrightarrow> like (to_lower p) (to_lower t)"

definition log_matches :: "log_filter \<Rightarrow> log_row \<Rightarrow> bool" where
  "log_matches f r \<longleftrightarrow> (let x = lw_entry r in
     (\<forall>t \<in> set_option (lf_since f). t \<le> lw_at r) \<and> (\<forall>t \<in> set_option (lf_until f). lw_at r \<le> t) \<and>
     (lf_surface f = [] \<or> rl_surface x = lf_surface f) \<and> (lf_only_errors f \<longrightarrow> 400 \<le> rl_status x) \<and>
     (lf_status_from f \<le> 0 \<or> lf_status_from f \<le> rl_status x) \<and> (lf_status_to f \<le> 0 \<or> rl_status x \<le> lf_status_to f) \<and>
     (lf_error_code f = [] \<or> rl_error_code x = lf_error_code f) \<and> (lf_bucket f = [] \<or> rl_bucket x = lf_bucket f) \<and>
     (lf_key_prefix f = [] \<or> like (lf_key_prefix f @ ''%'') (rl_key x)) \<and> (lf_method f = [] \<or> rl_method x = lf_method f) \<and>
     (lf_operation f = [] \<or> rl_operation x = lf_operation f) \<and>
     (lf_access_key_id f = [] \<or> rl_access_key_id x = lf_access_key_id f) \<and>
     (lf_min_duration_ms f \<le> 0 \<or> lf_min_duration_ms f \<le> rl_duration_ms x) \<and>
     (lf_search f = [] \<or> ilike (''%'' @ lf_search f @ ''%'') (rl_key x) \<or>
        ilike (''%'' @ lf_search f @ ''%'') (rl_reason x) \<or> rl_request_id x = lf_search f) \<and>
     (lf_before f \<le> 0 \<or> lw_id r < lf_before f))"

definition log_limit :: "int \<Rightarrow> nat" where
  "log_limit n = nat (if n \<le> 0 \<or> 500 < n then 100 else n)"

definition list_request_logs :: "log_db \<Rightarrow> log_filter \<Rightarrow> log_row list" where
  "list_request_logs d f =
     take (log_limit (lf_limit f)) (sort_key (\<lambda>r. Desc (lw_id r)) (filter (log_matches f) (ld_requests d)))"

definition list_request_logs_since :: "log_db \<Rightarrow> log_filter \<Rightarrow> int \<Rightarrow> log_row list" where
  "list_request_logs_since d f after = filter (\<lambda>r. after < lw_id r) (list_request_logs d (f\<lparr>lf_before := 0\<rparr>))"

definition list_server_events :: "log_db \<Rightarrow> string \<Rightarrow> int \<Rightarrow> int \<Rightarrow> event_row list" where
  "list_server_events d level before_id n =
     take (log_limit n) (sort_key (\<lambda>r. Desc (er_id r))
       (filter (\<lambda>r. (level = [] \<or> ev_level (er_event r) = level) \<and> (before_id = 0 \<or> er_id r < before_id)) (ld_events d)))"

text \<open>One tick of the live tail: the entries sent, oldest first, and the newest identifier seen.\<close>

definition tail_tick :: "log_db \<Rightarrow> log_filter \<Rightarrow> int \<Rightarrow> log_row list \<times> int" where
  "tail_tick d f last_id =
     (let entries = rev (list_request_logs_since d f last_id)
      in (entries, fold (\<lambda>r n. max (lw_id r) n) entries last_id))"

definition purge_logs :: "time \<Rightarrow> time \<Rightarrow> time \<Rightarrow> time \<Rightarrow> log_db \<Rightarrow> nat \<times> log_db" where
  "purge_logs now failures samples evs d =
     (let requests = filter (\<lambda>r. \<not> (rl_sampled (lw_entry r) \<and> lw_at r < now - samples) \<and>
            \<not> (\<not> rl_sampled (lw_entry r) \<and> lw_at r < now - failures)) (ld_requests d);
          kept = filter (\<lambda>r. \<not> er_at r < now - evs) (ld_events d)
      in (length (ld_requests d) - length requests + (length (ld_events d) - length kept),
          d\<lparr>ld_requests := requests, ld_events := kept\<rparr>))"

definition log_storage :: "log_db \<Rightarrow> nat \<times> nat" where
  "log_storage d = (length (ld_requests d), length (ld_events d))"

subsection \<open>Reports\<close>

definition recent_rows :: "time \<Rightarrow> time \<Rightarrow> log_db \<Rightarrow> log_row list" where
  "recent_rows now window d = filter (\<lambda>r. now - window < lw_at r) (ld_requests d)"

text \<open>Rows with one key, in the order in which the keys first occur.\<close>

definition group_rows :: "('r \<Rightarrow> 'k) \<Rightarrow> 'r list \<Rightarrow> ('k \<times> 'r list) list" where
  "group_rows f rs = map (\<lambda>k. (k, filter (\<lambda>r. f r = k) rs)) (remdups (map f rs))"

record error_group =
  eg_error_code :: string
  eg_reason :: string
  eg_bucket :: string
  eg_access_key_id :: string
  eg_client_ip :: string
  eg_count :: nat
  eg_last_seen :: time

text \<open>The order of \<^verbatim>\<open>INET\<close>: the family, then the bytes. \<open>host\<close> prints an address.\<close>

definition max_ip :: "ip list \<Rightarrow> ip option" where
  "max_ip ips = (case ips of [] \<Rightarrow> None
     | a # as \<Rightarrow> Some (fold (\<lambda>x m. if (length m, m) < (length x, x) then x else m) as a))"

definition error_group_of :: "(ip \<Rightarrow> string) \<Rightarrow> (string \<times> string \<times> string) \<times> log_row list \<Rightarrow> error_group" where
  "error_group_of host = (\<lambda>((code, bucket, key), rs).
     let newest = last (sort_key lw_at rs) in
     \<lparr>eg_error_code = code, eg_reason = rl_reason (lw_entry newest), eg_bucket = bucket, eg_access_key_id = key,
      eg_client_ip = (case max_ip (List.map_filter lw_ip rs) of None \<Rightarrow> [] | Some a \<Rightarrow> host a),
      eg_count = length rs, eg_last_seen = lw_at newest\<rparr>)"

definition group_errors :: "(ip \<Rightarrow> string) \<Rightarrow> time \<Rightarrow> time \<Rightarrow> int \<Rightarrow> log_db \<Rightarrow> error_group list" where
  "group_errors host now window n d =
     take (nat (if n \<le> 0 \<or> 100 < n then 20 else n)) (sort_key (\<lambda>g. Desc (eg_count g)) (map (error_group_of host)
       (group_rows (\<lambda>r. (rl_error_code (lw_entry r), rl_bucket (lw_entry r), rl_access_key_id (lw_entry r)))
         (filter (\<lambda>r. 400 \<le> rl_status (lw_entry r)) (recent_rows now window d)))))"

definition failure_source :: "(ip \<Rightarrow> string) \<Rightarrow> log_row \<Rightarrow> string" where
  "failure_source host r =
     (if rl_access_key_id (lw_entry r) \<noteq> [] then rl_access_key_id (lw_entry r)
      else case lw_ip r of None \<Rightarrow> ''unknown'' | Some a \<Rightarrow> host a)"

definition count_auth_failures :: "(ip \<Rightarrow> string) \<Rightarrow> time \<Rightarrow> time \<Rightarrow> log_db \<Rightarrow> string \<times> nat" where
  "count_auth_failures host now window d =
     (case sort_key (\<lambda>(k, n). Desc n) (map (\<lambda>(k, rs). (k, length rs)) (group_rows (failure_source host)
         (filter (\<lambda>r. rl_status (lw_entry r) = 403) (recent_rows now window d)))) of
        [] \<Rightarrow> ([], 0) | g # _ \<Rightarrow> g)"

end
