(* ===== verification/Alerts.thy ===== *)
theory Alerts
  imports Request_Logs
begin

text \<open>
  Alert rules and alerts (\<^verbatim>\<open>internal/db/alerts.go\<close>): a rule has at most one live_alert alert, which is raised,
  acknowledged, notified and resolved.
\<close>

subsection \<open>Tables\<close>

text \<open>A setting matters only as a number or as something else.\<close>

datatype setting = Number rat | Other_Setting

record alert_rule =
  ar_name :: string
  ar_description :: string
  ar_enabled :: bool
  ar_severity :: string
  ar_settings :: "(string \<times> setting) list"
  ar_updated_at :: time

datatype alert_state = Firing | Acknowledged | Resolved

datatype detail = Detail_Number rat | Detail_Text string

record alert =
  al_id :: int
  al_rule_id :: string
  al_state :: alert_state
  al_severity :: string
  al_summary :: string
  al_guidance :: string
  al_detail :: "(string \<times> detail) list"
  al_fired_at :: time
  al_last_seen_at :: time
  al_acknowledged_at :: "time option"
  al_acknowledged_by :: "string option"
  al_resolved_at :: "time option"
  al_notified_at :: "time option"

record alert_db =
  ad_rules :: "(string, alert_rule) table"
  ad_alerts :: "alert list"
  ad_next :: int

definition no_alerts :: alert_db where
  "no_alerts = \<lparr>ad_rules = [], ad_alerts = [], ad_next = 1\<rparr>"

datatype alert_error = ErrAlertNotFound | ErrAlertQuery string

definition severities :: "string set" where
  "severities = {''info'', ''warning'', ''critical''}"

definition live_alert :: "alert \<Rightarrow> bool" where
  "live_alert a \<longleftrightarrow> al_state a \<noteq> Resolved"

definition update_alerts :: "(alert \<Rightarrow> bool) \<Rightarrow> (alert \<Rightarrow> alert) \<Rightarrow> alert_db \<Rightarrow> alert_db" where
  "update_alerts p f d = d\<lparr>ad_alerts := map (\<lambda>a. if p a then f a else a) (ad_alerts d)\<rparr>"

subsection \<open>Rules\<close>

text \<open>A rule that is there keeps its enablement, its severity and its settings.\<close>

definition upsert_alert_rule :: "time \<Rightarrow> string \<Rightarrow> alert_rule \<Rightarrow> alert_db \<Rightarrow> alert_error + alert_db" where
  "upsert_alert_rule now rid r d =
     (if ar_severity r \<notin> severities then Inl (ErrAlertQuery ''check constraint'')
      else Inr (d\<lparr>ad_rules :=
        (case map_of (ad_rules d) rid of
           None \<Rightarrow> ad_rules d @ [(rid, r\<lparr>ar_updated_at := now\<rparr>)]
         | Some old \<Rightarrow> AList.update rid (old\<lparr>ar_name := ar_name r, ar_description := ar_description r\<rparr>) (ad_rules d))\<rparr>))"

definition list_alert_rules :: "alert_db \<Rightarrow> (string \<times> alert_rule) list" where
  "list_alert_rules d = sort_key (ar_name \<circ> snd) (ad_rules d)"

definition update_alert_rule ::
  "time \<Rightarrow> string \<Rightarrow> bool \<Rightarrow> string \<Rightarrow> (string \<times> setting) list \<Rightarrow> alert_db \<Rightarrow> alert_error + alert_db" where
  "update_alert_rule now rid enabled severity numbers d =
     (case map_of (ad_rules d) rid of
        None \<Rightarrow> Inl ErrAlertNotFound
      | Some r \<Rightarrow>
          if severity \<notin> severities then Inl (ErrAlertQuery ''check constraint'')
          else Inr (d\<lparr>ad_rules := AList.update rid (r\<lparr>ar_enabled := enabled, ar_severity := severity,
            ar_settings := numbers, ar_updated_at := now\<rparr>) (ad_rules d)\<rparr>))"

subsection \<open>Alerts\<close>

record alert_draft =
  dr_severity :: string
  dr_summary :: string
  dr_guidance :: string
  dr_detail :: "(string \<times> detail) list"

text \<open>
  \<^verbatim>\<open>INSERT .. ON CONFLICT\<close> on the partial index of the live_alert alerts: the one there is refreshed, but for its
  guidance. The identity column hands out a number either way. The result says whether a row was added.
\<close>

definition fresh_alert :: "time \<Rightarrow> int \<Rightarrow> string \<Rightarrow> alert_draft \<Rightarrow> alert" where
  "fresh_alert now n rid a =
     \<lparr>al_id = n, al_rule_id = rid, al_state = Firing, al_severity = dr_severity a, al_summary = dr_summary a,
      al_guidance = dr_guidance a, al_detail = dr_detail a, al_fired_at = now, al_last_seen_at = now,
      al_acknowledged_at = None, al_acknowledged_by = None, al_resolved_at = None, al_notified_at = None\<rparr>"

definition refresh_alert :: "time \<Rightarrow> alert_draft \<Rightarrow> alert \<Rightarrow> alert" where
  "refresh_alert now a x = x\<lparr>al_last_seen_at := now, al_summary := dr_summary a, al_detail := dr_detail a,
     al_severity := dr_severity a\<rparr>"

definition live_for :: "string \<Rightarrow> alert \<Rightarrow> bool" where
  "live_for rid a \<longleftrightarrow> al_rule_id a = rid \<and> live_alert a"

definition raise_alert :: "time \<Rightarrow> string \<Rightarrow> alert_draft \<Rightarrow> alert_db \<Rightarrow> alert_error + bool \<times> alert_db" where
  "raise_alert now rid a d =
     (if map_of (ad_rules d) rid = None then Inl (ErrAlertQuery ''foreign key'')
      else if list_ex (live_for rid) (ad_alerts d)
      then Inr (False, (update_alerts (live_for rid) (refresh_alert now a) d)\<lparr>ad_next := ad_next d + 1\<rparr>)
      else Inr (True, d\<lparr>ad_alerts := ad_alerts d @ [fresh_alert now (ad_next d) rid a], ad_next := ad_next d + 1\<rparr>))"

definition resolve_alert :: "time \<Rightarrow> string \<Rightarrow> alert_db \<Rightarrow> bool \<times> alert_db" where
  "resolve_alert now rid d =
     (list_ex (live_for rid) (ad_alerts d),
      update_alerts (live_for rid) (\<lambda>a. a\<lparr>al_state := Resolved, al_resolved_at := Some now\<rparr>) d)"

definition acknowledge_alert :: "time \<Rightarrow> int \<Rightarrow> string \<Rightarrow> alert_db \<Rightarrow> alert_error + alert_db" where
  "acknowledge_alert now n who d =
     (let p = (\<lambda>a. al_id a = n \<and> al_state a = Firing)
      in if \<not> list_ex p (ad_alerts d) then Inl ErrAlertNotFound
         else Inr (update_alerts p (\<lambda>a. a\<lparr>al_state := Acknowledged, al_acknowledged_at := Some now,
           al_acknowledged_by := Some who\<rparr>) d))"

definition rule_name :: "alert_db \<Rightarrow> alert \<Rightarrow> string" where
  "rule_name d a = (case map_of (ad_rules d) (al_rule_id a) of None \<Rightarrow> al_rule_id a | Some r \<Rightarrow> ar_name r)"

definition list_alerts :: "alert_db \<Rightarrow> bool \<Rightarrow> int \<Rightarrow> (alert \<times> string) list" where
  "list_alerts d include_resolved n =
     map (\<lambda>a. (a, rule_name d a)) (take (nat (if n \<le> 0 \<or> 200 < n then 50 else n))
       (sort_key (\<lambda>a. (\<not> live_alert a, Desc (al_fired_at a))) (filter (\<lambda>a. include_resolved \<or> live_alert a) (ad_alerts d))))"

definition awaits_notification :: "time \<Rightarrow> time \<Rightarrow> alert \<Rightarrow> bool" where
  "awaits_notification now quiet a \<longleftrightarrow> al_state a = Firing \<and>
     (case al_notified_at a of None \<Rightarrow> True | Some t \<Rightarrow> t < now - quiet)"

definition alerts_awaiting :: "time \<Rightarrow> time \<Rightarrow> alert_db \<Rightarrow> (alert \<times> string) list" where
  "alerts_awaiting now quiet d = map (\<lambda>a. (a, rule_name d a)) (filter (awaits_notification now quiet) (ad_alerts d))"

definition mark_notified :: "time \<Rightarrow> int \<Rightarrow> alert_db \<Rightarrow> alert_db" where
  "mark_notified now n = update_alerts (\<lambda>a. al_id a = n) (al_notified_at_update (\<lambda>_. Some now))"

definition count_live_alerts :: "alert_db \<Rightarrow> nat \<times> nat" where
  "count_live_alerts d = (length (filter (\<lambda>a. al_state a = Firing) (ad_alerts d)),
     length (filter (\<lambda>a. al_state a = Acknowledged) (ad_alerts d)))"

definition count_firing_alerts :: "alert_db \<Rightarrow> (string \<times> nat) list" where
  "count_firing_alerts d = map (\<lambda>(k, xs). (k, length xs)) (group_rows al_rule_id (filter live_alert (ad_alerts d)))"

subsection \<open>One live_alert alert to a rule\<close>

definition wf_alerts :: "alert_db \<Rightarrow> bool" where
  "wf_alerts d \<longleftrightarrow> keyed (ad_rules d) \<and> distinct (map al_id (ad_alerts d)) \<and>
     (\<forall>a \<in> set (ad_alerts d). al_id a < ad_next d \<and> map_of (ad_rules d) (al_rule_id a) \<noteq> None) \<and>
     (\<forall>rid. length (filter (live_for rid) (ad_alerts d)) \<le> 1)"

lemma wf_no_alerts: "wf_alerts no_alerts"
  by (simp add: wf_alerts_def no_alerts_def)

lemma length_filter_map: "length (filter p (map f xs)) = length (filter (p \<circ> f) xs)"
  by (induction xs) auto

lemma length_filter_less: "(\<And>x. x \<in> set xs \<Longrightarrow> p x \<Longrightarrow> q x) \<Longrightarrow> length (filter p xs) \<le> length (filter q xs)"
  by (induction xs) (auto intro: le_SucI)

lemma wf_update_alerts:
  assumes "wf_alerts d" "\<And>a. al_id (f a) = al_id a" "\<And>a. al_rule_id (f a) = al_rule_id a" "\<And>a. p a \<Longrightarrow> live_alert (f a) \<Longrightarrow> live_alert a"
  shows "wf_alerts (update_alerts p f d)"
proof -
  let ?g = "\<lambda>a. if p a then f a else a"
  have ids: "al_id \<circ> ?g = al_id" using assms(2) by auto
  have "length (filter (live_for rid) (map ?g (ad_alerts d))) \<le> 1" for rid
  proof -
    have "length (filter (live_for rid \<circ> ?g) (ad_alerts d)) \<le> length (filter (live_for rid) (ad_alerts d))"
      by (rule length_filter_less) (use assms(3,4) in \<open>auto simp: live_for_def split: if_splits\<close>)
    then show ?thesis using assms(1) unfolding length_filter_map wf_alerts_def by (metis order_trans)
  qed
  with assms(1,2,3) ids show ?thesis by (auto simp: wf_alerts_def update_alerts_def)
qed

lemma wf_alerts_next: "wf_alerts d \<Longrightarrow> ad_next d \<le> n \<Longrightarrow> wf_alerts (d\<lparr>ad_next := n\<rparr>)"
  by (fastforce simp: wf_alerts_def)

lemma raise_alert_keeps:
  assumes "wf_alerts d" "raise_alert now rid a d = Inr (added, d')"
  shows "wf_alerts d'"
proof (cases "list_ex (live_for rid) (ad_alerts d)")
  case True
  then have "d' = (update_alerts (live_for rid) (refresh_alert now a) d)\<lparr>ad_next := ad_next d + 1\<rparr>"
    using assms(2) by (auto simp: raise_alert_def split: if_splits)
  moreover have "wf_alerts (update_alerts (live_for rid) (refresh_alert now a) d)"
    by (rule wf_update_alerts [OF assms(1)]) (simp_all add: refresh_alert_def live_alert_def)
  ultimately show ?thesis by (auto intro: wf_alerts_next simp: update_alerts_def)
next
  case False
  then have d': "d' = d\<lparr>ad_alerts := ad_alerts d @ [fresh_alert now (ad_next d) rid a], ad_next := ad_next d + 1\<rparr>"
    and rule: "map_of (ad_rules d) rid \<noteq> None"
    using assms(2) by (auto simp: raise_alert_def split: if_splits)
  have none: "filter (live_for rid) (ad_alerts d) = []" using False by (simp add: filter_empty_conv list_ex_iff)
  have "ad_next d \<notin> al_id ` set (ad_alerts d)" using assms(1) by (auto simp: wf_alerts_def)
  then show ?thesis
    using assms(1) rule none by (auto simp: d' wf_alerts_def fresh_alert_def live_for_def)
qed

lemma resolve_alert_keeps: "wf_alerts d \<Longrightarrow> wf_alerts (snd (resolve_alert now rid d))"
  unfolding resolve_alert_def snd_conv by (erule wf_update_alerts) (simp_all add: live_alert_def)

lemma acknowledge_alert_keeps: "wf_alerts d \<Longrightarrow> acknowledge_alert now n who d = Inr d' \<Longrightarrow> wf_alerts d'"
  by (auto simp: acknowledge_alert_def Let_def live_alert_def split: if_splits intro!: wf_update_alerts)

lemma mark_notified_keeps: "wf_alerts d \<Longrightarrow> wf_alerts (mark_notified now n d)"
  unfolding mark_notified_def by (erule wf_update_alerts) (simp_all add: live_alert_def)

lemma upsert_alert_rule_keeps: "wf_alerts d \<Longrightarrow> upsert_alert_rule now rid r d = Inr d' \<Longrightarrow> wf_alerts d'"
  by (auto simp: upsert_alert_rule_def wf_alerts_def map_of_eq_None_iff [symmetric] update_conv' map_add_def
    split: if_splits option.splits)

lemma update_alert_rule_keeps:
  "wf_alerts d \<Longrightarrow> update_alert_rule now rid enabled severity numbers d = Inr d' \<Longrightarrow> wf_alerts d'"
  by (auto simp: update_alert_rule_def wf_alerts_def update_conv' split: if_splits option.splits)

end
