(* ===== verification/Alert_Engine.thy ===== *)
theory Alert_Engine
  imports Alerts Credentials Clock
begin

text \<open>
  The evaluation of the alert rules (\<^verbatim>\<open>internal/alerts/engine.go\<close>), the lock around it
  (\<^verbatim>\<open>internal/db/singleton.go\<close>) and the mail to the administrators (\<^verbatim>\<open>NotifyAlert\<close> of
  \<^verbatim>\<open>internal/console/alerts.go\<close>). A float beyond the range of a 64-bit integer is not modelled where the
  code converts it to one.
\<close>

subsection \<open>Surroundings\<close>

text \<open>
  \<open>fl_round\<close> rounds an exact result to a \<^verbatim>\<open>float64\<close> and \<open>fl_text\<close> prints one with a digit behind the
  point, as \<^verbatim>\<open>fmt\<close> does.
\<close>

record floats =
  fl_round :: "rat \<Rightarrow> rat"
  fl_text :: "rat \<Rightarrow> string"

text \<open>
  What a cycle meets: \<open>cy_now rid n\<close> is the time of the \<open>n\<close>-th statement about a rule and \<open>cy_down rid n\<close>
  that it fails; statements about no rule have the empty name. \<open>cy_usage\<close> is the volume, total and free,
  \<open>cy_mail a email\<close> that the provider accepts the mail about an alert.
\<close>

record cycle =
  cy_now :: "string \<Rightarrow> nat \<Rightarrow> time"
  cy_down :: "string \<Rightarrow> nat \<Rightarrow> bool"
  cy_locked :: bool
  cy_usage :: "(nat \<times> nat) option"
  cy_mail :: "alert \<Rightarrow> string \<Rightarrow> bool"
  cy_logs :: log_db
  cy_accounts :: accounts

record engine =
  en_floats :: floats
  en_host :: "ip \<Rightarrow> string"
  en_notifier :: bool

subsection \<open>Rules\<close>

definition minute :: time where "minute = 60 * second"
definition evaluation_interval :: time where "evaluation_interval = minute"
definition notify_quiet :: time where "notify_quiet = 6 * 3600 * second"

definition rule_error_rate :: string where "rule_error_rate = ''error_rate''"
definition rule_disk_space :: string where "rule_disk_space = ''disk_space''"
definition rule_auth_failures :: string where "rule_auth_failures = ''auth_failures''"
definition rule_write_failures :: string where "rule_write_failures = ''write_failures''"
definition rule_no_credentials :: string where "rule_no_credentials = ''no_credentials''"

definition default_rule :: "string \<Rightarrow> string \<Rightarrow> string \<Rightarrow> (string \<times> rat) list \<Rightarrow> alert_rule" where
  "default_rule name severity description numbers =
     \<lparr>ar_name = name, ar_description = description, ar_enabled = True, ar_severity = severity,
      ar_settings = map (\<lambda>(k, v). (k, Number v)) numbers, ar_updated_at = 0\<rparr>"

definition default_rules :: "(string \<times> alert_rule) list" where
  "default_rules =
     [(rule_error_rate, default_rule ''Error rate'' ''warning'' ''Too many requests are failing.''
         [(''threshold_percent'', 5), (''window_minutes'', 15), (''minimum_requests'', 20)]),
      (rule_disk_space, default_rule ''Disk space'' ''critical'' ''The volume holding objects is filling up.''
         [(''warn_below_percent'', 15), (''critical_below_percent'', 5)]),
      (rule_auth_failures, default_rule ''Repeated authentication failures'' ''warning''
         ''One credential or address is being rejected repeatedly, which is either a misconfigured client or probing.''
         [(''threshold'', 50), (''window_minutes'', 15)]),
      (rule_write_failures, default_rule ''Upload failures'' ''critical''
         ''Uploads are failing, which usually means disk or a proxy limit.''
         [(''threshold'', 5), (''window_minutes'', 15)]),
      (rule_no_credentials, default_rule ''No S3 credentials'' ''info''
         ''No active access keys exist, so the S3 API cannot be used.'' [])]"

fun seed_rules :: "(nat \<Rightarrow> time) \<Rightarrow> nat \<Rightarrow> (string \<times> alert_rule) list \<Rightarrow> alert_db \<Rightarrow> alert_error + alert_db" where
  "seed_rules clock n [] d = Inr d"
| "seed_rules clock n ((rid, r) # rules) d =
     rbind (upsert_alert_rule (clock n) rid r d) (seed_rules clock (Suc n) rules)"

definition read_setting :: "alert_rule \<Rightarrow> string \<Rightarrow> rat \<Rightarrow> rat" where
  "read_setting r key fallback = (case map_of (ar_settings r) key of Some (Number v) \<Rightarrow> v | _ \<Rightarrow> fallback)"

text \<open>Go's conversion of a float to an integer cuts the fraction off; its division of integers too.\<close>

definition truncated :: "rat \<Rightarrow> int" where
  "truncated x = (if x < 0 then - \<lfloor>- x\<rfloor> else \<lfloor>x\<rfloor>)"

definition rule_window :: "alert_rule \<Rightarrow> time" where
  "rule_window r = wrap64 (truncated (read_setting r ''window_minutes'' 15) * minute)"

definition whole_minutes :: "time \<Rightarrow> int" where
  "whole_minutes w = (if w < 0 then - (- w div minute) else w div minute)"

subsection \<open>Checks\<close>

text \<open>Nothing is found (\<open>Inr None\<close>), the condition holds (\<open>Inr (Some _)\<close>), or it could not be told.\<close>

type_synonym check = "string + alert_draft option"

definition percentage :: "floats \<Rightarrow> nat \<Rightarrow> nat \<Rightarrow> rat" where
  "percentage fl a b = fl_round fl (fl_round fl (fl_round fl (of_nat a) / fl_round fl (of_nat b)) * 100)"

definition check_error_rate :: "engine \<Rightarrow> cycle \<Rightarrow> alert_rule \<Rightarrow> check" where
  "check_error_rate en cy r =
     (if cy_down cy rule_error_rate 0 then Inl ''connection''
      else let threshold = read_setting r ''threshold_percent'' 5; window = rule_window r;
               least = truncated (read_setting r ''minimum_requests'' 20);
               rows = recent_rows (cy_now cy rule_error_rate 0) window (cy_logs cy);
               everything = length rows; failed = length (filter (\<lambda>x. 400 \<le> rl_status (lw_entry x)) rows);
               rate = percentage (en_floats en) failed everything
        in if int everything < least \<or> everything = 0 \<or> rate < threshold then Inr None
           else Inr (Some \<lparr>dr_severity = ar_severity r,
             dr_summary = fl_text (en_floats en) rate @ ''% of requests failed in the last '' @
               show_int (whole_minutes window) @ '' minutes ('' @ show_nat failed @ '' of '' @ show_nat everything @ '')'',
             dr_guidance = ''Open the log, filtered to errors, to see which requests and why. Grouped failures usually name the cause: a revoked key, a client clock outside the 15 minute window, or a proxy not forwarding the host.'',
             dr_detail = [(''rate'', Detail_Number rate), (''failed'', Detail_Number (of_nat failed)),
               (''total'', Detail_Number (of_nat everything))]\<rparr>))"

definition disk_guidance :: string where
  "disk_guidance = ''Free space or add capacity. Deleting objects reclaims space on the next sweep; if versioning is on, old versions must be purged before their bytes are released.''"

definition check_disk_space :: "engine \<Rightarrow> cycle \<Rightarrow> alert_rule \<Rightarrow> check" where
  "check_disk_space en cy r =
     (case cy_usage cy of
        None \<Rightarrow> Inl ''statfs''
      | Some (everything, free) \<Rightarrow>
          if everything = 0 then Inr None
          else let percent = percentage (en_floats en) free everything;
                   critical = percent < read_setting r ''critical_below_percent'' 5
            in if read_setting r ''warn_below_percent'' 15 \<le> percent then Inr None
               else Inr (Some \<lparr>dr_severity = (if critical then ''critical'' else ''warning''),
                 dr_summary = ''Only '' @ fl_text (en_floats en) percent @ ''% of the volume is free'',
                 dr_guidance = (if critical then ''Uploads will begin failing when the volume is full. '' @ disk_guidance
                   else disk_guidance),
                 dr_detail = [(''free_percent'', Detail_Number percent), (''free_bytes'', Detail_Number (of_nat free)),
                   (''total_bytes'', Detail_Number (of_nat everything))]\<rparr>))"

definition check_auth_failures :: "engine \<Rightarrow> cycle \<Rightarrow> alert_rule \<Rightarrow> check" where
  "check_auth_failures en cy r =
     (if cy_down cy rule_auth_failures 0 then Inl ''connection''
      else let window = rule_window r; threshold = truncated (read_setting r ''threshold'' 50);
               (origin, hits) = count_auth_failures (en_host en) (cy_now cy rule_auth_failures 0) window (cy_logs cy)
        in if int hits < threshold then Inr None
           else Inr (Some \<lparr>dr_severity = ar_severity r,
             dr_summary = show_nat hits @ '' rejected requests from '' @ origin @ '' in '' @
               show_int (whole_minutes window) @ '' minutes'',
             dr_guidance = ''Filter the log by that credential or address. A steady rate is usually a misconfigured client '' @ [CHR 0xE2, CHR 0x80, CHR 0x94] @ '' a revoked key, a wrong secret, or a clock outside the permitted window. A burst from an unknown address is worth treating as probing.'',
             dr_detail = [(''source'', Detail_Text origin), (''count'', Detail_Number (of_nat hits))]\<rparr>))"

definition check_write_failures :: "engine \<Rightarrow> cycle \<Rightarrow> alert_rule \<Rightarrow> check" where
  "check_write_failures en cy r =
     (if cy_down cy rule_write_failures 0 then Inl ''connection''
      else let window = rule_window r; threshold = truncated (read_setting r ''threshold'' 5);
               hits = length (filter (\<lambda>x. 500 \<le> rl_status (lw_entry x) \<and> rl_method (lw_entry x) \<in> {''PUT'', ''POST''})
                 (recent_rows (cy_now cy rule_write_failures 0) window (cy_logs cy)))
        in if int hits < threshold then Inr None
           else Inr (Some \<lparr>dr_severity = ar_severity r,
             dr_summary = show_nat hits @ '' uploads failed with a server error in '' @
               show_int (whole_minutes window) @ '' minutes'',
             dr_guidance = ''Check disk space first, then the log for the underlying reason. A proxy body-size limit produces a 413 rather than a 5xx, so this is more likely storage or the database.'',
             dr_detail = [(''count'', Detail_Number (of_nat hits))]\<rparr>))"

definition check_no_credentials :: "engine \<Rightarrow> cycle \<Rightarrow> alert_rule \<Rightarrow> check" where
  "check_no_credentials en cy r =
     (if cy_down cy rule_no_credentials 0 then Inl ''connection''
      else if 0 < count_rows (\<lambda>c. cd_revoked_at c = None) (credentials (cy_accounts cy)) then Inr None
      else Inr (Some \<lparr>dr_severity = ar_severity r, dr_summary = ''No active S3 access keys exist'',
        dr_guidance = ''The S3 API cannot be used until a key is created. Make one on the Access keys screen.'',
        dr_detail = []\<rparr>))"

definition check_rule :: "string \<Rightarrow> (engine \<Rightarrow> cycle \<Rightarrow> alert_rule \<Rightarrow> check) option" where
  "check_rule rid = map_of [(rule_error_rate, check_error_rate), (rule_disk_space, check_disk_space),
     (rule_auth_failures, check_auth_failures), (rule_write_failures, check_write_failures),
     (rule_no_credentials, check_no_credentials)] rid"

subsection \<open>A cycle\<close>

definition evaluate_rule :: "engine \<Rightarrow> cycle \<Rightarrow> string \<times> alert_rule \<Rightarrow> alert_db \<Rightarrow> alert_db" where
  "evaluate_rule en cy = (\<lambda>(rid, r) d.
     if \<not> ar_enabled r then (if cy_down cy rid 1 then d else snd (resolve_alert (cy_now cy rid 1) rid d))
     else case check_rule rid of
       None \<Rightarrow> d
     | Some check \<Rightarrow>
         (case check en cy r of
            Inl _ \<Rightarrow> d
          | Inr None \<Rightarrow> if cy_down cy rid 1 then d else snd (resolve_alert (cy_now cy rid 1) rid d)
          | Inr (Some a) \<Rightarrow>
              if cy_down cy rid 1 then d
              else (case raise_alert (cy_now cy rid 1) rid a d of Inl _ \<Rightarrow> d | Inr (_, d') \<Rightarrow> d')))"

text \<open>
  The mail goes to each administrator in turn and stops at the first that is refused. The result says
  whether all of them have it; the list is who does.
\<close>

fun send_all :: "(string \<Rightarrow> bool) \<Rightarrow> string list \<Rightarrow> bool \<times> string list" where
  "send_all accepts [] = (True, [])"
| "send_all accepts (recipient # rest) =
     (if accepts recipient then (let (ok, sent) = send_all accepts rest in (ok, recipient # sent)) else (False, []))"

definition notify_alert :: "cycle \<Rightarrow> alert \<Rightarrow> bool \<times> string list" where
  "notify_alert cy a =
     (if cy_down cy (al_rule_id a) 2 then (False, [])
      else let admins = map us_email (filter is_admin (list_users (cy_accounts cy)));
               (ok, sent) = send_all (cy_mail cy a) admins
        in (ok \<and> sent \<noteq> [], sent))"

type_synonym outbox = "(int \<times> string) list"

definition notify_one :: "cycle \<Rightarrow> alert \<Rightarrow> alert_db \<times> outbox \<Rightarrow> alert_db \<times> outbox" where
  "notify_one cy a = (\<lambda>(d, out).
     if al_severity a = ''info'' then (d, out)
     else let (ok, sent) = notify_alert cy a; out' = out @ map (\<lambda>recipient. (al_id a, recipient)) sent
       in if ok \<and> \<not> cy_down cy (al_rule_id a) 3 then (mark_notified (cy_now cy (al_rule_id a) 3) (al_id a) d, out')
          else (d, out'))"

definition notify_pending :: "engine \<Rightarrow> cycle \<Rightarrow> alert_db \<times> outbox \<Rightarrow> alert_db \<times> outbox" where
  "notify_pending en cy = (\<lambda>(d, out).
     if \<not> en_notifier en \<or> cy_down cy [] 1 then (d, out)
     else fold (notify_one cy) (map fst (alerts_awaiting (cy_now cy [] 1) notify_quiet d)) (d, out))"

definition evaluate_all :: "engine \<Rightarrow> cycle \<Rightarrow> alert_db \<times> outbox \<Rightarrow> alert_db \<times> outbox" where
  "evaluate_all en cy = (\<lambda>(d, out).
     if cy_down cy [] 0 then (d, out)
     else notify_pending en cy (fold (evaluate_rule en cy) (list_alert_rules d) d, out))"

text \<open>\<^verbatim>\<open>WithSingleton\<close>: without the lock the cycle is skipped.\<close>

definition with_singleton :: "bool \<Rightarrow> ('s \<Rightarrow> 's) \<Rightarrow> 's \<Rightarrow> bool \<times> 's" where
  "with_singleton acquired work s = (if acquired then (True, work s) else (False, s))"

definition evaluate_once :: "engine \<Rightarrow> cycle \<Rightarrow> alert_db \<times> outbox \<Rightarrow> alert_db \<times> outbox" where
  "evaluate_once en cy s = snd (with_singleton (\<not> cy_locked cy) (evaluate_all en cy) s)"

end
