(* ===== verification/Alert_Handlers.thy ===== *)
theory Alert_Handlers
  imports Alert_Engine Console_Routes
begin

text \<open>
  The screens of the console for the alerts and their rules (\<^verbatim>\<open>internal/console/alerts.go\<close>). A statement
  of a handler has its own clock and may fail, as in the handlers of the accounts.
\<close>

datatype alert_body =
    Alert_Failure string
  | Alert_Message string
  | Alerts_Body "(alert \<times> string) list" nat nat
  | Rules_Body "(string \<times> alert_rule) list"

type_synonym alert_response = "nat \<times> alert_body"

definition alert_failure :: alert_response where
  "alert_failure = (500, Alert_Failure ''Something went wrong. Please try again.'')"

definition handle_list_alerts :: "weather \<Rightarrow> request \<Rightarrow> alert_db \<Rightarrow> alert_response" where
  "handle_list_alerts cx r d =
     (if cn_down cx 1 \<or> cn_down cx 2 then alert_failure
      else let (firing, acknowledged) = count_live_alerts d
        in (200, Alerts_Body (list_alerts d (query_get r ''resolved'' = ''1'') (int_param (query_get r ''limit'') 50))
             firing acknowledged))"

definition alert_number :: "string \<Rightarrow> int option" where
  "alert_number = parse_int 10"

definition handle_acknowledge_alert :: "weather \<Rightarrow> user \<Rightarrow> string \<Rightarrow> alert_db \<Rightarrow> alert_response \<times> alert_db" where
  "handle_acknowledge_alert cx u arg d =
     (case alert_number arg of
        None \<Rightarrow> ((400, Alert_Failure ''That is not an alert id.''), d)
      | Some n \<Rightarrow>
          if cn_down cx 1 then (alert_failure, d)
          else (case acknowledge_alert (e_now (cn_env cx 1)) n (us_email u) d of
                  Inr d' \<Rightarrow> ((200, Alert_Message ''Acknowledged. It stays visible until the condition clears, but will not notify again.''), d')
                | Inl err \<Rightarrow>
                    (if err = ErrAlertNotFound then (404, Alert_Failure ''That alert is no longer firing.'') else alert_failure, d)))"

text \<open>The alert that is resolved is the live one of the rule of the alert that was named.\<close>

definition handle_resolve_alert :: "weather \<Rightarrow> string \<Rightarrow> alert_db \<Rightarrow> alert_response \<times> alert_db" where
  "handle_resolve_alert cx arg d =
     (case alert_number arg of
        None \<Rightarrow> ((400, Alert_Failure ''That is not an alert id.''), d)
      | Some n \<Rightarrow>
          (case if cn_down cx 1 then None else find (\<lambda>a. al_id a = n) (ad_alerts d) of
             None \<Rightarrow> ((404, Alert_Failure ''No such alert.''), d)
           | Some a \<Rightarrow>
               if cn_down cx 2 then (alert_failure, d)
               else ((200, Alert_Message ''Resolved. It will return on the next evaluation if the condition still holds.''),
                     snd (resolve_alert (e_now (cn_env cx 2)) (al_rule_id a) d))))"

definition handle_list_alert_rules :: "weather \<Rightarrow> alert_db \<Rightarrow> alert_response" where
  "handle_list_alert_rules cx d = (if cn_down cx 1 then alert_failure else (200, Rules_Body (list_alert_rules d)))"

text \<open>The decoder yields the enablement, the severity and the numbers of a request.\<close>

type_synonym rule_decoder = "string \<Rightarrow> (bool \<times> string \<times> (string \<times> rat) list) option"

definition handle_update_alert_rule ::
  "rule_decoder \<Rightarrow> weather \<Rightarrow> request \<Rightarrow> string \<Rightarrow> alert_db \<Rightarrow> alert_response \<times> alert_db" where
  "handle_update_alert_rule decoder cx r rid d =
     (case decode_json decoder r of
        None \<Rightarrow> ((400, Alert_Failure ''Send a JSON body with the rule's settings.''), d)
      | Some (enabled, severity, numbers) \<Rightarrow>
          if severity \<notin> severities then ((400, Alert_Failure ''Severity must be info, warning or critical.''), d)
          else if cn_down cx 1 then (alert_failure, d)
          else (case update_alert_rule (e_now (cn_env cx 1)) rid enabled severity (map (\<lambda>(k, v). (k, Number v)) numbers) d of
                  Inr d' \<Rightarrow> ((200, Alert_Message ''Rule updated.''), d')
                | Inl err \<Rightarrow>
                    (if err = ErrAlertNotFound then (404, Alert_Failure ''No such alert rule.'') else alert_failure, d)))"

end
