(* ===== verification/Alert_Runs.thy ===== *)
theory Alert_Runs
  imports Alert_Handlers
begin

text \<open>
  What the engine, the screens and the start of the server do to the alerts, step by step, and what every
  such step keeps.
\<close>

subsection \<open>Steps\<close>

datatype alert_step =
    Seeded "nat \<Rightarrow> time"
  | Evaluated engine cycle
  | Acknowledged_By weather user string
  | Resolved_By_Hand weather string
  | Rule_Changed rule_decoder weather request string

definition seeded :: "(nat \<Rightarrow> time) \<Rightarrow> alert_db \<Rightarrow> alert_db" where
  "seeded clock d = (case seed_rules clock 0 default_rules d of Inl _ \<Rightarrow> d | Inr d' \<Rightarrow> d')"

definition take_step :: "alert_step \<Rightarrow> alert_db \<times> outbox \<Rightarrow> alert_db \<times> outbox" where
  "take_step st = (\<lambda>(d, out).
     case st of
       Seeded clock \<Rightarrow> (seeded clock d, out)
     | Evaluated en cy \<Rightarrow> evaluate_once en cy (d, out)
     | Acknowledged_By cx u arg \<Rightarrow> (snd (handle_acknowledge_alert cx u arg d), out)
     | Resolved_By_Hand cx arg \<Rightarrow> (snd (handle_resolve_alert cx arg d), out)
     | Rule_Changed decoder cx r rid \<Rightarrow> (snd (handle_update_alert_rule decoder cx r rid d), out))"

subsection \<open>One live alert to a rule\<close>

lemma seed_rules_keeps: "wf_alerts d \<Longrightarrow> seed_rules clock n rules d = Inr d' \<Longrightarrow> wf_alerts d'"
proof (induction clock n rules d rule: seed_rules.induct)
  case (2 clock n rid r rules d)
  then obtain d1 where d1: "upsert_alert_rule (clock n) rid r d = Inr d1" "seed_rules clock (Suc n) rules d1 = Inr d'"
    by (cases "upsert_alert_rule (clock n) rid r d") auto
  with 2 show ?case using upsert_alert_rule_keeps by blast
qed simp

lemma evaluate_rule_keeps: "wf_alerts d \<Longrightarrow> wf_alerts (evaluate_rule en cy rule d)"
  by (cases rule) (auto simp: evaluate_rule_def resolve_alert_keeps raise_alert_keeps
    split: option.split sum.split if_split)

lemma fold_keeps: "(\<And>x s. p s \<Longrightarrow> p (f x s)) \<Longrightarrow> p s \<Longrightarrow> p (fold f xs s)"
  by (induction xs arbitrary: s) auto

lemma notify_one_keeps: "wf_alerts (fst s) \<Longrightarrow> wf_alerts (fst (notify_one cy a s))"
  by (auto simp: notify_one_def Let_def mark_notified_keeps split: prod.split)

lemma evaluate_once_keeps: "wf_alerts (fst s) \<Longrightarrow> wf_alerts (fst (evaluate_once en cy s))"
  unfolding evaluate_once_def with_singleton_def evaluate_all_def notify_pending_def
  by (auto intro!: fold_keeps [where p = "\<lambda>s. wf_alerts (fst s)"] fold_keeps [where p = wf_alerts]
    notify_one_keeps evaluate_rule_keeps split: prod.split)

lemma take_step_keeps:
  assumes "wf_alerts (fst s)"
  shows "wf_alerts (fst (take_step st s))"
proof -
  obtain d out where s: "s = (d, out)" by (cases s)
  with assms have wf: "wf_alerts d" by simp
  show ?thesis
  proof (cases st)
    case (Seeded clock)
    with wf s show ?thesis by (auto simp: take_step_def seeded_def split: sum.split intro: seed_rules_keeps)
  next
    case (Evaluated en cy)
    with wf s show ?thesis by (simp add: take_step_def evaluate_once_keeps)
  next
    case (Acknowledged_By cx u arg)
    with wf s show ?thesis
      by (auto simp: take_step_def handle_acknowledge_alert_def split: option.split sum.split intro: acknowledge_alert_keeps)
  next
    case (Resolved_By_Hand cx arg)
    with wf s show ?thesis
      by (auto simp: take_step_def handle_resolve_alert_def resolve_alert_keeps split: option.split)
  next
    case (Rule_Changed decoder cx r rid)
    with wf s show ?thesis
      by (auto simp: take_step_def handle_update_alert_rule_def split: option.split sum.split intro: update_alert_rule_keeps)
  qed
qed

lemma steps_keep: "wf_alerts (fst s) \<Longrightarrow> wf_alerts (fst (fold take_step sts s))"
  by (rule fold_keeps [where p = "\<lambda>s. wf_alerts (fst s)"]) (rule take_step_keeps)

subsection \<open>Where an alert comes from\<close>

text \<open>Every alert was there before, firing if it fires now, or has a number that was not handed out yet.\<close>

definition grown :: "alert_db \<Rightarrow> alert_db \<Rightarrow> bool" where
  "grown d d' \<longleftrightarrow> ad_next d \<le> ad_next d' \<and> (\<forall>b \<in> set (ad_alerts d'). ad_next d \<le> al_id b \<or>
     (\<exists>a \<in> set (ad_alerts d). al_id a = al_id b \<and> (al_state b = Firing \<longrightarrow> al_state a = Firing) \<and>
        al_notified_at a = al_notified_at b))"

lemma grown_refl [simp]: "grown d d"
  by (auto simp: grown_def)

lemma grown_trans:
  assumes "grown d d1" "grown d1 d2"
  shows "grown d d2"
  unfolding grown_def
proof (intro conjI ballI)
  show "ad_next d \<le> ad_next d2" using assms by (simp add: grown_def)
  fix b assume "b \<in> set (ad_alerts d2)"
  then consider "ad_next d1 \<le> al_id b"
    | c where "c \<in> set (ad_alerts d1)" "al_id c = al_id b" "al_state b = Firing \<longrightarrow> al_state c = Firing"
        "al_notified_at c = al_notified_at b"
    using assms(2) unfolding grown_def by blast
  then show "ad_next d \<le> al_id b \<or> (\<exists>a \<in> set (ad_alerts d). al_id a = al_id b \<and>
      (al_state b = Firing \<longrightarrow> al_state a = Firing) \<and> al_notified_at a = al_notified_at b)"
  proof cases
    case 1
    with assms(1) show ?thesis by (simp add: grown_def)
  next
    case (2 c)
    with assms(1) show ?thesis unfolding grown_def by (metis (no_types, lifting))
  qed
qed

lemma grown_update:
  assumes "\<And>a. al_id (f a) = al_id a" "\<And>a. al_state (f a) = Firing \<Longrightarrow> al_state a = Firing"
    and "\<And>a. al_notified_at (f a) = al_notified_at a"
  shows "grown d (update_alerts p f d)"
  using assms by (auto simp: grown_def update_alerts_def)

lemma raise_alert_grown:
  assumes "raise_alert now rid a d = Inr (added, d')"
  shows "grown d d'"
proof (cases "list_ex (live_for rid) (ad_alerts d)")
  case True
  then have "d' = (update_alerts (live_for rid) (refresh_alert now a) d)\<lparr>ad_next := ad_next d + 1\<rparr>"
    using assms by (auto simp: raise_alert_def split: if_splits)
  moreover have "grown d (update_alerts (live_for rid) (refresh_alert now a) d)"
    by (rule grown_update) (simp_all add: refresh_alert_def)
  ultimately show ?thesis by (simp add: grown_def)
next
  case False
  with assms show ?thesis by (auto simp: raise_alert_def grown_def fresh_alert_def split: if_splits)
qed

lemma resolve_alert_grown: "grown d (snd (resolve_alert now rid d))"
  unfolding resolve_alert_def snd_conv by (rule grown_update) simp_all

lemma evaluate_rule_grown: "grown d (evaluate_rule en cy rule d)"
  by (cases rule) (auto simp: evaluate_rule_def resolve_alert_grown raise_alert_grown
    split: option.split sum.split if_split)

lemma evaluate_rules_grown: "grown d (fold (evaluate_rule en cy) rules d)"
  by (rule fold_keeps [where p = "grown d"]) (auto intro: grown_trans evaluate_rule_grown)

subsection \<open>Mail\<close>

definition same_alerts :: "alert_db \<Rightarrow> alert_db \<Rightarrow> bool" where
  "same_alerts d d' \<longleftrightarrow> map (\<lambda>a. (al_id a, al_state a, al_severity a)) (ad_alerts d') =
     map (\<lambda>a. (al_id a, al_state a, al_severity a)) (ad_alerts d)"

lemma same_alertsD:
  assumes "same_alerts d d'" "a \<in> set (ad_alerts d)"
  shows "\<exists>b \<in> set (ad_alerts d'). al_id b = al_id a \<and> al_state b = al_state a \<and> al_severity b = al_severity a"
proof -
  have "(al_id a, al_state a, al_severity a) \<in> set (map (\<lambda>a. (al_id a, al_state a, al_severity a)) (ad_alerts d'))"
    using assms unfolding same_alerts_def by simp
  then show ?thesis by auto
qed

lemma same_alerts_refl: "same_alerts d d"
  by (simp add: same_alerts_def)

lemma same_alerts_mark: "same_alerts d (mark_notified now n d)"
  by (auto simp: same_alerts_def mark_notified_def update_alerts_def)

lemma send_all_subset: "set (snd (send_all p xs)) \<subseteq> set xs"
  by (induction xs) (auto split: prod.split)

definition warranted :: "cycle \<Rightarrow> alert list \<Rightarrow> int \<times> string \<Rightarrow> bool" where
  "warranted cy pending = (\<lambda>(n, email).
     (\<exists>a \<in> set pending. al_id a = n \<and> al_severity a \<noteq> ''info'') \<and>
     (\<exists>u \<in> set (list_users (cy_accounts cy)). is_admin u \<and> us_email u = email))"

lemma notify_alert_admins:
  assumes "email \<in> set (snd (notify_alert cy a))"
  shows "\<exists>u \<in> set (list_users (cy_accounts cy)). is_admin u \<and> us_email u = email"
  using assms send_all_subset [of "cy_mail cy a" "map us_email (filter is_admin (list_users (cy_accounts cy)))"]
  by (auto simp: notify_alert_def Let_def split: if_splits prod.splits)

lemma notify_one_sent:
  assumes "a \<in> set pending"
  shows "\<exists>sent. snd (notify_one cy a (d, out)) = out @ sent \<and> (\<forall>m \<in> set sent. warranted cy pending m) \<and>
    same_alerts d (fst (notify_one cy a (d, out)))"
proof (cases "al_severity a = ''info''")
  case True
  then show ?thesis by (intro exI [of _ "[]"]) (simp add: notify_one_def same_alerts_def)
next
  case False
  obtain ok sent where n: "notify_alert cy a = (ok, sent)" by (cases "notify_alert cy a")
  have "\<forall>m \<in> set (map (\<lambda>recipient. (al_id a, recipient)) sent). warranted cy pending m"
    using assms False notify_alert_admins [of _ cy a] n by (auto simp: warranted_def)
  with False n show ?thesis
    by (intro exI [of _ "map (\<lambda>recipient. (al_id a, recipient)) sent"])
      (auto simp: notify_one_def Let_def same_alerts_mark same_alerts_refl)
qed

lemma notify_all_sent:
  assumes "set as \<subseteq> set pending"
  shows "\<exists>sent. snd (fold (notify_one cy) as (d, out)) = out @ sent \<and> (\<forall>m \<in> set sent. warranted cy pending m) \<and>
    same_alerts d (fst (fold (notify_one cy) as (d, out)))"
  using assms
proof (induction as arbitrary: d out)
  case Nil
  then show ?case by (simp add: same_alerts_def)
next
  case (Cons a as)
  obtain d1 out1 where one: "notify_one cy a (d, out) = (d1, out1)" by (cases "notify_one cy a (d, out)")
  obtain s1 where s1: "out1 = out @ s1" "\<forall>m \<in> set s1. warranted cy pending m" "same_alerts d d1"
    using notify_one_sent [of a pending cy d out] Cons.prems one by auto
  obtain s2 where s2: "snd (fold (notify_one cy) as (d1, out1)) = out1 @ s2" "\<forall>m \<in> set s2. warranted cy pending m"
    "same_alerts d1 (fst (fold (notify_one cy) as (d1, out1)))"
    using Cons.IH [of d1 out1] Cons.prems by auto
  show ?case
    using s1 s2 one by (intro exI [of _ "s1 @ s2"]) (auto simp: same_alerts_def)
qed

end
