(* ===== verification/Performance.thy ===== *)
theory Performance
  imports Alert_Engine
begin

text \<open>
  The numbers behind the performance page: the last minute, second by second
  (\<^verbatim>\<open>internal/metrics/live.go\<close>), and the latency estimated from the sampled log
  (\<^verbatim>\<open>internal/db/performance.go\<close>). The ranking of the slowest operations is left out: the order
  \<^verbatim>\<open>sort.Slice\<close> gives to equals is not specified.
\<close>

subsection \<open>The last minute\<close>

record second_bucket =
  sb_second :: int
  sb_requests :: int
  sb_bytes_in :: int
  sb_bytes_out :: int

definition empty_bucket :: "int \<Rightarrow> second_bucket" where
  "empty_bucket t = \<lparr>sb_second = t, sb_requests = 0, sb_bytes_in = 0, sb_bytes_out = 0\<rparr>"

definition window_seconds :: nat where "window_seconds = 60"

definition new_live_window :: "second_bucket list" where
  "new_live_window = replicate window_seconds (empty_bucket 0)"

text \<open>Seconds are those of the Unix clock, which is past its epoch.\<close>

definition slot :: "int \<Rightarrow> nat" where
  "slot t = nat (t mod int window_seconds)"

definition count_into :: "int \<Rightarrow> int \<Rightarrow> second_bucket \<Rightarrow> second_bucket" where
  "count_into bytes_in bytes_out b = b\<lparr>sb_requests := sb_requests b + 1, sb_bytes_in := sb_bytes_in b + bytes_in,
     sb_bytes_out := sb_bytes_out b + bytes_out\<rparr>"

definition record_live :: "int \<times> int \<times> int \<Rightarrow> second_bucket list \<Rightarrow> second_bucket list" where
  "record_live = (\<lambda>(now, bytes_in, bytes_out) w.
     let i = slot now; b = w ! i
     in w[i := count_into bytes_in bytes_out (if sb_second b \<noteq> now then empty_bucket now else b)])"

definition live_snapshot :: "int \<Rightarrow> second_bucket list \<Rightarrow> second_bucket list" where
  "live_snapshot now w =
     map (\<lambda>i. let t = now - (int window_seconds - 1 - int i); b = w ! slot t
       in if sb_second b = t then b else empty_bucket t) [0..<window_seconds]"

text \<open>What a chart of one second should show: the requests that ended in it.\<close>

definition second_of :: "(int \<times> int \<times> int) list \<Rightarrow> int \<Rightarrow> second_bucket" where
  "second_of reqs t =
     fold (\<lambda>(_, bytes_in, bytes_out). count_into bytes_in bytes_out) (filter (\<lambda>r. fst r = t) reqs) (empty_bucket t)"

lemma second_of_append:
  "second_of (reqs @ [(t, i, n)]) u = (if u = t then count_into i n (second_of reqs u) else second_of reqs u)"
  by (simp add: second_of_def)

lemma second_of_fresh: "t \<notin> fst ` set reqs \<Longrightarrow> second_of reqs t = empty_bucket t"
proof -
  assume "t \<notin> fst ` set reqs"
  then have "filter (\<lambda>r. fst r = t) reqs = []" by (auto simp: filter_empty_conv)
  then show ?thesis by (simp add: second_of_def)
qed

lemma sb_second_fold:
  "sb_second (fold (\<lambda>(_, i, n). count_into i n) rs b) = sb_second b"
  by (induction rs arbitrary: b) (auto simp: count_into_def split: prod.splits)

lemma sb_second_of [simp]: "sb_second (second_of reqs t) = t"
  unfolding second_of_def sb_second_fold by (simp add: empty_bucket_def)

text \<open>Each slot holds the newest of its seconds, once there is one.\<close>

definition slot_state :: "(int \<times> int \<times> int) list \<Rightarrow> nat \<Rightarrow> second_bucket" where
  "slot_state reqs i =
     (case rev (filter (\<lambda>r. slot (fst r) = i) reqs) of [] \<Rightarrow> empty_bucket 0 | r # _ \<Rightarrow> second_of reqs (fst r))"

lemma slot_less [simp]: "slot t < window_seconds"
  by (simp add: slot_def window_seconds_def nat_less_iff)

lemma slot_seconds: "slot t < 60"
  using slot_less [of t] by (simp add: window_seconds_def)

lemma slot_eq:
  assumes "slot a = slot b" "a < b + 60" "b < a + 60"
  shows "a = b"
proof -
  have "a mod 60 = b mod 60" using assms(1) by (simp add: slot_def window_seconds_def nat_eq_iff)
  then obtain k where "a = b + 60 * k" by (metis add.commute mod_eqE mult.commute diff_add_cancel mod_eq_dvd_iff dvd_def)
  with assms(2,3) have "k = 0" by auto
  with \<open>a = b + 60 * k\<close> show ?thesis by simp
qed

text \<open>A request may be counted late, after others that ended less than a minute after it.\<close>

definition within_minute :: "(int \<times> int \<times> int) list \<Rightarrow> bool" where
  "within_minute = sorted_wrt (\<lambda>a b. fst a < fst b + 60)"

lemma slot_state_newest:
  assumes "within_minute reqs"
  shows "slot_state reqs i = empty_bucket 0 \<and> (\<forall>r \<in> set reqs. slot (fst r) \<noteq> i) \<or>
    (\<exists>u. slot_state reqs i = second_of reqs u \<and> slot u = i \<and> u \<in> fst ` set reqs \<and>
       (\<forall>r \<in> set reqs. slot (fst r) = i \<longrightarrow> fst r < u + 60))"
proof (cases "rev (filter (\<lambda>r. slot (fst r) = i) reqs)")
  case Nil
  then show ?thesis by (auto simp: slot_state_def filter_empty_conv)
next
  case (Cons u rest)
  then have f: "filter (\<lambda>r. slot (fst r) = i) reqs = rev rest @ [u]" by (metis rev_rev_ident rev.simps(2))
  have "u \<in> set (filter (\<lambda>r. slot (fst r) = i) reqs)" unfolding f by simp
  then have u: "u \<in> set reqs" "slot (fst u) = i" by auto
  have "sorted_wrt (\<lambda>a b. fst a < fst b + 60) (rev rest @ [u])"
    using sorted_wrt_filter [OF assms [unfolded within_minute_def], of "\<lambda>r. slot (fst r) = i"] f by simp
  then have "\<forall>r \<in> set (rev rest @ [u]). fst r < fst u + 60" by (auto simp: sorted_wrt_append)
  then have "\<forall>r \<in> set (filter (\<lambda>r. slot (fst r) = i) reqs). fst r < fst u + 60" unfolding f .
  then have "\<forall>r \<in> set reqs. slot (fst r) = i \<longrightarrow> fst r < fst u + 60" by (simp only: set_filter mem_Collect_eq) blast
  with u Cons show ?thesis unfolding slot_state_def by (intro disjI2 exI [of _ "fst u"]) auto
qed

lemma slot_state_append:
  "slot_state (reqs @ [(t, i, n)]) j =
     (if j = slot t then second_of (reqs @ [(t, i, n)]) t else slot_state reqs j)"
proof (cases "j = slot t")
  case True
  then show ?thesis by (simp add: slot_state_def)
next
  case False
  show ?thesis
  proof (cases "rev (filter (\<lambda>r. slot (fst r) = j) reqs)")
    case (Cons u rest)
    then have "u \<in> set (rev (filter (\<lambda>r. slot (fst r) = j) reqs))" by simp
    then have "slot (fst u) = j" by simp
    then have "fst u \<noteq> t" using False by auto
    with Cons False show ?thesis by (simp add: slot_state_def second_of_append)
  qed (use False in \<open>simp add: slot_state_def\<close>)
qed

lemma slot_state_current:
  assumes "within_minute reqs" "\<forall>r \<in> set reqs. fst r < t + 60"
  shows "(if sb_second (slot_state reqs (slot t)) = t then slot_state reqs (slot t) else empty_bucket t) = second_of reqs t"
  using slot_state_newest [OF assms(1), of "slot t"]
proof (elim disjE exE conjE)
  assume "slot_state reqs (slot t) = empty_bucket 0" "\<forall>r \<in> set reqs. slot (fst r) \<noteq> slot t"
  moreover from this(2) have "second_of reqs t = empty_bucket t" by (intro second_of_fresh) auto
  ultimately show ?thesis by (auto simp: empty_bucket_def)
next
  fix u
  assume u: "slot_state reqs (slot t) = second_of reqs u" "slot u = slot t" "u \<in> fst ` set reqs"
    and newest: "\<forall>r \<in> set reqs. slot (fst r) = slot t \<longrightarrow> fst r < u + 60"
  show ?thesis
  proof (cases "u = t")
    case False
    have "t \<notin> fst ` set reqs"
    proof
      assume "t \<in> fst ` set reqs"
      then have "t < u + 60" using newest by auto
      moreover have "u < t + 60" using assms(2) u(3) by auto
      ultimately show False using slot_eq u(2) False by blast
    qed
    with False u(1) show ?thesis by (simp add: second_of_fresh)
  qed (use u in simp)
qed

lemma record_live_slots:
  assumes "within_minute (reqs @ [(t, i, n)])"
  shows "record_live (t, i, n) (map (slot_state reqs) [0..<60]) = map (slot_state (reqs @ [(t, i, n)])) [0..<60]"
proof -
  have "within_minute reqs" "\<forall>r \<in> set reqs. fst r < t + 60"
    using assms by (auto simp: within_minute_def sorted_wrt_append)
  from slot_state_current [OF this]
  have "(if sb_second (slot_state reqs (slot t)) \<noteq> t then empty_bucket t else slot_state reqs (slot t)) = second_of reqs t"
    by auto
  then show ?thesis
    by (auto simp: record_live_def Let_def nth_list_update slot_seconds slot_state_append second_of_append
      intro!: nth_equalityI)
qed

lemma live_slots:
  "within_minute reqs \<Longrightarrow> fold record_live reqs new_live_window = map (slot_state reqs) [0..<60]"
proof (induction reqs rule: rev_induct)
  case Nil
  have "slot_state [] = (\<lambda>i. empty_bucket 0)" by (auto simp: slot_state_def)
  then show ?case by (simp add: new_live_window_def window_seconds_def map_replicate_const)
next
  case (snoc r reqs)
  then have "within_minute reqs" by (simp add: within_minute_def sorted_wrt_append)
  with snoc show ?case by (cases r) (simp add: record_live_slots)
qed

lemma live_snapshot_exact:
  assumes "within_minute reqs" "\<forall>r \<in> set reqs. fst r \<le> now"
  shows "live_snapshot now (fold record_live reqs new_live_window) = map (second_of reqs) [now - 59..now]"
proof -
  let ?chart = "\<lambda>t. if sb_second (slot_state reqs (slot t)) = t then slot_state reqs (slot t) else empty_bucket t"
  have chart: "?chart (now - (int 60 - 1 - int i)) = second_of reqs (now - (59 - int i))" for i
    using slot_state_current [OF assms(1), of "now - (59 - int i)"] assms(2) by force
  have slots: "map (slot_state reqs) [0..<60] ! slot t = slot_state reqs (slot t)" for t by (simp add: slot_seconds)
  have "live_snapshot now (fold record_live reqs new_live_window) =
      map (\<lambda>i. second_of reqs (now - (59 - int i))) [0..<60]"
    unfolding live_snapshot_def live_slots [OF assms(1)] window_seconds_def Let_def slots chart ..
  also have "\<dots> = map (second_of reqs) (map (\<lambda>i. now - (59 - int i)) [0..<60])" by simp
  also have "map (\<lambda>i. now - (59 - int i)) [0..<60] = [now - 59..now]"
    by (intro nth_equalityI) (simp_all add: nth_upto)
  finally show ?thesis .
qed

subsection \<open>Latency\<close>

record latency_summary =
  ls_p50 :: int
  ls_p90 :: int
  ls_p99 :: int
  ls_max :: int
  ls_over_threshold :: nat
  ls_sample_rows :: nat

definition sampled_rows :: "time \<Rightarrow> time \<Rightarrow> log_db \<Rightarrow> log_row list" where
  "sampled_rows since until d =
     filter (\<lambda>r. rl_surface (lw_entry r) = ''s3'' \<and> since \<le> lw_at r \<and> lw_at r < until) (ld_requests d)"

definition earliest_sample :: "log_db \<Rightarrow> time option" where
  "earliest_sample d =
     (case map lw_at (filter (\<lambda>r. rl_surface (lw_entry r) = ''s3'') (ld_requests d)) of
        [] \<Rightarrow> None | t # ts \<Rightarrow> Some (fold min ts t))"

text \<open>A row kept by chance stands for as many requests as the rate says.\<close>

definition row_weight :: "floats \<Rightarrow> rat \<Rightarrow> bool \<Rightarrow> rat" where
  "row_weight fl rate sampled = (if sampled then fl_round fl (1 / rate) else 1)"

definition add_weights :: "floats \<Rightarrow> rat list \<Rightarrow> rat" where
  "add_weights fl = foldl (\<lambda>t w. fl_round fl (t + w)) 0"

fun first_reaching :: "floats \<Rightarrow> rat \<Rightarrow> rat \<Rightarrow> int \<Rightarrow> (int \<times> rat) list \<Rightarrow> int" where
  "first_reaching fl target cum most [] = most"
| "first_reaching fl target cum most ((ms, w) # ps) =
     (let cum' = fl_round fl (cum + w) in if target \<le> cum' then ms else first_reaching fl target cum' most ps)"

definition quantile :: "floats \<Rightarrow> (int \<times> rat) list \<Rightarrow> int \<Rightarrow> rat \<Rightarrow> int" where
  "quantile fl points most q =
     (let weight = add_weights fl (map snd points)
      in if weight = 0 then 0 else first_reaching fl (fl_round fl (weight * fl_round fl q)) 0 most points)"

definition latency :: "floats \<Rightarrow> time \<Rightarrow> time \<Rightarrow> rat \<Rightarrow> int \<Rightarrow> log_db \<Rightarrow> latency_summary" where
  "latency fl since until sample_rate threshold d =
     (let rows = map lw_entry (sampled_rows since until d); rate = (if sample_rate \<le> 0 then 1 else sample_rate);
          points = map (\<lambda>x. (rl_duration_ms x, row_weight fl rate (rl_sampled x))) (sort_key rl_duration_ms rows);
          most = foldl (\<lambda>m p. if m < fst p then fst p else m) 0 points
      in \<lparr>ls_p50 = quantile fl points most (50 / 100), ls_p90 = quantile fl points most (90 / 100),
          ls_p99 = quantile fl points most (99 / 100), ls_max = most,
          ls_over_threshold = length (filter (\<lambda>x. threshold \<le> rl_duration_ms x) rows), ls_sample_rows = length rows\<rparr>)"

subsection \<open>The page\<close>

definition performance_window :: "time \<Rightarrow> string \<Rightarrow> (time \<times> time) option" where
  "performance_window now asked =
     (if asked \<in> {[], ''1h''} then Some (now - 3600 * second, now)
      else if asked = ''24h'' then Some (now - 24 * 3600 * second, now)
      else if asked = ''7d'' then Some (now - 7 * 24 * 3600 * second, now) else None)"

text \<open>The start of what the samples cover, and whether that is less than what was asked for.\<close>

definition coverage :: "time \<Rightarrow> time option \<Rightarrow> time \<times> bool" where
  "coverage since earliest = (case earliest of Some t \<Rightarrow> if since < t then (t, True) else (since, False) | None \<Rightarrow> (since, False))"

subsection \<open>Percentiles are in order\<close>

lemma first_reaching_mono:
  "a \<le> b \<Longrightarrow> sorted (map fst ps) \<Longrightarrow> \<forall>p \<in> set ps. fst p \<le> most \<Longrightarrow>
     first_reaching fl a cum most ps \<le> first_reaching fl b cum most ps"
proof (induction ps arbitrary: cum)
  case (Cons p ps)
  obtain ms w where p: "p = (ms, w)" by (cases p)
  have later: "ms \<le> first_reaching fl b cum' most ps" for cum'
    using Cons.prems(2,3)
  proof (induction ps arbitrary: cum')
    case Nil
    then show ?case by (simp add: p)
  next
    case (Cons q qs)
    then show ?case by (cases q) (auto simp: p Let_def)
  qed
  show ?case
    using Cons.IH [of "fl_round fl (cum + w)"] Cons.prems later by (auto simp: p Let_def)
qed simp

lemma first_reaching_top:
  "\<forall>p \<in> set ps. fst p \<le> most \<Longrightarrow> first_reaching fl a cum most ps \<le> most"
  by (induction ps arbitrary: cum) (auto simp: Let_def)

lemma foldl_top:
  "m \<le> foldl (\<lambda>m p. if m < fst p then fst p else m) m (ps :: (int \<times> 'a) list) \<and>
     (\<forall>p \<in> set ps. fst p \<le> foldl (\<lambda>m p. if m < fst p then fst p else m) m ps)"
proof (induction ps arbitrary: m)
  case (Cons p ps)
  show ?case using Cons [of "if m < fst p then fst p else m"] by (auto split: if_splits)
qed simp

lemma quantile_mono:
  assumes "mono (fl_round fl)" "0 \<le> add_weights fl (map snd ps)" "p \<le> q" "sorted (map fst ps)" "\<forall>x \<in> set ps. fst x \<le> most"
  shows "quantile fl ps most p \<le> quantile fl ps most q"
proof -
  have "fl_round fl p \<le> fl_round fl q" by (rule monoD [OF assms(1,3)])
  then have le: "fl_round fl (add_weights fl (map snd ps) * fl_round fl p) \<le> fl_round fl (add_weights fl (map snd ps) * fl_round fl q)"
    by (intro monoD [OF assms(1), OF mult_left_mono [OF _ assms(2)]])
  from first_reaching_mono [OF le assms(4,5)] show ?thesis by (simp add: quantile_def Let_def)
qed

lemma add_weights_nonneg:
  assumes "mono (fl_round fl)" "fl_round fl 0 = 0" "\<forall>w \<in> set ws. 0 \<le> w"
  shows "0 \<le> add_weights fl ws"
proof -
  have "0 \<le> foldl (\<lambda>t w. fl_round fl (t + w)) t ws" if "0 \<le> t" for t
    using that assms(3)
  proof (induction ws arbitrary: t)
    case (Cons w ws)
    then have "fl_round fl 0 \<le> fl_round fl (t + w)" by (intro monoD [OF assms(1)]) simp
    with Cons assms(2) show ?case by simp
  qed simp
  then show ?thesis by (simp add: add_weights_def)
qed

end
