(* ===== verification/Metrics_Rollup.thy ===== *)
theory Metrics_Rollup
  imports Complex_Main Accounts
begin

text \<open>
  Request counts, accumulated in memory and flushed into hourly cells (\<^verbatim>\<open>internal/metrics/collector.go\<close>,
  \<^verbatim>\<open>internal/db/metrics.go\<close> and the windowed report of \<^verbatim>\<open>performance.go\<close>). Counts stay below the
  64 bits of the code.
\<close>

subsection \<open>Cells\<close>

record counts =
  ct_requests :: int
  ct_bytes_in :: int
  ct_bytes_out :: int

text \<open>A cell is named by the start of its hour and the class of the status.\<close>

type_synonym cell = "time \<times> int"
type_synonym metric_cells = "(cell, counts) table"
type_synonym metric_sample = "cell \<times> counts"

definition no_counts :: counts where
  "no_counts = \<lparr>ct_requests = 0, ct_bytes_in = 0, ct_bytes_out = 0\<rparr>"

definition add_counts :: "counts \<Rightarrow> counts \<Rightarrow> counts" where
  "add_counts a b = \<lparr>ct_requests = ct_requests a + ct_requests b, ct_bytes_in = ct_bytes_in a + ct_bytes_in b,
     ct_bytes_out = ct_bytes_out a + ct_bytes_out b\<rparr>"

definition hour :: time where "hour = 3600 * second"

definition cell_counts :: "metric_cells \<Rightarrow> cell \<Rightarrow> counts" where
  "cell_counts t k = (case map_of t k of None \<Rightarrow> no_counts | Some c \<Rightarrow> c)"

definition add_cell :: "cell \<Rightarrow> counts \<Rightarrow> metric_cells \<Rightarrow> metric_cells" where
  "add_cell k c t = AList.update k (add_counts (cell_counts t k) c) t"

subsection \<open>The collector\<close>

text \<open>Go's division truncates; a class out of range counts as a server error.\<close>

definition status_class :: "int \<Rightarrow> int" where
  "status_class status =
     (let c = (if status < 0 then - (- status div 100) else status div 100) in if c < 1 \<or> 5 < c then 5 else c)"

definition record_counts :: "time \<Rightarrow> int \<Rightarrow> int \<Rightarrow> int \<Rightarrow> metric_cells \<Rightarrow> metric_cells" where
  "record_counts now status bytes_in bytes_out pending =
     add_cell (now - now mod hour, status_class status)
       \<lparr>ct_requests = 1, ct_bytes_in = bytes_in, ct_bytes_out = bytes_out\<rparr> pending"

definition restore_counts :: "metric_sample list \<Rightarrow> metric_cells \<Rightarrow> metric_cells" where
  "restore_counts samples pending = fold (\<lambda>(k, c). add_cell k c) samples pending"

text \<open>
  One statement per sample, each its own transaction; \<open>fails n\<close> says that the \<open>n\<close>-th fails. The result
  says whether all of them succeeded.
\<close>

fun flush_metrics :: "(nat \<Rightarrow> bool) \<Rightarrow> nat \<Rightarrow> metric_sample list \<Rightarrow> metric_cells \<Rightarrow> bool \<times> metric_cells" where
  "flush_metrics fails n [] t = (True, t)"
| "flush_metrics fails n ((k, c) # samples) t =
     (if fails n then (False, t) else flush_metrics fails (Suc n) samples (add_cell k c t))"

text \<open>The order in which Go hands out the cells of its map is \<open>order\<close>.\<close>

definition flush_collector ::
  "(metric_cells \<Rightarrow> metric_sample list) \<Rightarrow> (nat \<Rightarrow> bool) \<Rightarrow> metric_cells \<times> metric_cells \<Rightarrow> bool \<times> metric_cells \<times> metric_cells" where
  "flush_collector order fails = (\<lambda>(pending, t).
     let samples = order pending
     in if samples = [] then (True, [], t)
        else let (ok, t') = flush_metrics fails 0 samples t
          in (ok, if ok then [] else restore_counts samples [], t'))"

subsection \<open>Reports\<close>

definition sum_cells :: "(cell \<Rightarrow> bool) \<Rightarrow> (counts \<Rightarrow> int) \<Rightarrow> metric_cells \<Rightarrow> int" where
  "sum_cells p f t = sum_list (map (f \<circ> snd) (filter (p \<circ> fst) t))"

record traffic_summary =
  ts_requests :: int
  ts_client_errors :: int
  ts_server_errors :: int
  ts_bytes_in :: int
  ts_bytes_out :: int
  ts_series :: "(time \<times> int \<times> int) list"

definition summarise :: "(time \<Rightarrow> bool) \<Rightarrow> (time \<times> int \<times> int) list \<Rightarrow> metric_cells \<Rightarrow> traffic_summary" where
  "summarise p series t =
     \<lparr>ts_requests = sum_cells (\<lambda>(h, _). p h) ct_requests t,
      ts_client_errors = sum_cells (\<lambda>(h, c). p h \<and> c = 4) ct_requests t,
      ts_server_errors = sum_cells (\<lambda>(h, c). p h \<and> c = 5) ct_requests t,
      ts_bytes_in = sum_cells (\<lambda>(h, _). p h) ct_bytes_in t,
      ts_bytes_out = sum_cells (\<lambda>(h, _). p h) ct_bytes_out t, ts_series = series\<rparr>"

text \<open>One bar per step, from the one \<open>first\<close> lies in; hours and days are those of UTC.\<close>

definition bars :: "time \<Rightarrow> time \<Rightarrow> nat \<Rightarrow> metric_cells \<Rightarrow> (time \<times> int \<times> int) list" where
  "bars step first n t =
     map (\<lambda>i. let begins = first - first mod step + int i * step; mine = (\<lambda>h. h - h mod step = begins)
       in (begins, sum_cells (\<lambda>(h, _). mine h) ct_requests t,
           sum_cells (\<lambda>(h, c). mine h \<and> c \<in> {4, 5}) ct_requests t)) [0..<n]"

definition traffic :: "time \<Rightarrow> nat \<Rightarrow> metric_cells \<Rightarrow> traffic_summary" where
  "traffic now days t =
     summarise (\<lambda>h. now - 24 * hour < h) (bars day (now - int (days - 1) * day) days t) t"

definition hourly_series_limit :: time where "hourly_series_limit = 48 * hour"

definition requests_in_window :: "time \<Rightarrow> time \<Rightarrow> metric_cells \<Rightarrow> traffic_summary" where
  "requests_in_window since until t =
     (let step = (if hourly_series_limit < until - since then day else hour);
          first = since - since mod step; final = (until - 1000) - (until - 1000) mod step
      in summarise (\<lambda>h. since \<le> h \<and> h < until) (bars step first (nat ((final - first) div step + 1)) t) t)"

text \<open>\<^verbatim>\<open>ErrorRate\<close> before the rounding of \<^verbatim>\<open>float64\<close>.\<close>

definition error_rate :: "traffic_summary \<Rightarrow> rat" where
  "error_rate s =
     (if ts_requests s = 0 then 0 else of_int (ts_client_errors s + ts_server_errors s) / of_int (ts_requests s))"

definition purge_metrics :: "time \<Rightarrow> time \<Rightarrow> metric_cells \<Rightarrow> metric_cells" where
  "purge_metrics now retain t = filter (\<lambda>((h, _), _). \<not> h < now - retain) t"

subsection \<open>What is counted\<close>

lemma cell_counts_Nil [simp]: "cell_counts [] k = no_counts"
  by (simp add: cell_counts_def)

lemma cell_counts_add: "cell_counts (add_cell k c t) j = (if j = k then add_counts (cell_counts t k) c else cell_counts t j)"
  by (simp add: add_cell_def cell_counts_def update_conv')

lemma add_counts_simps [simp]:
  "add_counts no_counts c = c" "add_counts c no_counts = c"
  by (simp_all add: add_counts_def no_counts_def)

lemma add_counts_assoc: "add_counts (add_counts a b) c = add_counts a (add_counts b c)"
  by (simp add: add_counts_def)

lemma add_counts_commute: "add_counts a b = add_counts b a"
  by (simp add: add_counts_def)

lemma cell_counts_restore:
  "distinct (map fst samples) \<Longrightarrow>
     cell_counts (restore_counts samples t) k = add_counts (cell_counts t k) (cell_counts samples k)"
proof (induction samples arbitrary: t)
  case Nil
  then show ?case by (simp add: restore_counts_def cell_counts_def)
next
  case (Cons s samples)
  obtain j c where s: "s = (j, c)" by (cases s)
  have new: "cell_counts samples j = no_counts"
    using Cons.prems s by (force simp: cell_counts_def split: option.split dest: map_of_SomeD)
  have "cell_counts (restore_counts (s # samples) t) k =
      add_counts (cell_counts (add_cell j c t) k) (cell_counts samples k)"
    using Cons by (simp add: restore_counts_def s)
  then show ?case
    using new by (auto simp: cell_counts_add s add_counts_assoc) (simp_all add: cell_counts_def)
qed

lemma flush_metrics_all:
  assumes "\<And>i. \<not> fails i"
  shows "flush_metrics fails n samples t = (True, restore_counts samples t)"
  using assms by (induction fails n samples t rule: flush_metrics.induct) (simp_all add: restore_counts_def)

lemma flush_metrics_True: "flush_metrics fails n samples t = (True, t') \<Longrightarrow> t' = restore_counts samples t"
  by (induction fails n samples t rule: flush_metrics.induct) (auto simp: restore_counts_def split: if_splits)

lemma flush_metrics_prefix:
  assumes "flush_metrics fails n samples t = (False, t')"
  shows "\<exists>m < length samples. t' = restore_counts (take m samples) t"
  using assms
proof (induction fails n samples t rule: flush_metrics.induct)
  case (2 fails n k c samples t)
  show ?case
  proof (cases "fails n")
    case True
    with 2 show ?thesis by (intro exI [of _ 0]) (simp add: restore_counts_def)
  next
    case False
    then obtain m where "m < length samples" "t' = restore_counts (take m samples) (add_cell k c t)" using 2 by auto
    then show ?thesis by (intro exI [of _ "Suc m"]) (simp add: restore_counts_def)
  qed
qed simp

text \<open>Every request is in one of the two places, or, of a flush that failed half-way, in both.\<close>

definition counted :: "metric_cells \<times> metric_cells \<Rightarrow> cell \<Rightarrow> counts" where
  "counted = (\<lambda>(pending, t) k. add_counts (cell_counts pending k) (cell_counts t k))"

lemma cell_counts_same:
  assumes "keyed pending" "keyed samples" "set samples = set pending"
  shows "cell_counts samples k = cell_counts pending k"
  using map_of_eqI [of samples pending] assms map_of_inject_set [of samples pending]
  by (simp add: cell_counts_def)

lemma flush_collector_counts:
  assumes "flush_collector order fails (pending, t) = (ok, pending', t')" "keyed pending"
    and "keyed (order pending)" "set (order pending) = set pending"
  shows "\<exists>m. counted (pending', t') k = add_counts (counted (pending, t) k) (cell_counts (take m (order pending)) k) \<and>
    (if ok then m = 0 else m < length (order pending) \<and> pending' = restore_counts (order pending) [] \<and>
       t' = restore_counts (take m (order pending)) t)"
proof (cases "order pending = []")
  case True
  then show ?thesis using assms by (simp add: flush_collector_def counted_def cell_counts_def)
next
  case False
  let ?samples = "order pending"
  have same: "cell_counts ?samples k = cell_counts pending k" by (rule cell_counts_same [OF assms(2-4)])
  obtain ok' t'' where flush: "flush_metrics fails 0 ?samples t = (ok', t'')" by (cases "flush_metrics fails 0 ?samples t")
  then have out: "ok = ok'" "t' = t''" "pending' = (if ok then [] else restore_counts ?samples [])"
    using assms(1) False by (auto simp: flush_collector_def Let_def)
  show ?thesis
  proof (cases ok)
    case True
    then have "t' = restore_counts ?samples t" using flush out flush_metrics_True by metis
    then show ?thesis
      using True out same assms(3) by (intro exI [of _ 0])
        (simp add: counted_def cell_counts_restore add_counts_commute)
  next
    case False
    then obtain m where m: "m < length ?samples" "t' = restore_counts (take m ?samples) t"
      using flush_metrics_prefix [of fails 0 ?samples t t'] flush out by auto
    have "keyed (take m ?samples)" using assms(3) by (simp add: take_map [symmetric])
    then have c: "cell_counts t' k = add_counts (cell_counts t k) (cell_counts (take m ?samples) k)"
      unfolding m(2) by (rule cell_counts_restore)
    show ?thesis
      using False out(3) same assms(3) m c by (intro exI [of _ m])
        (simp add: counted_def cell_counts_restore add_counts_assoc)
  qed
qed

end
