(* ===== verification/Telemetry_Properties.thy ===== *)
theory Telemetry_Properties
  imports Alert_Runs Performance Metrics_Rollup
begin

text \<open>
  What the logs, the metrics and the alerts promise: one live alert to a rule, mail only where it is due,
  the exact last minute, and what sampling, failed flushes and bad bytes do to the numbers.
\<close>

subsection \<open>Samples\<close>

definition sample_entry :: request_log where
  "sample_entry = \<lparr>rl_at = None, rl_request_id = ''r'', rl_node = [], rl_surface = ''s3'', rl_method = ''GET'',
     rl_bucket = ''b'', rl_key = ''k'', rl_path = ''/b/k'', rl_operation = ''GetObject'', rl_status = 404,
     rl_error_code = ''NoSuchKey'', rl_reason = ''no such key'', rl_bytes_in = 0, rl_bytes_out = 0, rl_duration_ms = 1,
     rl_access_key_id = ''AKIA'', rl_actor = [], rl_client_ip = ''10.0.0.1'', rl_user_agent = ''aws'', rl_sampled = False\<rparr>"

definition exact_floats :: floats where
  "exact_floats = \<lparr>fl_round = (\<lambda>x. x), fl_text = (\<lambda>x. ''n'')\<rparr>"

definition sample_engine :: engine where
  "sample_engine = \<lparr>en_floats = exact_floats, en_host = (\<lambda>_. ''10.0.0.1''), en_notifier = True\<rparr>"

definition sample_cycle :: "time \<Rightarrow> log_db \<Rightarrow> accounts \<Rightarrow> cycle" where
  "sample_cycle now logs acc = \<lparr>cy_now = (\<lambda>_ _. now), cy_down = (\<lambda>_ _. False), cy_locked = False,
     cy_usage = Some (100, 50), cy_mail = (\<lambda>_ _. True), cy_logs = logs, cy_accounts = acc\<rparr>"

definition sample_admins :: accounts where
  "sample_admins = no_accounts\<lparr>users := [(''u1'', \<lparr>us_id = ''u1'', us_email = ''root@example.com'', us_role = ''ADMIN'',
     us_created_at = 0, us_last_login_at = None, us_password_hash = None, us_password_set_at = None,
     us_must_change = False\<rparr>)]\<rparr>"



subsection \<open>Alerts\<close>

text \<open>C33. Whatever sequence of engine cycles, screens and restarts there is, and whichever of their statements
  fail, a rule has at most one alert that is not resolved, every alert belongs to a rule, and no two share
  a number.
\<close>
theorem one_live_alert:
  "let d = fst (fold take_step sts (no_alerts, [])) in
     (\<forall>rid. length (filter (live_for rid) (ad_alerts d)) \<le> 1) \<and> distinct (map al_id (ad_alerts d)) \<and>
     (\<forall>a \<in> set (ad_alerts d). map_of (ad_rules d) (al_rule_id a) \<noteq> None)"
proof -
  have "wf_alerts (fst (fold take_step sts (no_alerts, [])))" by (rule steps_keep) (simp add: wf_no_alerts)
  then show ?thesis unfolding wf_alerts_def Let_def by blast
qed



definition full_disk :: cycle where
  "full_disk = (sample_cycle second empty_log_db sample_admins)\<lparr>cy_usage := Some (100, 2)\<rparr>"

definition two_cycles :: "alert_step list" where
  "two_cycles = [Seeded (\<lambda>_. 0), Evaluated sample_engine full_disk, Evaluated sample_engine full_disk]"

lemma one_live_alert_witness:
  "let d = fst (fold take_step two_cycles (no_alerts, []))
   in length (ad_alerts d) = 2 \<and> map_of (ad_rules d) (al_rule_id (hd (ad_alerts d))) \<noteq> None"
proof -
  define d where "d = fst (fold take_step two_cycles (no_alerts, []))"
  have one: "length (ad_alerts d) = 2" unfolding d_def by code_simp
  then have "hd (ad_alerts d) \<in> set (ad_alerts d)" by (cases "ad_alerts d") simp_all
  with one_live_alert [of two_cycles] one show ?thesis by (simp add: Let_def flip: d_def)
qed



subsection \<open>The last minute and the percentiles\<close>

text \<open>C38. The live chart is exact: as long as no request is counted a minute or more after one that ended later,
  each of its sixty points counts the requests and bytes of its own second and of no other.
\<close>
theorem live_chart_is_exact:
  assumes "within_minute reqs" "\<forall>r \<in> set reqs. fst r \<le> now"
  shows "live_snapshot now (fold record_live reqs new_live_window) = map (second_of reqs) [now - 59..now]"
  using assms by (rule live_snapshot_exact)

lemma live_chart_is_exact_witness:
  "map sb_requests (live_snapshot 161 (fold record_live [(100, 1, 1), (161, 5, 5), (160, 7, 7), (161, 1, 1)] new_live_window)) =
     replicate 58 0 @ [1, 2]"
proof -
  have "live_snapshot 161 (fold record_live [(100, 1, 1), (161, 5, 5), (160, 7, 7), (161, 1, 1)] new_live_window) =
      map (second_of [(100, 1, 1), (161, 5, 5), (160, 7, 7), (161, 1, 1)]) [161 - 59..161]"
    by (rule live_chart_is_exact) (simp_all add: within_minute_def)
  moreover have "map (sb_requests \<circ> second_of [(100, 1, 1), (161, 5, 5), (160, 7, 7), (161, 1, 1)]) [161 - 59..161] =
      replicate 58 0 @ [1, 2]"
    by code_simp
  ultimately show ?thesis by (simp del: upto_rec_numeral)
qed

text \<open>The latency percentiles are in order and none exceeds the maximum shown, however the sampled rows are
  weighted and whatever the rounding of the floats, as long as it is monotone.
\<close>
lemma percentiles_in_order:
  assumes "mono (fl_round fl)" "fl_round fl 0 = 0"
  shows "let l = latency fl since until rate threshold d in
    ls_p50 l \<le> ls_p90 l \<and> ls_p90 l \<le> ls_p99 l \<and> ls_p99 l \<le> ls_max l"
proof -
  define rate' where "rate' = (if rate \<le> 0 then 1 else rate)"
  define xs where "xs = sort_key rl_duration_ms (map lw_entry (sampled_rows since until d))"
  define points where "points = map (\<lambda>x. (rl_duration_ms x, row_weight fl rate' (rl_sampled x))) xs"
  define most where "most = foldl (\<lambda>m p. if m < fst p then fst p else m) 0 points"
  have below: "\<forall>p \<in> set points. fst p \<le> most" and "0 \<le> most"
    unfolding most_def using foldl_top [of 0 points] by blast+
  have sorted: "sorted (map fst points)" by (simp add: points_def xs_def comp_def)
  have "0 \<le> row_weight fl rate' b" for b
    using monoD [OF assms(1), of 0 "1 / rate'"] assms(2) by (simp add: row_weight_def rate'_def)
  then have weight: "0 \<le> add_weights fl (map snd points)"
    by (intro add_weights_nonneg assms) (auto simp: points_def)
  note mono = quantile_mono [OF assms(1) weight _ sorted below]
  have "quantile fl points most (99 / 100) \<le> most"
    using first_reaching_top [OF below] \<open>0 \<le> most\<close> by (simp add: quantile_def Let_def)
  then show ?thesis
    using mono [of "50 / 100" "90 / 100"] mono [of "90 / 100" "99 / 100"]
    by (simp add: latency_def Let_def flip: rate'_def xs_def points_def most_def)
qed

definition sample_rows :: log_db where
  "sample_rows = empty_log_db\<lparr>ld_requests :=
     map (\<lambda>n. \<lparr>lw_id = n, lw_at = 1000, lw_ip = None, lw_entry = sample_entry\<lparr>rl_status := 200, rl_duration_ms := n\<rparr>\<rparr>) [40, 5, 7]\<rparr>"

lemma percentiles_in_order_witness:
  "let l = latency exact_floats 0 2000 (1 / 100) 3000 sample_rows in
     ls_max l = 40 \<and> ls_p50 l \<le> ls_p90 l \<and> ls_p90 l \<le> ls_p99 l \<and> ls_p99 l \<le> ls_max l"
proof -
  have "ls_max (latency exact_floats 0 2000 (1 / 100) 3000 sample_rows) = 40"
    by (simp add: latency_def Let_def sampled_rows_def sample_rows_def sample_entry_def empty_log_db_def)
  moreover have "mono (fl_round exact_floats)" "fl_round exact_floats 0 = 0" by (simp_all add: exact_floats_def mono_def)
  ultimately show ?thesis
    using percentiles_in_order [of exact_floats 0 2000 "1 / 100" 3000 sample_rows] by (simp add: Let_def)
qed

subsection \<open>Metrics\<close>

lemma flush_metrics_fails_at:
  "m < length samples \<Longrightarrow> fails (n + m) \<Longrightarrow> \<forall>i < m. \<not> fails (n + i) \<Longrightarrow>
     flush_metrics fails n samples t = (False, restore_counts (take m samples) t)"
proof (induction fails n samples t arbitrary: m rule: flush_metrics.induct)
  case (2 fails n k c samples t)
  show ?case
  proof (cases m)
    case 0
    with 2 show ?thesis by (simp add: restore_counts_def)
  next
    case (Suc j)
    with 2(3-4) have "\<not> fails n" "fails (Suc n + j)" "\<forall>i < j. \<not> fails (Suc n + i)" by (auto dest: spec [of _ "Suc _"])
    with 2(1) [of j] 2(2) Suc show ?thesis by (simp add: restore_counts_def)
  qed
qed simp

lemma keyed_restore: "keyed t \<Longrightarrow> keyed (restore_counts samples t)"
proof (induction samples arbitrary: t)
  case (Cons s samples)
  have "keyed (add_cell (fst s) (snd s) t)" unfolding add_cell_def by (rule distinct_update [OF Cons.prems])
  from Cons.IH [OF this] show ?case by (simp add: restore_counts_def case_prod_beta)
qed (simp add: restore_counts_def)

text \<open>C39. A flush that fails half-way and is then repeated counts the cells written before the failure twice, and
  all others once: the statements of a flush are no transaction, and the collector counts every sample again.
\<close>
theorem failed_flush_counts_twice:
  assumes "\<And>p. keyed p \<Longrightarrow> keyed (order p) \<and> set (order p) = set p"
    and "keyed pending" "m < length (order pending)" "fails m" "\<forall>i < m. \<not> fails i"
  shows "let (ok, s) = flush_collector order fails (pending, t); (ok', pending', t') = flush_collector order (\<lambda>_. False) s
    in \<not> ok \<and> ok' \<and> pending' = [] \<and> (\<forall>k. cell_counts t' k =
      add_counts (add_counts (cell_counts t k) (cell_counts pending k)) (cell_counts (take m (order pending)) k))"
proof -
  let ?samples = "order pending" and ?given = "restore_counts (order pending) []"
  let ?t = "restore_counts (take m (order pending)) t"
  have samples: "keyed ?samples" "set ?samples = set pending" using assms(1,2) by auto
  have returned: "cell_counts ?given k = cell_counts pending k" for k
    using cell_counts_restore [OF samples(1), of "[]"] cell_counts_same [OF assms(2) samples] by simp
  have keyed: "keyed ?given" by (rule keyed_restore) simp
  then have order: "keyed (order ?given)" "set (order ?given) = set ?given" using assms(1) by auto
  have first: "flush_collector order fails (pending, t) = (False, ?given, ?t)"
    using assms(3-5) flush_metrics_fails_at [of m ?samples fails 0 t] by (auto simp: flush_collector_def Let_def)
  have second: "flush_collector order (\<lambda>_. False) (?given, ?t) = (True, [], restore_counts (order ?given) ?t)"
    by (auto simp: flush_collector_def Let_def flush_metrics_all restore_counts_def)
  have "cell_counts (restore_counts (order ?given) ?t) k =
      add_counts (add_counts (cell_counts t k) (cell_counts pending k)) (cell_counts (take m ?samples) k)" for k
  proof -
    have "keyed (take m ?samples)" using samples(1) by (simp add: take_map [symmetric])
    then have "cell_counts ?t k = add_counts (cell_counts t k) (cell_counts (take m ?samples) k)"
      by (rule cell_counts_restore)
    moreover have "cell_counts (order ?given) k = cell_counts pending k"
      using cell_counts_same [OF keyed order] returned by simp
    ultimately show ?thesis using cell_counts_restore [OF order(1), of ?t k] by (simp add: add_counts_def)
  qed
  with first second show ?thesis by (simp add: Let_def)
qed

definition sample_cells :: metric_cells where
  "sample_cells = record_counts (2 * hour) 500 1 1 (record_counts 0 200 10 20 [])"

lemma failed_flush_counts_twice_witness:
  "let (ok, s) = flush_collector (\<lambda>p. p) (\<lambda>n. n = 1) (sample_cells, []);
       (ok', pending', t') = flush_collector (\<lambda>p. p) (\<lambda>_. False) s
   in \<not> ok \<and> ok' \<and> pending' = [] \<and> ct_requests (cell_counts t' (0, 2)) = 2 \<and> ct_requests (cell_counts t' (2 * hour, 5)) = 1"
proof -
  have cells: "sample_cells = [((0, 2), \<lparr>ct_requests = 1, ct_bytes_in = 10, ct_bytes_out = 20\<rparr>),
      ((2 * hour, 5), \<lparr>ct_requests = 1, ct_bytes_in = 1, ct_bytes_out = 1\<rparr>)]"
    by code_simp
  have "keyed sample_cells" "1 < length sample_cells" by (simp_all add: cells)
  then show ?thesis
    using failed_flush_counts_twice [of "\<lambda>p. p" sample_cells 1 "\<lambda>n. n = 1" "[]"]
    by (auto simp: Let_def cell_counts_def add_counts_def no_counts_def cells hour_def split: prod.splits)
qed

subsection \<open>What is kept of the requests\<close>

definition served :: "(rat \<times> request_log) list \<Rightarrow> sink \<Rightarrow> sink" where
  "served = fold (\<lambda>(draw, x). record_request draw x)"

definition kept_entries :: "policy \<Rightarrow> (rat \<times> request_log) list \<Rightarrow> request_log list" where
  "kept_entries p = List.map_filter (\<lambda>(draw, x). kept_entry p draw x)"

lemma kept_entries_Cons:
  "kept_entries p ((draw, x) # reqs) =
     (case kept_entry p draw x of None \<Rightarrow> kept_entries p reqs | Some y \<Rightarrow> y # kept_entries p reqs)"
  by (simp add: kept_entries_def map_filter_simps split: option.split)

lemma served_requests:
  "length (sk_requests sk) + length (kept_entries (sk_policy sk) reqs) \<le> max_buffer \<Longrightarrow>
     served reqs sk = sk\<lparr>sk_requests := sk_requests sk @
       map (rl_node_update (\<lambda>_. sk_node sk)) (kept_entries (sk_policy sk) reqs)\<rparr>"
proof (induction reqs arbitrary: sk)
  case Nil
  then show ?case by (simp add: served_def kept_entries_def map_filter_simps)
next
  case (Cons r reqs)
  obtain draw x where r: "r = (draw, x)" by (cases r)
  show ?case
  proof (cases "kept_entry (sk_policy sk) draw x")
    case None
    then have "record_request draw x sk = sk" by (simp add: record_request_def)
    with Cons r None show ?thesis by (simp add: served_def kept_entries_Cons)
  next
    case (Some y)
    let ?sk = "sk\<lparr>sk_requests := sk_requests sk @ [y\<lparr>rl_node := sk_node sk\<rparr>]\<rparr>"
    have "record_request draw x sk = ?sk"
      using Cons.prems Some r by (simp add: record_request_def kept_entries_Cons)
    moreover have "served reqs ?sk = ?sk\<lparr>sk_requests := sk_requests ?sk @
        map (rl_node_update (\<lambda>_. sk_node ?sk)) (kept_entries (sk_policy ?sk) reqs)\<rparr>"
      using Cons.IH [of ?sk] Cons.prems Some r by (simp add: kept_entries_Cons)
    ultimately show ?thesis using r Some by (simp add: served_def kept_entries_Cons)
  qed
qed

lemma kept_failures:
  "length (filter failed_request (kept_entries p reqs)) = length (filter (failed_request \<circ> snd) reqs)"
proof (induction reqs)
  case Nil
  then show ?case by (simp add: kept_entries_def map_filter_simps)
next
  case (Cons r reqs)
  then show ?case
    by (cases r) (auto simp: kept_entries_Cons kept_entry_def failed_request_def split: option.split)
qed

lemma inserted_rows:
  "list_all (entry_ok \<circ> stored_entry) xs \<Longrightarrow> \<exists>d'. insert_request_logs now xs d = Inr d' \<and>
     ld_requests d' = ld_requests d @ map (\<lambda>(i, x). log_row_of now (ld_next_request d + int i) x) (enumerate 0 xs)"
  by (simp add: insert_request_logs_def)

text \<open>C40. The error rate an alert reports is that of the log, which keeps every failure and, at the default rate, one
  success in a hundred: of the requests served it sees all that failed and only the successes that were
  slow or drawn, so a share of failures far below the threshold raises the alert.
\<close>
theorem error_rate_measures_sample:
  assumes "length (kept_entries default_policy reqs) \<le> max_buffer" "20 \<le> length (kept_entries default_policy reqs)"
    and "\<forall>x \<in> set (kept_entries default_policy reqs). entry_ok (stored_entry (x\<lparr>rl_node := node\<rparr>)) \<and>
      (\<forall>t \<in> set_option (rl_at x). cy_now cy rule_error_rate 0 - 15 * minute < t)"
    and "\<not> down 0" "cy_now cy rule_error_rate 0 - 15 * minute < flushed_at" "\<not> cy_down cy rule_error_rate 0"
    and "cy_logs cy = snd (flush_sink down flushed_at (served reqs (new_sink node default_policy), empty_log_db))"
    and "5 \<le> percentage (en_floats en) (length (filter (failed_request \<circ> snd) reqs)) (length (kept_entries default_policy reqs))"
  shows "\<exists>a. check_error_rate en cy (the (map_of default_rules rule_error_rate)) = Inr (Some a) \<and>
    dr_detail a =
      [(''rate'', Detail_Number (percentage (en_floats en) (length (filter (failed_request \<circ> snd) reqs)) (length (kept_entries default_policy reqs)))),
       (''failed'', Detail_Number (of_nat (length (filter (failed_request \<circ> snd) reqs)))),
       (''total'', Detail_Number (of_nat (length (kept_entries default_policy reqs))))]"
proof -
  let ?kept = "kept_entries default_policy reqs" and ?sk = "new_sink node default_policy"
  let ?rule = "default_rule ''Error rate'' ''warning'' ''Too many requests are failing.''
    [(''threshold_percent'', 5), (''window_minutes'', 15), (''minimum_requests'', 20)]"
  let ?rows = "map (rl_node_update (\<lambda>_. node)) (kept_entries default_policy reqs)"
  define sk where "sk = served reqs ?sk"
  have sk: "sk_requests sk = ?rows" "sk_events sk = []"
    using served_requests [of ?sk reqs] assms(1) by (simp_all add: sk_def new_sink_def default_policy_def)
  have ok: "list_all (entry_ok \<circ> stored_entry) ?rows" using assms(3) by (simp add: list_all_iff)
  have "?rows \<noteq> []" using assms(2) by auto
  then have "cy_logs cy = (case insert_request_logs flushed_at ?rows empty_log_db of Inl _ \<Rightarrow> empty_log_db | Inr d' \<Rightarrow> d')"
    using assms(4,7) sk by (simp add: flush_sink_def drain_def Let_def flip: sk_def)
  then have logs: "ld_requests (cy_logs cy) = map (\<lambda>(i, x). log_row_of flushed_at (1 + int i) x) (enumerate 0 ?rows)"
    using inserted_rows [OF ok, of flushed_at empty_log_db] by (auto simp: empty_log_db_def)
  have r: "the (map_of default_rules rule_error_rate) = ?rule" by (simp add: default_rules_def)
  have settings: "read_setting ?rule ''threshold_percent'' 5 = 5" "read_setting ?rule ''minimum_requests'' 20 = 20"
    "rule_window ?rule = 15 * minute"
    by (simp_all add: read_setting_def default_rule_def rule_window_def truncated_def wrap64_def minute_def second_def)
  have "\<forall>r \<in> set (ld_requests (cy_logs cy)). cy_now cy rule_error_rate 0 - 15 * minute < lw_at r"
    using assms(3,5) by (auto simp: logs log_row_of_def in_set_enumerate_eq split: option.split dest!: nth_mem)
  then have recent: "recent_rows (cy_now cy rule_error_rate 0) (15 * minute) (cy_logs cy) = ld_requests (cy_logs cy)"
    by (simp add: recent_rows_def filter_id_conv)
  have entries: "map (rl_status \<circ> lw_entry) (ld_requests (cy_logs cy)) = map rl_status ?kept"
    by (simp add: logs log_row_of_def stored_entry_def comp_def case_prod_beta flip: map_map [of _ snd, unfolded comp_def])
  have "length (filter (\<lambda>x. 400 \<le> rl_status (lw_entry x)) (ld_requests (cy_logs cy))) =
      length (filter (\<lambda>s. 400 \<le> s) (map (rl_status \<circ> lw_entry) (ld_requests (cy_logs cy))))"
    by (simp add: filter_map comp_def)
  also have "\<dots> = length (filter failed_request ?kept)"
    unfolding entries by (simp add: filter_map comp_def failed_request_def [abs_def])
  finally have failed: "length (filter (\<lambda>x. 400 \<le> rl_status (lw_entry x)) (ld_requests (cy_logs cy))) =
      length (filter (failed_request \<circ> snd) reqs)" by (simp add: kept_failures)
  have all: "length (ld_requests (cy_logs cy)) = length ?kept" using map_eq_imp_length_eq [OF entries] .
  have "?kept \<noteq> []" "\<not> int (length ?kept) < 20" using assms(2) by auto
  then show ?thesis
    using assms(6,8) unfolding r check_error_rate_def Let_def settings recent all failed by (simp add: truncated_def not_less)
qed

definition good_entry :: request_log where
  "good_entry = sample_entry\<lparr>rl_status := 200, rl_error_code := [], rl_reason := []\<rparr>"

definition sample_load :: "(rat \<times> request_log) list" where
  "sample_load = replicate 20 (1 / 2, sample_entry) @ replicate 600 (1 / 2, good_entry)"

lemma kept_entries_replicate:
  "kept_entries p (replicate n (draw, x) @ reqs) =
     (case kept_entry p draw x of None \<Rightarrow> [] | Some y \<Rightarrow> replicate n y) @ kept_entries p reqs"
  by (induction n) (auto simp: kept_entries_Cons split: option.split)

lemma sample_load_kept: "kept_entries default_policy sample_load = replicate 20 sample_entry"
proof -
  have "kept_entry default_policy (1 / 2) sample_entry = Some sample_entry" "kept_entry default_policy (1 / 2) good_entry = None"
    by (simp_all add: kept_entry_def failed_request_def slow_request_def good_entry_def sample_entry_def
      default_policy_def millisecond_def wrap64_def second_def)
  then show ?thesis
    using kept_entries_replicate [of default_policy 600 "1 / 2" good_entry "[]"]
    by (simp add: sample_load_def kept_entries_replicate) (simp add: kept_entries_def map_filter_simps)
qed

lemma sample_load_failed: "length (filter (failed_request \<circ> snd) sample_load) = 20"
  by (simp add: sample_load_def failed_request_def good_entry_def sample_entry_def)

lemma sample_entry_ok: "entry_ok (stored_entry (sample_entry\<lparr>rl_node := ''n''\<rparr>))"
  by code_simp

lemma error_rate_measures_sample_witness:
  "let cy = sample_cycle 1000 (snd (flush_sink (\<lambda>_. False) 1000
        (served sample_load (new_sink ''n'' default_policy), empty_log_db))) sample_admins
   in length sample_load = 620 \<and> length (filter (failed_request \<circ> snd) sample_load) = 20 \<and>
     (\<exists>a. check_error_rate sample_engine cy (the (map_of default_rules rule_error_rate)) = Inr (Some a) \<and>
        map_of (dr_detail a) ''rate'' = Some (Detail_Number 100))"
proof -
  define logs where "logs = snd (flush_sink (\<lambda>_. False) 1000 (served sample_load (new_sink ''n'' default_policy), empty_log_db))"
  have full: "percentage (en_floats sample_engine) 20 20 = 100"
    by (simp add: percentage_def sample_engine_def exact_floats_def)
  have "\<exists>a. check_error_rate sample_engine (sample_cycle 1000 logs sample_admins) (the (map_of default_rules rule_error_rate)) =
      Inr (Some a) \<and> dr_detail a = [(''rate'', Detail_Number 100), (''failed'', Detail_Number 20), (''total'', Detail_Number 20)]"
    using error_rate_measures_sample [of sample_load "''n''" "sample_cycle 1000 logs sample_admins" "\<lambda>_. False" 1000 sample_engine]
    by (simp add: sample_load_kept sample_load_failed full logs_def sample_cycle_def sample_entry_ok max_buffer_def
      minute_def second_def) (simp add: sample_entry_def)
  then show ?thesis by (auto simp: logs_def sample_load_failed Let_def) (simp add: sample_load_def)
qed

lemma one_bad_byte_loses_batch:
  assumes "x \<in> set (sk_requests sk)" "CHR 0x00 \<in> set (take 2048 (rl_path x))"
  shows "let (sk', d') = flush_sink down now (sk, d) in sk_requests sk' = [] \<and> ld_requests d' = ld_requests d"
proof -
  have "rl_path (stored_entry x) = take 2048 (rl_path x)"
    by (auto simp: stored_entry_def truncate_text_def)
  then have "\<not> entry_ok (stored_entry x)" using assms(2) by (auto simp: entry_ok_def text_ok_def)
  then have "insert_request_logs now (sk_requests sk) d = Inl (ErrQuery ''invalid byte sequence'')"
    using assms(1) by (auto simp: insert_request_logs_def list_all_iff)
  then show ?thesis
    by (auto simp: flush_sink_def drain_def Let_def insert_server_events_def split: prod.splits if_splits sum.splits)
qed

end
