(* ===== verification/Spec2Isabelle.thy ===== *)
theory Spec2Isabelle
  imports Metadata_Properties Listing_Properties Storage_Properties Service_Properties
    Exchange_Properties Surface_Properties Protocol_Properties
    Console_Properties Telemetry_Properties Alert_Handlers Grant_Document
begin

text \<open>
  A verification library for \<^verbatim>\<open>s3d\<close>, a small server that speaks the S3 protocol. Metadata lives in
  Postgres, bytes live in a directory of files named by their SHA-256, and requests are authenticated
  with Signature Version 4.

  \<^bold>\<open>The program and its parts.\<close> A request reaches \<^verbatim>\<open>Server.Handler\<close> (\<^verbatim>\<open>src/internal/s3api\<close>), which
  applies the CORS rules of the bucket, verifies the signature, routes to an operation, asks the grant
  of the key for permission and runs the handler. A handler that writes first streams the body, with
  aws-chunked framing removed and digests checked, into the blob store (\<^verbatim>\<open>src/internal/storage\<close>), and then
  records the object in one transaction (\<^verbatim>\<open>src/internal/db\<close>), which keeps the history of a versioned
  bucket and counts the references to every blob. A maintenance pass (\<^verbatim>\<open>src/cmd/s3d/maintenance.go\<close>)
  expires objects and versions, aborts stale uploads and sweeps blobs that nothing references.

  Beside the S3 listener runs the console (\<^verbatim>\<open>src/internal/console\<close>): people sign in to it with a password, hold
  a session, manage accounts and issue the access keys whose secrets and grants the listener looks up. What
  the listener serves is sampled into a log of requests (\<^verbatim>\<open>src/internal/logs\<close>), counted into hourly cells and a
  live minute (\<^verbatim>\<open>src/internal/metrics\<close>), and an engine (\<^verbatim>\<open>src/internal/alerts\<close>) reads the log to raise, mail and
  resolve alerts.

  \<^bold>\<open>Theories and code.\<close>
  \<^item> \<^theory_text>\<open>Prelude\<close>, \<^theory_text>\<open>Go_Strings\<close>, \<^theory_text>\<open>Clock\<close>, \<^theory_text>\<open>Base64\<close>: keyed lists and sums, the string, number, time and
    base64 functions of the Go library the source calls.
  \<^item> \<^theory_text>\<open>Schema\<close>, \<^theory_text>\<open>Blob_Refs\<close>, \<^theory_text>\<open>Versioning\<close>, \<^theory_text>\<open>Objects\<close>, \<^theory_text>\<open>Version_Access\<close>, \<^theory_text>\<open>History\<close>, \<^theory_text>\<open>Multipart\<close>,
    \<^theory_text>\<open>Buckets\<close>, \<^theory_text>\<open>Listing\<close>, \<^theory_text>\<open>Version_Listing\<close>, \<^theory_text>\<open>Grants\<close>: the files of \<^verbatim>\<open>internal/db\<close>. The tables are the
    fields of one record, as association lists by primary key; a transaction is a function from the
    tables to an error or the tables after its commit, and one that fails changes nothing.
  \<^item> \<^theory_text>\<open>Blob_Store\<close>: \<^verbatim>\<open>internal/storage/blobstore.go\<close> over a disk that maps paths to contents; every system
    call may fail, and other writers may act between a stat and a rename.
  \<^item> \<^theory_text>\<open>Maintenance\<close>, \<^theory_text>\<open>System\<close>: the pass of \<^verbatim>\<open>maintenance.go\<close> and the interleaving of uploads,
    transactions and sweeps as a step relation.
  \<^item> \<^theory_text>\<open>Encoding\<close>, \<^theory_text>\<open>Names\<close>, \<^theory_text>\<open>Forwarded\<close>, \<^theory_text>\<open>Http\<close>, \<^theory_text>\<open>Sigv4\<close>, \<^theory_text>\<open>Verify\<close>, \<^theory_text>\<open>Presign\<close>, \<^theory_text>\<open>Signing\<close>, \<^theory_text>\<open>Chunked\<close>,
    \<^theory_text>\<open>Upload_Body\<close>, \<^theory_text>\<open>Conditional\<close>, \<^theory_text>\<open>Errors\<close>, \<^theory_text>\<open>Responses\<close>: the protocol layer of \<^verbatim>\<open>internal/s3api\<close> and
    \<^verbatim>\<open>internal/httpx/forwarded.go\<close>.
  \<^item> \<^theory_text>\<open>Sites\<close>, \<^theory_text>\<open>Cors\<close>, \<^theory_text>\<open>Object_Handlers\<close>, \<^theory_text>\<open>Copy_Delete\<close>, \<^theory_text>\<open>Multipart_Handlers\<close>, \<^theory_text>\<open>Listing_Handlers\<close>,
    \<^theory_text>\<open>Bucket_Handlers\<close>, \<^theory_text>\<open>Routing\<close>, \<^theory_text>\<open>Service\<close>: the handlers, one definition for each, on a site, which is a
    disk and the tables, and \<^theory_text>\<open>serve\<close>, the whole of \<^verbatim>\<open>Server.Handler\<close>.
  \<^item> \<^theory_text>\<open>Grant_Document\<close>, \<^theory_text>\<open>Accounts\<close>, \<^theory_text>\<open>Credentials\<close>: the JSON form of a grant (\<^verbatim>\<open>db/grants.go\<close>), the tables of
    users, sessions, sign-in attempts, invitations and audit entries with every statement on them
    (\<^verbatim>\<open>db/users.go\<close>, \<^verbatim>\<open>db/passwords.go\<close>, \<^verbatim>\<open>db/auth.go\<close>, \<^verbatim>\<open>db/audit.go\<close>), and the access keys
    (\<^verbatim>\<open>db/credentials.go\<close>, \<^verbatim>\<open>internal/secrets\<close>). The accounts are one record of tables; a statement is a function
    to an error or a result with the tables after it.
  \<^item> \<^theory_text>\<open>Console_Auth\<close>, \<^theory_text>\<open>Console_Accounts\<close>, \<^theory_text>\<open>Console_Credentials\<close>, \<^theory_text>\<open>Console_Routes\<close>: the handlers of
    \<^verbatim>\<open>internal/console\<close> that touch accounts, sessions and keys, each statement of which can fail, and
    \<^theory_text>\<open>console_serve\<close>, the whole of its \<^verbatim>\<open>Handler\<close>. \<^theory_text>\<open>Console_Steps\<close> and \<^theory_text>\<open>Console_Invariants\<close> give the step relation
    every request is a run of, and what its steps keep.
  \<^item> \<^theory_text>\<open>Request_Logs\<close>, \<^theory_text>\<open>Metrics_Rollup\<close>, \<^theory_text>\<open>Performance\<close>, \<^theory_text>\<open>Alerts\<close>, \<^theory_text>\<open>Alert_Engine\<close>, \<^theory_text>\<open>Alert_Handlers\<close>,
    \<^theory_text>\<open>Alert_Runs\<close>: the sampling sink and the tables of logs, the hourly counts and the flush of the collector,
    the live window and the weighted percentiles, the alerts with their rules, one cycle of the engine, and
    runs of cycles and screens.
  \<^item> \<^theory_text>\<open>Service_Refinement\<close>, \<^theory_text>\<open>Scope\<close>, \<^theory_text>\<open>Runs\<close>, \<^theory_text>\<open>Round_Trip\<close>, \<^theory_text>\<open>Assembly\<close>, \<^theory_text>\<open>Scoped_Listing\<close>,
    \<^theory_text>\<open>Version_Paging\<close>: what composes the parts. \<^theory_text>\<open>Samples\<close> and \<^theory_text>\<open>Service_Samples\<close> hold the concrete stores,
    keys and requests the theorems are applied to.

  \<^bold>\<open>What is shown.\<close> \<^theory_text>\<open>Metadata_Properties\<close>: counts and schema constraints under every interleaving of
  transactions, and what versioning preserves. \<^theory_text>\<open>Storage_Properties\<close>: what a write leaves on disk, the confinement of paths,
  no lost byte in any interleaving of uploads and sweeps, and the race that breaks it. \<^theory_text>\<open>Listing_Properties\<close>:
  pages of keys against a specification of the whole listing. \<^theory_text>\<open>Protocol_Properties\<close>: who a verified caller is,
  presigned URLs, chunked bodies. \<^theory_text>\<open>Service_Properties\<close>, \<^theory_text>\<open>Exchange_Properties\<close> and \<^theory_text>\<open>Surface_Properties\<close>: the
  listener as a whole refines the system, changes only what its caller may change, returns what was put,
  joins the parts of an upload, and lists what a key may see. \<^theory_text>\<open>Console_Properties\<close>: who may change accounts,
  passwords and keys over any run of the console, when a session and a key are dead for good, and how the
  throttle and the last administrator fall short. \<^theory_text>\<open>Telemetry_Properties\<close>: at most one live alert to a rule, mail
  only where it is due, the exact live minute, and what failed flushes and sampling do to the numbers. Some properties state a defect the model
  exposes; their texts say so.

  \<^bold>\<open>Interfaces.\<close> \<^theory_text>\<open>accounted\<close> (in \<^theory_text>\<open>Schema\<close>) is the contract of a transaction that moves references, \<^theory_text>\<open>blob_remover\<close>
  (in \<^theory_text>\<open>Blob_Refs\<close>) what the sweeper asks of the store, \<^theory_text>\<open>confined\<close> (in \<^theory_text>\<open>Scope\<close>) a transaction that stays within a
  grant, \<^theory_text>\<open>keeps_accounts\<close> (in \<^theory_text>\<open>Accounts\<close>) a statement that keeps the constraints of the account tables. Each is
  interpreted on the model's own operations, and the properties rest on the facts of these interpretations.

  \<^bold>\<open>Text.\<close> Postgres takes a parameter as text only if it is valid UTF-8 without a zero byte. The listings
  state this of every bound and cursor they send (\<^theory_text>\<open>fetch_key_batch\<close>, \<^theory_text>\<open>fetch_version_batch\<close>), the log inserts of every
  column; in the other statements, whose parameters come from validated names or are compared for equality only,
  it is left out, and so are failures of the connection while the S3 listener reads.

  \<^bold>\<open>Parameters.\<close> SHA-256 and MD5 are two functions (only the length of a digest is assumed, where it
  matters), HMAC is built from the first as in the standard. The XML decoder, the parser of the two
  obsolete date formats of \<^verbatim>\<open>http.ParseTime\<close> and, for the listener, the lookup of an access key are functions too; so
  are bcrypt, AES-GCM, the JSON decoder of the console, and the rounding of a float, which is applied to exact
  rationals after every operation and leaves out infinities and not-a-number. Random ids and
  the clock come from an environment, failures of system calls from a table of faults, the pieces in
  which a body arrives from a list of copy steps.

  \<^bold>\<open>Bounds.\<close> Integers of the protocol are kept within 64 bits where the code converts them
  (\<^theory_text>\<open>atoi\<close>, \<^theory_text>\<open>parse_int\<close>) and wrap where the code multiplies durations (\<^theory_text>\<open>wrap64\<close>). No fuel is used: each loop has
  a termination proof, and \<^theory_text>\<open>listing_ends\<close> shows for the loop of \<^verbatim>\<open>ListObjects\<close>, stated without one, that it
  returns.

  \<^bold>\<open>Not modelled.\<close> Of the console the screens that browse storage, versions, settings, logs and the system, which
  leave the accounts alone but for an audit entry; the front end (\<^verbatim>\<open>web\<close>), the mailer, Prometheus text, search,
  configuration, schema migrations, the tickers that drive the passes and the command line. Of \<^verbatim>\<open>middleware.go\<close> the
  recovery from panics and the access log are left out; what the log records enters \<^theory_text>\<open>Request_Logs\<close> as a list of
  entries. \<^verbatim>\<open>http.ServeContent\<close> is not under \<^verbatim>\<open>src\<close>: a GET hands it the time and the bytes as a value of the
  response. Requests are served one at a time in \<^theory_text>\<open>serve\<close> and \<^theory_text>\<open>console_serve\<close>; interleavings are those of
  \<^theory_text>\<open>System\<close>, which \<^theory_text>\<open>service_refines_system\<close> ties to the listener, and of the two statements of
  \<^theory_text>\<open>last_admin_race\<close>, which start from one snapshot.
\<close>

end
